(* ===== verification/Prelude.thy ===== *)
theory Prelude
  imports Main "HOL-Library.Multiset" "HOL-Library.Sublist"
begin

text \<open>
  What every component of the model shares: the result type of code that can fail an
  \<open>assert\<close> or run into undefined behaviour, its sequencing, the collections of facts the
  component proofs use, and a few lemmas on lists.

  The makefile does not define \<open>NDEBUG\<close>, so every \<open>assert\<close> of the sources is live: an
  assertion that does not hold ends the process. A computation therefore ends as
  \<open>Done x\<close> or as \<open>Abort why\<close>.
\<close>

section \<open>Outcomes\<close>

datatype 'a outcome = Done 'a | Abort string

fun bind_o :: "'a outcome \<Rightarrow> ('a \<Rightarrow> 'b outcome) \<Rightarrow> 'b outcome" where
  "bind_o (Done x) f = f x"
| "bind_o (Abort why) f = Abort why"

definition assert_o :: "bool \<Rightarrow> string \<Rightarrow> 'a outcome \<Rightarrow> 'a outcome" where
  "assert_o b why k = (if b then k else Abort why)"

named_theorems outcome_simps

lemma assert_o_True [simp]: "assert_o True why k = k"
  by (simp add: assert_o_def)

lemma assert_o_False [simp]: "assert_o False why k = Abort why"
  by (simp add: assert_o_def)

lemma assert_o_Done [outcome_simps]: "assert_o b why k = Done x \<longleftrightarrow> b \<and> k = Done x"
  by (simp add: assert_o_def)

lemma bind_o_Done [outcome_simps]: "bind_o m f = Done y \<longleftrightarrow> (\<exists>x. m = Done x \<and> f x = Done y)"
  by (cases m) auto

lemma bind_o_assoc: "bind_o (bind_o m f) g = bind_o m (\<lambda>x. bind_o (f x) g)"
  by (cases m) auto

lemma bind_o_assert [simp]: "bind_o (assert_o b why k) f = assert_o b why (bind_o k f)"
  by (simp add: assert_o_def)

lemma assert_o_cong [cong]:
  "b = b' \<Longrightarrow> (b' \<Longrightarrow> k = k') \<Longrightarrow> assert_o b why k = assert_o b' why k'"
  by (simp add: assert_o_def)

text \<open>The result of a computation satisfies a predicate, and the computation does not abort.\<close>

fun holds :: "('a \<Rightarrow> bool) \<Rightarrow> 'a outcome \<Rightarrow> bool" where
  "holds P (Done x) = P x"
| "holds P (Abort why) = False"

lemma holds_iff: "holds P m \<longleftrightarrow> (\<exists>x. m = Done x \<and> P x)"
  by (cases m) auto

lemma holds_bind [simp]: "holds P (bind_o m f) \<longleftrightarrow> holds (\<lambda>x. holds P (f x)) m"
  by (cases m) auto

lemma holds_assert [simp]: "holds P (assert_o b why k) \<longleftrightarrow> b \<and> holds P k"
  by (simp add: assert_o_def)

lemma holds_mono: "holds P m \<Longrightarrow> (\<And>x. P x \<Longrightarrow> Q x) \<Longrightarrow> holds Q m"
  by (cases m) auto

lemma holds_if: "holds P (if b then m else n) \<longleftrightarrow> (if b then holds P m else holds P n)"
  by simp

text \<open>The assertion that ends the process, if one does.\<close>

fun abort_reason :: "'a outcome \<Rightarrow> string option" where
  "abort_reason (Done x) = None"
| "abort_reason (Abort why) = Some why"

section \<open>Optional handles as lists, removal of one occurrence\<close>

fun opt_list :: "'a option \<Rightarrow> 'a list" where
  "opt_list None = []"
| "opt_list (Some x) = [x]"

lemma opt_list_Nil [simp]: "opt_list x = [] \<longleftrightarrow> x = None"
  by (cases x) auto

lemma in_opt_list [simp]: "y \<in> set (opt_list x) \<longleftrightarrow> x = Some y"
  by (cases x) auto

lemma length_opt_list [simp]: "length (opt_list x) = (if x = None then 0 else 1)"
  by (cases x) auto

lemma distinct_remove1_not_in: "distinct xs \<Longrightarrow> x \<notin> set (remove1 x xs)"
  by simp

lemma hd_Cons_tl_append: "xs \<noteq> [] \<Longrightarrow> hd xs # tl xs @ ys = xs @ ys"
  by (cases xs) auto


section \<open>Loops that may abort\<close>

fun fold_o :: "('x \<Rightarrow> 's \<Rightarrow> 's outcome) \<Rightarrow> 'x list \<Rightarrow> 's \<Rightarrow> 's outcome" where
  "fold_o f [] s = Done s"
| "fold_o f (x # xs) s = bind_o (f x s) (fold_o f xs)"

text \<open>The invariant of a loop speaks of the part of the list already handled.\<close>

lemma fold_o_holds:
  assumes "P [] s"
    and "\<And>pre x rest s. xs = pre @ x # rest \<Longrightarrow> P pre s \<Longrightarrow> holds (P (pre @ [x])) (f x s)"
  shows "holds (P xs) (fold_o f xs s)"
proof -
  have "P pre s \<Longrightarrow> xs = pre @ rest \<Longrightarrow> holds (P xs) (fold_o f rest s)" for rest "pre" s
  proof (induction rest arbitrary: "pre" s)
    case Nil
    then show ?case by simp
  next
    case (Cons x rest)
    have "holds (\<lambda>s. holds (P xs) (fold_o f rest s)) (f x s)"
      by (rule holds_mono [OF assms(2) [OF Cons.prems(2,1)]], rule Cons.IH) (simp_all add: Cons.prems(2))
    then show ?case by simp
  qed
  from this [OF assms(1), of xs] show ?thesis by simp
qed


lemma upt_split:
  assumes "[0..<n] = pre @ i # rest"
  shows "pre = [0..<i] \<and> i < n"
proof -
  have less: "length pre < n" using arg_cong [OF assms, of length] by simp
  have "[0..<n] ! length pre = i" by (simp add: assms)
  with less have i: "i = length pre" by simp
  have "take (length pre) [0..<n] = pre" by (simp add: assms)
  with less i show ?thesis by (simp add: take_upt)
qed

text \<open>Numbers in decimal, as \<^verbatim>\<open>std::ostream\<close> and \<^verbatim>\<open>std::to_string\<close> write them.\<close>

fun decimal :: "nat \<Rightarrow> string" where
  "decimal n = (if n < 10 then [char_of (48 + n)] else decimal (n div 10) @ [char_of (48 + n mod 10)])"

declare decimal.simps [simp del]

definition ostream_int :: "int \<Rightarrow> string" where
  "ostream_int i = (if i < 0 then ''-'' @ decimal (nat (- i)) else decimal (nat i))"

end
