(* ===== verification/Machine.thy ===== *)
theory Machine
  imports Prelude
begin

text \<open>
  The interfaces the components are verified against. A component guarded by a mutex is a
  machine: a start predicate, the events that may happen in a state (calls of the client,
  completions that gRPC delivers) and a step function that yields the event's output and
  the next state, or aborts. \<open>reach\<close> collects the labelled runs; the locales state what a
  component promises about its runs and derive the consequences once.
\<close>

section \<open>Runs\<close>

inductive reach ::
  "('s \<Rightarrow> bool) \<Rightarrow> ('e \<Rightarrow> 's \<Rightarrow> bool) \<Rightarrow> ('e \<Rightarrow> 's \<Rightarrow> ('o \<times> 's) outcome) \<Rightarrow> ('e \<times> 'o) list \<Rightarrow> 's \<Rightarrow> bool"
  for start en step where
  reach_start: "start s \<Longrightarrow> reach start en step [] s"
| reach_step: "reach start en step tr s \<Longrightarrow> en e s \<Longrightarrow> step e s = Done (out, s') \<Longrightarrow>
     reach start en step (tr @ [(e, out)]) s'"

inductive_cases reach_NilE: "reach start en step [] s"

text \<open>An executable run over a list of events: \<open>None\<close> when an event is not enabled or aborts.\<close>

fun exec ::
  "('e \<Rightarrow> 's \<Rightarrow> bool) \<Rightarrow> ('e \<Rightarrow> 's \<Rightarrow> ('o \<times> 's) outcome) \<Rightarrow> 'e list \<Rightarrow> 's \<Rightarrow> (('e \<times> 'o) list \<times> 's) option"
where
  "exec en step [] s = Some ([], s)"
| "exec en step (e # es) s =
     (if en e s
      then (case step e s of
              Done (out, s') \<Rightarrow>
                (case exec en step es s' of
                   Some (tr, s'') \<Rightarrow> Some ((e, out) # tr, s'')
                 | None \<Rightarrow> None)
            | Abort why \<Rightarrow> None)
      else None)"

lemma exec_reach_from:
  "reach start en step tr s \<Longrightarrow> exec en step es s = Some (tr', s') \<Longrightarrow>
     reach start en step (tr @ tr') s'"
proof (induction es arbitrary: tr s tr')
  case Nil
  then show ?case by simp
next
  case (Cons e es)
  from Cons.prems(2) obtain out s1 tr1 where
    step: "en e s" "step e s = Done (out, s1)" and
    rest: "exec en step es s1 = Some (tr1, s')" "tr' = (e, out) # tr1"
    by (auto split: if_splits outcome.splits option.splits prod.splits)
  from Cons.prems(1) step have "reach start en step (tr @ [(e, out)]) s1"
    by (rule reach_step)
  from Cons.IH [OF this rest(1)] rest(2) show ?case by simp
qed

lemma exec_reach:
  "start s \<Longrightarrow> exec en step es s = Some (tr, s') \<Longrightarrow> reach start en step tr s'"
  using exec_reach_from [OF reach_start] by fastforce

text \<open>What an example run has computed.\<close>

lemma run_caseE:
  "case r of None \<Rightarrow> False | Some (tr, s) \<Rightarrow> P tr s \<Longrightarrow>
     (\<And>tr s. r = Some (tr, s) \<Longrightarrow> P tr s \<Longrightarrow> thesis) \<Longrightarrow> thesis"
  by (cases r) auto

section \<open>Machines that keep an invariant and never abort\<close>

locale safe_machine =
  fixes start :: "'s \<Rightarrow> bool"
    and en :: "'e \<Rightarrow> 's \<Rightarrow> bool"
    and step :: "'e \<Rightarrow> 's \<Rightarrow> ('o \<times> 's) outcome"
    and inv :: "'s \<Rightarrow> bool"
  assumes inv_start: "start s \<Longrightarrow> inv s"
    and step_safe: "inv s \<Longrightarrow> en e s \<Longrightarrow> holds (\<lambda>(out, s'). inv s') (step e s)"
begin

lemma inv_step: "inv s \<Longrightarrow> en e s \<Longrightarrow> step e s = Done (out, s') \<Longrightarrow> inv s'"
  using step_safe [of s e] by simp

lemma reach_inv: "reach start en step tr s \<Longrightarrow> inv s"
  by (induction rule: reach.induct) (auto intro: inv_start inv_step)

lemma reach_no_abort:
  assumes "reach start en step tr s" and "en e s"
  shows "\<exists>out s'. step e s = Done (out, s') \<and> inv s'"
  using step_safe [OF reach_inv [OF assms(1)] assms(2)] by (auto simp: holds_iff)

lemma reach_induct_inv:
  assumes "reach start en step tr s"
    and "\<And>s. start s \<Longrightarrow> P [] s"
    and "\<And>tr s e out s'. inv s \<Longrightarrow> inv s' \<Longrightarrow> P tr s \<Longrightarrow> en e s \<Longrightarrow> step e s = Done (out, s') \<Longrightarrow>
           P (tr @ [(e, out)]) s'"
  shows "P tr s"
proof -
  have "inv s \<and> P tr s"
    using assms(1)
  proof (induction rule: reach.induct)
    case (reach_start s)
    then show ?case by (auto intro: inv_start assms(2))
  next
    case (reach_step tr s e out s')
    then show ?case by (blast intro: inv_step assms(3))
  qed
  then show ?thesis by simp
qed

end

section \<open>Message senders: first in, first out\<close>

text \<open>
  A sender accepts messages from its client and hands them to gRPC one at a time.
  \<open>handed\<close> are the messages gRPC has taken, \<open>waiting\<close> those accepted and not yet handed
  over; a sender that is not \<open>live\<close> any more hands over nothing and accepts nothing.
\<close>

locale fifo_sender = safe_machine start en step inv
  for start :: "'s \<Rightarrow> bool"
    and en :: "'e \<Rightarrow> 's \<Rightarrow> bool"
    and step :: "'e \<Rightarrow> 's \<Rightarrow> ('o \<times> 's) outcome"
    and inv :: "'s \<Rightarrow> bool" +
  fixes accepts :: "'e \<Rightarrow> 'o \<Rightarrow> 'm list"
    and handed :: "'s \<Rightarrow> 'm list"
    and waiting :: "'s \<Rightarrow> 'm list"
    and live :: "'s \<Rightarrow> bool"
  assumes flow_start: "start s \<Longrightarrow> handed s = [] \<and> waiting s = []"
    and flow_live: "inv s \<Longrightarrow> en e s \<Longrightarrow> step e s = Done (out, s') \<Longrightarrow> live s \<Longrightarrow> live s' \<Longrightarrow>
        handed s' @ waiting s' = handed s @ waiting s @ accepts e out"
    and flow_die: "inv s \<Longrightarrow> en e s \<Longrightarrow> step e s = Done (out, s') \<Longrightarrow> live s \<Longrightarrow> \<not> live s' \<Longrightarrow>
        prefix (handed s') (handed s @ waiting s @ accepts e out)"
    and flow_dead: "inv s \<Longrightarrow> en e s \<Longrightarrow> step e s = Done (out, s') \<Longrightarrow> \<not> live s \<Longrightarrow>
        \<not> live s' \<and> handed s' = handed s \<and> accepts e out = []"
begin

definition accepted :: "('e \<times> 'o) list \<Rightarrow> 'm list" where
  "accepted tr = concat (map (\<lambda>(e, out). accepts e out) tr)"

lemma accepted_simps [simp]:
  "accepted [] = []"
  "accepted (tr @ [(e, out)]) = accepted tr @ accepts e out"
  by (simp_all add: accepted_def)

lemma flow:
  assumes "reach start en step tr s"
  shows "(live s \<longrightarrow> accepted tr = handed s @ waiting s) \<and> prefix (handed s) (accepted tr)"
  using assms
proof (rule reach_induct_inv)
  fix s assume "start s"
  then show "(live s \<longrightarrow> accepted [] = handed s @ waiting s) \<and> prefix (handed s) (accepted [])"
    using flow_start by simp
next
  fix tr s e out s'
  assume s: "inv s" "en e s" "step e s = Done (out, s')"
    and IH: "(live s \<longrightarrow> accepted tr = handed s @ waiting s) \<and> prefix (handed s) (accepted tr)"
  show "(live s' \<longrightarrow> accepted (tr @ [(e, out)]) = handed s' @ waiting s') \<and>
        prefix (handed s') (accepted (tr @ [(e, out)]))"
  proof (cases "live s")
    case True
    with IH have "accepted (tr @ [(e, out)]) = handed s @ waiting s @ accepts e out" by simp
    with True show ?thesis using flow_live [OF s True] flow_die [OF s True]
      by (cases "live s'") (auto simp: prefix_def intro: exI [of _ "waiting s'"])
  next
    case False
    with IH flow_dead [OF s False] show ?thesis by simp
  qed
qed

lemma handed_prefix: "reach start en step tr s \<Longrightarrow> prefix (handed s) (accepted tr)"
  using flow by blast

lemma accepted_split:
  "reach start en step tr s \<Longrightarrow> live s \<Longrightarrow> accepted tr = handed s @ waiting s"
  using flow by blast

end

section \<open>Machines that run dry\<close>

text \<open>
  gRPC completes every batch it has accepted. A component drains when each completion
  brings it closer to having nothing under way: \<open>work\<close> bounds the completions still to come
  if the client makes no further call.
\<close>

locale draining = safe_machine start en step inv
  for start :: "'s \<Rightarrow> bool"
    and en :: "'e \<Rightarrow> 's \<Rightarrow> bool"
    and step :: "'e \<Rightarrow> 's \<Rightarrow> ('o \<times> 's) outcome"
    and inv :: "'s \<Rightarrow> bool" +
  fixes completes :: "'e \<Rightarrow> bool"
    and work :: "'s \<Rightarrow> nat"
  assumes work_decreases: "inv s \<Longrightarrow> en e s \<Longrightarrow> completes e \<Longrightarrow> step e s = Done (out, s') \<Longrightarrow>
      work s' < work s"
begin

lemma completions_bounded:
  "inv s \<Longrightarrow> exec en step es s = Some (tr, s') \<Longrightarrow> list_all completes es \<Longrightarrow>
     length es + work s' \<le> work s"
proof (induction es arbitrary: s tr)
  case Nil
  then show ?case by simp
next
  case (Cons e es)
  from Cons.prems(2) obtain out s1 tr1 where
    step: "en e s" "step e s = Done (out, s1)" and rest: "exec en step es s1 = Some (tr1, s')"
    by (auto split: if_splits outcome.splits option.splits prod.splits)
  from Cons.prems(3) have "completes e" by simp
  with step Cons.prems(1) have less: "work s1 < work s" by (intro work_decreases)
  from Cons.prems(3) have "list_all completes es" by simp
  with inv_step [OF Cons.prems(1) step] rest have "length es + work s' \<le> work s1"
    by (intro Cons.IH)
  with less show ?case by simp
qed

end

end
