(* ===== verification/Grpc_Status.thy ===== *)
theory Grpc_Status
  imports Prelude
begin

text \<open>
  \<^verbatim>\<open>core/common/status.h, status.cpp\<close>: the status of a call, a gRPC status code with
  details. \<^verbatim>\<open>grpc_status_code\<close> is a C enum that the Lua binding fills by a cast from any
  \<^verbatim>\<open>int\<close>, so the model keeps the integer; the named codes have the documented values.
\<close>

type_synonym grpc_status_code = int

definition GRPC_STATUS_OK :: grpc_status_code where "GRPC_STATUS_OK = 0"
definition GRPC_STATUS_CANCELLED :: grpc_status_code where "GRPC_STATUS_CANCELLED = 1"
definition GRPC_STATUS_UNIMPLEMENTED :: grpc_status_code where "GRPC_STATUS_UNIMPLEMENTED = 12"
definition GRPC_STATUS_INTERNAL :: grpc_status_code where "GRPC_STATUS_INTERNAL = 13"

named_theorems status_codes

lemmas status_code_defs [status_codes] =
  GRPC_STATUS_OK_def GRPC_STATUS_CANCELLED_def GRPC_STATUS_UNIMPLEMENTED_def
  GRPC_STATUS_INTERNAL_def

lemma internal_not_ok [simp]:
  "GRPC_STATUS_INTERNAL \<noteq> GRPC_STATUS_OK" "GRPC_STATUS_OK \<noteq> GRPC_STATUS_INTERNAL"
  by (simp_all add: status_codes)

record Status =
  core_code :: grpc_status_code
  core_details :: string

definition Status_default :: Status where
  "Status_default = \<lparr>core_code = GRPC_STATUS_OK, core_details = ''''\<rparr>"

definition Status_make :: "grpc_status_code \<Rightarrow> string \<Rightarrow> Status" where
  "Status_make code details = \<lparr>core_code = code, core_details = details\<rparr>"

definition Status_OK :: Status where
  "Status_OK = Status_default"

definition Status_CANCELLED :: Status where
  "Status_CANCELLED = Status_make GRPC_STATUS_CANCELLED ''Cancelled''"

definition Status_UNIMPLEMENTED :: Status where
  "Status_UNIMPLEMENTED = Status_make GRPC_STATUS_UNIMPLEMENTED ''Unimplemented''"

definition Status_InternalError :: "string \<Rightarrow> Status" where
  "Status_InternalError details = Status_make GRPC_STATUS_INTERNAL details"

definition GetCode :: "Status \<Rightarrow> grpc_status_code" where
  "GetCode st = core_code st"

definition GetDetails :: "Status \<Rightarrow> string" where
  "GetDetails st = core_details st"

definition status_ok :: "Status \<Rightarrow> bool" where
  "status_ok st \<longleftrightarrow> core_code st = GRPC_STATUS_OK"

definition SetInternalError :: "string \<Rightarrow> Status \<Rightarrow> Status" where
  "SetInternalError error_msg st =
     st\<lparr>core_code := GRPC_STATUS_INTERNAL, core_details := error_msg\<rparr>"

lemma SetInternalError_eq: "SetInternalError msg st = Status_InternalError msg"
  by (simp add: SetInternalError_def Status_InternalError_def Status_make_def)

lemma status_ok_simps [simp]:
  "status_ok Status_default" "status_ok Status_OK"
  "\<not> status_ok (Status_InternalError msg)"
  "\<not> status_ok (SetInternalError msg st)"
  "status_ok (Status_make code details) \<longleftrightarrow> code = GRPC_STATUS_OK"
  by (simp_all add: status_ok_def Status_default_def Status_OK_def Status_InternalError_def
      SetInternalError_def Status_make_def)

lemma status_special_not_ok [simp]:
  "\<not> status_ok Status_CANCELLED" "\<not> status_ok Status_UNIMPLEMENTED"
  by (simp_all add: Status_CANCELLED_def Status_UNIMPLEMENTED_def status_codes)

lemma status_getters [simp]:
  "GetCode (Status_make code details) = code" "GetDetails (Status_make code details) = details"
  by (simp_all add: GetCode_def GetDetails_def Status_make_def)

end
