(* ===== verification/Call_Ops.thy ===== *)
theory Call_Ops
  imports Grpc_Status
begin

text \<open>
  \<^verbatim>\<open>core/common/impl\<close>: the byte buffers and slices a message travels in, the call operation
  data (the \<^verbatim>\<open>Cod\<close> classes of \<^verbatim>\<open>call_op_data.h\<close>), the builder of a batch
  (\<^verbatim>\<open>CallOperations\<close>) and the call object with \<^verbatim>\<open>StartBatch\<close>.

  The gRPC core library is not part of the sources. Its functions are the fields of a
  parameter \<open>G\<close> of type \<open>'buf grpc_lib\<close>, where \<open>'buf\<close> stands for the opaque
  \<^verbatim>\<open>grpc_byte_buffer\<close>. Whether a batch is accepted, and what a plucked batch delivers, may
  depend on all batches started on the call before. A slice is a counted byte string.
\<close>

section \<open>The gRPC core library as a parameter\<close>

type_synonym grpc_slice = string
type_synonym grpc_metadata = "string \<times> string"
type_synonym MetadataVector = "grpc_metadata list"

datatype grpc_op_type =
    GRPC_OP_SEND_INITIAL_METADATA
  | GRPC_OP_SEND_MESSAGE
  | GRPC_OP_SEND_CLOSE_FROM_CLIENT
  | GRPC_OP_SEND_STATUS_FROM_SERVER
  | GRPC_OP_RECV_INITIAL_METADATA
  | GRPC_OP_RECV_MESSAGE
  | GRPC_OP_RECV_STATUS_ON_CLIENT

datatype 'buf grpc_op =
    SendInitialMetadata (md: MetadataVector)
  | SendMessage (send_message: 'buf)
  | SendCloseFromClient
  | SendStatusFromServer (trail_md: MetadataVector) (status_code: grpc_status_code)
      (status_details_slice: grpc_slice)
  | RecvInitialMetadata
  | RecvMessage
  | RecvStatusOnClient

fun op_type :: "'buf grpc_op \<Rightarrow> grpc_op_type" where
  "op_type (SendInitialMetadata _) = GRPC_OP_SEND_INITIAL_METADATA"
| "op_type (SendMessage _) = GRPC_OP_SEND_MESSAGE"
| "op_type SendCloseFromClient = GRPC_OP_SEND_CLOSE_FROM_CLIENT"
| "op_type (SendStatusFromServer _ _ _) = GRPC_OP_SEND_STATUS_FROM_SERVER"
| "op_type RecvInitialMetadata = GRPC_OP_RECV_INITIAL_METADATA"
| "op_type RecvMessage = GRPC_OP_RECV_MESSAGE"
| "op_type RecvStatusOnClient = GRPC_OP_RECV_STATUS_ON_CLIENT"

datatype grpc_call_error = GRPC_CALL_OK | GRPC_CALL_ERROR nat

text \<open>
  What gRPC delivers with the completion of a batch: the event's success flag, and what it
  wrote through the pointers of the receiving operations.
\<close>

record 'buf completion =
  cp_success :: bool
  cp_recv_buf :: "'buf option"
  cp_status :: grpc_status_code
  cp_details :: grpc_slice

type_synonym 'buf batch_log = "('buf grpc_op list \<times> bool) list"

record 'buf grpc_lib =
  grpc_call_start_batch :: "'buf batch_log \<Rightarrow> 'buf grpc_op list \<Rightarrow> grpc_call_error"
  grpc_completion_queue_pluck :: "'buf batch_log \<Rightarrow> 'buf completion"
  grpc_raw_byte_buffer_create :: "grpc_slice \<Rightarrow> 'buf"
  grpc_byte_buffer_reader_readall :: "'buf \<Rightarrow> grpc_slice option"
    \<comment> \<open>\<open>None\<close>: \<^verbatim>\<open>grpc_byte_buffer_reader_init\<close> fails\<close>

text \<open>The documented behaviour of byte buffers: reading a raw buffer yields the bytes it was made of.\<close>

definition buffers_faithful :: "'buf grpc_lib \<Rightarrow> bool" where
  "buffers_faithful G \<longleftrightarrow>
     (\<forall>s. grpc_byte_buffer_reader_readall G (grpc_raw_byte_buffer_create G s) = Some s)"

section \<open>Slices, byte buffers\<close>

definition SliceFromCopiedString :: "string \<Rightarrow> grpc_slice" where
  "SliceFromCopiedString str = str"

definition StringFromCopiedSlice :: "grpc_slice \<Rightarrow> string" where
  "StringFromCopiedSlice slice = slice"

text \<open>\<^verbatim>\<open>ByteBufferToString\<close>: the success flag and the new value of \<^verbatim>\<open>to\<close>.\<close>

definition ByteBufferToString :: "'buf grpc_lib \<Rightarrow> 'buf \<Rightarrow> string \<Rightarrow> bool \<times> string" where
  "ByteBufferToString G from to =
     (case grpc_byte_buffer_reader_readall G from of
        None \<Rightarrow> (False, to)
      | Some slice \<Rightarrow> (True, StringFromCopiedSlice slice))"

section \<open>Call operation data\<close>

record CodSendInitMd =
  init_md_vec :: MetadataVector

definition CodSendInitMd_new :: CodSendInitMd where
  "CodSendInitMd_new = \<lparr>init_md_vec = []\<rparr>"

record 'buf CodSendMsg =
  send_buf :: "'buf option"

definition CodSendMsg_new :: "'buf CodSendMsg" where
  "CodSendMsg_new = \<lparr>send_buf = None\<rparr>"

definition CopyMsgStr :: "'buf grpc_lib \<Rightarrow> string \<Rightarrow> 'buf CodSendMsg \<Rightarrow> 'buf CodSendMsg outcome" where
  "CopyMsgStr G sMsg cod =
     assert_o (send_buf cod = None) ''!send_buf_''
       (let slice = SliceFromCopiedString sMsg
        in Done (cod\<lparr>send_buf := Some (grpc_raw_byte_buffer_create G slice)\<rparr>))"

record 'buf CodRecvMsg =
  recv_buf :: "'buf option"

definition CodRecvMsg_new :: "'buf CodRecvMsg" where
  "CodRecvMsg_new = \<lparr>recv_buf = None\<rparr>"

definition HasGotMsg :: "'buf CodRecvMsg \<Rightarrow> bool" where
  "HasGotMsg cod \<longleftrightarrow> recv_buf cod \<noteq> None"

text \<open>\<^verbatim>\<open>GetResultMsg\<close>: the status and the new value of the result string.\<close>

definition GetResultMsg :: "'buf grpc_lib \<Rightarrow> 'buf CodRecvMsg \<Rightarrow> string \<Rightarrow> (Status \<times> string) outcome" where
  "GetResultMsg G cod result =
     (case recv_buf cod of
        None \<Rightarrow> Abort ''recv_buf_''
      | Some buf \<Rightarrow>
          (let (got, result') = ByteBufferToString G buf result
           in Done (if got then Status_OK
                    else Status_InternalError ''Failed to read recv byte buffer.'', result')))"

record CodClientRecvStatus =
  status_core :: grpc_status_code
  status_details :: grpc_slice

definition CodClientRecvStatus_new :: CodClientRecvStatus where
  "CodClientRecvStatus_new = \<lparr>status_core = GRPC_STATUS_OK, status_details = ''''\<rparr>"

definition IsStatusOk :: "CodClientRecvStatus \<Rightarrow> bool" where
  "IsStatusOk cod \<longleftrightarrow> status_core cod = GRPC_STATUS_OK"

definition CodClientRecvStatus_GetStatus :: "CodClientRecvStatus \<Rightarrow> Status" where
  "CodClientRecvStatus_GetStatus cod =
     Status_make (status_core cod) (StringFromCopiedSlice (status_details cod))"

record CodServerSendStatus =
  send_status_core :: grpc_status_code
  send_status_details :: string
  trail_md_vec :: MetadataVector

definition CodServerSendStatus_new :: CodServerSendStatus where
  "CodServerSendStatus_new =
     \<lparr>send_status_core = GRPC_STATUS_OK, send_status_details = '''', trail_md_vec = []\<rparr>"

definition SetStatus :: "Status \<Rightarrow> CodServerSendStatus \<Rightarrow> CodServerSendStatus outcome" where
  "SetStatus status cod =
     assert_o (send_status_core cod = GRPC_STATUS_OK) ''GRPC_STATUS_OK == send_status_core_''
      (assert_o (send_status_details cod = '''') ''send_status_details_.empty()''
        (Done (cod\<lparr>send_status_core := GetCode status, send_status_details := GetDetails status\<rparr>)))"

text \<open>
  \<^verbatim>\<open>GetStatusDetailsBuf\<close> returns a C string, which \<^verbatim>\<open>ServerSendStatus\<close> turns back into
  a \<^verbatim>\<open>std::string\<close>: what is left is the part before the first NUL.
\<close>

definition c_str :: "string \<Rightarrow> string" where
  "c_str s = takeWhile (\<lambda>c. c \<noteq> CHR 0x00) s"

definition GetStatusDetailsBuf :: "CodServerSendStatus \<Rightarrow> string" where
  "GetStatusDetailsBuf cod = c_str (send_status_details cod)"

text \<open>What gRPC writes into the receiving \<^verbatim>\<open>Cod\<close>s before it delivers the completion.\<close>

definition fill_recv_msg :: "'buf completion \<Rightarrow> 'buf CodRecvMsg \<Rightarrow> 'buf CodRecvMsg" where
  "fill_recv_msg cp cod = cod\<lparr>recv_buf := cp_recv_buf cp\<rparr>"

definition fill_recv_status :: "'buf completion \<Rightarrow> CodClientRecvStatus \<Rightarrow> CodClientRecvStatus" where
  "fill_recv_status cp cod = cod\<lparr>status_core := cp_status cp, status_details := cp_details cp\<rparr>"

section \<open>Building a batch\<close>

definition MAX_OPS :: nat where "MAX_OPS = 8"

text \<open>\<open>filled_ops\<close> is the part of the array \<^verbatim>\<open>ops_\<close> filled so far, its length is \<^verbatim>\<open>nops_\<close>.\<close>

record 'buf CallOperations =
  filled_ops :: "'buf grpc_op list"
  ops_status_details :: grpc_slice

definition CallOperations_new :: "'buf CallOperations" where
  "CallOperations_new = \<lparr>filled_ops = [], ops_status_details = ''''\<rparr>"

definition GetOpsNum :: "'buf CallOperations \<Rightarrow> nat outcome" where
  "GetOpsNum ops =
     assert_o (length (filled_ops ops) \<le> MAX_OPS) ''nops_ <= MAX_OPS''
       (Done (length (filled_ops ops)))"

definition push_op :: "'buf grpc_op \<Rightarrow> 'buf CallOperations \<Rightarrow> 'buf CallOperations outcome" where
  "push_op op ops =
     assert_o (length (filled_ops ops) < MAX_OPS) ''nops_ < MAX_OPS''
       (Done (ops\<lparr>filled_ops := filled_ops ops @ [op]\<rparr>))"

definition Ops_SendInitMd ::
  "CodSendInitMd \<Rightarrow> 'buf CallOperations \<Rightarrow> 'buf CallOperations outcome" where
  "Ops_SendInitMd cod ops = push_op (SendInitialMetadata (init_md_vec cod)) ops"

definition Ops_SendMsgBuf ::
  "'buf CodSendMsg \<Rightarrow> 'buf CallOperations \<Rightarrow> 'buf CallOperations outcome" where
  "Ops_SendMsgBuf cod ops =
     (case send_buf cod of
        None \<Rightarrow> Abort ''cod_send_msg.GetSendBuf()''
      | Some buf \<Rightarrow> push_op (SendMessage buf) ops)"

definition Ops_SendMsg ::
  "'buf grpc_lib \<Rightarrow> string \<Rightarrow> 'buf CodSendMsg \<Rightarrow> 'buf CallOperations \<Rightarrow>
     ('buf CodSendMsg \<times> 'buf CallOperations) outcome" where
  "Ops_SendMsg G message cod ops =
     bind_o (CopyMsgStr G message cod) (\<lambda>cod'.
     bind_o (Ops_SendMsgBuf cod' ops) (\<lambda>ops'. Done (cod', ops')))"

definition Ops_RecvInitMd :: "'buf CallOperations \<Rightarrow> 'buf CallOperations outcome" where
  "Ops_RecvInitMd ops = push_op RecvInitialMetadata ops"

definition Ops_RecvMsg :: "'buf CallOperations \<Rightarrow> 'buf CallOperations outcome" where
  "Ops_RecvMsg ops = push_op RecvMessage ops"

definition Ops_ClientSendClose :: "'buf CallOperations \<Rightarrow> 'buf CallOperations outcome" where
  "Ops_ClientSendClose ops = push_op SendCloseFromClient ops"

definition Ops_ClientRecvStatus :: "'buf CallOperations \<Rightarrow> 'buf CallOperations outcome" where
  "Ops_ClientRecvStatus ops = push_op RecvStatusOnClient ops"

definition Ops_ServerSendStatusRaw ::
  "MetadataVector \<Rightarrow> grpc_status_code \<Rightarrow> string \<Rightarrow> 'buf CallOperations \<Rightarrow>
     'buf CallOperations outcome" where
  "Ops_ServerSendStatusRaw trail code details ops =
     (let slice = SliceFromCopiedString details
      in bind_o (push_op (SendStatusFromServer trail code slice) ops)
           (\<lambda>ops'. Done (ops'\<lparr>ops_status_details := slice\<rparr>)))"

definition Ops_ServerSendStatus ::
  "Status \<Rightarrow> CodServerSendStatus \<Rightarrow> 'buf CallOperations \<Rightarrow>
     (CodServerSendStatus \<times> 'buf CallOperations) outcome" where
  "Ops_ServerSendStatus status cod ops =
     bind_o (SetStatus status cod) (\<lambda>cod'.
     bind_o (Ops_ServerSendStatusRaw (trail_md_vec cod') (send_status_core cod')
               (GetStatusDetailsBuf cod') ops) (\<lambda>ops'.
     Done (cod', ops')))"

section \<open>The call\<close>

text \<open>
  \<open>call_batches\<close> records every batch passed to gRPC and whether it was accepted,
  \<open>call_pending\<close> the accepted batches gRPC has not completed yet, with the tag each was
  started with, and \<open>call_heap\<close> the tags allocated by \<^verbatim>\<open>new\<close> and not yet deleted.
\<close>

record ('tag, 'buf) Call =
  call_batches :: "'buf batch_log"
  call_pending :: "('tag \<times> 'buf grpc_op list) list"
  call_heap :: "'tag list"
  max_msg_size :: int

definition default_max_msg_size :: int where "default_max_msg_size = -1"

definition Call_new :: "nat option \<Rightarrow> ('tag, 'buf) Call outcome" where
  "Call_new c_call =
     assert_o (c_call \<noteq> None) ''c_call''
       (Done \<lparr>call_batches = [], call_pending = [], call_heap = [],
              max_msg_size = default_max_msg_size\<rparr>)"

definition Call_fresh :: "('tag, 'buf) Call" where
  "Call_fresh = \<lparr>call_batches = [], call_pending = [], call_heap = [],
                 max_msg_size = default_max_msg_size\<rparr>"

lemma Call_new_Some [simp]: "Call_new (Some c) = Done Call_fresh"
  by (simp add: Call_new_def Call_fresh_def)

definition StartBatch ::
  "'buf grpc_lib \<Rightarrow> 'buf CallOperations \<Rightarrow> 'tag \<Rightarrow> ('tag, 'buf) Call \<Rightarrow>
     (bool \<times> ('tag, 'buf) Call) outcome" where
  "StartBatch G ops tag c =
     bind_o (GetOpsNum ops) (\<lambda>n.
       let batch = take n (filled_ops ops);
           ok = (grpc_call_start_batch G (call_batches c) batch = GRPC_CALL_OK)
       in Done (ok, c\<lparr>call_batches := call_batches c @ [(batch, ok)],
                      call_pending := call_pending c @ (if ok then [(tag, batch)] else [])\<rparr>))"

text \<open>The tag of a batch: \<^verbatim>\<open>new\<close>, \<^verbatim>\<open>delete\<close>, and gRPC handing the batch's completion over.\<close>

definition new_tag :: "'tag \<Rightarrow> ('tag, 'buf) Call \<Rightarrow> ('tag, 'buf) Call" where
  "new_tag tag c = c\<lparr>call_heap := tag # call_heap c\<rparr>"

definition delete_tag :: "'tag \<Rightarrow> ('tag, 'buf) Call \<Rightarrow> ('tag, 'buf) Call" where
  "delete_tag tag c = c\<lparr>call_heap := remove1 tag (call_heap c)\<rparr>"

primrec drop_entry :: "'tag \<Rightarrow> ('tag \<times> 'a) list \<Rightarrow> ('tag \<times> 'a) list" where
  "drop_entry tag [] = []"
| "drop_entry tag (e # es) = (if fst e = tag then es else e # drop_entry tag es)"

definition pop_pending :: "'tag \<Rightarrow> ('tag, 'buf) Call \<Rightarrow> ('tag, 'buf) Call" where
  "pop_pending tag c = c\<lparr>call_pending := drop_entry tag (call_pending c)\<rparr>"

abbreviation pending_tags :: "('tag, 'buf) Call \<Rightarrow> 'tag list" where
  "pending_tags c \<equiv> map fst (call_pending c)"

definition pend :: "('tag, 'buf) Call \<Rightarrow> 'tag set" where
  "pend c = set (pending_tags c)"

section \<open>Facts about batches\<close>

named_theorems batch_simps

lemma SliceFromCopiedString_id [simp]: "SliceFromCopiedString s = s"
  by (simp add: SliceFromCopiedString_def)

lemma StringFromCopiedSlice_id [simp]: "StringFromCopiedSlice s = s"
  by (simp add: StringFromCopiedSlice_def)

lemma push_op_Done [batch_simps]:
  "length (filled_ops ops) < MAX_OPS \<Longrightarrow>
     push_op op ops = Done (ops\<lparr>filled_ops := filled_ops ops @ [op]\<rparr>)"
  by (simp add: push_op_def)

lemma push_op_Abort: "\<not> length (filled_ops ops) < MAX_OPS \<Longrightarrow> push_op op ops = Abort ''nops_ < MAX_OPS''"
  by (simp add: push_op_def)

lemma Ops_SendMsg_Done [batch_simps]:
  "length (filled_ops ops) < MAX_OPS \<Longrightarrow>
     Ops_SendMsg G message CodSendMsg_new ops =
       Done (\<lparr>send_buf = Some (grpc_raw_byte_buffer_create G message)\<rparr>,
             ops\<lparr>filled_ops := filled_ops ops @ [SendMessage (grpc_raw_byte_buffer_create G message)]\<rparr>)"
  by (simp add: Ops_SendMsg_def CopyMsgStr_def CodSendMsg_new_def Ops_SendMsgBuf_def push_op_Done)

lemma Ops_ServerSendStatus_Done [batch_simps]:
  "length (filled_ops ops) < MAX_OPS \<Longrightarrow>
     Ops_ServerSendStatus status CodServerSendStatus_new ops =
       Done (CodServerSendStatus_new\<lparr>send_status_core := GetCode status,
               send_status_details := GetDetails status\<rparr>,
             ops\<lparr>filled_ops := filled_ops ops @
                   [SendStatusFromServer [] (GetCode status) (c_str (GetDetails status))],
                 ops_status_details := c_str (GetDetails status)\<rparr>)"
  by (simp add: Ops_ServerSendStatus_def SetStatus_def CodServerSendStatus_new_def
      Ops_ServerSendStatusRaw_def GetStatusDetailsBuf_def push_op_Done Let_def)

lemmas op_builders [batch_simps] =
  Ops_SendInitMd_def Ops_RecvInitMd_def Ops_RecvMsg_def Ops_ClientSendClose_def
  Ops_ClientRecvStatus_def CallOperations_new_def CodSendInitMd_new_def MAX_OPS_def

text \<open>What \<^verbatim>\<open>StartBatch\<close> does with a batch that fits the array.\<close>

definition takes :: "'buf grpc_lib \<Rightarrow> ('tag, 'buf) Call \<Rightarrow> 'buf grpc_op list \<Rightarrow> bool" where
  "takes G c batch \<longleftrightarrow> grpc_call_start_batch G (call_batches c) batch = GRPC_CALL_OK"

definition submit ::
  "'buf grpc_lib \<Rightarrow> 'buf grpc_op list \<Rightarrow> 'tag \<Rightarrow> ('tag, 'buf) Call \<Rightarrow> bool \<times> ('tag, 'buf) Call" where
  "submit G batch tag c =
     (takes G c batch,
      c\<lparr>call_batches := call_batches c @ [(batch, takes G c batch)],
        call_pending := call_pending c @ (if takes G c batch then [(tag, batch)] else [])\<rparr>)"

lemma StartBatch_submit [batch_simps]:
  "length (filled_ops ops) \<le> MAX_OPS \<Longrightarrow>
     StartBatch G ops tag c = Done (submit G (filled_ops ops) tag c)"
  by (simp add: StartBatch_def GetOpsNum_def submit_def takes_def Let_def)

text \<open>
  The pattern of every asynchronous start: allocate a tag, start its batch, delete the tag
  when gRPC refuses.
\<close>

definition launched ::
  "'buf grpc_lib \<Rightarrow> 'buf grpc_op list \<Rightarrow> 'tag \<Rightarrow> ('tag, 'buf) Call \<Rightarrow> ('tag, 'buf) Call" where
  "launched G batch tag c =
     c\<lparr>call_batches := call_batches c @ [(batch, takes G c batch)],
       call_pending := call_pending c @ (if takes G c batch then [(tag, batch)] else []),
       call_heap := (if takes G c batch then tag # call_heap c else call_heap c)\<rparr>"

lemma takes_new_tag [simp]: "takes G (new_tag tag c) batch = takes G c batch"
  by (simp add: takes_def new_tag_def)

lemma submit_new_tag:
  "submit G batch tag (new_tag tag c) =
     (takes G c batch, if takes G c batch then launched G batch tag c
                       else new_tag tag (launched G batch tag c))"
  by (simp add: submit_def launched_def new_tag_def takes_def)

lemma delete_new_tag [simp]: "delete_tag tag (new_tag tag c) = c"
  by (simp add: delete_tag_def new_tag_def)

lemma launched_fields [simp]:
  "call_batches (launched G batch tag c) = call_batches c @ [(batch, takes G c batch)]"
  "call_pending (launched G batch tag c) =
     call_pending c @ (if takes G c batch then [(tag, batch)] else [])"
  "call_heap (launched G batch tag c) =
     (if takes G c batch then tag # call_heap c else call_heap c)"
  "max_msg_size (launched G batch tag c) = max_msg_size c"
  by (simp_all add: launched_def)

lemma tag_frames [simp]:
  "call_batches (delete_tag tag c) = call_batches c"
  "call_pending (delete_tag tag c) = call_pending c"
  "call_batches (pop_pending tag c) = call_batches c"
  "call_heap (pop_pending tag c) = call_heap c"
  "call_pending (pop_pending tag c) = drop_entry tag (call_pending c)"
  "call_heap (delete_tag tag c) = remove1 tag (call_heap c)"
  by (simp_all add: delete_tag_def pop_pending_def)

lemma Call_fresh_fields [simp]:
  "call_batches Call_fresh = []" "call_pending Call_fresh = []" "call_heap Call_fresh = []"
  by (simp_all add: Call_fresh_def)

section \<open>Ownership of tags and the discipline of a call\<close>

text \<open>
  gRPC allows one outstanding operation of each type on a call. \<open>one_of_each\<close> states it
  for the pending batches. \<open>tags_ok\<close> is the invariant the components keep: at most one
  pending batch per tag class, each with the operations of its class, and the tags on the
  heap are those of the pending batches, plus the tags \<open>extra\<close> whose completion is being
  processed.
\<close>

definition one_of_each :: "('tag, 'buf) Call \<Rightarrow> bool" where
  "one_of_each c \<longleftrightarrow> distinct (map op_type (concat (map snd (call_pending c))))"

definition tags_ok ::
  "('tag \<Rightarrow> grpc_op_type list) \<Rightarrow> 'tag list \<Rightarrow> ('tag, 'buf) Call \<Rightarrow> bool" where
  "tags_ok kinds extra c \<longleftrightarrow>
     distinct (pending_tags c) \<and>
     mset (call_heap c) = mset (pending_tags c) + mset extra \<and>
     (\<forall>(t, b) \<in> set (call_pending c). map op_type b = kinds t)"

lemma drop_entry_subset: "set (drop_entry t p) \<subseteq> set p"
  by (induction p) auto

lemma drop_entry_map: "map fst (drop_entry t p) = remove1 t (map fst p)"
  by (induction p) auto

lemma drop_entry_other: "u \<noteq> t \<Longrightarrow> (u, b) \<in> set (drop_entry t p) \<longleftrightarrow> (u, b) \<in> set p"
  by (induction p) auto

lemma tags_ok_fresh [simp]: "tags_ok kinds [] Call_fresh"
  by (simp add: tags_ok_def)

lemma pend_simps [simp]:
  "pend Call_fresh = {}"
  "pend (launched G b t c) = (if takes G c b then insert t (pend c) else pend c)"
  "pend (new_tag t c) = pend c"
  "pend (delete_tag t c) = pend c"
  by (simp_all add: pend_def new_tag_def)

lemma pend_empty: "pend c = {} \<longleftrightarrow> call_pending c = []"
  by (simp add: pend_def)

lemma pend_pop: "tags_ok kinds extra c \<Longrightarrow> pend (pop_pending t c) = pend c - {t}"
  by (simp add: pend_def tags_ok_def drop_entry_map)

lemma tags_ok_launched:
  "tags_ok kinds extra c \<Longrightarrow> t \<notin> pend c \<Longrightarrow> map op_type b = kinds t \<Longrightarrow>
     tags_ok kinds extra (launched G b t c)"
  by (auto simp: tags_ok_def pend_def)

lemma tags_ok_pop:
  assumes "tags_ok kinds [] c" and "t \<in> pend c"
  shows "tags_ok kinds [t] (pop_pending t c)"
proof -
  have "mset (pending_tags c) = mset (remove1 t (pending_tags c)) + {#t#}"
    using assms(2) by (simp add: pend_def)
  with assms(1) show ?thesis
    using drop_entry_subset [of t "call_pending c"]
    by (auto simp: tags_ok_def drop_entry_map)
qed

lemma tags_ok_delete: "tags_ok kinds [t] c \<Longrightarrow> tags_ok kinds [] (delete_tag t c)"
  by (simp add: tags_ok_def)

lemma tags_ok_distinct: "tags_ok kinds extra c \<Longrightarrow> distinct (pending_tags c)"
  by (simp add: tags_ok_def)

lemma tags_ok_no_leak:
  "tags_ok kinds [] c \<Longrightarrow> mset (call_heap c) = mset (pending_tags c)"
  by (simp add: tags_ok_def)

lemma one_of_eachI:
  assumes "distinct (map fst p)"
    and "\<forall>(t, b) \<in> set p. map op_type b = kinds t"
    and "\<And>t. distinct (kinds t)"
    and "\<And>t u. t \<noteq> u \<Longrightarrow> set (kinds t) \<inter> set (kinds u) = {}"
  shows "distinct (map op_type (concat (map snd p)))"
  using assms(1,2)
proof (induction p)
  case Nil
  then show ?case by simp
next
  case (Cons e p)
  obtain t b where e: "e = (t, b)" by (cases e)
  have "op_type ` set b \<inter> op_type ` set b' = {}" if "(u, b') \<in> set p" for u b'
  proof -
    from that Cons.prems(1) e have "t \<noteq> u" by force
    moreover from that Cons.prems(2) e have "op_type ` set b = set (kinds t)"
      "op_type ` set b' = set (kinds u)" by (auto simp flip: set_map)
    ultimately show ?thesis using assms(4) [of t u] by simp
  qed
  moreover have "distinct (map op_type b)" using Cons.prems(2) e assms(3) by simp
  moreover have "distinct (map op_type (concat (map snd p)))"
    using Cons.prems by (intro Cons.IH) auto
  ultimately show ?case using e by fastforce
qed

lemma tags_ok_one_of_each:
  assumes "tags_ok kinds extra c"
    and "\<And>t. distinct (kinds t)"
    and "\<And>t u. t \<noteq> u \<Longrightarrow> set (kinds t) \<inter> set (kinds u) = {}"
  shows "one_of_each c"
  using assms(1) unfolding tags_ok_def one_of_each_def
  by (intro one_of_eachI [where kinds = kinds] assms(2,3)) auto

section \<open>The messages gRPC has taken\<close>

fun batch_msgs :: "'buf grpc_op list \<Rightarrow> 'buf list" where
  "batch_msgs [] = []"
| "batch_msgs (SendMessage buf # ops) = buf # batch_msgs ops"
| "batch_msgs (op # ops) = batch_msgs ops"

definition taken_msgs :: "'buf batch_log \<Rightarrow> 'buf list" where
  "taken_msgs log = concat (map (\<lambda>(b, ok). if ok then batch_msgs b else []) log)"

lemma taken_msgs_simps [simp]:
  "taken_msgs [] = []"
  "taken_msgs ((b, ok) # log) = (if ok then batch_msgs b else []) @ taken_msgs log"
  "taken_msgs (log @ log') = taken_msgs log @ taken_msgs log'"
  by (simp_all add: taken_msgs_def)

section \<open>A gRPC library to run examples on\<close>

text \<open>
  Buffers are the bytes themselves; the first \<open>n\<close> batches of a call are accepted, and a
  plucked batch completes with status OK and the reply \<open>pong\<close>.
\<close>

definition demo_lib :: "nat \<Rightarrow> string grpc_lib" where
  "demo_lib n =
     \<lparr>grpc_call_start_batch = (\<lambda>log batch. if length log < n then GRPC_CALL_OK else GRPC_CALL_ERROR 1),
      grpc_completion_queue_pluck = (\<lambda>log. \<lparr>cp_success = True, cp_recv_buf = Some ''pong'',
                                            cp_status = GRPC_STATUS_OK, cp_details = ''''\<rparr>),
      grpc_raw_byte_buffer_create = (\<lambda>s. s),
      grpc_byte_buffer_reader_readall = Some\<rparr>"

lemma demo_lib_fields [simp]:
  "grpc_call_start_batch (demo_lib n) log batch =
     (if length log < n then GRPC_CALL_OK else GRPC_CALL_ERROR 1)"
  "grpc_raw_byte_buffer_create (demo_lib n) s = s"
  "grpc_byte_buffer_reader_readall (demo_lib n) b = Some b"
  by (simp_all add: demo_lib_def)

definition demo_done :: "string completion" where
  "demo_done = \<lparr>cp_success = True, cp_recv_buf = Some ''pong'',
                cp_status = GRPC_STATUS_OK, cp_details = ''''\<rparr>"

end
