(* ===== verification/Cq_Tags.thy ===== *)
theory Cq_Tags
  imports Call_Ops
begin

text \<open>
  The completion queue tags: for each class, the batch its \<^verbatim>\<open>Start\<close> puts together
  (\<^verbatim>\<open>core/client/impl/cqtag\<close>, \<^verbatim>\<open>core/server/impl/cqtag\<close>) and the data gRPC leaves in it.
  A \<^verbatim>\<open>Start\<close> builds its batch on a fresh \<^verbatim>\<open>CallOperations\<close> and fresh \<^verbatim>\<open>Cod\<close> members, and
  yields whether gRPC accepted the batch together with the call. The lemmas
  \<open>\<dots>_batch\<close> show that no assertion of the builder fails and which batch results.
\<close>

section \<open>Base classes\<close>

text \<open>\<^verbatim>\<open>CompletionQueueTag::DoComplete\<close> does nothing.\<close>

definition CompletionQueueTag_DoComplete :: "bool \<Rightarrow> 's \<Rightarrow> 's outcome" where
  "CompletionQueueTag_DoComplete success s = Done s"

text \<open>\<^verbatim>\<open>GeneralCallCqTag\<close> holds a completion callback, possibly empty.\<close>

type_synonym 's CompleteCb = "bool \<Rightarrow> 's \<Rightarrow> 's outcome"

definition GeneralCallCqTag_DoComplete :: "'s CompleteCb option \<Rightarrow> bool \<Rightarrow> 's \<Rightarrow> 's outcome" where
  "GeneralCallCqTag_DoComplete complete_cb success s =
     (case complete_cb of Some cb \<Rightarrow> cb success s | None \<Rightarrow> Done s)"

lemma DoComplete_simps [simp]:
  "CompletionQueueTag_DoComplete success s = Done s"
  "GeneralCallCqTag_DoComplete (Some cb) success s = cb success s"
  by (simp_all add: CompletionQueueTag_DoComplete_def GeneralCallCqTag_DoComplete_def)

text \<open>The constructor of \<^verbatim>\<open>CallCqTag\<close> requires a call.\<close>

definition CallCqTag_new :: "('tag, 'buf) Call option \<Rightarrow> ('tag, 'buf) Call outcome" where
  "CallCqTag_new call_sptr =
     (case call_sptr of None \<Rightarrow> Abort ''call_sptr'' | Some c \<Rightarrow> Done c)"

section \<open>Client tags\<close>

definition ClientSendInitMdCqTag_Start ::
  "'buf grpc_lib \<Rightarrow> 'tag \<Rightarrow> ('tag, 'buf) Call \<Rightarrow> (bool \<times> ('tag, 'buf) Call) outcome" where
  "ClientSendInitMdCqTag_Start G tag c =
     bind_o (Ops_SendInitMd CodSendInitMd_new CallOperations_new) (\<lambda>ops.
     StartBatch G ops tag c)"

definition ClientRecvInitMdCqTag_Start ::
  "'buf grpc_lib \<Rightarrow> 'tag \<Rightarrow> ('tag, 'buf) Call \<Rightarrow> (bool \<times> ('tag, 'buf) Call) outcome" where
  "ClientRecvInitMdCqTag_Start G tag c =
     bind_o (Ops_RecvInitMd CallOperations_new) (\<lambda>ops.
     StartBatch G ops tag c)"

definition ClientSendMsgCqTag_Start ::
  "'buf grpc_lib \<Rightarrow> string \<Rightarrow> 'tag \<Rightarrow> ('tag, 'buf) Call \<Rightarrow> (bool \<times> ('tag, 'buf) Call) outcome" where
  "ClientSendMsgCqTag_Start G message tag c =
     bind_o (Ops_SendMsg G message CodSendMsg_new CallOperations_new) (\<lambda>(cod, ops).
     StartBatch G ops tag c)"

definition ClientSendCloseCqTag_Start ::
  "'buf grpc_lib \<Rightarrow> 'tag \<Rightarrow> ('tag, 'buf) Call \<Rightarrow> (bool \<times> ('tag, 'buf) Call) outcome" where
  "ClientSendCloseCqTag_Start G tag c =
     bind_o (Ops_ClientSendClose CallOperations_new) (\<lambda>ops.
     StartBatch G ops tag c)"

definition ClientReaderInitCqTag_Start ::
  "'buf grpc_lib \<Rightarrow> string \<Rightarrow> 'tag \<Rightarrow> ('tag, 'buf) Call \<Rightarrow> (bool \<times> ('tag, 'buf) Call) outcome" where
  "ClientReaderInitCqTag_Start G request tag c =
     bind_o (Ops_SendMsg G request CodSendMsg_new CallOperations_new) (\<lambda>(cod, ops).
     bind_o (Ops_SendInitMd CodSendInitMd_new ops) (\<lambda>ops.
     bind_o (Ops_RecvInitMd ops) (\<lambda>ops.
     bind_o (Ops_ClientSendClose ops) (\<lambda>ops.
     StartBatch G ops tag c))))"

text \<open>The tag of one read, of a received status, of a writer's close, of a unary call.\<close>

record 'buf ClientReaderReadCqTag =
  read_cod_recv_msg :: "'buf CodRecvMsg"

definition ClientReaderReadCqTag_completed :: "'buf completion \<Rightarrow> 'buf ClientReaderReadCqTag" where
  "ClientReaderReadCqTag_completed cp = \<lparr>read_cod_recv_msg = fill_recv_msg cp CodRecvMsg_new\<rparr>"

definition ClientReaderReadCqTag_HasGotMsg :: "'buf ClientReaderReadCqTag \<Rightarrow> bool" where
  "ClientReaderReadCqTag_HasGotMsg tag = HasGotMsg (read_cod_recv_msg tag)"

definition ClientReaderReadCqTag_GetResultMsg ::
  "'buf grpc_lib \<Rightarrow> 'buf ClientReaderReadCqTag \<Rightarrow> string \<Rightarrow> (Status \<times> string) outcome" where
  "ClientReaderReadCqTag_GetResultMsg G tag message = GetResultMsg G (read_cod_recv_msg tag) message"

definition ClientReaderReadCqTag_Start ::
  "'buf grpc_lib \<Rightarrow> 'tag \<Rightarrow> ('tag, 'buf) Call \<Rightarrow> (bool \<times> ('tag, 'buf) Call) outcome" where
  "ClientReaderReadCqTag_Start G tag c =
     bind_o (Ops_RecvMsg CallOperations_new) (\<lambda>ops.
     StartBatch G ops tag c)"

record ClientReaderRecvStatusCqTag =
  rs_cod_client_recv_status :: CodClientRecvStatus

definition ClientReaderRecvStatusCqTag_completed :: "'buf completion \<Rightarrow> ClientReaderRecvStatusCqTag" where
  "ClientReaderRecvStatusCqTag_completed cp =
     \<lparr>rs_cod_client_recv_status = fill_recv_status cp CodClientRecvStatus_new\<rparr>"

definition ClientReaderRecvStatusCqTag_GetStatus :: "ClientReaderRecvStatusCqTag \<Rightarrow> Status" where
  "ClientReaderRecvStatusCqTag_GetStatus tag =
     CodClientRecvStatus_GetStatus (rs_cod_client_recv_status tag)"

definition ClientReaderRecvStatusCqTag_Start ::
  "'buf grpc_lib \<Rightarrow> 'tag \<Rightarrow> ('tag, 'buf) Call \<Rightarrow> (bool \<times> ('tag, 'buf) Call) outcome" where
  "ClientReaderRecvStatusCqTag_Start G tag c =
     bind_o (Ops_ClientRecvStatus CallOperations_new) (\<lambda>ops.
     StartBatch G ops tag c)"

record 'buf ClientWriterCloseCqTag =
  wc_cod_recv_msg :: "'buf CodRecvMsg"
  wc_cod_client_recv_status :: CodClientRecvStatus

definition ClientWriterCloseCqTag_completed :: "'buf completion \<Rightarrow> 'buf ClientWriterCloseCqTag" where
  "ClientWriterCloseCqTag_completed cp =
     \<lparr>wc_cod_recv_msg = fill_recv_msg cp CodRecvMsg_new,
      wc_cod_client_recv_status = fill_recv_status cp CodClientRecvStatus_new\<rparr>"

definition ClientWriterCloseCqTag_IsStatusOk :: "'buf ClientWriterCloseCqTag \<Rightarrow> bool" where
  "ClientWriterCloseCqTag_IsStatusOk tag = IsStatusOk (wc_cod_client_recv_status tag)"

definition ClientWriterCloseCqTag_GetStatus :: "'buf ClientWriterCloseCqTag \<Rightarrow> Status" where
  "ClientWriterCloseCqTag_GetStatus tag =
     CodClientRecvStatus_GetStatus (wc_cod_client_recv_status tag)"

definition ClientWriterCloseCqTag_GetResponse ::
  "'buf grpc_lib \<Rightarrow> 'buf ClientWriterCloseCqTag \<Rightarrow> string \<Rightarrow> (Status \<times> string) outcome" where
  "ClientWriterCloseCqTag_GetResponse G tag response = GetResultMsg G (wc_cod_recv_msg tag) response"

definition ClientWriterCloseCqTag_Start ::
  "'buf grpc_lib \<Rightarrow> 'tag \<Rightarrow> ('tag, 'buf) Call \<Rightarrow> (bool \<times> ('tag, 'buf) Call) outcome" where
  "ClientWriterCloseCqTag_Start G tag c =
     bind_o (Ops_ClientSendClose CallOperations_new) (\<lambda>ops.
     bind_o (Ops_RecvInitMd ops) (\<lambda>ops.
     bind_o (Ops_RecvMsg ops) (\<lambda>ops.
     bind_o (Ops_ClientRecvStatus ops) (\<lambda>ops.
     StartBatch G ops tag c))))"

record 'buf ClientCallCqTag =
  cc_cod_recv_msg :: "'buf CodRecvMsg"
  cc_cod_client_recv_status :: CodClientRecvStatus

definition ClientCallCqTag_completed :: "'buf completion \<Rightarrow> 'buf ClientCallCqTag" where
  "ClientCallCqTag_completed cp =
     \<lparr>cc_cod_recv_msg = fill_recv_msg cp CodRecvMsg_new,
      cc_cod_client_recv_status = fill_recv_status cp CodClientRecvStatus_new\<rparr>"

definition ClientCallCqTag_GetResponse ::
  "'buf grpc_lib \<Rightarrow> 'buf ClientCallCqTag \<Rightarrow> string \<Rightarrow> (Status \<times> string) outcome" where
  "ClientCallCqTag_GetResponse G tag response =
     (if \<not> IsStatusOk (cc_cod_client_recv_status tag)
      then Done (CodClientRecvStatus_GetStatus (cc_cod_client_recv_status tag), response)
      else GetResultMsg G (cc_cod_recv_msg tag) response)"

definition ClientCallCqTag_StartOps ::
  "'buf grpc_lib \<Rightarrow> 'buf CallOperations \<Rightarrow> 'tag \<Rightarrow> ('tag, 'buf) Call \<Rightarrow>
     (bool \<times> ('tag, 'buf) Call) outcome" where
  "ClientCallCqTag_StartOps G ops tag c =
     bind_o (Ops_SendInitMd CodSendInitMd_new ops) (\<lambda>ops.
     bind_o (Ops_RecvInitMd ops) (\<lambda>ops.
     bind_o (Ops_RecvMsg ops) (\<lambda>ops.
     bind_o (Ops_ClientSendClose ops) (\<lambda>ops.
     bind_o (Ops_ClientRecvStatus ops) (\<lambda>ops.
     StartBatch G ops tag c)))))"

definition ClientCallCqTag_Start ::
  "'buf grpc_lib \<Rightarrow> string \<Rightarrow> 'tag \<Rightarrow> ('tag, 'buf) Call \<Rightarrow> (bool \<times> ('tag, 'buf) Call) outcome" where
  "ClientCallCqTag_Start G request tag c =
     bind_o (Ops_SendMsg G request CodSendMsg_new CallOperations_new) (\<lambda>(cod, ops).
     ClientCallCqTag_StartOps G ops tag c)"

section \<open>Server tags\<close>

definition ServerReaderCqTag_Start ::
  "'buf grpc_lib \<Rightarrow> 'tag \<Rightarrow> ('tag, 'buf) Call \<Rightarrow> (bool \<times> ('tag, 'buf) Call) outcome" where
  "ServerReaderCqTag_Start G tag c =
     bind_o (Ops_RecvMsg CallOperations_new) (\<lambda>ops.
     StartBatch G ops tag c)"

definition SendInitMd_if ::
  "bool \<Rightarrow> 'buf CallOperations \<Rightarrow> 'buf CallOperations outcome" where
  "SendInitMd_if send_init_md ops =
     (if send_init_md then Ops_SendInitMd CodSendInitMd_new ops else Done ops)"

definition ServerWriterWriteCqTag_Start ::
  "'buf grpc_lib \<Rightarrow> string \<Rightarrow> bool \<Rightarrow> 'tag \<Rightarrow> ('tag, 'buf) Call \<Rightarrow>
     (bool \<times> ('tag, 'buf) Call) outcome" where
  "ServerWriterWriteCqTag_Start G message send_init_md tag c =
     bind_o (SendInitMd_if send_init_md CallOperations_new) (\<lambda>ops.
     bind_o (Ops_SendMsg G message CodSendMsg_new ops) (\<lambda>(cod, ops).
     StartBatch G ops tag c))"

definition ServerWriterSendStatusCqTag_StartSend ::
  "'buf grpc_lib \<Rightarrow> Status \<Rightarrow> bool \<Rightarrow> 'tag \<Rightarrow> ('tag, 'buf) Call \<Rightarrow>
     (bool \<times> ('tag, 'buf) Call) outcome" where
  "ServerWriterSendStatusCqTag_StartSend G status send_init_md tag c =
     bind_o (SendInitMd_if send_init_md CallOperations_new) (\<lambda>ops.
     bind_o (Ops_ServerSendStatus status CodServerSendStatus_new ops) (\<lambda>(cod, ops).
     StartBatch G ops tag c))"

definition ServerReplierCqTag_SendMsgAndStatus ::
  "'buf grpc_lib \<Rightarrow> string \<Rightarrow> 'buf CallOperations \<Rightarrow> 'buf CallOperations outcome" where
  "ServerReplierCqTag_SendMsgAndStatus G msg ops =
     bind_o (Ops_SendMsg G msg CodSendMsg_new ops) (\<lambda>(cod, ops).
     bind_o (Ops_ServerSendStatus Status_OK CodServerSendStatus_new ops) (\<lambda>(cod, ops).
     Done ops))"

definition ServerReplierCqTag_StartReply ::
  "'buf grpc_lib \<Rightarrow> bool \<Rightarrow> string \<Rightarrow> 'tag \<Rightarrow> ('tag, 'buf) Call \<Rightarrow>
     (bool \<times> ('tag, 'buf) Call) outcome" where
  "ServerReplierCqTag_StartReply G send_init_md msg tag c =
     bind_o (SendInitMd_if send_init_md CallOperations_new) (\<lambda>ops.
     bind_o (ServerReplierCqTag_SendMsgAndStatus G msg ops) (\<lambda>ops.
     StartBatch G ops tag c))"

definition ServerReplierCqTag_StartReplyError ::
  "'buf grpc_lib \<Rightarrow> bool \<Rightarrow> Status \<Rightarrow> 'tag \<Rightarrow> ('tag, 'buf) Call \<Rightarrow>
     (bool \<times> ('tag, 'buf) Call) outcome" where
  "ServerReplierCqTag_StartReplyError G send_init_md status tag c =
     bind_o (SendInitMd_if send_init_md CallOperations_new) (\<lambda>ops.
     bind_o (Ops_ServerSendStatus status CodServerSendStatus_new ops) (\<lambda>(cod, ops).
     StartBatch G ops tag c))"

section \<open>The batches\<close>

named_theorems tag_batches

lemma client_small_batches [tag_batches]:
  "ClientSendInitMdCqTag_Start G tag c = Done (submit G [SendInitialMetadata []] tag c)"
  "ClientRecvInitMdCqTag_Start G tag c = Done (submit G [RecvInitialMetadata] tag c)"
  "ClientSendMsgCqTag_Start G m tag c =
     Done (submit G [SendMessage (grpc_raw_byte_buffer_create G m)] tag c)"
  "ClientSendCloseCqTag_Start G tag c = Done (submit G [SendCloseFromClient] tag c)"
  "ClientReaderReadCqTag_Start G tag c = Done (submit G [RecvMessage] tag c)"
  "ClientReaderRecvStatusCqTag_Start G tag c = Done (submit G [RecvStatusOnClient] tag c)"
  by (simp_all add: batch_simps ClientSendInitMdCqTag_Start_def ClientRecvInitMdCqTag_Start_def
      ClientSendMsgCqTag_Start_def ClientSendCloseCqTag_Start_def ClientReaderReadCqTag_Start_def
      ClientReaderRecvStatusCqTag_Start_def)

lemma ClientReaderInitCqTag_batch [tag_batches]:
  "ClientReaderInitCqTag_Start G m tag c =
     Done (submit G [SendMessage (grpc_raw_byte_buffer_create G m), SendInitialMetadata [],
                     RecvInitialMetadata, SendCloseFromClient] tag c)"
  by (simp add: batch_simps ClientReaderInitCqTag_Start_def)

lemma ClientWriterCloseCqTag_batch [tag_batches]:
  "ClientWriterCloseCqTag_Start G tag c =
     Done (submit G [SendCloseFromClient, RecvInitialMetadata, RecvMessage, RecvStatusOnClient] tag c)"
  by (simp add: batch_simps ClientWriterCloseCqTag_Start_def)

lemma ClientCallCqTag_batch [tag_batches]:
  "ClientCallCqTag_Start G m tag c =
     Done (submit G [SendMessage (grpc_raw_byte_buffer_create G m), SendInitialMetadata [],
                     RecvInitialMetadata, RecvMessage, SendCloseFromClient, RecvStatusOnClient] tag c)"
  by (simp add: batch_simps ClientCallCqTag_Start_def ClientCallCqTag_StartOps_def)

definition init_md_ops :: "bool \<Rightarrow> 'buf grpc_op list" where
  "init_md_ops send_init_md = (if send_init_md then [SendInitialMetadata []] else [])"

lemma SendInitMd_if_Done [batch_simps]:
  "SendInitMd_if b \<lparr>filled_ops = [], ops_status_details = d\<rparr> =
     Done \<lparr>filled_ops = init_md_ops b, ops_status_details = d\<rparr>"
  by (simp add: SendInitMd_if_def init_md_ops_def batch_simps)

lemma init_md_ops_room [simp]:
  "length (init_md_ops b) < 6" "length (init_md_ops b) < 7" "length (init_md_ops b) < 8"
  "length (init_md_ops b) \<le> 6" "length (init_md_ops b) \<le> 7"
  "Suc (length (init_md_ops b)) \<le> 8" "Suc (Suc (length (init_md_ops b))) \<le> 8"
  "Suc (length (init_md_ops b)) < 8"
  by (simp_all add: init_md_ops_def)

lemma init_md_types [simp]:
  "map op_type (init_md_ops im) = (if im then [GRPC_OP_SEND_INITIAL_METADATA] else [])"
  "set (init_md_ops im) = (if im then {SendInitialMetadata []} else {})"
  by (simp_all add: init_md_ops_def)

lemma distinct_if_singleton [simp]: "distinct (if b then [x] else [])"
  by simp

lemma batch_msgs_init_md [simp]: "batch_msgs (init_md_ops im @ ops) = batch_msgs ops"
  by (simp add: init_md_ops_def)

lemma server_batches [tag_batches]:
  "ServerReaderCqTag_Start G tag c = Done (submit G [RecvMessage] tag c)"
  "ServerWriterWriteCqTag_Start G m b tag c =
     Done (submit G (init_md_ops b @ [SendMessage (grpc_raw_byte_buffer_create G m)]) tag c)"
  "ServerWriterSendStatusCqTag_StartSend G st b tag c =
     Done (submit G (init_md_ops b @
             [SendStatusFromServer [] (GetCode st) (c_str (GetDetails st))]) tag c)"
  "ServerReplierCqTag_StartReply G b m tag c =
     Done (submit G (init_md_ops b @ [SendMessage (grpc_raw_byte_buffer_create G m),
             SendStatusFromServer [] GRPC_STATUS_OK '''']) tag c)"
  "ServerReplierCqTag_StartReplyError G b st tag c =
     Done (submit G (init_md_ops b @
             [SendStatusFromServer [] (GetCode st) (c_str (GetDetails st))]) tag c)"
  by (simp_all add: batch_simps ServerReaderCqTag_Start_def ServerWriterWriteCqTag_Start_def
      ServerWriterSendStatusCqTag_StartSend_def ServerReplierCqTag_StartReply_def
      ServerReplierCqTag_SendMsgAndStatus_def ServerReplierCqTag_StartReplyError_def
      Status_OK_def Status_default_def GetCode_def GetDetails_def c_str_def)

section \<open>Reading the completed tags\<close>

lemma completed_recv [simp]:
  "ClientReaderReadCqTag_HasGotMsg (ClientReaderReadCqTag_completed cp) \<longleftrightarrow> cp_recv_buf cp \<noteq> None"
  "ClientReaderRecvStatusCqTag_GetStatus (ClientReaderRecvStatusCqTag_completed cp) =
     Status_make (cp_status cp) (cp_details cp)"
  "ClientWriterCloseCqTag_IsStatusOk (ClientWriterCloseCqTag_completed cp) \<longleftrightarrow>
     cp_status cp = GRPC_STATUS_OK"
  "ClientWriterCloseCqTag_GetStatus (ClientWriterCloseCqTag_completed cp) =
     Status_make (cp_status cp) (cp_details cp)"
  by (simp_all add: ClientReaderReadCqTag_HasGotMsg_def ClientReaderReadCqTag_completed_def
      HasGotMsg_def fill_recv_msg_def ClientReaderRecvStatusCqTag_GetStatus_def
      ClientReaderRecvStatusCqTag_completed_def CodClientRecvStatus_GetStatus_def
      fill_recv_status_def ClientWriterCloseCqTag_IsStatusOk_def
      ClientWriterCloseCqTag_completed_def IsStatusOk_def ClientWriterCloseCqTag_GetStatus_def)

text \<open>What reading a received buffer yields: a message or an internal error.\<close>

definition read_buf :: "'buf grpc_lib \<Rightarrow> 'buf \<Rightarrow> string \<Rightarrow> Status \<times> string" where
  "read_buf G buf result =
     (case grpc_byte_buffer_reader_readall G buf of
        None \<Rightarrow> (Status_InternalError ''Failed to read recv byte buffer.'', result)
      | Some s \<Rightarrow> (Status_OK, s))"

lemma GetResultMsg_eq:
  "GetResultMsg G cod result =
     (case recv_buf cod of None \<Rightarrow> Abort ''recv_buf_'' | Some buf \<Rightarrow> Done (read_buf G buf result))"
  by (simp add: GetResultMsg_def ByteBufferToString_def read_buf_def split: option.splits)

lemma completed_GetResultMsg [simp]:
  "ClientReaderReadCqTag_GetResultMsg G (ClientReaderReadCqTag_completed cp) result =
     (case cp_recv_buf cp of None \<Rightarrow> Abort ''recv_buf_'' | Some buf \<Rightarrow> Done (read_buf G buf result))"
  "ClientWriterCloseCqTag_GetResponse G (ClientWriterCloseCqTag_completed cp) result =
     (case cp_recv_buf cp of None \<Rightarrow> Abort ''recv_buf_'' | Some buf \<Rightarrow> Done (read_buf G buf result))"
  by (simp_all add: ClientReaderReadCqTag_GetResultMsg_def ClientReaderReadCqTag_completed_def
      ClientWriterCloseCqTag_GetResponse_def ClientWriterCloseCqTag_completed_def
      GetResultMsg_eq fill_recv_msg_def)

lemma ClientCallCqTag_GetResponse_completed [simp]:
  "ClientCallCqTag_GetResponse G (ClientCallCqTag_completed cp) response =
     (if cp_status cp \<noteq> GRPC_STATUS_OK
      then Done (Status_make (cp_status cp) (cp_details cp), response)
      else case cp_recv_buf cp of None \<Rightarrow> Abort ''recv_buf_''
           | Some buf \<Rightarrow> Done (read_buf G buf response))"
  by (simp add: ClientCallCqTag_GetResponse_def ClientCallCqTag_completed_def IsStatusOk_def
      fill_recv_status_def CodClientRecvStatus_GetStatus_def GetResultMsg_eq fill_recv_msg_def)

end
