(* ===== verification/Completion_Queue.thy ===== *)
theory Completion_Queue
  imports Cq_Tags
begin

text \<open>
  \<^verbatim>\<open>core/common/completion_queue*, run.cpp, impl/do_next_completion.cpp, impl/cqueue_for_pluck*\<close>:
  the completion queue and the loop that drains it.

  \<^verbatim>\<open>grpc_completion_queue_next\<close> belongs to the gRPC core library; it is the parameter \<open>gn\<close>,
  which yields the next event and the state after waiting for it. \<open>dc\<close> is the virtual
  \<^verbatim>\<open>DoComplete\<close> of the tag the event carries, together with what gRPC wrote through the tag's
  pointers, and \<open>del\<close> is \<^verbatim>\<open>delete tag\<close>.
\<close>

section \<open>Queues and events\<close>

record CompletionQueue =
  c_cq_uptr :: "nat option"
  cq_shutdown_requested :: bool

definition CompletionQueue_new :: "nat option \<Rightarrow> CompletionQueue outcome" where
  "CompletionQueue_new c_cq =
     assert_o (c_cq \<noteq> None) ''c_cq_uptr_''
       (Done \<lparr>c_cq_uptr = c_cq, cq_shutdown_requested = False\<rparr>)"

definition CompletionQueue_c_cq :: "CompletionQueue \<Rightarrow> nat outcome" where
  "CompletionQueue_c_cq cq =
     (case c_cq_uptr cq of None \<Rightarrow> Abort ''c_cq_uptr_'' | Some h \<Rightarrow> Done h)"

definition CompletionQueue_Shutdown :: "CompletionQueue \<Rightarrow> CompletionQueue outcome" where
  "CompletionQueue_Shutdown cq =
     assert_o (c_cq_uptr cq \<noteq> None) ''c_cq_uptr_'' (Done (cq\<lparr>cq_shutdown_requested := True\<rparr>))"

datatype 'time gpr_deadline = gpr_inf_future | gpr_time_0 | gpr_at 'time

text \<open>A completed event carries a tag, possibly null, and the completion of its batch.\<close>

datatype ('tag, 'cp) grpc_event =
    GRPC_OP_COMPLETE "'tag option" 'cp
  | GRPC_QUEUE_SHUTDOWN
  | GRPC_QUEUE_TIMEOUT
  | GRPC_OTHER_EVENT

type_synonym ('time, 'tag, 'cp, 's) queue_next =
  "'time gpr_deadline \<Rightarrow> 's \<Rightarrow> ('tag, 'cp) grpc_event \<times> 's"

definition CompletionQueueForNext_Next ::
  "('time, 'tag, 'cp, 's) queue_next \<Rightarrow> 's \<Rightarrow> ('tag, 'cp) grpc_event \<times> 's" where
  "CompletionQueueForNext_Next gn s = gn gpr_inf_future s"

definition CompletionQueueForNext_TryNext ::
  "('time, 'tag, 'cp, 's) queue_next \<Rightarrow> 's \<Rightarrow> ('tag, 'cp) grpc_event \<times> 's" where
  "CompletionQueueForNext_TryNext gn s = gn gpr_time_0 s"

section \<open>Handling one event\<close>

type_synonym ('tag, 'cp, 's) do_complete = "'tag \<Rightarrow> 'cp \<Rightarrow> 's \<Rightarrow> 's outcome"

text \<open>The \<^verbatim>\<open>switch\<close> both functions share; the flag is false when the queue is shut down.\<close>

fun handle_event ::
  "('tag, 'cp, 's) do_complete \<Rightarrow> ('tag \<Rightarrow> 's \<Rightarrow> 's) \<Rightarrow> ('tag, 'cp) grpc_event \<Rightarrow> 's \<Rightarrow> (bool \<times> 's) outcome"
where
  "handle_event dc del (GRPC_OP_COMPLETE None cp) s = Abort ''tag''"
| "handle_event dc del (GRPC_OP_COMPLETE (Some tag) cp) s =
     bind_o (dc tag cp s) (\<lambda>s'. Done (True, del tag s'))"
| "handle_event dc del GRPC_QUEUE_SHUTDOWN s = Done (False, s)"
| "handle_event dc del GRPC_QUEUE_TIMEOUT s = Done (True, s)"
| "handle_event dc del GRPC_OTHER_EVENT s = Abort ''false''"

definition DoNextCompletion ::
  "('time, 'tag, 'cp, 's) queue_next \<Rightarrow> ('tag, 'cp, 's) do_complete \<Rightarrow> ('tag \<Rightarrow> 's \<Rightarrow> 's) \<Rightarrow> 's \<Rightarrow>
     (bool \<times> 's) outcome" where
  "DoNextCompletion gn dc del s =
     (let (ev, s') = CompletionQueueForNext_Next gn s in handle_event dc del ev s')"

definition DoTryNextCompletion ::
  "('time, 'tag, 'cp, 's) queue_next \<Rightarrow> ('tag, 'cp, 's) do_complete \<Rightarrow> ('tag \<Rightarrow> 's \<Rightarrow> 's) \<Rightarrow> 's \<Rightarrow>
     (bool \<times> 's) outcome" where
  "DoTryNextCompletion gn dc del s =
     (let (ev, s') = CompletionQueueForNext_TryNext gn s in handle_event dc del ev s')"

section \<open>The loop\<close>

text \<open>\<^verbatim>\<open>Run\<close> loops until the queue is shut down, perhaps for ever: that is the value \<open>None\<close>.\<close>

partial_function (option) Run ::
  "('time, 'tag, 'cp, 's) queue_next \<Rightarrow> ('tag, 'cp, 's) do_complete \<Rightarrow> ('tag \<Rightarrow> 's \<Rightarrow> 's) \<Rightarrow> 's \<Rightarrow>
     's outcome option" where
  "Run gn dc del s =
     (case DoNextCompletion gn dc del s of
        Abort why \<Rightarrow> Some (Abort why)
      | Done (go, s') \<Rightarrow> if go then Run gn dc del s' else Some (Done s'))"

definition UnBlockingRun ::
  "('time, 'tag, 'cp, 's) queue_next \<Rightarrow> ('tag, 'cp, 's) do_complete \<Rightarrow> ('tag \<Rightarrow> 's \<Rightarrow> 's) \<Rightarrow> 's \<Rightarrow>
     's outcome" where
  "UnBlockingRun gn dc del s = bind_o (DoTryNextCompletion gn dc del s) (\<lambda>(go, s'). Done s')"

text \<open>The overloads on a shared pointer do nothing on a null pointer.\<close>

definition Run_sptr ::
  "'q option \<Rightarrow> ('time, 'tag, 'cp, 's) queue_next \<Rightarrow> ('tag, 'cp, 's) do_complete \<Rightarrow> ('tag \<Rightarrow> 's \<Rightarrow> 's) \<Rightarrow>
     's \<Rightarrow> 's outcome option" where
  "Run_sptr cq4n_sptr gn dc del s =
     (if cq4n_sptr \<noteq> None then Run gn dc del s else Some (Done s))"

definition UnBlockingRun_sptr ::
  "'q option \<Rightarrow> ('time, 'tag, 'cp, 's) queue_next \<Rightarrow> ('tag, 'cp, 's) do_complete \<Rightarrow> ('tag \<Rightarrow> 's \<Rightarrow> 's) \<Rightarrow>
     's \<Rightarrow> 's outcome" where
  "UnBlockingRun_sptr cq4n_sptr gn dc del s =
     (if cq4n_sptr \<noteq> None then UnBlockingRun gn dc del s else Done s)"

section \<open>A queue that delivers a given sequence of events\<close>

text \<open>
  What \<^verbatim>\<open>Run\<close> does is stated for a queue whose deliveries are known: the state is the list
  of events still to come with the state of the application. An exhausted queue blocks, and
  \<^verbatim>\<open>grpc_completion_queue_next\<close> with a passed deadline reports a timeout.
\<close>

fun listed_next :: "('time, 'tag, 'cp, ('tag, 'cp) grpc_event list \<times> 'a) queue_next" where
  "listed_next d (ev # evs, a) = (ev, (evs, a))"
| "listed_next d ([], a) = (GRPC_QUEUE_TIMEOUT, ([], a))"

fun listed_dc :: "('tag, 'cp, 'a) do_complete \<Rightarrow> ('tag, 'cp, 'evs \<times> 'a) do_complete" where
  "listed_dc dc tag cp (evs, a) = bind_o (dc tag cp a) (\<lambda>a'. Done (evs, a'))"

fun listed_del :: "('tag \<Rightarrow> 'a \<Rightarrow> 'a) \<Rightarrow> 'tag \<Rightarrow> 'evs \<times> 'a \<Rightarrow> 'evs \<times> 'a" where
  "listed_del del tag (evs, a) = (evs, del tag a)"

text \<open>The specification: every event is handled once, in the order of delivery.\<close>

fun handle_all ::
  "('tag, 'cp, 'a) do_complete \<Rightarrow> ('tag \<Rightarrow> 'a \<Rightarrow> 'a) \<Rightarrow> ('tag, 'cp) grpc_event list \<Rightarrow> 'a \<Rightarrow> 'a outcome"
where
  "handle_all dc del [] a = Done a"
| "handle_all dc del (ev # evs) a =
     bind_o (handle_event dc del ev a) (\<lambda>(go, a'). handle_all dc del evs a')"

lemma handle_event_go:
  "handle_event dc del ev s = Done (go, s') \<Longrightarrow> go \<longleftrightarrow> ev \<noteq> GRPC_QUEUE_SHUTDOWN"
  by (cases "(dc, del, ev, s)" rule: handle_event.cases) (auto simp: outcome_simps)

lemma handle_event_listed:
  "handle_event (listed_dc dc) (listed_del del) ev (evs, a) =
     bind_o (handle_event dc del ev a) (\<lambda>(go, a'). Done (go, (evs, a')))"
proof (cases ev)
  case (GRPC_OP_COMPLETE tag cp)
  then show ?thesis by (cases tag; cases "dc (the tag) cp a") auto
qed simp_all

lemma DoNextCompletion_listed:
  "DoNextCompletion listed_next (listed_dc dc) (listed_del del) (ev # evs, a) =
     bind_o (handle_event dc del ev a) (\<lambda>(go, a'). Done (go, (evs, a')))"
  by (simp add: DoNextCompletion_def CompletionQueueForNext_Next_def handle_event_listed)

lemma Run_handles_until_shutdown:
  "GRPC_QUEUE_SHUTDOWN \<notin> set evs \<Longrightarrow>
     Run listed_next (listed_dc dc) (listed_del del) (evs @ GRPC_QUEUE_SHUTDOWN # rest, a) =
       Some (bind_o (handle_all dc del evs a) (\<lambda>a'. Done (rest, a')))"
proof (induction evs arbitrary: a)
  case Nil
  show ?case by (subst Run.simps) (simp add: DoNextCompletion_listed)
next
  case (Cons ev evs)
  show ?case
  proof (cases "handle_event dc del ev a")
    case (Abort why)
    then show ?thesis by (subst Run.simps) (simp add: DoNextCompletion_listed)
  next
    case (Done r)
    then obtain go a' where r: "handle_event dc del ev a = Done (go, a')" by (cases r) auto
    with handle_event_go [OF r] Cons.prems have "go" by auto
    with r Cons show ?thesis by (subst Run.simps) (simp add: DoNextCompletion_listed)
  qed
qed

end
