(* ===== verification/Client_Async_Writer.thy ===== *)
theory Client_Async_Writer
  imports Machine Completion_Queue
begin

text \<open>
  \<^verbatim>\<open>core/client/impl/client_async_writer_impl*\<close>: the client end of a client-streaming call.
  Messages are queued and sent one at a time, then the stream is closed and the close
  callback gets the response and the status.

  The state is the class's members under the same names, its call, and \<open>caw_cb_log\<close>, the
  calls of the close callback made so far. A callback may call back into the writer, since
  the mutex is recursive; it runs while \<open>is_closing_\<close> is set, and
  \<open>ClientAsyncWriterImpl_reentrant\<close> shows that every call it can make then changes nothing.
\<close>

section \<open>State and operations\<close>

datatype caw_tag = CawSendInitMd | CawSendMsg | CawClose

record ('cb, 'buf) ClientAsyncWriterImpl =
  caw_call :: "(caw_tag, 'buf) Call"
  caw_status :: Status
  caw_has_sent_close :: bool
  caw_close_cb :: "'cb option"
  caw_is_closing :: bool
  caw_msg_queue :: "string list"
  caw_cb_log :: "('cb \<times> Status \<times> string) list"

type_synonym ('cb, 'buf) caw_op = "('cb, 'buf) ClientAsyncWriterImpl \<Rightarrow> ('cb, 'buf) ClientAsyncWriterImpl outcome"

text \<open>The constructor; gRPC's \<^verbatim>\<open>MakeSharedCall\<close> yields the fresh call \<open>c\<close>.\<close>

definition ClientAsyncWriterImpl_new ::
  "'buf grpc_lib \<Rightarrow> (caw_tag, 'buf) Call option \<Rightarrow> ('cb, 'buf) ClientAsyncWriterImpl outcome" where
  "ClientAsyncWriterImpl_new G call_sptr =
     (case call_sptr of
        None \<Rightarrow> Abort ''call_sptr_''
      | Some c \<Rightarrow>
          (let s = \<lparr>caw_call = c, caw_status = Status_default, caw_has_sent_close = False,
                    caw_close_cb = None, caw_is_closing = False, caw_msg_queue = [],
                    caw_cb_log = []\<rparr>
           in bind_o (ClientSendInitMdCqTag_Start G CawSendInitMd (new_tag CawSendInitMd c))
                (\<lambda>(started, c').
                  if started then Done (s\<lparr>caw_call := c'\<rparr>)
                  else assert_o (\<not> caw_is_closing s) ''!is_closing_''
                    (Done (s\<lparr>caw_call := delete_tag CawSendInitMd c',
                             caw_status := SetInternalError
                               ''Failed to init client-side streaming.'' (caw_status s)\<rparr>)))))"

definition ClientAsyncWriterImpl_CallCloseCb ::
  "string \<Rightarrow> ('cb, 'buf) ClientAsyncWriterImpl \<Rightarrow> ('cb, 'buf) ClientAsyncWriterImpl" where
  "ClientAsyncWriterImpl_CallCloseCb sMsg s =
     (case caw_close_cb s of
        None \<Rightarrow> s
      | Some cb \<Rightarrow> s\<lparr>caw_cb_log := caw_cb_log s @ [(cb, caw_status s, sMsg)], caw_close_cb := None\<rparr>)"

definition ClientAsyncWriterImpl_TryToCallCloseCb :: "('cb, 'buf) caw_op" where
  "ClientAsyncWriterImpl_TryToCallCloseCb s =
     assert_o (\<not> status_ok (caw_status s)) ''!status_.ok()''
       (Done (if caw_is_closing s then ClientAsyncWriterImpl_CallCloseCb '''' s else s))"

text \<open>\<^verbatim>\<open>SendNext\<close> starts to send the front message; the flag is its return value.\<close>

definition ClientAsyncWriterImpl_SendNext ::
  "'buf grpc_lib \<Rightarrow> ('cb, 'buf) ClientAsyncWriterImpl \<Rightarrow> (bool \<times> ('cb, 'buf) ClientAsyncWriterImpl) outcome"
where
  "ClientAsyncWriterImpl_SendNext G s =
     assert_o (caw_msg_queue s \<noteq> []) ''!msg_queue_.empty()''
      (assert_o (status_ok (caw_status s)) ''status_.ok()''
        (bind_o (ClientSendMsgCqTag_Start G (hd (caw_msg_queue s)) CawSendMsg
                   (new_tag CawSendMsg (caw_call s)))
           (\<lambda>(started, c).
             if started then Done (True, s\<lparr>caw_call := c\<rparr>)
             else bind_o (ClientAsyncWriterImpl_TryToCallCloseCb
                            (s\<lparr>caw_call := delete_tag CawSendMsg c,
                               caw_status := SetInternalError
                                 ''Failed to write client-side streaming.'' (caw_status s)\<rparr>))
                    (\<lambda>s'. Done (False, s')))))"

definition ClientAsyncWriterImpl_SendClose :: "'buf grpc_lib \<Rightarrow> ('cb, 'buf) caw_op" where
  "ClientAsyncWriterImpl_SendClose G s =
     assert_o (caw_is_closing s) ''is_closing_''
      (assert_o (\<not> caw_has_sent_close s) ''!has_sent_close_''
        (let s1 = s\<lparr>caw_has_sent_close := True\<rparr>
         in assert_o (status_ok (caw_status s1)) ''status_.ok()''
              (bind_o (ClientWriterCloseCqTag_Start G CawClose (new_tag CawClose (caw_call s1)))
                 (\<lambda>(started, c).
                   if started then Done (s1\<lparr>caw_call := c\<rparr>)
                   else Done (ClientAsyncWriterImpl_CallCloseCb ''''
                          (s1\<lparr>caw_call := delete_tag CawClose c,
                              caw_status := SetInternalError
                                ''Failed to close client-side streaming.'' (caw_status s1)\<rparr>))))))"

definition ClientAsyncWriterImpl_Write ::
  "'buf grpc_lib \<Rightarrow> string \<Rightarrow> ('cb, 'buf) ClientAsyncWriterImpl \<Rightarrow>
     (bool \<times> ('cb, 'buf) ClientAsyncWriterImpl) outcome" where
  "ClientAsyncWriterImpl_Write G request s =
     (if \<not> status_ok (caw_status s) then Done (False, s)
      else if caw_is_closing s then Done (False, s)
      else
        (let is_sending = (caw_msg_queue s \<noteq> []);
             s1 = s\<lparr>caw_msg_queue := caw_msg_queue s @ [request]\<rparr>
         in if is_sending then Done (True, s1) else ClientAsyncWriterImpl_SendNext G s1))"

definition ClientAsyncWriterImpl_Close ::
  "'buf grpc_lib \<Rightarrow> 'cb option \<Rightarrow> ('cb, 'buf) caw_op" where
  "ClientAsyncWriterImpl_Close G close_cb s =
     (if caw_is_closing s then Done s
      else
        (let s1 = s\<lparr>caw_is_closing := True, caw_close_cb := close_cb\<rparr>
         in if \<not> status_ok (caw_status s1) then Done (ClientAsyncWriterImpl_CallCloseCb '''' s1)
            else if caw_msg_queue s1 = [] then ClientAsyncWriterImpl_SendClose G s1
            else Done s1))"

definition ClientAsyncWriterImpl_OnSent :: "'buf grpc_lib \<Rightarrow> bool \<Rightarrow> ('cb, 'buf) caw_op" where
  "ClientAsyncWriterImpl_OnSent G success s =
     assert_o (caw_msg_queue s \<noteq> []) ''!msg_queue_.empty()''
       (let s1 = s\<lparr>caw_msg_queue := tl (caw_msg_queue s)\<rparr>
        in if \<not> status_ok (caw_status s1)
           then assert_o (caw_close_cb s1 = None) ''!close_cb_'' (Done s1)
           else if \<not> success
           then ClientAsyncWriterImpl_TryToCallCloseCb
                  (s1\<lparr>caw_status := SetInternalError ''Failed to send message.'' (caw_status s1)\<rparr>)
           else if caw_msg_queue s1 \<noteq> []
           then bind_o (ClientAsyncWriterImpl_SendNext G s1) (\<lambda>(sent, s2). Done s2)
           else if caw_is_closing s1 then ClientAsyncWriterImpl_SendClose G s1
           else Done s1)"

definition ClientAsyncWriterImpl_OnClosed ::
  "'buf grpc_lib \<Rightarrow> bool \<Rightarrow> 'buf ClientWriterCloseCqTag \<Rightarrow> ('cb, 'buf) caw_op" where
  "ClientAsyncWriterImpl_OnClosed G success tag s =
     (if \<not> status_ok (caw_status s)
      then assert_o (caw_close_cb s = None) ''!close_cb_'' (Done s)
      else if \<not> ClientWriterCloseCqTag_IsStatusOk tag
      then Done (ClientAsyncWriterImpl_CallCloseCb ''''
             (s\<lparr>caw_status := ClientWriterCloseCqTag_GetStatus tag\<rparr>))
      else bind_o (ClientWriterCloseCqTag_GetResponse G tag '''') (\<lambda>(status, sMsg).
             Done (ClientAsyncWriterImpl_CallCloseCb sMsg (s\<lparr>caw_status := status\<rparr>))))"

text \<open>
  \<^verbatim>\<open>ClientAsyncWriterImplWrapper\<close>, shared by the copies of \<^verbatim>\<open>ClientAsyncWriter\<close>: the last copy's
  destruction closes the stream without a callback.
\<close>

definition ClientAsyncWriterImplWrapper_dtor :: "'buf grpc_lib \<Rightarrow> ('cb, 'buf) caw_op" where
  "ClientAsyncWriterImplWrapper_dtor G s = ClientAsyncWriterImpl_Close G None s"

section \<open>The machine\<close>

text \<open>The completion callbacks the tags were created with.\<close>

fun caw_DoComplete :: "'buf grpc_lib \<Rightarrow> caw_tag \<Rightarrow> 'buf completion \<Rightarrow> ('cb, 'buf) caw_op" where
  "caw_DoComplete G CawSendInitMd cp s = GeneralCallCqTag_DoComplete None (cp_success cp) s"
| "caw_DoComplete G CawSendMsg cp s =
     GeneralCallCqTag_DoComplete (Some (ClientAsyncWriterImpl_OnSent G)) (cp_success cp) s"
| "caw_DoComplete G CawClose cp s =
     GeneralCallCqTag_DoComplete
       (Some (\<lambda>success. ClientAsyncWriterImpl_OnClosed G success (ClientWriterCloseCqTag_completed cp)))
       (cp_success cp) s"

definition caw_delete :: "caw_tag \<Rightarrow> ('cb, 'buf) ClientAsyncWriterImpl \<Rightarrow> ('cb, 'buf) ClientAsyncWriterImpl" where
  "caw_delete tag s = s\<lparr>caw_call := delete_tag tag (caw_call s)\<rparr>"

definition caw_pop :: "caw_tag \<Rightarrow> ('cb, 'buf) ClientAsyncWriterImpl \<Rightarrow> ('cb, 'buf) ClientAsyncWriterImpl" where
  "caw_pop tag s = s\<lparr>caw_call := pop_pending tag (caw_call s)\<rparr>"

datatype ('cb, 'buf) caw_event =
    CawWriteCall string
  | CawCloseCall "'cb option"
  | CawDtor
  | CawCompletion caw_tag "'buf completion"

text \<open>
  A batch completes while it is pending. \<open>caw_en\<close> leaves out one completion: a close batch that
  ends with status OK and no response message, which fails an assertion. \<open>caw_may\<close> below puts
  it back, and \<open>caw_never_aborts\<close> is stated over that.
\<close>

fun caw_en :: "('cb, 'buf) caw_event \<Rightarrow> ('cb, 'buf) ClientAsyncWriterImpl \<Rightarrow> bool" where
  "caw_en (CawCompletion tag cp) s \<longleftrightarrow>
     tag \<in> pend (caw_call s) \<and>
     (tag = CawClose \<and> cp_status cp = GRPC_STATUS_OK \<longrightarrow> cp_recv_buf cp \<noteq> None)"
| "caw_en _ s \<longleftrightarrow> True"

fun caw_step ::
  "'buf grpc_lib \<Rightarrow> ('cb, 'buf) caw_event \<Rightarrow> ('cb, 'buf) ClientAsyncWriterImpl \<Rightarrow>
     (bool \<times> ('cb, 'buf) ClientAsyncWriterImpl) outcome" where
  "caw_step G (CawWriteCall request) s = ClientAsyncWriterImpl_Write G request s"
| "caw_step G (CawCloseCall close_cb) s =
     bind_o (ClientAsyncWriterImpl_Close G close_cb s) (\<lambda>s'. Done (True, s'))"
| "caw_step G CawDtor s = bind_o (ClientAsyncWriterImplWrapper_dtor G s) (\<lambda>s'. Done (True, s'))"
| "caw_step G (CawCompletion tag cp) s =
     handle_event (caw_DoComplete G) caw_delete (GRPC_OP_COMPLETE (Some tag) cp) (caw_pop tag s)"

definition caw_start :: "'buf grpc_lib \<Rightarrow> ('cb, 'buf) ClientAsyncWriterImpl \<Rightarrow> bool" where
  "caw_start G s \<longleftrightarrow> ClientAsyncWriterImpl_new G (Some Call_fresh) = Done s"

section \<open>The invariant\<close>

fun caw_kinds :: "caw_tag \<Rightarrow> grpc_op_type list" where
  "caw_kinds CawSendInitMd = [GRPC_OP_SEND_INITIAL_METADATA]"
| "caw_kinds CawSendMsg = [GRPC_OP_SEND_MESSAGE]"
| "caw_kinds CawClose = [GRPC_OP_SEND_CLOSE_FROM_CLIENT, GRPC_OP_RECV_INITIAL_METADATA,
     GRPC_OP_RECV_MESSAGE, GRPC_OP_RECV_STATUS_ON_CLIENT]"

text \<open>
  \<open>caw_ctl\<close> relates the flags, the queue and the pending tags: a message is being sent
  exactly while the queue is not empty and no error has occurred; the close batch goes out
  once, after the last message; a close callback waits only while something is under way.
\<close>

definition caw_ctl :: "('cb, 'buf) ClientAsyncWriterImpl \<Rightarrow> bool" where
  "caw_ctl s \<longleftrightarrow>
     (let P = pend (caw_call s); ok = status_ok (caw_status s) in
      (CawSendMsg \<in> P \<longleftrightarrow> ok \<and> caw_msg_queue s \<noteq> []) \<and>
      (CawClose \<in> P \<longrightarrow> ok \<and> caw_has_sent_close s) \<and>
      (caw_has_sent_close s \<longrightarrow> caw_is_closing s \<and> (ok \<longrightarrow> caw_msg_queue s = [])) \<and>
      (ok \<and> caw_is_closing s \<and> caw_msg_queue s = [] \<longrightarrow> caw_has_sent_close s) \<and>
      (caw_close_cb s \<noteq> None \<longrightarrow> caw_is_closing s \<and> ok \<and> (caw_msg_queue s \<noteq> [] \<or> CawClose \<in> P)))"

text \<open>\<open>extra\<close> are the tags whose completion is being processed.\<close>

definition caw_ok :: "caw_tag list \<Rightarrow> ('cb, 'buf) ClientAsyncWriterImpl \<Rightarrow> bool" where
  "caw_ok extra s \<longleftrightarrow> tags_ok caw_kinds extra (caw_call s) \<and> caw_ctl s"

named_theorems caw_ops

lemma CallCloseCb_fields [simp]:
  "caw_call (ClientAsyncWriterImpl_CallCloseCb m s) = caw_call s"
  "caw_status (ClientAsyncWriterImpl_CallCloseCb m s) = caw_status s"
  "caw_has_sent_close (ClientAsyncWriterImpl_CallCloseCb m s) = caw_has_sent_close s"
  "caw_close_cb (ClientAsyncWriterImpl_CallCloseCb m s) = None"
  "caw_is_closing (ClientAsyncWriterImpl_CallCloseCb m s) = caw_is_closing s"
  "caw_msg_queue (ClientAsyncWriterImpl_CallCloseCb m s) = caw_msg_queue s"
  "map fst (caw_cb_log (ClientAsyncWriterImpl_CallCloseCb m s)) =
     map fst (caw_cb_log s) @ opt_list (caw_close_cb s)"
  by (simp_all add: ClientAsyncWriterImpl_CallCloseCb_def split: option.splits)

text \<open>What a failing batch leaves: the error status, and the callback called if closing.\<close>

definition caw_fail :: "string \<Rightarrow> ('cb, 'buf) ClientAsyncWriterImpl \<Rightarrow> ('cb, 'buf) ClientAsyncWriterImpl" where
  "caw_fail msg s =
     (let s1 = s\<lparr>caw_status := SetInternalError msg (caw_status s)\<rparr>
      in if caw_is_closing s then ClientAsyncWriterImpl_CallCloseCb '''' s1 else s1)"

abbreviation caw_msg_batch :: "'buf grpc_lib \<Rightarrow> ('cb, 'buf) ClientAsyncWriterImpl \<Rightarrow> 'buf grpc_op list" where
  "caw_msg_batch G s \<equiv> [SendMessage (grpc_raw_byte_buffer_create G (hd (caw_msg_queue s)))]"

abbreviation close_batch :: "'buf grpc_op list" where
  "close_batch \<equiv> [SendCloseFromClient, RecvInitialMetadata, RecvMessage, RecvStatusOnClient]"

lemma caw_SendNext_eq [caw_ops]:
  "caw_msg_queue s \<noteq> [] \<Longrightarrow> status_ok (caw_status s) \<Longrightarrow>
   ClientAsyncWriterImpl_SendNext G s =
     (let s1 = s\<lparr>caw_call := launched G (caw_msg_batch G s) CawSendMsg (caw_call s)\<rparr>
      in if takes G (caw_call s) (caw_msg_batch G s) then Done (True, s1)
         else Done (False, caw_fail ''Failed to write client-side streaming.'' s1))"
  by (simp add: ClientAsyncWriterImpl_SendNext_def tag_batches submit_new_tag caw_fail_def
      ClientAsyncWriterImpl_TryToCallCloseCb_def Let_def)

lemma caw_SendClose_eq [caw_ops]:
  "caw_is_closing s \<Longrightarrow> \<not> caw_has_sent_close s \<Longrightarrow> status_ok (caw_status s) \<Longrightarrow>
   ClientAsyncWriterImpl_SendClose G s =
     (let s1 = s\<lparr>caw_has_sent_close := True,
                 caw_call := launched G close_batch CawClose (caw_call s)\<rparr>
      in Done (if takes G (caw_call s) close_batch then s1
               else caw_fail ''Failed to close client-side streaming.'' s1))"
  by (simp add: ClientAsyncWriterImpl_SendClose_def tag_batches submit_new_tag caw_fail_def Let_def)

lemma caw_fail_fields [simp]:
  "caw_call (caw_fail m s) = caw_call s"
  "\<not> status_ok (caw_status (caw_fail m s))"
  "caw_has_sent_close (caw_fail m s) = caw_has_sent_close s"
  "caw_close_cb (caw_fail m s) = (if caw_is_closing s then None else caw_close_cb s)"
  "caw_is_closing (caw_fail m s) = caw_is_closing s"
  "caw_msg_queue (caw_fail m s) = caw_msg_queue s"
  by (simp_all add: caw_fail_def Let_def)

text \<open>
  The two ways on, from a state where no message and no close is pending, keep the invariant.
\<close>

definition caw_idle :: "('cb, 'buf) ClientAsyncWriterImpl \<Rightarrow> bool" where
  "caw_idle s \<longleftrightarrow> CawSendMsg \<notin> pend (caw_call s) \<and>
     CawClose \<notin> pend (caw_call s) \<and> status_ok (caw_status s) \<and>
     \<not> caw_has_sent_close s \<and> (caw_close_cb s \<noteq> None \<longrightarrow> caw_is_closing s)"

lemma SendNext_keeps:
  "tags_ok caw_kinds extra (caw_call s) \<Longrightarrow> caw_idle s \<Longrightarrow> caw_msg_queue s \<noteq> [] \<Longrightarrow>
   holds (\<lambda>(sent, s'). caw_ok extra s') (ClientAsyncWriterImpl_SendNext G s)"
  by (auto simp: caw_ops caw_idle_def caw_ok_def caw_ctl_def Let_def intro!: tags_ok_launched)

lemma SendClose_keeps:
  "tags_ok caw_kinds extra (caw_call s) \<Longrightarrow> caw_idle s \<Longrightarrow> caw_msg_queue s = [] \<Longrightarrow> caw_is_closing s \<Longrightarrow>
   holds (caw_ok extra) (ClientAsyncWriterImpl_SendClose G s)"
  by (auto simp: caw_ops caw_idle_def caw_ok_def caw_ctl_def Let_def intro!: tags_ok_launched)

lemma Write_keeps:
  assumes "caw_ok [] s"
  shows "holds (\<lambda>(accepted, s'). caw_ok [] s') (ClientAsyncWriterImpl_Write G request s)"
proof -
  have "holds (\<lambda>(sent, s'). caw_ok [] s')
          (ClientAsyncWriterImpl_SendNext G (s\<lparr>caw_msg_queue := [request]\<rparr>))"
    if "status_ok (caw_status s)" "\<not> caw_is_closing s" "caw_msg_queue s = []"
    using assms that by (intro SendNext_keeps) (auto simp: caw_ok_def caw_idle_def caw_ctl_def Let_def)
  moreover have "caw_ok [] (s\<lparr>caw_msg_queue := caw_msg_queue s @ [request]\<rparr>)"
    if "status_ok (caw_status s)" "\<not> caw_is_closing s" "caw_msg_queue s \<noteq> []"
    using assms that by (auto simp: caw_ok_def caw_ctl_def Let_def)
  ultimately show ?thesis using assms by (auto simp: ClientAsyncWriterImpl_Write_def Let_def)
qed

lemma Close_keeps:
  assumes "caw_ok [] s"
  shows "holds (caw_ok []) (ClientAsyncWriterImpl_Close G cb s)"
proof -
  let ?s = "s\<lparr>caw_is_closing := True, caw_close_cb := cb\<rparr>"
  have "holds (caw_ok []) (ClientAsyncWriterImpl_SendClose G ?s)"
    if "status_ok (caw_status s)" "\<not> caw_is_closing s" "caw_msg_queue s = []"
    using assms that by (intro SendClose_keeps) (auto simp: caw_ok_def caw_idle_def caw_ctl_def Let_def)
  moreover have "caw_ok [] ?s"
    if "status_ok (caw_status s)" "\<not> caw_is_closing s" "caw_msg_queue s \<noteq> []"
    using assms that by (auto simp: caw_ok_def caw_ctl_def Let_def)
  moreover have "caw_ok [] (ClientAsyncWriterImpl_CallCloseCb '''' ?s)"
    if "\<not> status_ok (caw_status s)" "\<not> caw_is_closing s"
    using assms that by (auto simp: caw_ok_def caw_ctl_def Let_def)
  ultimately show ?thesis using assms by (auto simp: ClientAsyncWriterImpl_Close_def Let_def)
qed

lemma OnSent_keeps:
  assumes "tags_ok caw_kinds extra (caw_call s)" and "caw_idle s" and "caw_msg_queue s \<noteq> []"
  shows "holds (caw_ok extra) (ClientAsyncWriterImpl_OnSent G success s)"
proof -
  let ?s = "s\<lparr>caw_msg_queue := tl (caw_msg_queue s)\<rparr>"
  have "holds (\<lambda>(sent, s'). caw_ok extra s') (ClientAsyncWriterImpl_SendNext G ?s)"
    if "tl (caw_msg_queue s) \<noteq> []"
    using assms that by (intro SendNext_keeps) (auto simp: caw_idle_def)
  moreover have "holds (caw_ok extra) (ClientAsyncWriterImpl_SendClose G ?s)"
    if "tl (caw_msg_queue s) = []" "caw_is_closing s"
    using assms that by (intro SendClose_keeps) (auto simp: caw_idle_def)
  moreover have "caw_ok extra (caw_fail ''Failed to send message.'' ?s)"
    using assms by (auto simp: caw_ok_def caw_idle_def caw_ctl_def Let_def)
  moreover have "caw_ok extra ?s" if "tl (caw_msg_queue s) = []" "\<not> caw_is_closing s"
    using assms that by (auto simp: caw_ok_def caw_idle_def caw_ctl_def Let_def)
  moreover have "status_ok (caw_status s)" using assms by (simp add: caw_idle_def)
  ultimately show ?thesis using assms(3)
    by (auto simp: ClientAsyncWriterImpl_OnSent_def Let_def caw_fail_def
        ClientAsyncWriterImpl_TryToCallCloseCb_def case_prod_unfold)
qed

lemma OnClosed_keeps:
  assumes "tags_ok caw_kinds extra (caw_call s)"
    and "CawSendMsg \<notin> pend (caw_call s)" "CawClose \<notin> pend (caw_call s)"
    and "status_ok (caw_status s)" "caw_has_sent_close s" "caw_is_closing s" "caw_msg_queue s = []"
    and "cp_status cp = GRPC_STATUS_OK \<longrightarrow> cp_recv_buf cp \<noteq> None"
  shows "holds (caw_ok extra)
           (ClientAsyncWriterImpl_OnClosed G success (ClientWriterCloseCqTag_completed cp) s)"
  using assms
  by (auto simp: ClientAsyncWriterImpl_OnClosed_def caw_ok_def caw_ctl_def Let_def case_prod_unfold)

lemma caw_pop_fields [simp]:
  "caw_call (caw_pop t s) = pop_pending t (caw_call s)"
  "caw_status (caw_pop t s) = caw_status s"
  "caw_has_sent_close (caw_pop t s) = caw_has_sent_close s"
  "caw_close_cb (caw_pop t s) = caw_close_cb s"
  "caw_is_closing (caw_pop t s) = caw_is_closing s"
  "caw_msg_queue (caw_pop t s) = caw_msg_queue s"
  "caw_cb_log (caw_pop t s) = caw_cb_log s"
  by (simp_all add: caw_pop_def)

lemma caw_delete_fields [simp]:
  "caw_call (caw_delete t s) = delete_tag t (caw_call s)"
  "caw_status (caw_delete t s) = caw_status s"
  "caw_has_sent_close (caw_delete t s) = caw_has_sent_close s"
  "caw_close_cb (caw_delete t s) = caw_close_cb s"
  "caw_is_closing (caw_delete t s) = caw_is_closing s"
  "caw_msg_queue (caw_delete t s) = caw_msg_queue s"
  "caw_cb_log (caw_delete t s) = caw_cb_log s"
  by (simp_all add: caw_delete_def)

lemma caw_ok_delete: "caw_ok [t] s \<Longrightarrow> caw_ok [] (caw_delete t s)"
  by (simp add: caw_ok_def caw_ctl_def tags_ok_delete)

lemma caw_popped:
  assumes "caw_ok [] s" "t \<in> pend (caw_call s)"
  shows "tags_ok caw_kinds [t] (caw_call (caw_pop t s))"
    and "pend (pop_pending t (caw_call s)) = pend (caw_call s) - {t}"
  using assms by (simp_all add: caw_ok_def tags_ok_pop pend_pop [of caw_kinds "[]"])

lemma caw_ctl_sending:
  "caw_ctl s \<Longrightarrow> CawSendMsg \<in> pend (caw_call s) \<Longrightarrow>
     status_ok (caw_status s) \<and> caw_msg_queue s \<noteq> [] \<and> CawClose \<notin> pend (caw_call s) \<and>
     \<not> caw_has_sent_close s \<and> (caw_close_cb s \<noteq> None \<longrightarrow> caw_is_closing s)"
  unfolding caw_ctl_def Let_def by blast

lemma caw_ctl_closing:
  "caw_ctl s \<Longrightarrow> CawClose \<in> pend (caw_call s) \<Longrightarrow>
     status_ok (caw_status s) \<and> caw_msg_queue s = [] \<and> CawSendMsg \<notin> pend (caw_call s) \<and>
     caw_has_sent_close s \<and> caw_is_closing s"
  unfolding caw_ctl_def Let_def by blast

lemma completion_keeps:
  assumes "caw_ok [] s" "caw_en (CawCompletion t cp) s"
  shows "holds (caw_ok [t]) (caw_DoComplete G t cp (caw_pop t s))"
proof -
  from assms(2) have t: "t \<in> pend (caw_call s)" by simp
  note pop = caw_popped [OF assms(1) t]
  from assms(1) have ctl: "caw_ctl s" by (simp add: caw_ok_def)
  show ?thesis
  proof (cases t)
    case CawSendInitMd
    have "caw_ctl (caw_pop t s)"
      using ctl CawSendInitMd unfolding caw_ctl_def Let_def caw_pop_fields pop(2) by blast
    with pop(1) have "caw_ok [t] (caw_pop t s)" by (simp add: caw_ok_def)
    with CawSendInitMd show ?thesis by (simp add: GeneralCallCqTag_DoComplete_def)
  next
    case CawSendMsg
    have "caw_idle (caw_pop t s)" "caw_msg_queue (caw_pop t s) \<noteq> []"
      using caw_ctl_sending [OF ctl] pop(2) t CawSendMsg by (auto simp: caw_idle_def)
    with pop(1) have "holds (caw_ok [t]) (ClientAsyncWriterImpl_OnSent G (cp_success cp) (caw_pop t s))"
      by (rule OnSent_keeps)
    with CawSendMsg show ?thesis by simp
  next
    case CawClose
    then have "holds (caw_ok [t]) (ClientAsyncWriterImpl_OnClosed G (cp_success cp)
                 (ClientWriterCloseCqTag_completed cp) (caw_pop t s))"
      using caw_ctl_closing [OF ctl] pop t assms(2) by (intro OnClosed_keeps) auto
    with CawClose show ?thesis by simp
  qed
qed

lemma caw_step_keeps:
  assumes "caw_ok [] s" "caw_en e s"
  shows "holds (\<lambda>(out, s'). caw_ok [] s') (caw_step G e s)"
proof (cases e)
  case (CawWriteCall request)
  with Write_keeps [OF assms(1)] show ?thesis by simp
next
  case (CawCloseCall cb)
  with Close_keeps [OF assms(1)] show ?thesis by simp
next
  case CawDtor
  with Close_keeps [OF assms(1)] show ?thesis by (simp add: ClientAsyncWriterImplWrapper_dtor_def)
next
  case (CawCompletion t cp)
  with completion_keeps [of s t cp G] assms show ?thesis
    by (auto intro: holds_mono caw_ok_delete)
qed

lemma caw_start_ok: "caw_start G s \<Longrightarrow> caw_ok [] s"
  by (auto simp: caw_start_def ClientAsyncWriterImpl_new_def tag_batches submit_new_tag Let_def
      caw_ok_def caw_ctl_def intro!: tags_ok_launched split: if_splits)

section \<open>The messages in order\<close>

definition caw_handed :: "('cb, 'buf) ClientAsyncWriterImpl \<Rightarrow> 'buf list" where
  "caw_handed s = taken_msgs (call_batches (caw_call s))"

definition caw_waiting :: "'buf grpc_lib \<Rightarrow> ('cb, 'buf) ClientAsyncWriterImpl \<Rightarrow> 'buf list" where
  "caw_waiting G s = map (grpc_raw_byte_buffer_create G) (tl (caw_msg_queue s))"

fun caw_accepts :: "'buf grpc_lib \<Rightarrow> ('cb, 'buf) caw_event \<Rightarrow> bool \<Rightarrow> 'buf list" where
  "caw_accepts G (CawWriteCall request) True = [grpc_raw_byte_buffer_create G request]"
| "caw_accepts G _ _ = []"

text \<open>How a step moves messages, in the four cases the sender's contract distinguishes.\<close>

definition caw_flow ::
  "'buf grpc_lib \<Rightarrow> 'buf list \<Rightarrow> ('cb, 'buf) ClientAsyncWriterImpl \<Rightarrow> ('cb, 'buf) ClientAsyncWriterImpl \<Rightarrow> bool"
where
  "caw_flow G ms s s' \<longleftrightarrow>
     (if \<not> status_ok (caw_status s)
      then \<not> status_ok (caw_status s') \<and> caw_handed s' = caw_handed s \<and> ms = []
      else if status_ok (caw_status s')
      then caw_handed s' @ caw_waiting G s' = caw_handed s @ caw_waiting G s @ ms
      else prefix (caw_handed s') (caw_handed s @ caw_waiting G s @ ms))"

lemma caw_handed_calls [simp]:
  "caw_handed (ClientAsyncWriterImpl_CallCloseCb m s) = caw_handed s"
  "caw_handed (caw_fail m s) = caw_handed s"
  "caw_handed (caw_pop t s) = caw_handed s"
  "caw_handed (caw_delete t s) = caw_handed s"
  by (simp_all add: caw_handed_def)

lemma caw_waiting_frames [simp]:
  "caw_waiting G (ClientAsyncWriterImpl_CallCloseCb m s) = caw_waiting G s"
  "caw_waiting G (caw_fail m s) = caw_waiting G s"
  "caw_waiting G (caw_pop t s) = caw_waiting G s"
  "caw_waiting G (caw_delete t s) = caw_waiting G s"
  by (simp_all add: caw_waiting_def)

lemma caw_flow_frames [simp]:
  "caw_flow G ms (caw_pop t s) s' = caw_flow G ms s s'"
  "caw_flow G ms s (caw_delete t s') = caw_flow G ms s s'"
  by (simp_all add: caw_flow_def)

lemmas caw_flow_simps = caw_SendNext_eq caw_SendClose_eq caw_flow_def caw_waiting_def caw_handed_def Let_def

lemma Write_flow:
  "holds (\<lambda>(out, s'). caw_flow G (caw_accepts G (CawWriteCall request) out) s s')
     (ClientAsyncWriterImpl_Write G request s)"
  by (cases "caw_msg_queue s") (auto simp: ClientAsyncWriterImpl_Write_def caw_flow_simps)

lemma Close_flow:
  assumes "caw_ok [] s"
  shows "holds (caw_flow G [] s) (ClientAsyncWriterImpl_Close G cb s)"
proof -
  have "\<not> caw_has_sent_close s" if "\<not> caw_is_closing s"
    using assms that unfolding caw_ok_def caw_ctl_def Let_def by blast
  then show ?thesis by (auto simp: ClientAsyncWriterImpl_Close_def caw_flow_simps)
qed

lemma OnSent_flow:
  assumes "caw_idle s" and "caw_msg_queue s \<noteq> []"
  shows "holds (caw_flow G [] s) (ClientAsyncWriterImpl_OnSent G success s)"
proof -
  from assms obtain m ms where q: "caw_msg_queue s = m # ms" by (cases "caw_msg_queue s") auto
  from assms(1) have "status_ok (caw_status s)" "\<not> caw_has_sent_close s"
    by (simp_all add: caw_idle_def)
  with q show ?thesis
    by (cases ms) (auto simp: ClientAsyncWriterImpl_OnSent_def
        ClientAsyncWriterImpl_TryToCallCloseCb_def caw_flow_simps)
qed

lemma OnClosed_flow:
  "caw_msg_queue s = [] \<Longrightarrow> status_ok (caw_status s) \<Longrightarrow>
   cp_status cp = GRPC_STATUS_OK \<longrightarrow> cp_recv_buf cp \<noteq> None \<Longrightarrow>
   holds (caw_flow G [] s)
     (ClientAsyncWriterImpl_OnClosed G success (ClientWriterCloseCqTag_completed cp) s)"
  by (auto simp: ClientAsyncWriterImpl_OnClosed_def caw_flow_def case_prod_unfold caw_waiting_def
      caw_handed_def)

lemma caw_step_flow:
  assumes "caw_ok [] s" "caw_en e s"
  shows "holds (\<lambda>(out, s'). caw_flow G (caw_accepts G e out) s s') (caw_step G e s)"
proof (cases e)
  case (CawWriteCall request)
  with Write_flow show ?thesis by simp
next
  case (CawCloseCall cb)
  with Close_flow [OF assms(1)] show ?thesis by simp
next
  case CawDtor
  with Close_flow [OF assms(1)] show ?thesis by (simp add: ClientAsyncWriterImplWrapper_dtor_def)
next
  case (CawCompletion t cp)
  from assms(1) have ctl: "caw_ctl s" by (simp add: caw_ok_def)
  have "holds (caw_flow G [] (caw_pop t s)) (caw_DoComplete G t cp (caw_pop t s))"
  proof (cases t)
    case CawSendInitMd
    then show ?thesis by (simp add: GeneralCallCqTag_DoComplete_def caw_flow_def)
  next
    case CawSendMsg
    with caw_ctl_sending [OF ctl] assms CawCompletion have "caw_idle (caw_pop t s)"
      "caw_msg_queue (caw_pop t s) \<noteq> []"
      by (auto simp: caw_idle_def caw_ok_def pend_pop)
    then have "holds (caw_flow G [] (caw_pop t s))
                 (ClientAsyncWriterImpl_OnSent G (cp_success cp) (caw_pop t s))"
      by (rule OnSent_flow)
    with CawSendMsg show ?thesis by simp
  next
    case CawClose
    with caw_ctl_closing [OF ctl] assms(2) CawCompletion
      OnClosed_flow [of "caw_pop t s" cp G "cp_success cp"]
    show ?thesis by simp
  qed
  with CawCompletion show ?thesis by (auto elim!: holds_mono)
qed

interpretation caw: fifo_sender "caw_start G" caw_en "caw_step G" "caw_ok []" "caw_accepts G"
    caw_handed "caw_waiting G" "\<lambda>s. status_ok (caw_status s)" for G
proof (unfold_locales, goal_cases)
  case (1 s)
  then show ?case by (rule caw_start_ok)
next
  case (2 s e)
  then show ?case by (rule caw_step_keeps)
next
  case (3 s)
  then show ?case
    by (auto simp: caw_start_def ClientAsyncWriterImpl_new_def tag_batches submit_new_tag Let_def
        caw_handed_def caw_waiting_def split: if_splits)
next
  case (4 s e out s')
  with caw_step_flow [of s e G] show ?case by (simp add: caw_flow_def)
next
  case (5 s e out s')
  with caw_step_flow [of s e G] show ?case by (simp add: caw_flow_def)
next
  case (6 s e out s')
  with caw_step_flow [of s e G] show ?case by (simp add: caw_flow_def)
qed

section \<open>Completion of the call\<close>

fun caw_completes :: "('cb, 'buf) caw_event \<Rightarrow> bool" where
  "caw_completes (CawCompletion tag cp) \<longleftrightarrow> True"
| "caw_completes _ \<longleftrightarrow> False"

definition caw_work :: "('cb, 'buf) ClientAsyncWriterImpl \<Rightarrow> nat" where
  "caw_work s =
     2 * length (caw_msg_queue s) + (if CawSendInitMd \<in> pend (caw_call s) then 1 else 0) +
     (if CawClose \<in> pend (caw_call s) then 1 else 0)"

lemma caw_work_frames [simp]:
  "caw_work (ClientAsyncWriterImpl_CallCloseCb m s) = caw_work s"
  "caw_work (caw_fail m s) = caw_work s"
  "caw_work (caw_delete t s) = caw_work s"
  by (simp_all add: caw_work_def)

lemma OnSent_work:
  assumes "caw_idle s" and "caw_msg_queue s \<noteq> []"
  shows "holds (\<lambda>s'. caw_work s' < caw_work s) (ClientAsyncWriterImpl_OnSent G success s)"
proof -
  from assms obtain m ms where q: "caw_msg_queue s = m # ms" by (cases "caw_msg_queue s") auto
  from assms(1) have "status_ok (caw_status s)" "\<not> caw_has_sent_close s" "CawClose \<notin> pend (caw_call s)"
    by (simp_all add: caw_idle_def)
  with q show ?thesis
    by (cases ms) (auto simp: ClientAsyncWriterImpl_OnSent_def caw_SendNext_eq caw_SendClose_eq Let_def
        ClientAsyncWriterImpl_TryToCallCloseCb_def caw_work_def)
qed

lemma OnClosed_work:
  "status_ok (caw_status s) \<Longrightarrow> cp_status cp = GRPC_STATUS_OK \<longrightarrow> cp_recv_buf cp \<noteq> None \<Longrightarrow>
   holds (\<lambda>s'. caw_work s' = caw_work s)
     (ClientAsyncWriterImpl_OnClosed G success (ClientWriterCloseCqTag_completed cp) s)"
  by (auto simp: ClientAsyncWriterImpl_OnClosed_def case_prod_unfold caw_work_def)

lemma completion_work:
  assumes "caw_ok [] s" "caw_en (CawCompletion t cp) s"
  shows "holds (\<lambda>s'. caw_work s' < caw_work s) (caw_DoComplete G t cp (caw_pop t s))"
proof -
  from assms(2) have t: "t \<in> pend (caw_call s)" by simp
  note pop = caw_popped [OF assms(1) t]
  from assms(1) have ctl: "caw_ctl s" by (simp add: caw_ok_def)
  show ?thesis
  proof (cases t)
    case CawSendInitMd
    with pop(2) t show ?thesis by (simp add: GeneralCallCqTag_DoComplete_def caw_work_def)
  next
    case CawSendMsg
    then have "caw_idle (caw_pop t s)" "caw_msg_queue (caw_pop t s) \<noteq> []"
      using caw_ctl_sending [OF ctl] pop(2) t by (auto simp: caw_idle_def)
    then have "holds (\<lambda>s'. caw_work s' < caw_work (caw_pop t s))
                 (ClientAsyncWriterImpl_OnSent G (cp_success cp) (caw_pop t s))"
      by (rule OnSent_work)
    moreover have "caw_work (caw_pop t s) = caw_work s"
      using pop(2) CawSendMsg by (simp add: caw_work_def)
    ultimately show ?thesis using CawSendMsg by simp
  next
    case CawClose
    with t pop(2) have "caw_work (caw_pop t s) < caw_work s" by (simp add: caw_work_def)
    moreover have "holds (\<lambda>s'. caw_work s' = caw_work (caw_pop t s))
        (ClientAsyncWriterImpl_OnClosed G (cp_success cp) (ClientWriterCloseCqTag_completed cp)
          (caw_pop t s))"
      using caw_ctl_closing [OF ctl] CawClose t assms(2) by (intro OnClosed_work) auto
    ultimately show ?thesis using CawClose by (auto elim: holds_mono)
  qed
qed

interpretation caw_drain: draining "caw_start G" caw_en "caw_step G" "caw_ok []" caw_completes caw_work
  for G
proof (unfold_locales, goal_cases)
  case (1 s e out s')
  then obtain t cp where e: "e = CawCompletion t cp" by (cases e) auto
  with 1 completion_work [of s t cp G] show ?case by (auto simp: holds_iff outcome_simps)
qed

section \<open>The close callback\<close>

fun caw_close_call :: "('cb, 'buf) caw_event \<Rightarrow> 'cb option option" where
  "caw_close_call (CawCloseCall cb) = Some cb"
| "caw_close_call CawDtor = Some None"
| "caw_close_call _ = None"

text \<open>The callback given by the first call of \<^verbatim>\<open>Close\<close>, the only one that counts.\<close>

fun caw_given :: "(('cb, 'buf) caw_event \<times> bool) list \<Rightarrow> 'cb option option" where
  "caw_given [] = None"
| "caw_given ((e, out) # tr) = (case caw_close_call e of Some cb \<Rightarrow> Some cb | None \<Rightarrow> caw_given tr)"

lemma caw_given_snoc [simp]:
  "caw_given (tr @ [(e, out)]) = (case caw_given tr of Some cb \<Rightarrow> Some cb | None \<Rightarrow> caw_close_call e)"
  by (induction tr rule: caw_given.induct) (auto split: option.splits)

definition caw_cbs :: "('cb, 'buf) ClientAsyncWriterImpl \<Rightarrow> 'cb list" where
  "caw_cbs s = map fst (caw_cb_log s) @ opt_list (caw_close_cb s)"

lemma caw_cbs_frames [simp]:
  "caw_cbs (ClientAsyncWriterImpl_CallCloseCb m s) = caw_cbs s"
  "caw_cbs (caw_fail m s) = caw_cbs s"
  "caw_cbs (caw_pop t s) = caw_cbs s"
  "caw_cbs (caw_delete t s) = caw_cbs s"
  "caw_cbs (s\<lparr>caw_status := st\<rparr>) = caw_cbs s"
  "caw_cbs (s\<lparr>caw_call := c\<rparr>) = caw_cbs s"
  "caw_cbs (s\<lparr>caw_has_sent_close := b\<rparr>) = caw_cbs s"
  "caw_cbs (s\<lparr>caw_msg_queue := q\<rparr>) = caw_cbs s"
  by (simp_all add: caw_cbs_def ClientAsyncWriterImpl_CallCloseCb_def caw_fail_def Let_def
      split: option.splits)

text \<open>What a step does to the callbacks: only the first \<^verbatim>\<open>Close\<close> brings one.\<close>

definition caw_cb_step ::
  "'cb option option \<Rightarrow> ('cb, 'buf) ClientAsyncWriterImpl \<Rightarrow> ('cb, 'buf) ClientAsyncWriterImpl \<Rightarrow> bool"
where
  "caw_cb_step call s s' \<longleftrightarrow>
     (case (if caw_is_closing s then None else call) of
        None \<Rightarrow> caw_is_closing s' = caw_is_closing s \<and> caw_cbs s' = caw_cbs s
      | Some cb \<Rightarrow> caw_is_closing s' \<and> caw_cbs s' = map fst (caw_cb_log s) @ opt_list cb)"

lemma caw_ops_cbs:
  "caw_msg_queue s \<noteq> [] \<Longrightarrow> status_ok (caw_status s) \<Longrightarrow>
     holds (\<lambda>(sent, s'). caw_is_closing s' = caw_is_closing s \<and> caw_cbs s' = caw_cbs s)
       (ClientAsyncWriterImpl_SendNext G s)"
  "caw_is_closing s \<Longrightarrow> \<not> caw_has_sent_close s \<Longrightarrow> status_ok (caw_status s) \<Longrightarrow>
     holds (\<lambda>s'. caw_is_closing s' = caw_is_closing s \<and> caw_cbs s' = caw_cbs s)
       (ClientAsyncWriterImpl_SendClose G s)"
  by (simp_all add: caw_SendNext_eq caw_SendClose_eq Let_def)

lemma Close_cbs:
  assumes "caw_ok [] s"
  shows "holds (caw_cb_step (Some cb) s) (ClientAsyncWriterImpl_Close G cb s)"
proof -
  have "\<not> caw_has_sent_close s" if "\<not> caw_is_closing s"
    using assms that unfolding caw_ok_def caw_ctl_def Let_def by blast
  then show ?thesis
    by (auto simp: ClientAsyncWriterImpl_Close_def caw_cb_step_def caw_SendClose_eq Let_def)
      (simp_all add: caw_cbs_def)
qed

lemma completion_cbs:
  assumes "caw_ok [] s" "caw_en (CawCompletion t cp) s"
  shows "holds (caw_cb_step None s) (caw_DoComplete G t cp (caw_pop t s))"
proof -
  from assms(2) have t: "t \<in> pend (caw_call s)" by simp
  from assms(1) have ctl: "caw_ctl s" by (simp add: caw_ok_def)
  show ?thesis
  proof (cases t)
    case CawSendInitMd
    then show ?thesis by (simp add: GeneralCallCqTag_DoComplete_def caw_cb_step_def)
  next
    case CawSendMsg
    with caw_ctl_sending [OF ctl] t obtain m ms
      where "caw_msg_queue s = m # ms" "status_ok (caw_status s)" "\<not> caw_has_sent_close s"
      by (cases "caw_msg_queue s") auto
    with CawSendMsg show ?thesis
      by (cases ms) (auto simp: ClientAsyncWriterImpl_OnSent_def caw_SendNext_eq caw_SendClose_eq Let_def
          ClientAsyncWriterImpl_TryToCallCloseCb_def caw_cb_step_def)
  next
    case CawClose
    with caw_ctl_closing [OF ctl] t assms(2) show ?thesis
      by (auto simp: ClientAsyncWriterImpl_OnClosed_def caw_cb_step_def case_prod_unfold)
  qed
qed

lemma caw_step_cbs:
  assumes "caw_ok [] s" "caw_en e s"
  shows "holds (\<lambda>(out, s'). caw_cb_step (caw_close_call e) s s') (caw_step G e s)"
proof (cases e)
  case (CawWriteCall request)
  then show ?thesis
    by (cases "caw_msg_queue s")
      (auto simp: ClientAsyncWriterImpl_Write_def caw_SendNext_eq Let_def caw_cb_step_def)
next
  case (CawCloseCall cb)
  with Close_cbs [OF assms(1)] show ?thesis by simp
next
  case CawDtor
  with Close_cbs [OF assms(1)] show ?thesis by (simp add: ClientAsyncWriterImplWrapper_dtor_def)
next
  case (CawCompletion t cp)
  with completion_cbs [of s t cp G] assms show ?thesis
    by (auto simp: caw_cb_step_def elim!: holds_mono)
qed

lemma caw_callbacks:
  assumes "reach (caw_start G) caw_en (caw_step G) tr s"
  shows "(caw_is_closing s \<longleftrightarrow> caw_given tr \<noteq> None) \<and>
         caw_cbs s = (case caw_given tr of Some cb \<Rightarrow> opt_list cb | None \<Rightarrow> [])"
  using assms
proof (rule caw.reach_induct_inv, goal_cases)
  case (1 s)
  then show ?case
    by (auto simp: caw_start_def ClientAsyncWriterImpl_new_def tag_batches submit_new_tag Let_def
        caw_cbs_def split: if_splits)
next
  case (2 tr s e out s')
  then have "caw_cb_step (caw_close_call e) s s'" using caw_step_cbs [of s e G] by simp
  with 2(3) show ?case by (auto simp: caw_cb_step_def caw_cbs_def split: option.splits)
qed

lemma ClientAsyncWriterImpl_reentrant:
  "caw_is_closing s \<Longrightarrow> ClientAsyncWriterImpl_Write G request s = Done (False, s)"
  "caw_is_closing s \<Longrightarrow> ClientAsyncWriterImpl_Close G cb s = Done s"
  by (simp_all add: ClientAsyncWriterImpl_Write_def ClientAsyncWriterImpl_Close_def)

section \<open>A run\<close>

text \<open>Two messages, a close with callback 7, and the completions of all four batches.\<close>

definition caw_demo_start :: "(nat, string) ClientAsyncWriterImpl" where
  "caw_demo_start =
     (case ClientAsyncWriterImpl_new (demo_lib 10) (Some Call_fresh) of Done s \<Rightarrow> s)"

definition caw_demo_events :: "(nat, string) caw_event list" where
  "caw_demo_events =
     [CawWriteCall ''a'', CawWriteCall ''b'', CawCloseCall (Some 7),
      CawCompletion CawSendInitMd demo_done, CawCompletion CawSendMsg demo_done,
      CawCompletion CawSendMsg demo_done]"

definition caw_demo_run :: "(nat, string) caw_event list \<Rightarrow>
    (((nat, string) caw_event \<times> bool) list \<times> (nat, string) ClientAsyncWriterImpl) option" where
  "caw_demo_run es = exec caw_en (caw_step (demo_lib 10)) es caw_demo_start"

lemma caw_demo_start: "caw_start (demo_lib 10) caw_demo_start"
  by (simp add: caw_start_def caw_demo_start_def ClientAsyncWriterImpl_new_def tag_batches
      submit_new_tag Let_def)

lemma caw_demo_reach:
  "caw_demo_run es = Some (tr, s) \<Longrightarrow> reach (caw_start (demo_lib 10)) caw_en (caw_step (demo_lib 10)) tr s"
  using exec_reach [of "caw_start (demo_lib 10)", OF caw_demo_start] by (simp add: caw_demo_run_def)

lemma caw_demo_closing:
  "(case caw_demo_run caw_demo_events of
      None \<Rightarrow> False
    | Some (tr, s) \<Rightarrow> caw_msg_queue s = [] \<and> pending_tags (caw_call s) = [CawClose] \<and>
        call_heap (caw_call s) = [CawClose] \<and> caw_cb_log s = [] \<and> caw_close_cb s = Some 7 \<and>
        caw_handed s = [''a'', ''b''] \<and> caw_given tr = Some (Some 7))"
  by code_simp

lemma caw_demo_closed:
  "(case caw_demo_run (caw_demo_events @ [CawCompletion CawClose demo_done]) of
      None \<Rightarrow> False
    | Some (tr, s) \<Rightarrow> call_pending (caw_call s) = [] \<and> caw_given tr = Some (Some 7) \<and>
        caw_cb_log s = [(7, Status_OK, ''pong'')])"
  by code_simp

lemma caw_demo_closing_state:
  obtains tr s where "caw_demo_run caw_demo_events = Some (tr, s)"
    "reach (caw_start (demo_lib 10)) caw_en (caw_step (demo_lib 10)) tr s"
    "pending_tags (caw_call s) = [CawClose]" "CawClose \<in> pend (caw_call s)"
    "caw_handed s = [''a'', ''b'']" "caw_msg_queue s = []"
proof (cases "caw_demo_run caw_demo_events")
  case None
  with caw_demo_closing show ?thesis by simp
next
  case (Some r)
  obtain tr s where r: "r = (tr, s)" by (cases r)
  from caw_demo_closing Some r have p: "pending_tags (caw_call s) = [CawClose]" by simp
  with Some r caw_demo_closing show ?thesis
    by (intro that [of tr s] caw_demo_reach [of caw_demo_events]) (auto simp: pend_def)
qed

lemma caw_demo_closed_state:
  obtains tr :: "((nat, string) caw_event \<times> bool) list" and s where "reach (caw_start (demo_lib 10)) caw_en (caw_step (demo_lib 10)) tr s"
    "call_pending (caw_call s) = []" "caw_given tr = Some (Some 7)"
proof (cases "caw_demo_run (caw_demo_events @ [CawCompletion CawClose demo_done])")
  case None
  with caw_demo_closed show ?thesis by simp
next
  case (Some r)
  obtain tr s where r: "r = (tr, s)" by (cases r)
  with Some caw_demo_closed show ?thesis
    by (intro that [of tr s] caw_demo_reach [of "caw_demo_events @ [CawCompletion CawClose demo_done]"])
      auto
qed

text \<open>
  \<open>caw_may\<close> is \<open>caw_en\<close> without its second condition: the calls, and every completion of a
  batch that is pending. The event \<open>caw_en\<close> leaves out ends the process, so both allow the
  same runs.
\<close>

fun caw_may :: "('cb, 'buf) caw_event \<Rightarrow> ('cb, 'buf) ClientAsyncWriterImpl \<Rightarrow> bool" where
  "caw_may (CawCompletion tag cp) s \<longleftrightarrow> tag \<in> pend (caw_call s)"
| "caw_may _ s \<longleftrightarrow> True"

fun caw_no_response :: "('cb, 'buf) caw_event \<Rightarrow> bool" where
  "caw_no_response (CawCompletion tag cp) \<longleftrightarrow>
     tag = CawClose \<and> cp_status cp = GRPC_STATUS_OK \<and> cp_recv_buf cp = None"
| "caw_no_response _ \<longleftrightarrow> False"

lemma caw_en_may: "caw_en e s \<longleftrightarrow> caw_may e s \<and> \<not> caw_no_response e"
  by (cases e) auto

lemma caw_missing_response_aborts:
  assumes "reach (caw_start G) caw_en (caw_step G) tr s"
    and "CawClose \<in> pend (caw_call s)"
    and "cp_status cp = GRPC_STATUS_OK" and "cp_recv_buf cp = None"
  shows "caw_step G (CawCompletion CawClose cp) s = Abort ''recv_buf_''"
proof -
  have "caw_ctl s" using caw.reach_inv [OF assms(1)] by (simp add: caw_ok_def)
  from caw_ctl_closing [OF this assms(2)] assms(3,4) show ?thesis
    by (simp add: ClientAsyncWriterImpl_OnClosed_def)
qed

lemma caw_no_response_aborts:
  assumes "reach (caw_start G) caw_en (caw_step G) tr s" and "caw_may e s" and "caw_no_response e"
  shows "caw_step G e s = Abort ''recv_buf_''"
proof (cases e)
  case (CawCompletion t cp)
  with assms(2,3) caw_missing_response_aborts [OF assms(1), of cp] show ?thesis by auto
qed (use assms(3) in simp_all)

lemma caw_may_reach:
  "reach (caw_start G) caw_may (caw_step G) tr s \<Longrightarrow> reach (caw_start G) caw_en (caw_step G) tr s"
proof (induction rule: reach.induct)
  case (reach_start s)
  then show ?case by (rule reach.reach_start)
next
  case (reach_step tr s e out s')
  then have "\<not> caw_no_response e" using caw_no_response_aborts [OF reach_step.IH] by auto
  with reach_step show ?case by (intro reach.reach_step) (auto simp: caw_en_may)
qed

lemma caw_en_reach:
  "reach (caw_start G) caw_en (caw_step G) tr s \<Longrightarrow> reach (caw_start G) caw_may (caw_step G) tr s"
  by (induction rule: reach.induct) (auto intro: reach.intros simp: caw_en_may)

section \<open>Properties\<close>

text \<open>
  C3: Exactly one completion fails an assertion of the asynchronous writer. In every state
  reachable by calls of \<^verbatim>\<open>Write\<close> and \<^verbatim>\<open>Close\<close>, destruction of the wrapper and completions of
  pending batches, whatever batches gRPC refuses, every call and every completion of a pending
  batch runs to its end and keeps the writer's invariant, except the completion of the close
  batch that brings status OK and no response message: there \<^verbatim>\<open>GetResultMsg\<close> asserts the
  buffer it has not got, and the process ends.
\<close>
theorem caw_never_aborts:
  assumes "reach (caw_start G) caw_may (caw_step G) tr s" and "caw_may e s"
  shows "if caw_no_response e then caw_step G e s = Abort ''recv_buf_''
         else \<exists>out s'. caw_step G e s = Done (out, s') \<and> caw_ok [] s'"
  using caw_no_response_aborts [OF caw_may_reach [OF assms(1)] assms(2)]
    caw.reach_no_abort [OF caw_may_reach [OF assms(1)], of e] assms(2)
  by (auto simp: caw_en_may)

theorem caw_never_aborts_witness:
  "\<exists>(tr :: ((nat, string) caw_event \<times> bool) list) s.
     reach (caw_start (demo_lib 10)) caw_may (caw_step (demo_lib 10)) tr s \<and>
     (\<exists>out s'. caw_step (demo_lib 10) (CawCompletion CawClose demo_done) s = Done (out, s') \<and>
        caw_ok [] s') \<and>
     caw_step (demo_lib 10) (CawCompletion CawClose (demo_done\<lparr>cp_recv_buf := None\<rparr>)) s =
       Abort ''recv_buf_''"
proof -
  obtain tr s where s: "caw_demo_run caw_demo_events = Some (tr, s)"
    "reach (caw_start (demo_lib 10)) caw_en (caw_step (demo_lib 10)) tr s"
    "CawClose \<in> pend (caw_call s)"
    by (rule caw_demo_closing_state)
  note r = caw_en_reach [OF s(2)]
  have m: "caw_may (CawCompletion CawClose cp) s" for cp using s(3) by simp
  have n: "\<not> caw_no_response (CawCompletion CawClose demo_done :: (nat, string) caw_event)"
    "caw_no_response (CawCompletion CawClose (demo_done\<lparr>cp_recv_buf := None\<rparr>) :: (nat, string) caw_event)"
    by (simp_all add: demo_done_def)
  show ?thesis
    using r caw_never_aborts [OF r m, of demo_done]
      caw_never_aborts [OF r m, of "demo_done\<lparr>cp_recv_buf := None\<rparr>"] n
    by (simp only: if_True if_False simp_thms) blast
qed

text \<open>
  C4: Messages are first in, first out. What gRPC has taken is always a prefix of what \<^verbatim>\<open>Write\<close>
  has accepted; while no error has occurred nothing is lost: the rest waits in the queue.
  The close batch is in flight only after every accepted message has been taken.
\<close>
theorem caw_fifo:
  assumes "reach (caw_start G) caw_en (caw_step G) tr s"
  shows "prefix (caw_handed s) (concat (map (\<lambda>(e, out). caw_accepts G e out) tr)) \<and>
    (status_ok (caw_status s) \<longrightarrow>
       concat (map (\<lambda>(e, out). caw_accepts G e out) tr) = caw_handed s @ caw_waiting G s) \<and>
    (CawClose \<in> pend (caw_call s) \<longrightarrow>
       concat (map (\<lambda>(e, out). caw_accepts G e out) tr) = caw_handed s)"
proof -
  have acc: "concat (map (\<lambda>(e, out). caw_accepts G e out) tr) = caw.accepted G tr"
    by (simp add: caw.accepted_def)
  have ctl: "caw_ctl s" using caw.reach_inv [OF assms] by (simp add: caw_ok_def)
  have "caw_waiting G s = []" "status_ok (caw_status s)" if "CawClose \<in> pend (caw_call s)"
    using caw_ctl_closing [OF ctl that] by (simp_all add: caw_waiting_def)
  with caw.handed_prefix [OF assms] caw.accepted_split [OF assms] show ?thesis
    unfolding acc by auto
qed

theorem caw_fifo_witness:
  "\<exists>(tr :: ((nat, string) caw_event \<times> bool) list) s.
     reach (caw_start (demo_lib 10)) caw_en (caw_step (demo_lib 10)) tr s \<and>
     CawClose \<in> pend (caw_call s) \<and>
     concat (map (\<lambda>(e, out). caw_accepts (demo_lib 10) e out) tr) = [''a'', ''b'']"
proof -
  obtain tr s where s: "caw_demo_run caw_demo_events = Some (tr, s)"
    "reach (caw_start (demo_lib 10)) caw_en (caw_step (demo_lib 10)) tr s"
    "CawClose \<in> pend (caw_call s)" "caw_handed s = [''a'', ''b'']"
    by (rule caw_demo_closing_state)
  from caw_fifo [OF s(2)] s(3,4)
  have "concat (map (\<lambda>(e, out). caw_accepts (demo_lib 10) e out) tr) = [''a'', ''b'']" by auto
  with s(2,3) show ?thesis by blast
qed

text \<open>
  The writer keeps gRPC's rule of one outstanding operation of each type on the call, and
  every tag allocated by \<^verbatim>\<open>new\<close> is owned by exactly one pending batch: no tag leaks, none is
  deleted twice.
\<close>
theorem caw_call_discipline:
  assumes "reach (caw_start G) caw_en (caw_step G) tr s"
  shows "one_of_each (caw_call s) \<and> mset (call_heap (caw_call s)) = mset (pending_tags (caw_call s))"
proof -
  have tags: "tags_ok caw_kinds [] (caw_call s)"
    using caw.reach_inv [OF assms] by (simp add: caw_ok_def)
  have "distinct (caw_kinds t)" for t by (cases t) auto
  moreover have "set (caw_kinds t) \<inter> set (caw_kinds u) = {}" if "t \<noteq> u" for t u
    using that by (cases t; cases u) auto
  ultimately show ?thesis using tags_ok_one_of_each [OF tags] tags_ok_no_leak [OF tags] by blast
qed

theorem caw_call_discipline_witness:
  "\<exists>s :: (nat, string) ClientAsyncWriterImpl.
     pending_tags (caw_call s) = [CawClose] \<and> one_of_each (caw_call s) \<and>
     mset (call_heap (caw_call s)) = {#CawClose#}"
proof -
  obtain tr s where s: "caw_demo_run caw_demo_events = Some (tr, s)"
    "reach (caw_start (demo_lib 10)) caw_en (caw_step (demo_lib 10)) tr s"
    "pending_tags (caw_call s) = [CawClose]"
    by (rule caw_demo_closing_state)
  with caw_call_discipline [OF s(2)] show ?thesis by (intro exI [of _ s]) simp
qed

text \<open>
  C5: The close callback is called exactly once. At any time the callbacks called and the one
  still waiting are together the callback of the first \<^verbatim>\<open>Close\<close>, and when no batch is pending
  the callback has been called, on every path, errors included.
\<close>
theorem caw_close_cb_once:
  assumes "reach (caw_start G) caw_en (caw_step G) tr s"
  shows "map fst (caw_cb_log s) @ opt_list (caw_close_cb s) =
      (case caw_given tr of Some cb \<Rightarrow> opt_list cb | None \<Rightarrow> []) \<and>
    (call_pending (caw_call s) = [] \<longrightarrow> caw_close_cb s = None)"
proof -
  have ctl: "caw_ctl s" using caw.reach_inv [OF assms] by (simp add: caw_ok_def)
  have "caw_close_cb s = None" if "pend (caw_call s) = {}"
    using ctl that unfolding caw_ctl_def Let_def by blast
  with caw_callbacks [OF assms] show ?thesis by (simp add: caw_cbs_def pend_empty)
qed

theorem caw_close_cb_once_witness:
  "\<exists>s :: (nat, string) ClientAsyncWriterImpl. caw_close_cb s = None \<and> map fst (caw_cb_log s) = [7]"
proof -
  obtain tr :: "((nat, string) caw_event \<times> bool) list" and s where
    s: "reach (caw_start (demo_lib 10)) caw_en (caw_step (demo_lib 10)) tr s"
    "call_pending (caw_call s) = []" "caw_given tr = Some (Some 7)"
    by (rule caw_demo_closed_state)
  from caw_close_cb_once [OF s(1)] s(2) have "caw_close_cb s = None" by simp
  moreover from this caw_close_cb_once [OF s(1)] s(3) have "map fst (caw_cb_log s) = [7]" by simp
  ultimately show ?thesis by (intro exI [of _ s] conjI)
qed

text \<open>
  C6: The writer drains. If the client makes no further call, at most two completions for
  each queued message and two more can follow, from any reachable state; when they have
  happened nothing is pending, so the close callback has been called.
\<close>
theorem caw_drains:
  assumes "reach (caw_start G) caw_en (caw_step G) tr s"
    and "exec caw_en (caw_step G) es s = Some (tr', s')" and "list_all caw_completes es"
  shows "length es \<le> 2 * length (caw_msg_queue s) + 2 \<and>
    (pend (caw_call s') = {} \<longrightarrow> caw_close_cb s' = None)"
proof -
  from caw_drain.completions_bounded [OF caw.reach_inv [OF assms(1)] assms(2,3)]
  have "length es \<le> caw_work s" by simp
  also have "\<dots> \<le> 2 * length (caw_msg_queue s) + 2" by (simp add: caw_work_def)
  finally have "length es \<le> 2 * length (caw_msg_queue s) + 2" .
  moreover have "caw_ctl s'"
    using caw.reach_inv [OF exec_reach_from [OF assms(1,2)]] by (simp add: caw_ok_def)
  then have "pend (caw_call s') = {} \<longrightarrow> caw_close_cb s' = None"
    unfolding caw_ctl_def Let_def by blast
  ultimately show ?thesis by simp
qed

theorem caw_drains_witness:
  "\<exists>(s :: (nat, string) ClientAsyncWriterImpl) s'.
     map_option snd (exec caw_en (caw_step (demo_lib 10)) [CawCompletion CawClose demo_done] s) = Some s' \<and>
     pend (caw_call s') = {} \<and> caw_close_cb s' = None"
proof -
  let ?es = "[CawCompletion CawClose demo_done] :: (nat, string) caw_event list"
  obtain tr s where s: "caw_demo_run caw_demo_events = Some (tr, s)"
    "reach (caw_start (demo_lib 10)) caw_en (caw_step (demo_lib 10)) tr s"
    "pending_tags (caw_call s) = [CawClose]" "CawClose \<in> pend (caw_call s)"
    by (rule caw_demo_closing_state)
  have en: "caw_en (CawCompletion CawClose demo_done) s" using s(4) by (simp add: demo_done_def)
  from caw.reach_no_abort [OF s(2) en] obtain out s'
    where step: "caw_step (demo_lib 10) (CawCompletion CawClose demo_done) s = Done (out, s')"
    by blast
  have ex: "exec caw_en (caw_step (demo_lib 10)) ?es s =
      Some ([(CawCompletion CawClose demo_done, out)], s')"
    using step en by simp
  have "caw_work s' < 1"
    using caw_drain.completions_bounded [OF caw.reach_inv [OF s(2)] ex] s caw_demo_closing
    by (simp add: caw_work_def pend_def)
  then have "CawSendInitMd \<notin> pend (caw_call s')" "CawClose \<notin> pend (caw_call s')"
    "caw_msg_queue s' = []" by (simp_all add: caw_work_def split: if_splits)
  moreover have "caw_ctl s'"
    using caw.reach_inv [OF exec_reach_from [OF s(2) ex]] by (simp add: caw_ok_def)
  then have "CawSendMsg \<in> pend (caw_call s') \<Longrightarrow> caw_msg_queue s' \<noteq> []"
    using caw_ctl_sending by blast
  ultimately have "pend (caw_call s') = {}" by (metis caw_tag.exhaust equals0I)
  with caw_drains [OF s(2) ex] have "pend (caw_call s') = {} \<and> caw_close_cb s' = None" by simp
  moreover have "map_option snd (exec caw_en (caw_step (demo_lib 10)) ?es s) = Some s'"
    unfolding ex by simp
  ultimately show ?thesis by blast
qed

end
