(* ===== verification/Client_Async_Reader.thy ===== *)
theory Client_Async_Reader
  imports Machine Completion_Queue
begin

text \<open>
  \<^verbatim>\<open>core/client/impl/client_async_reader_impl*\<close>, \<^verbatim>\<open>client_reader_async_recv_status_cqtag.h\<close>: the
  client end of a server-streaming call. The request is sent, messages are read one at a time
  and handed to the message callback, and the status callback ends the call.

  A message callback yields a status and may depend on the messages it was given before: it
  is a function of that history. A status callback is an opaque value of type \<open>'cb\<close>. \<open>car_log\<close>
  records the calls of both in order. A callback may call \<^verbatim>\<open>ReadEach\<close> again, which does nothing
  once the reader is started (\<open>ClientAsyncReaderImpl_reentrant\<close>).
\<close>

section \<open>State and operations\<close>

datatype car_tag = CarInit | CarRead | CarRecvStatus

datatype 'cb car_call_log = CarMsg string | CarStatus 'cb Status

type_synonym MsgStrCb = "string list \<Rightarrow> string \<Rightarrow> Status"

fun car_msgs :: "'cb car_call_log list \<Rightarrow> string list" where
  "car_msgs [] = []"
| "car_msgs (CarMsg m # log) = m # car_msgs log"
| "car_msgs (CarStatus cb st # log) = car_msgs log"

fun car_statuses :: "'cb car_call_log list \<Rightarrow> ('cb \<times> Status) list" where
  "car_statuses [] = []"
| "car_statuses (CarMsg m # log) = car_statuses log"
| "car_statuses (CarStatus cb st # log) = (cb, st) # car_statuses log"

text \<open>\<open>car_tag_cb\<close> is the member \<^verbatim>\<open>status_cb_\<close> of the \<^verbatim>\<open>ClientReaderAsyncRecvStatusCqTag\<close> in flight.\<close>

record ('cb, 'buf) ClientAsyncReaderImpl =
  car_call :: "(car_tag, 'buf) Call"
  car_request :: string
  car_status :: Status
  car_msg_cb :: "MsgStrCb option"
  car_status_cb :: "'cb option"
  car_is_started :: bool
  car_tag_cb :: "'cb option"
  car_log :: "'cb car_call_log list"

type_synonym ('cb, 'buf) car_op = "('cb, 'buf) ClientAsyncReaderImpl \<Rightarrow> ('cb, 'buf) ClientAsyncReaderImpl outcome"

definition ClientAsyncReaderImpl_new ::
  "(car_tag, 'buf) Call option \<Rightarrow> string \<Rightarrow> ('cb, 'buf) ClientAsyncReaderImpl outcome" where
  "ClientAsyncReaderImpl_new call_sptr request =
     (case call_sptr of
        None \<Rightarrow> Abort ''call_sptr_''
      | Some c \<Rightarrow> Done \<lparr>car_call = c, car_request = request, car_status = Status_default,
          car_msg_cb = None, car_status_cb = None, car_is_started = False, car_tag_cb = None,
          car_log = []\<rparr>)"

definition ClientAsyncReaderImpl_CallStatusCb ::
  "('cb, 'buf) ClientAsyncReaderImpl \<Rightarrow> ('cb, 'buf) ClientAsyncReaderImpl" where
  "ClientAsyncReaderImpl_CallStatusCb s =
     (case car_status_cb s of
        None \<Rightarrow> s
      | Some cb \<Rightarrow> s\<lparr>car_log := car_log s @ [CarStatus cb (car_status s)], car_status_cb := None\<rparr>)"

definition ClientAsyncReaderImpl_Init ::
  "'buf grpc_lib \<Rightarrow> ('cb, 'buf) ClientAsyncReaderImpl \<Rightarrow> (bool \<times> ('cb, 'buf) ClientAsyncReaderImpl) outcome"
where
  "ClientAsyncReaderImpl_Init G s =
     assert_o (status_ok (car_status s)) ''status_.ok()''
       (bind_o (ClientReaderInitCqTag_Start G (car_request s) CarInit (new_tag CarInit (car_call s)))
          (\<lambda>(started, c).
            if started then Done (True, s\<lparr>car_call := c\<rparr>)
            else Done (False, ClientAsyncReaderImpl_CallStatusCb
                   (s\<lparr>car_call := delete_tag CarInit c,
                      car_status := SetInternalError ''Failed to start async client reader.''
                        (car_status s)\<rparr>))))"

definition ClientAsyncReaderImpl_ReadNext :: "'buf grpc_lib \<Rightarrow> ('cb, 'buf) car_op" where
  "ClientAsyncReaderImpl_ReadNext G s =
     assert_o (status_ok (car_status s)) ''status_.ok()''
       (bind_o (ClientReaderReadCqTag_Start G CarRead (new_tag CarRead (car_call s)))
          (\<lambda>(started, c).
            if started then Done (s\<lparr>car_call := c\<rparr>)
            else Done (ClientAsyncReaderImpl_CallStatusCb
                   (s\<lparr>car_call := delete_tag CarRead c,
                      car_status := SetInternalError ''Failed to async read server-side streaming.''
                        (car_status s)\<rparr>))))"

definition ClientAsyncReaderImpl_Start ::
  "'buf grpc_lib \<Rightarrow> MsgStrCb option \<Rightarrow> 'cb option \<Rightarrow> ('cb, 'buf) car_op" where
  "ClientAsyncReaderImpl_Start G msg_cb status_cb s =
     (if car_is_started s then Done s
      else
        (let s1 = s\<lparr>car_is_started := True, car_msg_cb := msg_cb, car_status_cb := status_cb\<rparr>
         in assert_o (status_ok (car_status s1)) ''status_.ok()''
              (bind_o (ClientAsyncReaderImpl_Init G s1) (\<lambda>(ok, s2).
                 if ok then ClientAsyncReaderImpl_ReadNext G s2 else Done s2))))"

text \<open>\<^verbatim>\<open>RecvStatus\<close>, the static function, with its copy of the status callback.\<close>

definition car_RecvStatus :: "'buf grpc_lib \<Rightarrow> 'cb option \<Rightarrow> ('cb, 'buf) car_op" where
  "car_RecvStatus G status_cb s =
     (let s1 = s\<lparr>car_tag_cb := status_cb\<rparr>
      in bind_o (ClientReaderRecvStatusCqTag_Start G CarRecvStatus (new_tag CarRecvStatus (car_call s1)))
           (\<lambda>(started, c).
             if started then Done (s1\<lparr>car_call := c\<rparr>)
             else
               (let s2 = s1\<lparr>car_call := delete_tag CarRecvStatus c\<rparr>
                in Done (case status_cb of
                     None \<Rightarrow> s2
                   | Some cb \<Rightarrow> s2\<lparr>car_log := car_log s2 @
                       [CarStatus cb (Status_InternalError ''Failed to receive status.'')]\<rparr>))))"

definition ClientAsyncReaderImpl_OnRead ::
  "'buf grpc_lib \<Rightarrow> bool \<Rightarrow> 'buf ClientReaderReadCqTag \<Rightarrow> ('cb, 'buf) car_op" where
  "ClientAsyncReaderImpl_OnRead G success tag s =
     assert_o (car_is_started s) ''is_started_''
      (assert_o (status_ok (car_status s)) ''status_.ok()''
        (if \<not> success
         then Done (ClientAsyncReaderImpl_CallStatusCb
                (s\<lparr>car_status := SetInternalError ''ClientReaderReadCqTag failed.'' (car_status s)\<rparr>))
         else if \<not> ClientReaderReadCqTag_HasGotMsg tag
         then car_RecvStatus G (car_status_cb s) s
         else bind_o (ClientReaderReadCqTag_GetResultMsg G tag '''') (\<lambda>(status, sMsg).
           let s1 = s\<lparr>car_status := status\<rparr>
           in if \<not> status_ok (car_status s1) then Done (ClientAsyncReaderImpl_CallStatusCb s1)
              else case car_msg_cb s1 of
                None \<Rightarrow> ClientAsyncReaderImpl_ReadNext G s1
              | Some msg_cb \<Rightarrow>
                  (let s2 = s1\<lparr>car_status := msg_cb (car_msgs (car_log s1)) sMsg,
                              car_log := car_log s1 @ [CarMsg sMsg]\<rparr>
                   in if \<not> status_ok (car_status s2) then Done (ClientAsyncReaderImpl_CallStatusCb s2)
                      else ClientAsyncReaderImpl_ReadNext G s2))))"

definition ClientReaderAsyncRecvStatusCqTag_DoComplete ::
  "bool \<Rightarrow> ClientReaderRecvStatusCqTag \<Rightarrow> ('cb, 'buf) car_op" where
  "ClientReaderAsyncRecvStatusCqTag_DoComplete success tag s =
     (case car_tag_cb s of
        None \<Rightarrow> Done s
      | Some cb \<Rightarrow>
          (if success
           then Done (s\<lparr>car_log := car_log s @ [CarStatus cb (ClientReaderRecvStatusCqTag_GetStatus tag)]\<rparr>)
           else Done (s\<lparr>car_log := car_log s @
                  [CarStatus cb (Status_InternalError ''Failed to receive status.'')]\<rparr>)))"

section \<open>The machine\<close>

fun car_DoComplete :: "'buf grpc_lib \<Rightarrow> car_tag \<Rightarrow> 'buf completion \<Rightarrow> ('cb, 'buf) car_op" where
  "car_DoComplete G CarInit cp s = CompletionQueueTag_DoComplete (cp_success cp) s"
| "car_DoComplete G CarRead cp s =
     GeneralCallCqTag_DoComplete
       (Some (\<lambda>success. ClientAsyncReaderImpl_OnRead G success (ClientReaderReadCqTag_completed cp)))
       (cp_success cp) s"
| "car_DoComplete G CarRecvStatus cp s =
     ClientReaderAsyncRecvStatusCqTag_DoComplete (cp_success cp)
       (ClientReaderRecvStatusCqTag_completed cp) s"

definition car_delete :: "car_tag \<Rightarrow> ('cb, 'buf) ClientAsyncReaderImpl \<Rightarrow> ('cb, 'buf) ClientAsyncReaderImpl" where
  "car_delete tag s = s\<lparr>car_call := delete_tag tag (car_call s)\<rparr>"

definition car_pop :: "car_tag \<Rightarrow> ('cb, 'buf) ClientAsyncReaderImpl \<Rightarrow> ('cb, 'buf) ClientAsyncReaderImpl" where
  "car_pop tag s = s\<lparr>car_call := pop_pending tag (car_call s)\<rparr>"

datatype ('cb, 'buf) car_event =
    CarReadEach "MsgStrCb option" "'cb option"
  | CarCompletion car_tag "'buf completion"

fun car_en :: "('cb, 'buf) car_event \<Rightarrow> ('cb, 'buf) ClientAsyncReaderImpl \<Rightarrow> bool" where
  "car_en (CarCompletion tag cp) s \<longleftrightarrow> tag \<in> pend (car_call s)"
| "car_en (CarReadEach msg_cb status_cb) s \<longleftrightarrow> True"

fun car_step ::
  "'buf grpc_lib \<Rightarrow> ('cb, 'buf) car_event \<Rightarrow> ('cb, 'buf) ClientAsyncReaderImpl \<Rightarrow>
     (bool \<times> ('cb, 'buf) ClientAsyncReaderImpl) outcome" where
  "car_step G (CarReadEach msg_cb status_cb) s =
     bind_o (ClientAsyncReaderImpl_Start G msg_cb status_cb s) (\<lambda>s'. Done (True, s'))"
| "car_step G (CarCompletion tag cp) s =
     handle_event (car_DoComplete G) car_delete (GRPC_OP_COMPLETE (Some tag) cp) (car_pop tag s)"

definition car_start :: "string \<Rightarrow> ('cb, 'buf) ClientAsyncReaderImpl \<Rightarrow> bool" where
  "car_start request s \<longleftrightarrow> ClientAsyncReaderImpl_new (Some Call_fresh) request = Done s"

lemma ClientAsyncReaderImpl_reentrant:
  "car_is_started s \<Longrightarrow> ClientAsyncReaderImpl_Start G msg_cb status_cb s = Done s"
  by (simp add: ClientAsyncReaderImpl_Start_def)

section \<open>The invariant\<close>

fun car_kinds :: "car_tag \<Rightarrow> grpc_op_type list" where
  "car_kinds CarInit = [GRPC_OP_SEND_MESSAGE, GRPC_OP_SEND_INITIAL_METADATA,
     GRPC_OP_RECV_INITIAL_METADATA, GRPC_OP_SEND_CLOSE_FROM_CLIENT]"
| "car_kinds CarRead = [GRPC_OP_RECV_MESSAGE]"
| "car_kinds CarRecvStatus = [GRPC_OP_RECV_STATUS_ON_CLIENT]"

text \<open>
  \<open>g\<close> holds the callbacks of the first \<^verbatim>\<open>ReadEach\<close>, if there was one. While the call goes on
  exactly one read or one receive of the status is pending and no status has been reported;
  otherwise the status callback has been called.
\<close>

type_synonym 'cb car_given = "(MsgStrCb option \<times> 'cb option) option"

definition car_progress :: "'cb option \<Rightarrow> ('cb, 'buf) ClientAsyncReaderImpl \<Rightarrow> bool" where
  "car_progress cb s \<longleftrightarrow>
     (let P = pend (car_call s); sts = map fst (car_statuses (car_log s))
      in if CarRead \<in> P then status_ok (car_status s) \<and> CarRecvStatus \<notin> P \<and> sts = [] \<and> car_status_cb s = cb
         else if CarRecvStatus \<in> P then sts = [] \<and> car_tag_cb s = cb
         else sts = opt_list cb)"

definition car_shape :: "'cb car_call_log list \<Rightarrow> bool" where
  "car_shape log \<longleftrightarrow> log = map CarMsg (car_msgs log) @ map (\<lambda>(cb, st). CarStatus cb st) (car_statuses log)"

definition car_ok :: "'cb car_given \<Rightarrow> car_tag list \<Rightarrow> ('cb, 'buf) ClientAsyncReaderImpl \<Rightarrow> bool" where
  "car_ok g extra s \<longleftrightarrow>
     tags_ok car_kinds extra (car_call s) \<and> car_shape (car_log s) \<and>
     (case g of
        None \<Rightarrow> \<not> car_is_started s \<and> pend (car_call s) = {} \<and> status_ok (car_status s) \<and>
               car_log s = [] \<and> car_msg_cb s = None
      | Some (mcb, cb) \<Rightarrow> car_is_started s \<and> car_msg_cb s = mcb \<and> car_progress cb s)"

lemma car_log_append [simp]:
  "car_msgs (log @ log') = car_msgs log @ car_msgs log'"
  "car_statuses (log @ log') = car_statuses log @ car_statuses log'"
  by (induction log rule: car_msgs.induct) auto

lemma car_msgs_statuses [simp]: "car_msgs (map (\<lambda>cb. CarStatus cb st) cbs) = []"
  by (induction cbs) auto

lemma car_shape_Nil [simp]: "car_shape []"
  by (simp add: car_shape_def)

lemma car_shape_snoc:
  "car_shape log \<Longrightarrow> car_statuses log = [] \<Longrightarrow> car_shape (log @ [e])"
  by (cases e) (auto simp: car_shape_def)

lemma CallStatusCb_fields [simp]:
  "car_call (ClientAsyncReaderImpl_CallStatusCb s) = car_call s"
  "car_status (ClientAsyncReaderImpl_CallStatusCb s) = car_status s"
  "car_msg_cb (ClientAsyncReaderImpl_CallStatusCb s) = car_msg_cb s"
  "car_is_started (ClientAsyncReaderImpl_CallStatusCb s) = car_is_started s"
  "car_log (ClientAsyncReaderImpl_CallStatusCb s) =
     car_log s @ map (\<lambda>cb. CarStatus cb (car_status s)) (opt_list (car_status_cb s))"
  by (simp_all add: ClientAsyncReaderImpl_CallStatusCb_def split: option.splits)

text \<open>Ending the call when nothing more is pending.\<close>

lemma car_CallStatusCb_ok:
  "tags_ok car_kinds extra (car_call s) \<Longrightarrow> car_shape (car_log s) \<Longrightarrow> car_statuses (car_log s) = [] \<Longrightarrow>
   CarRead \<notin> pend (car_call s) \<Longrightarrow> CarRecvStatus \<notin> pend (car_call s) \<Longrightarrow> car_is_started s \<Longrightarrow>
   car_ok (Some (car_msg_cb s, car_status_cb s)) extra (ClientAsyncReaderImpl_CallStatusCb s)"
  by (cases "car_status_cb s") (auto simp: car_ok_def car_progress_def car_shape_snoc)

text \<open>\<open>car_ready\<close>: a message has been dealt with, the next read can be started.\<close>

definition car_ready :: "car_tag list \<Rightarrow> ('cb, 'buf) ClientAsyncReaderImpl \<Rightarrow> bool" where
  "car_ready extra s \<longleftrightarrow> tags_ok car_kinds extra (car_call s) \<and> car_shape (car_log s) \<and>
     car_statuses (car_log s) = [] \<and> CarRead \<notin> pend (car_call s) \<and>
     CarRecvStatus \<notin> pend (car_call s) \<and> car_is_started s"

lemma car_ReadNext_ok:
  assumes "car_ready extra s" "status_ok (car_status s)"
  shows "holds (\<lambda>s'. car_ok (Some (car_msg_cb s, car_status_cb s)) extra s' \<and>
             car_msgs (car_log s') = car_msgs (car_log s))
           (ClientAsyncReaderImpl_ReadNext G s)"
proof -
  let ?fail = "s\<lparr>car_call := launched G [RecvMessage] CarRead (car_call s),
                 car_status := SetInternalError ''Failed to async read server-side streaming.''
                   (car_status s)\<rparr>"
  have "car_ok (Some (car_msg_cb s, car_status_cb s)) extra (ClientAsyncReaderImpl_CallStatusCb ?fail)"
    if "\<not> takes G (car_call s) [RecvMessage]"
    using car_CallStatusCb_ok [of extra ?fail] assms that
    by (simp add: car_ready_def tags_ok_launched)
  moreover have "car_ok (Some (car_msg_cb s, car_status_cb s)) extra
      (s\<lparr>car_call := launched G [RecvMessage] CarRead (car_call s)\<rparr>)"
    if "takes G (car_call s) [RecvMessage]"
    using assms that by (simp add: car_ok_def car_ready_def car_progress_def tags_ok_launched Let_def)
  ultimately show ?thesis using assms(2)
    by (simp add: ClientAsyncReaderImpl_ReadNext_def tag_batches submit_new_tag)
qed
text \<open>The messages a completed read brings.\<close>

definition car_received :: "'buf grpc_lib \<Rightarrow> 'buf completion \<Rightarrow> string list" where
  "car_received G cp =
     (if cp_success cp
      then (case cp_recv_buf cp of
              None \<Rightarrow> []
            | Some buf \<Rightarrow> opt_list (grpc_byte_buffer_reader_readall G buf))
      else [])"

definition car_delivers :: "'buf grpc_lib \<Rightarrow> 'buf completion \<Rightarrow> ('cb, 'buf) ClientAsyncReaderImpl \<Rightarrow> string list" where
  "car_delivers G cp s = (if car_msg_cb s = None then [] else car_received G cp)"

lemma RecvStatus_ok:
  assumes "car_ready extra s"
  shows "holds (\<lambda>s'. car_ok (Some (car_msg_cb s, car_status_cb s)) extra s' \<and>
             car_msgs (car_log s') = car_msgs (car_log s))
           (car_RecvStatus G (car_status_cb s) s)"
  using assms
  by (cases "car_status_cb s")
    (auto simp: car_RecvStatus_def tag_batches submit_new_tag car_ok_def car_ready_def
        car_progress_def tags_ok_launched car_shape_snoc Let_def)

lemma car_OnRead_ok:
  assumes ready: "car_ready extra s" and ok: "status_ok (car_status s)"
  shows "holds (\<lambda>s'. car_ok (Some (car_msg_cb s, car_status_cb s)) extra s' \<and>
             car_msgs (car_log s') = car_msgs (car_log s) @ car_delivers G cp s)
           (ClientAsyncReaderImpl_OnRead G (cp_success cp) (ClientReaderReadCqTag_completed cp) s)"
proof -
  have fail: "car_ok (Some (car_msg_cb s, car_status_cb s)) extra
      (ClientAsyncReaderImpl_CallStatusCb (s\<lparr>car_status := st, car_log := car_log s @ map CarMsg ms\<rparr>))"
    if "length ms \<le> 1" for st ms
    using ready that
      car_CallStatusCb_ok [of extra "s\<lparr>car_status := st, car_log := car_log s @ map CarMsg ms\<rparr>"]
    by (cases ms) (auto simp: car_ready_def car_shape_snoc)
  have fail0: "car_ok (Some (car_msg_cb s, car_status_cb s)) extra
      (ClientAsyncReaderImpl_CallStatusCb (s\<lparr>car_status := st\<rparr>))" for st
    using fail [of "[]" st] by simp
  have fail1: "car_ok (Some (car_msg_cb s, car_status_cb s)) extra
      (ClientAsyncReaderImpl_CallStatusCb (s\<lparr>car_status := st, car_log := car_log s @ [CarMsg m]\<rparr>))"
    for st m using fail [of "[m]" st] by simp
  have go: "holds (\<lambda>s'. car_ok (Some (car_msg_cb s, car_status_cb s)) extra s' \<and>
              car_msgs (car_log s') = car_msgs (car_log s) @ ms)
      (ClientAsyncReaderImpl_ReadNext G (s\<lparr>car_status := st, car_log := car_log s @ map CarMsg ms\<rparr>))"
    if "length ms \<le> 1" "status_ok st" for st ms
    using ready that
      car_ReadNext_ok [of extra "s\<lparr>car_status := st, car_log := car_log s @ map CarMsg ms\<rparr>" G]
    by (cases ms) (auto simp: car_ready_def car_shape_snoc)
  have go0: "holds (\<lambda>s'. car_ok (Some (car_msg_cb s, car_status_cb s)) extra s' \<and>
              car_msgs (car_log s') = car_msgs (car_log s))
      (ClientAsyncReaderImpl_ReadNext G (s\<lparr>car_status := st\<rparr>))" if "status_ok st" for st
    using go [of "[]" st] that by simp
  have go1: "holds (\<lambda>s'. car_ok (Some (car_msg_cb s, car_status_cb s)) extra s' \<and>
              car_msgs (car_log s') = car_msgs (car_log s) @ [m])
      (ClientAsyncReaderImpl_ReadNext G (s\<lparr>car_status := st, car_log := car_log s @ [CarMsg m]\<rparr>))"
    if "status_ok st" for st m
    using go [of "[m]" st] that by simp
  note recv = RecvStatus_ok [OF ready, of G]
  from ready have started: "car_is_started s" by (simp add: car_ready_def)
  show ?thesis
  proof (cases "cp_success cp \<and> cp_recv_buf cp \<noteq> None")
    case False
    with started ok recv fail0 show ?thesis
      by (auto simp: ClientAsyncReaderImpl_OnRead_def car_delivers_def car_received_def)
  next
    case True
    then obtain buf where buf: "cp_success cp" "cp_recv_buf cp = Some buf" by auto
    show ?thesis
    proof (cases "grpc_byte_buffer_reader_readall G buf")
      case None
      with buf started ok fail0 show ?thesis
        by (simp add: ClientAsyncReaderImpl_OnRead_def car_delivers_def car_received_def read_buf_def)
    next
      case (Some m)
      with buf started ok fail1 go0 go1 show ?thesis
        by (cases "car_msg_cb s")
          (simp_all add: ClientAsyncReaderImpl_OnRead_def car_delivers_def car_received_def
            read_buf_def Let_def)
    qed
  qed
qed

lemma AsyncRecvStatus_ok:
  assumes "car_ready extra s"
  shows "holds (\<lambda>s'. car_ok (Some (car_msg_cb s, car_tag_cb s)) extra s' \<and>
             car_msgs (car_log s') = car_msgs (car_log s))
           (ClientReaderAsyncRecvStatusCqTag_DoComplete success tag s)"
  using assms
  by (cases "car_tag_cb s")
    (auto simp: ClientReaderAsyncRecvStatusCqTag_DoComplete_def car_ok_def car_ready_def
      car_progress_def car_shape_snoc)

lemma Start_ok:
  assumes "car_ok None extra s"
  shows "holds (\<lambda>s'. car_ok (Some (mcb, cb)) extra s' \<and> car_msgs (car_log s') = [])
           (ClientAsyncReaderImpl_Start G mcb cb s)"
proof -
  let ?s = "s\<lparr>car_is_started := True, car_msg_cb := mcb, car_status_cb := cb\<rparr>"
  let ?b = "[SendMessage (grpc_raw_byte_buffer_create G (car_request s)), SendInitialMetadata [],
             RecvInitialMetadata, SendCloseFromClient]"
  let ?s1 = "?s\<lparr>car_call := launched G ?b CarInit (car_call s)\<rparr>"
  let ?s2 = "?s1\<lparr>car_status := SetInternalError ''Failed to start async client reader.'' (car_status s)\<rparr>"
  from assms have ready: "car_ready extra ?s1" and ok: "status_ok (car_status s)"
    and log: "car_log s = []" and stop: "\<not> car_is_started s"
    by (simp_all add: car_ok_def car_ready_def tags_ok_launched)
  have "car_ok (Some (mcb, cb)) extra (ClientAsyncReaderImpl_CallStatusCb ?s2)"
    using car_CallStatusCb_ok [of extra ?s2] ready by (simp add: car_ready_def)
  moreover have "holds (\<lambda>s'. car_ok (Some (mcb, cb)) extra s' \<and> car_msgs (car_log s') = [])
      (ClientAsyncReaderImpl_ReadNext G ?s1)"
    using car_ReadNext_ok [OF ready, of G] ok log by simp
  ultimately show ?thesis using ok log stop
    by (simp add: ClientAsyncReaderImpl_Start_def ClientAsyncReaderImpl_Init_def tag_batches
        submit_new_tag Let_def)
qed

section \<open>Steps\<close>

lemma car_frames [simp]:
  "car_call (car_pop t s) = pop_pending t (car_call s)"
  "car_status (car_pop t s) = car_status s" "car_msg_cb (car_pop t s) = car_msg_cb s"
  "car_status_cb (car_pop t s) = car_status_cb s" "car_is_started (car_pop t s) = car_is_started s"
  "car_tag_cb (car_pop t s) = car_tag_cb s" "car_log (car_pop t s) = car_log s"
  "car_call (car_delete t s) = delete_tag t (car_call s)"
  "car_status (car_delete t s) = car_status s" "car_msg_cb (car_delete t s) = car_msg_cb s"
  "car_status_cb (car_delete t s) = car_status_cb s"
  "car_is_started (car_delete t s) = car_is_started s"
  "car_tag_cb (car_delete t s) = car_tag_cb s" "car_log (car_delete t s) = car_log s"
  by (simp_all add: car_pop_def car_delete_def)

lemma car_delivers_pop [simp]: "car_delivers G cp (car_pop t s) = car_delivers G cp s"
  by (simp add: car_delivers_def)

lemma car_progress_delete [simp]: "car_progress cb (car_delete t s) = car_progress cb s"
  by (simp add: car_progress_def)

lemma car_ok_delete: "car_ok g [t] s \<Longrightarrow> car_ok g [] (car_delete t s)"
  by (simp add: car_ok_def tags_ok_delete split: option.splits prod.splits)

lemma car_ok_pending:
  assumes "car_ok g [] s" "t \<in> pend (car_call s)"
  obtains mcb cb where "g = Some (mcb, cb)" "car_msg_cb s = mcb" "car_is_started s" "car_progress cb s"
    "tags_ok car_kinds [t] (car_call (car_pop t s))" "car_shape (car_log s)"
    "pend (pop_pending t (car_call s)) = pend (car_call s) - {t}"
proof (cases g)
  case None
  with assms show ?thesis by (simp add: car_ok_def)
next
  case (Some r)
  with assms show ?thesis
    by (cases r) (auto intro!: that simp: car_ok_def tags_ok_pop pend_pop [of car_kinds "[]"])
qed

definition car_reads :: "'buf grpc_lib \<Rightarrow> ('cb, 'buf) car_event \<Rightarrow> string list" where
  "car_reads G e = (case e of CarCompletion CarRead cp \<Rightarrow> car_received G cp | _ \<Rightarrow> [])"

lemma car_completion_ok:
  assumes "car_ok g [] s" "car_en (CarCompletion t cp) s"
  shows "holds (\<lambda>s'. car_ok g [t] s' \<and> car_msgs (car_log s') = car_msgs (car_log s) @
             (if car_msg_cb s = None then [] else car_reads G (CarCompletion t cp)))
           (car_DoComplete G t cp (car_pop t s))"
proof -
  from assms(2) have t: "t \<in> pend (car_call s)" by simp
  from assms(1) t obtain mcb cb where g: "g = Some (mcb, cb)" "car_msg_cb s = mcb" "car_is_started s"
    "car_progress cb s" "tags_ok car_kinds [t] (car_call (car_pop t s))" "car_shape (car_log s)"
    "pend (pop_pending t (car_call s)) = pend (car_call s) - {t}"
    by (rule car_ok_pending)
  show ?thesis
  proof (cases t)
    case CarInit
    with g show ?thesis
      by (auto simp: car_ok_def car_progress_def car_reads_def Let_def split: if_splits)
  next
    case CarRead
    with g t have "car_ready [t] (car_pop t s)" "status_ok (car_status (car_pop t s))"
      and cb: "car_status_cb s = cb"
      by (auto simp: car_ready_def car_progress_def Let_def)
    from car_OnRead_ok [OF this(1,2), of G cp] CarRead g cb show ?thesis
      by (simp add: car_reads_def car_delivers_def cong: if_cong)
  next
    case CarRecvStatus
    with g t have "car_ready [t] (car_pop t s)" and cb: "car_tag_cb s = cb"
      by (auto simp: car_ready_def car_progress_def Let_def split: if_splits)
    from AsyncRecvStatus_ok [OF this(1)] CarRecvStatus g cb show ?thesis
      by (cases mcb) (simp_all add: car_reads_def)
  qed
qed

fun car_read_each :: "('cb, 'buf) car_event \<Rightarrow> 'cb car_given" where
  "car_read_each (CarReadEach mcb cb) = Some (mcb, cb)"
| "car_read_each (CarCompletion t cp) = None"

lemma car_step_ok:
  assumes "car_ok g [] s" "car_en e s"
  shows "holds (\<lambda>(out, s'). car_ok (case g of None \<Rightarrow> car_read_each e | Some r \<Rightarrow> Some r) [] s' \<and>
             car_msgs (car_log s') = car_msgs (car_log s) @
               (if car_msg_cb s = None then [] else car_reads G e))
           (car_step G e s)"
proof (cases e)
  case (CarReadEach mcb cb)
  show ?thesis
  proof (cases g)
    case None
    with assms have "car_log s = []" by (simp add: car_ok_def)
    with Start_ok [of "[]" s mcb cb G] None assms CarReadEach show ?thesis
      by (simp add: car_reads_def)
  next
    case (Some r)
    with assms have "car_is_started s" by (auto simp: car_ok_def split: prod.splits)
    with Some assms CarReadEach show ?thesis
      by (simp add: ClientAsyncReaderImpl_reentrant car_reads_def)
  qed
next
  case (CarCompletion t cp)
  from assms CarCompletion have "t \<in> pend (car_call s)" by simp
  with assms(1) have "g \<noteq> None" by (cases g) (auto simp: car_ok_def)
  with CarCompletion car_completion_ok [of g s t cp G] assms show ?thesis
    by (auto elim!: holds_mono intro: car_ok_delete)
qed

definition car_inv :: "('cb, 'buf) ClientAsyncReaderImpl \<Rightarrow> bool" where
  "car_inv s \<longleftrightarrow> (\<exists>g. car_ok g [] s)"

interpretation car: safe_machine "car_start request" car_en "car_step G" car_inv for request G
proof (unfold_locales, goal_cases)
  case (1 s)
  then have "car_ok None [] s" by (auto simp: car_start_def ClientAsyncReaderImpl_new_def car_ok_def)
  then show ?case by (auto simp: car_inv_def)
next
  case (2 s e)
  then obtain g where "car_ok g [] s" by (auto simp: car_inv_def)
  from car_step_ok [OF this 2(2), of G] show ?case
    by (auto elim!: holds_mono simp: car_inv_def)
qed

fun car_given_of :: "(('cb, 'buf) car_event \<times> bool) list \<Rightarrow> 'cb car_given" where
  "car_given_of [] = None"
| "car_given_of ((e, out) # tr) = (case car_read_each e of Some r \<Rightarrow> Some r | None \<Rightarrow> car_given_of tr)"

lemma car_given_of_snoc [simp]:
  "car_given_of (tr @ [(e, out)]) = (case car_given_of tr of Some r \<Rightarrow> Some r | None \<Rightarrow> car_read_each e)"
  by (induction tr rule: car_given_of.induct) (auto split: option.splits)

lemma car_runs:
  assumes "reach (car_start request) car_en (car_step G) tr s"
  shows "car_ok (car_given_of tr) [] s \<and>
    car_msgs (car_log s) =
      (if car_msg_cb s = None then [] else concat (map (\<lambda>(e, out). car_reads G e) tr)) \<and>
    (car_given_of tr = None \<longrightarrow> concat (map (\<lambda>(e, out). car_reads G e) tr) = [])"
  using assms
proof (induction rule: reach.induct)
  case (reach_start s)
  then show ?case by (auto simp: car_start_def ClientAsyncReaderImpl_new_def car_ok_def)
next
  case (reach_step tr s e out s')
  let ?g = "car_given_of (tr @ [(e, out)])"
  from car_step_ok [of "car_given_of tr" s e G] reach_step have
    ok: "car_ok ?g [] s'" and
    msgs: "car_msgs (car_log s') = car_msgs (car_log s) @
      (if car_msg_cb s = None then [] else car_reads G e)"
    by (auto split: option.splits)
  show ?case
  proof (cases "car_given_of tr")
    case None
    with reach_step.IH have old: "car_log s = []" "car_msg_cb s = None" "pend (car_call s) = {}"
      by (simp_all add: car_ok_def)
    with reach_step(2) have "car_reads G e = []" by (cases e) (simp_all add: car_reads_def)
    with None old msgs ok reach_step.IH show ?thesis by (cases e) (simp_all add: car_reads_def)
  next
    case (Some r)
    with reach_step.IH ok have "car_msg_cb s = fst r" "car_msg_cb s' = fst r"
      by (auto simp: car_ok_def)
    with Some msgs ok reach_step.IH show ?thesis by simp
  qed
qed

section \<open>A run\<close>

definition car_demo_start :: "(nat, string) ClientAsyncReaderImpl" where
  "car_demo_start = (case ClientAsyncReaderImpl_new (Some Call_fresh) ''req'' of Done s \<Rightarrow> s)"

definition car_demo_msg :: "string option \<Rightarrow> string completion" where
  "car_demo_msg m = demo_done\<lparr>cp_recv_buf := m\<rparr>"

definition car_demo_events :: "(nat, string) car_event list" where
  "car_demo_events =
     [CarReadEach (Some (\<lambda>ms m. Status_OK)) (Some 1), CarCompletion CarInit demo_done,
      CarCompletion CarRead (car_demo_msg (Some ''x'')),
      CarCompletion CarRead (car_demo_msg (Some ''y'')),
      CarCompletion CarRead (car_demo_msg None)]"

definition car_demo_run :: "(nat, string) car_event list \<Rightarrow>
    (((nat, string) car_event \<times> bool) list \<times> (nat, string) ClientAsyncReaderImpl) option" where
  "car_demo_run es = exec car_en (car_step (demo_lib 10)) es car_demo_start"

lemma car_demo_reach:
  "car_demo_run es = Some (tr, s) \<Longrightarrow> reach (car_start ''req'') car_en (car_step (demo_lib 10)) tr s"
proof -
  have "car_start ''req'' car_demo_start"
    by (simp add: car_start_def car_demo_start_def ClientAsyncReaderImpl_new_def)
  then show "car_demo_run es = Some (tr, s) \<Longrightarrow> ?thesis"
    using exec_reach [of "car_start ''req''" car_demo_start] by (simp add: car_demo_run_def)
qed

lemma car_demo_result:
  "(case car_demo_run car_demo_events of
      None \<Rightarrow> False
    | Some (tr, s) \<Rightarrow> call_pending (car_call s) = [(CarRecvStatus, [RecvStatusOnClient])] \<and>
        car_log s = [CarMsg ''x'', CarMsg ''y''] \<and> car_msg_cb s \<noteq> None \<and> car_given_of tr \<noteq> None)"
  by code_simp

lemma car_demo_state:
  obtains tr :: "((nat, string) car_event \<times> bool) list" and s where
    "reach (car_start ''req'') car_en (car_step (demo_lib 10)) tr s"
    "call_pending (car_call s) = [(CarRecvStatus, [RecvStatusOnClient])]"
    "car_log s = [CarMsg ''x'', CarMsg ''y'']" "car_msg_cb s \<noteq> None" "car_given_of tr \<noteq> None"
proof (cases "car_demo_run car_demo_events")
  case None
  with car_demo_result show ?thesis by simp
next
  case (Some r)
  obtain tr s where r: "r = (tr, s)" by (cases r)
  with Some car_demo_result show ?thesis
    by (intro that [of tr s] car_demo_reach [of car_demo_events]) auto
qed

section \<open>Properties\<close>

lemma car_reach_ok:
  "reach (car_start request) car_en (car_step G) tr s \<Longrightarrow> car_ok (car_given_of tr) [] s"
  using car_runs by blast

lemma car_ok_discipline:
  assumes "car_ok g [] s"
  shows "one_of_each (car_call s) \<and> mset (call_heap (car_call s)) = mset (pending_tags (car_call s))"
proof -
  have tags: "tags_ok car_kinds [] (car_call s)" using assms by (simp add: car_ok_def)
  have "distinct (car_kinds t)" for t by (cases t) auto
  moreover have "set (car_kinds t) \<inter> set (car_kinds u) = {}" if "t \<noteq> u" for t u
    using that by (cases t; cases u) auto
  ultimately show ?thesis using tags_ok_one_of_each [OF tags] tags_ok_no_leak [OF tags] by blast
qed

text \<open>
  C8: No assertion of the asynchronous reader fails, whatever gRPC refuses or delivers and
  whatever status the message callback returns, and the reader keeps the discipline of its
  call: one outstanding operation of each type, no tag leaked or deleted twice.
\<close>
theorem car_safe:
  assumes "reach (car_start request) car_en (car_step G) tr s" and "car_en e s"
  shows "\<exists>out s'. car_step G e s = Done (out, s') \<and> one_of_each (car_call s') \<and>
    mset (call_heap (car_call s')) = mset (pending_tags (car_call s'))"
proof -
  from car.reach_no_abort [OF assms] obtain out s' g where
    "car_step G e s = Done (out, s')" "car_ok g [] s'" by (auto simp: car_inv_def)
  with car_ok_discipline [of g s'] show ?thesis by blast
qed

theorem car_safe_witness:
  "\<exists>(s :: (nat, string) ClientAsyncReaderImpl) out s'.
     car_step (demo_lib 10) (CarCompletion CarRecvStatus demo_done) s = Done (out, s') \<and>
     one_of_each (car_call s') \<and> mset (call_heap (car_call s')) = mset (pending_tags (car_call s'))"
proof -
  obtain tr :: "((nat, string) car_event \<times> bool) list" and s where
    s: "reach (car_start ''req'') car_en (car_step (demo_lib 10)) tr s"
    "call_pending (car_call s) = [(CarRecvStatus, [RecvStatusOnClient])]"
    by (rule car_demo_state)
  from s(2) have "car_en (CarCompletion CarRecvStatus demo_done) s" by (simp add: pend_def)
  from car_safe [OF s(1) this] show ?thesis by blast
qed

text \<open>
  C7: Messages are delivered once and in order. The calls of the message callback are exactly
  the messages the completed reads have brought, in order, and every one of them comes before
  the call of the status callback.
\<close>
theorem car_delivery:
  assumes "reach (car_start request) car_en (car_step G) tr s"
  shows "car_log s = map CarMsg (car_msgs (car_log s)) @
      map (\<lambda>(cb, st). CarStatus cb st) (car_statuses (car_log s)) \<and>
    car_msgs (car_log s) =
      (if car_msg_cb s = None then [] else concat (map (\<lambda>(e, out). car_reads G e) tr))"
  using car_runs [OF assms] unfolding car_ok_def car_shape_def by blast

theorem car_delivery_witness:
  "\<exists>tr :: ((nat, string) car_event \<times> bool) list.
     concat (map (\<lambda>(e, out). car_reads (demo_lib 10) e) tr) = [''x'', ''y'']"
proof -
  obtain tr :: "((nat, string) car_event \<times> bool) list" and s where
    s: "reach (car_start ''req'') car_en (car_step (demo_lib 10)) tr s"
    "car_log s = [CarMsg ''x'', CarMsg ''y'']" "car_msg_cb s \<noteq> None"
    by (rule car_demo_state)
  with car_delivery [OF s(1)] show ?thesis by (intro exI [of _ tr]) simp
qed

text \<open>
  The status callback is called exactly once. After \<^verbatim>\<open>ReadEach\<close>, as long as a read or the
  receipt of the status is pending it has not been called, and the call goes on; as soon as
  neither is pending it has been called once, on every path.
\<close>
theorem car_status_cb_once:
  assumes "reach (car_start request) car_en (car_step G) tr s"
    and "car_given_of tr = Some (mcb, cb)"
  shows "map fst (car_statuses (car_log s)) =
    (if CarRead \<in> pend (car_call s) \<or> CarRecvStatus \<in> pend (car_call s) then [] else opt_list cb)"
  using car_reach_ok [OF assms(1)] assms(2)
  by (auto simp: car_ok_def car_progress_def Let_def split: if_splits)

theorem car_status_cb_once_witness:
  "\<exists>s :: (nat, string) ClientAsyncReaderImpl.
     CarRecvStatus \<in> pend (car_call s) \<and> map fst (car_statuses (car_log s)) = []"
proof -
  obtain tr :: "((nat, string) car_event \<times> bool) list" and s where
    s: "reach (car_start ''req'') car_en (car_step (demo_lib 10)) tr s"
    "call_pending (car_call s) = [(CarRecvStatus, [RecvStatusOnClient])]" "car_given_of tr \<noteq> None"
    by (rule car_demo_state)
  from s(3) obtain mcb cb where "car_given_of tr = Some (mcb, cb)" by auto
  from car_status_cb_once [OF s(1) this] s(2)
  have "CarRecvStatus \<in> pend (car_call s) \<and> map fst (car_statuses (car_log s)) = []"
    by (simp add: pend_def)
  then show ?thesis by blast
qed

end
