(* ===== verification/Client_Async_RdWr.thy ===== *)
theory Client_Async_RdWr
  imports Client_Async_Reader
begin

text \<open>
  \<^verbatim>\<open>core/client/impl/client_async_reader_writer_impl*\<close>: the client end of a bidirectional
  streaming call. Writing is queued as in the writer, reading goes on as in the reader, and
  the status callback is called when both have ended, or on the first error.

  Callbacks run under the recursive mutex and may call back. The message callback is a
  function that yields the calls it makes on the object and the status it returns. What the
  status callback does to the object is the parameter \<open>K\<close> of the operations, because the
  code calls it in the middle of \<^verbatim>\<open>EndOnErrorStatus\<close>, before the members are up to date;
  \<open>carw_passive\<close> is a callback that leaves the object alone. \<open>carw_accepted\<close> is a history
  variable: the messages for which \<^verbatim>\<open>Write\<close> has returned true.
\<close>

section \<open>State and operations\<close>

datatype carw_tag = CarwSendInitMd | CarwRecvInitMd | CarwSendMsg | CarwSendClose | CarwRead

datatype carw_client_call = CarwDoWrite string | CarwDoCloseWriting | CarwDoSetErrorStatus Status

type_synonym carw_msg_fun = "string list \<Rightarrow> string \<Rightarrow> carw_client_call list \<times> Status"

record ('cb, 'buf) ClientAsyncReaderWriterImpl =
  carw_call :: "(carw_tag, 'buf) Call"
  carw_status :: Status
  carw_msg_cb :: "carw_msg_fun option"
  carw_status_cb :: "'cb option"
  carw_inited :: bool
  carw_reading_started :: bool
  carw_writing_closing :: bool
  carw_reading_ended :: bool
  carw_writing_ended :: bool
  carw_msg_queue :: "string list"
  carw_has_sent_close :: bool
  carw_log :: "'cb car_call_log list"
  carw_accepted :: "string list"

type_synonym ('cb, 'buf) carw_op =
  "('cb, 'buf) ClientAsyncReaderWriterImpl \<Rightarrow> ('cb, 'buf) ClientAsyncReaderWriterImpl outcome"

type_synonym ('cb, 'buf) carw_cb_effect = "'cb \<Rightarrow> Status \<Rightarrow> ('cb, 'buf) carw_op"

definition carw_passive :: "('cb, 'buf) carw_cb_effect" where
  "carw_passive cb st s = Done s"

definition ClientAsyncReaderWriterImpl_new ::
  "(carw_tag, 'buf) Call option \<Rightarrow> 'cb option \<Rightarrow> ('cb, 'buf) ClientAsyncReaderWriterImpl outcome" where
  "ClientAsyncReaderWriterImpl_new call_sptr status_cb =
     (case call_sptr of
        None \<Rightarrow> Abort ''call_sptr_''
      | Some c \<Rightarrow> Done \<lparr>carw_call = c, carw_status = Status_default, carw_msg_cb = None,
          carw_status_cb = status_cb, carw_inited = False, carw_reading_started = False,
          carw_writing_closing = False, carw_reading_ended = False, carw_writing_ended = False,
          carw_msg_queue = [], carw_has_sent_close = False, carw_log = [], carw_accepted = []\<rparr>)"

definition ClientAsyncReaderWriterImpl_dtor :: "('cb, 'buf) ClientAsyncReaderWriterImpl \<Rightarrow> unit outcome" where
  "ClientAsyncReaderWriterImpl_dtor s =
     assert_o (carw_reading_ended s) ''reading_ended_''
       (assert_o (carw_writing_ended s) ''writing_ended_'' (Done ()))"

definition ClientAsyncReaderWriterImpl_CallStatusCb ::
  "('cb, 'buf) carw_cb_effect \<Rightarrow> ('cb, 'buf) carw_op" where
  "ClientAsyncReaderWriterImpl_CallStatusCb K s =
     (case carw_status_cb s of
        None \<Rightarrow> Done s
      | Some cb \<Rightarrow>
          bind_o (K cb (carw_status s) (s\<lparr>carw_log := carw_log s @ [CarStatus cb (carw_status s)]\<rparr>))
            (\<lambda>s'. Done (s'\<lparr>carw_status_cb := None\<rparr>)))"

definition ClientAsyncReaderWriterImpl_EndOnErrorStatus ::
  "('cb, 'buf) carw_cb_effect \<Rightarrow> Status \<Rightarrow> ('cb, 'buf) carw_op" where
  "ClientAsyncReaderWriterImpl_EndOnErrorStatus K error_status s =
     assert_o (\<not> status_ok error_status) ''!error_status.ok()''
      (assert_o (status_ok (carw_status s)) ''status_.ok()''
        (bind_o (ClientAsyncReaderWriterImpl_CallStatusCb K (s\<lparr>carw_status := error_status\<rparr>)) (\<lambda>s'.
           Done (s'\<lparr>carw_reading_ended := True, carw_writing_ended := True\<rparr>))))"

definition ClientAsyncReaderWriterImpl_SetInternalError ::
  "('cb, 'buf) carw_cb_effect \<Rightarrow> string \<Rightarrow> ('cb, 'buf) carw_op" where
  "ClientAsyncReaderWriterImpl_SetInternalError K sError s =
     assert_o (status_ok (carw_status s)) ''status_.ok()''
       (ClientAsyncReaderWriterImpl_EndOnErrorStatus K (Status_InternalError sError) s)"

definition ClientAsyncReaderWriterImpl_SendClose ::
  "'buf grpc_lib \<Rightarrow> ('cb, 'buf) carw_cb_effect \<Rightarrow> ('cb, 'buf) carw_op" where
  "ClientAsyncReaderWriterImpl_SendClose G K s =
     assert_o (carw_writing_closing s) ''writing_closing_''
      (assert_o (\<not> carw_has_sent_close s) ''!has_sent_close_''
       (assert_o (status_ok (carw_status s)) ''status_.ok()''
        (let s1 = s\<lparr>carw_has_sent_close := True, carw_writing_ended := True\<rparr>
         in bind_o (ClientSendCloseCqTag_Start G CarwSendClose (new_tag CarwSendClose (carw_call s1)))
              (\<lambda>(started, c).
                if started then Done (s1\<lparr>carw_call := c\<rparr>)
                else ClientAsyncReaderWriterImpl_SetInternalError K ''Failed to close writing.''
                       (s1\<lparr>carw_call := delete_tag CarwSendClose c\<rparr>)))))"

definition ClientAsyncReaderWriterImpl_ReadNext ::
  "'buf grpc_lib \<Rightarrow> ('cb, 'buf) carw_cb_effect \<Rightarrow> ('cb, 'buf) carw_op" where
  "ClientAsyncReaderWriterImpl_ReadNext G K s =
     assert_o (status_ok (carw_status s)) ''status_.ok()''
       (bind_o (ClientReaderReadCqTag_Start G CarwRead (new_tag CarwRead (carw_call s)))
          (\<lambda>(started, c).
            if started then Done (s\<lparr>carw_call := c\<rparr>)
            else ClientAsyncReaderWriterImpl_SetInternalError K
                   ''Failed to async read bi-directional streaming.''
                   (s\<lparr>carw_call := delete_tag CarwRead c\<rparr>)))"

definition ClientAsyncReaderWriterImpl_SendNext ::
  "'buf grpc_lib \<Rightarrow> ('cb, 'buf) carw_cb_effect \<Rightarrow> ('cb, 'buf) ClientAsyncReaderWriterImpl \<Rightarrow>
     (bool \<times> ('cb, 'buf) ClientAsyncReaderWriterImpl) outcome" where
  "ClientAsyncReaderWriterImpl_SendNext G K s =
     assert_o (carw_msg_queue s \<noteq> []) ''!msg_queue_.empty()''
      (assert_o (status_ok (carw_status s)) ''status_.ok()''
        (bind_o (ClientSendMsgCqTag_Start G (hd (carw_msg_queue s)) CarwSendMsg
                   (new_tag CarwSendMsg (carw_call s)))
           (\<lambda>(started, c).
             if started then Done (True, s\<lparr>carw_call := c\<rparr>)
             else bind_o (ClientAsyncReaderWriterImpl_SetInternalError K
                            ''Failed to write bi-directional streaming.''
                            (s\<lparr>carw_call := delete_tag CarwSendMsg c\<rparr>))
                    (\<lambda>s'. Done (False, s')))))"

definition ClientAsyncReaderWriterImpl_InitIfNot ::
  "'buf grpc_lib \<Rightarrow> ('cb, 'buf) carw_cb_effect \<Rightarrow> ('cb, 'buf) carw_op" where
  "ClientAsyncReaderWriterImpl_InitIfNot G K s =
     (if carw_inited s then Done s
      else
        (let s1 = s\<lparr>carw_inited := True\<rparr>
         in if \<not> status_ok (carw_status s1) then Done s1
            else bind_o (ClientSendInitMdCqTag_Start G CarwSendInitMd
                           (new_tag CarwSendInitMd (carw_call s1)))
                   (\<lambda>(sent, c).
                     if \<not> sent
                     then ClientAsyncReaderWriterImpl_SetInternalError K
                            ''Failed to send init metadata to init bi-directional streaming.''
                            (s1\<lparr>carw_call := delete_tag CarwSendInitMd c\<rparr>)
                     else bind_o (ClientRecvInitMdCqTag_Start G CarwRecvInitMd
                                    (new_tag CarwRecvInitMd c))
                            (\<lambda>(received, c).
                              if \<not> received
                              then ClientAsyncReaderWriterImpl_SetInternalError K
                                     ''Failed to receive init metadata to init bi-directional streaming.''
                                     (s1\<lparr>carw_call := delete_tag CarwRecvInitMd c\<rparr>)
                              else Done (s1\<lparr>carw_call := c\<rparr>)))))"

text \<open>\<^verbatim>\<open>Write\<close>; the message enters the history when the call returns true.\<close>

definition ClientAsyncReaderWriterImpl_Write ::
  "'buf grpc_lib \<Rightarrow> ('cb, 'buf) carw_cb_effect \<Rightarrow> string \<Rightarrow> ('cb, 'buf) ClientAsyncReaderWriterImpl \<Rightarrow>
     (bool \<times> ('cb, 'buf) ClientAsyncReaderWriterImpl) outcome" where
  "ClientAsyncReaderWriterImpl_Write G K msg s =
     bind_o (ClientAsyncReaderWriterImpl_InitIfNot G K s) (\<lambda>s.
       if \<not> status_ok (carw_status s)
       then assert_o (carw_reading_ended s \<and> carw_writing_ended s)
              ''reading_ended_ && writing_ended_'' (Done (False, s))
       else if carw_writing_closing s \<or> carw_writing_ended s then Done (False, s)
       else
         (let is_sending = (carw_msg_queue s \<noteq> []);
              s1 = s\<lparr>carw_msg_queue := carw_msg_queue s @ [msg]\<rparr>
          in bind_o (if is_sending then Done (True, s1)
                     else ClientAsyncReaderWriterImpl_SendNext G K s1)
               (\<lambda>(accepted, s2).
                 Done (accepted, if accepted then s2\<lparr>carw_accepted := carw_accepted s2 @ [msg]\<rparr> else s2))))"

definition ClientAsyncReaderWriterImpl_CloseWriting ::
  "'buf grpc_lib \<Rightarrow> ('cb, 'buf) carw_cb_effect \<Rightarrow> ('cb, 'buf) carw_op" where
  "ClientAsyncReaderWriterImpl_CloseWriting G K s =
     (if carw_writing_closing s then Done s
      else
        (let s1 = s\<lparr>carw_writing_closing := True\<rparr>
         in if \<not> status_ok (carw_status s1) then Done s1
            else if carw_msg_queue s1 \<noteq> [] then Done s1
            else assert_o (\<not> carw_has_sent_close s1) ''!has_sent_close_''
              (bind_o (ClientAsyncReaderWriterImpl_SendClose G K s1) (\<lambda>s2.
                 assert_o (carw_writing_ended s2) ''writing_ended_'' (Done s2)))))"

definition ClientAsyncReaderWriterImpl_ReadEach ::
  "'buf grpc_lib \<Rightarrow> ('cb, 'buf) carw_cb_effect \<Rightarrow> carw_msg_fun option \<Rightarrow> ('cb, 'buf) carw_op" where
  "ClientAsyncReaderWriterImpl_ReadEach G K msg_cb s =
     (if carw_reading_started s then Done s
      else bind_o (ClientAsyncReaderWriterImpl_InitIfNot G K (s\<lparr>carw_reading_started := True\<rparr>)) (\<lambda>s1.
        if \<not> status_ok (carw_status s1) then Done s1
        else ClientAsyncReaderWriterImpl_ReadNext G K (s1\<lparr>carw_msg_cb := msg_cb\<rparr>)))"

definition ClientAsyncReaderWriterImpl_SetErrorStatus ::
  "('cb, 'buf) carw_cb_effect \<Rightarrow> Status \<Rightarrow> ('cb, 'buf) carw_op" where
  "ClientAsyncReaderWriterImpl_SetErrorStatus K error_status s =
     assert_o (\<not> status_ok error_status) ''!error_status.ok()''
       (if status_ok (carw_status s)
        then ClientAsyncReaderWriterImpl_EndOnErrorStatus K error_status s
        else Done (s\<lparr>carw_status := error_status\<rparr>))"

definition ClientAsyncReaderWriterImpl_OnSent ::
  "'buf grpc_lib \<Rightarrow> ('cb, 'buf) carw_cb_effect \<Rightarrow> bool \<Rightarrow> ('cb, 'buf) carw_op" where
  "ClientAsyncReaderWriterImpl_OnSent G K success s =
     assert_o (carw_msg_queue s \<noteq> []) ''!msg_queue_.empty()''
       (let s1 = s\<lparr>carw_msg_queue := tl (carw_msg_queue s)\<rparr>
        in if \<not> status_ok (carw_status s1)
           then assert_o (carw_status_cb s1 = None) ''!status_cb_'' (Done s1)
           else if \<not> success
           then ClientAsyncReaderWriterImpl_SetInternalError K ''Failed to send message.'' s1
           else if carw_msg_queue s1 \<noteq> []
           then bind_o (ClientAsyncReaderWriterImpl_SendNext G K s1) (\<lambda>(sent, s2). Done s2)
           else if \<not> carw_writing_closing s1 then Done s1
           else bind_o (ClientAsyncReaderWriterImpl_SendClose G K s1) (\<lambda>s2.
             assert_o (carw_writing_ended s2) ''writing_ended_''
               (if carw_reading_ended s2 then ClientAsyncReaderWriterImpl_CallStatusCb K s2
                else Done s2)))"

text \<open>The calls a message callback makes on the object, one after the other.\<close>

fun carw_run_call ::
  "'buf grpc_lib \<Rightarrow> ('cb, 'buf) carw_cb_effect \<Rightarrow> carw_client_call \<Rightarrow> ('cb, 'buf) carw_op" where
  "carw_run_call G K (CarwDoWrite msg) s =
     bind_o (ClientAsyncReaderWriterImpl_Write G K msg s) (\<lambda>(accepted, s'). Done s')"
| "carw_run_call G K CarwDoCloseWriting s = ClientAsyncReaderWriterImpl_CloseWriting G K s"
| "carw_run_call G K (CarwDoSetErrorStatus st) s = ClientAsyncReaderWriterImpl_SetErrorStatus K st s"

fun carw_run_calls ::
  "'buf grpc_lib \<Rightarrow> ('cb, 'buf) carw_cb_effect \<Rightarrow> carw_client_call list \<Rightarrow> ('cb, 'buf) carw_op" where
  "carw_run_calls G K [] s = Done s"
| "carw_run_calls G K (call # calls) s = bind_o (carw_run_call G K call s) (carw_run_calls G K calls)"

definition carw_CallMsgCb ::
  "'buf grpc_lib \<Rightarrow> ('cb, 'buf) carw_cb_effect \<Rightarrow> carw_msg_fun \<Rightarrow> string \<Rightarrow>
     ('cb, 'buf) ClientAsyncReaderWriterImpl \<Rightarrow> (Status \<times> ('cb, 'buf) ClientAsyncReaderWriterImpl) outcome"
where
  "carw_CallMsgCb G K msg_cb sMsg s =
     (let (calls, status) = msg_cb (car_msgs (carw_log s)) sMsg
      in bind_o (carw_run_calls G K calls (s\<lparr>carw_log := carw_log s @ [CarMsg sMsg]\<rparr>)) (\<lambda>s'.
           Done (status, s')))"

definition ClientAsyncReaderWriterImpl_OnRead ::
  "'buf grpc_lib \<Rightarrow> ('cb, 'buf) carw_cb_effect \<Rightarrow> bool \<Rightarrow> 'buf ClientReaderReadCqTag \<Rightarrow>
     ('cb, 'buf) carw_op" where
  "ClientAsyncReaderWriterImpl_OnRead G K success tag s =
     assert_o (carw_reading_started s) ''reading_started_''
       (if \<not> status_ok (carw_status s)
        then assert_o (carw_status_cb s = None) ''!status_cb_'' (Done s)
        else if \<not> success
        then ClientAsyncReaderWriterImpl_SetInternalError K ''ClientReaderReadCqTag failed.'' s
        else if \<not> ClientReaderReadCqTag_HasGotMsg tag
        then (let s1 = s\<lparr>carw_reading_ended := True\<rparr>
              in if carw_writing_ended s1 then ClientAsyncReaderWriterImpl_CallStatusCb K s1
                 else Done s1)
        else bind_o (ClientReaderReadCqTag_GetResultMsg G tag '''') (\<lambda>(status, sMsg).
          if \<not> status_ok status then ClientAsyncReaderWriterImpl_EndOnErrorStatus K status s
          else case carw_msg_cb s of
            None \<Rightarrow> ClientAsyncReaderWriterImpl_ReadNext G K s
          | Some msg_cb \<Rightarrow>
              bind_o (carw_CallMsgCb G K msg_cb sMsg s) (\<lambda>(status, s1).
                if \<not> status_ok status then ClientAsyncReaderWriterImpl_EndOnErrorStatus K status s1
                else ClientAsyncReaderWriterImpl_ReadNext G K s1)))"

text \<open>The wrapper's destructor closes writing; the object lives on while a tag is pending.\<close>

definition ClientAsyncReaderWriterImplWrapper_dtor ::
  "'buf grpc_lib \<Rightarrow> ('cb, 'buf) carw_cb_effect \<Rightarrow> ('cb, 'buf) carw_op" where
  "ClientAsyncReaderWriterImplWrapper_dtor G K s = ClientAsyncReaderWriterImpl_CloseWriting G K s"

definition ClientAsyncReaderWriterImplWrapper_SetErrorStatus ::
  "('cb, 'buf) carw_cb_effect \<Rightarrow> Status \<Rightarrow> ('cb, 'buf) carw_op" where
  "ClientAsyncReaderWriterImplWrapper_SetErrorStatus K error_status s =
     assert_o (\<not> status_ok error_status) ''!error_status.ok()''
       (ClientAsyncReaderWriterImpl_SetErrorStatus K error_status s)"

section \<open>The machine\<close>

fun carw_DoComplete ::
  "'buf grpc_lib \<Rightarrow> ('cb, 'buf) carw_cb_effect \<Rightarrow> carw_tag \<Rightarrow> 'buf completion \<Rightarrow> ('cb, 'buf) carw_op"
where
  "carw_DoComplete G K CarwSendMsg cp s =
     GeneralCallCqTag_DoComplete (Some (ClientAsyncReaderWriterImpl_OnSent G K)) (cp_success cp) s"
| "carw_DoComplete G K CarwRead cp s =
     GeneralCallCqTag_DoComplete
       (Some (\<lambda>success. ClientAsyncReaderWriterImpl_OnRead G K success
          (ClientReaderReadCqTag_completed cp))) (cp_success cp) s"
| "carw_DoComplete G K _ cp s = CompletionQueueTag_DoComplete (cp_success cp) s"

definition carw_delete ::
  "carw_tag \<Rightarrow> ('cb, 'buf) ClientAsyncReaderWriterImpl \<Rightarrow> ('cb, 'buf) ClientAsyncReaderWriterImpl" where
  "carw_delete tag s = s\<lparr>carw_call := delete_tag tag (carw_call s)\<rparr>"

definition carw_pop ::
  "carw_tag \<Rightarrow> ('cb, 'buf) ClientAsyncReaderWriterImpl \<Rightarrow> ('cb, 'buf) ClientAsyncReaderWriterImpl" where
  "carw_pop tag s = s\<lparr>carw_call := pop_pending tag (carw_call s)\<rparr>"

text \<open>
  The events are the calls and the completions. The destructor of the object ends a run, it is no event; \<open>carw_safe\<close> says what its
  assertions come to where a run can end.
\<close>

datatype 'buf carw_event =
    CarwWrite string
  | CarwCloseWriting
  | CarwReadEach "carw_msg_fun option"
  | CarwSetErrorStatus Status
  | CarwWrapperDtor
  | CarwCompletion carw_tag "'buf completion"

text \<open>The message a completed read brings, and what is left when the message callback is done.\<close>

definition carw_read_message :: "'buf grpc_lib \<Rightarrow> 'buf completion \<Rightarrow> string option" where
  "carw_read_message G cp =
     (if cp_success cp
      then (case cp_recv_buf cp of None \<Rightarrow> None | Some buf \<Rightarrow> grpc_byte_buffer_reader_readall G buf)
      else None)"

fun carw_call_valid :: "carw_client_call \<Rightarrow> bool" where
  "carw_call_valid (CarwDoSetErrorStatus st) \<longleftrightarrow> \<not> status_ok st"
| "carw_call_valid _ \<longleftrightarrow> True"

text \<open>
  The calls made inside the message callback are legal, and none of them puts the object into
  the error state; the properties at the end show what happens otherwise.
\<close>

definition carw_callback_ok ::
  "'buf grpc_lib \<Rightarrow> 'buf completion \<Rightarrow> ('cb, 'buf) ClientAsyncReaderWriterImpl \<Rightarrow> bool" where
  "carw_callback_ok G cp s \<longleftrightarrow>
     (case (carw_read_message G cp, carw_msg_cb s) of
        (Some m, Some msg_cb) \<Rightarrow>
          status_ok (carw_status s) \<longrightarrow>
          list_all carw_call_valid (fst (msg_cb (car_msgs (carw_log s)) m)) \<and>
          (case carw_CallMsgCb G carw_passive msg_cb m s of
             Done (st, s') \<Rightarrow> status_ok (carw_status s')
           | Abort why \<Rightarrow> True)
      | _ \<Rightarrow> True)"

fun carw_en :: "'buf grpc_lib \<Rightarrow> 'buf carw_event \<Rightarrow> ('cb, 'buf) ClientAsyncReaderWriterImpl \<Rightarrow> bool" where
  "carw_en G (CarwCompletion tag cp) s \<longleftrightarrow>
     tag \<in> pend (carw_call s) \<and> (tag = CarwRead \<longrightarrow> carw_callback_ok G cp (carw_pop CarwRead s))"
| "carw_en G (CarwSetErrorStatus st) s \<longleftrightarrow> \<not> status_ok st"
| "carw_en G _ s \<longleftrightarrow> True"

fun carw_step ::
  "'buf grpc_lib \<Rightarrow> ('cb, 'buf) carw_cb_effect \<Rightarrow> 'buf carw_event \<Rightarrow>
     ('cb, 'buf) ClientAsyncReaderWriterImpl \<Rightarrow> (bool \<times> ('cb, 'buf) ClientAsyncReaderWriterImpl) outcome"
where
  "carw_step G K (CarwWrite msg) s = ClientAsyncReaderWriterImpl_Write G K msg s"
| "carw_step G K CarwCloseWriting s =
     bind_o (ClientAsyncReaderWriterImpl_CloseWriting G K s) (\<lambda>s'. Done (True, s'))"
| "carw_step G K (CarwReadEach msg_cb) s =
     bind_o (ClientAsyncReaderWriterImpl_ReadEach G K msg_cb s) (\<lambda>s'. Done (True, s'))"
| "carw_step G K (CarwSetErrorStatus st) s =
     bind_o (ClientAsyncReaderWriterImplWrapper_SetErrorStatus K st s) (\<lambda>s'. Done (True, s'))"
| "carw_step G K CarwWrapperDtor s =
     bind_o (ClientAsyncReaderWriterImplWrapper_dtor G K s) (\<lambda>s'. Done (True, s'))"
| "carw_step G K (CarwCompletion tag cp) s =
     handle_event (carw_DoComplete G K) carw_delete (GRPC_OP_COMPLETE (Some tag) cp) (carw_pop tag s)"

definition carw_start :: "'cb option \<Rightarrow> ('cb, 'buf) ClientAsyncReaderWriterImpl \<Rightarrow> bool" where
  "carw_start status_cb s \<longleftrightarrow> ClientAsyncReaderWriterImpl_new (Some Call_fresh) status_cb = Done s"

section \<open>The invariant\<close>

fun carw_kinds :: "carw_tag \<Rightarrow> grpc_op_type list" where
  "carw_kinds CarwSendInitMd = [GRPC_OP_SEND_INITIAL_METADATA]"
| "carw_kinds CarwRecvInitMd = [GRPC_OP_RECV_INITIAL_METADATA]"
| "carw_kinds CarwSendMsg = [GRPC_OP_SEND_MESSAGE]"
| "carw_kinds CarwSendClose = [GRPC_OP_SEND_CLOSE_FROM_CLIENT]"
| "carw_kinds CarwRead = [GRPC_OP_RECV_MESSAGE]"

definition carw_handed :: "('cb, 'buf) ClientAsyncReaderWriterImpl \<Rightarrow> 'buf list" where
  "carw_handed s = taken_msgs (call_batches (carw_call s))"

definition carw_sent_msgs :: "'buf grpc_lib \<Rightarrow> ('cb, 'buf) ClientAsyncReaderWriterImpl \<Rightarrow> 'buf list" where
  "carw_sent_msgs G s = map (grpc_raw_byte_buffer_create G) (carw_accepted s)"

definition carw_waiting :: "'buf grpc_lib \<Rightarrow> ('cb, 'buf) ClientAsyncReaderWriterImpl \<Rightarrow> 'buf list" where
  "carw_waiting G s = map (grpc_raw_byte_buffer_create G) (tl (carw_msg_queue s))"

text \<open>
  \<open>cb\<close> is the status callback given to the constructor, \<open>rd\<close> says that the code is about to
  start the next read, \<open>extra\<close> are the tags whose completion is being processed. What holds
  in any case, what holds in addition before an error, and after one:
\<close>

definition carw_weak ::
  "'buf grpc_lib \<Rightarrow> 'cb option \<Rightarrow> bool \<Rightarrow> carw_tag list \<Rightarrow> ('cb, 'buf) ClientAsyncReaderWriterImpl \<Rightarrow> bool"
where
  "carw_weak G cb rd extra s \<longleftrightarrow>
     tags_ok carw_kinds extra (carw_call s) \<and>
     (CarwSendMsg \<in> pend (carw_call s) \<longrightarrow> carw_msg_queue s \<noteq> []) \<and>
     (carw_has_sent_close s \<longrightarrow> carw_writing_closing s) \<and>
     (CarwSendClose \<in> pend (carw_call s) \<longrightarrow> carw_has_sent_close s) \<and>
     (CarwRead \<in> pend (carw_call s) \<or> rd \<longrightarrow> carw_reading_started s) \<and>
     \<not> (CarwRead \<in> pend (carw_call s) \<and> rd) \<and>
     (\<not> carw_inited s \<longrightarrow> CarwSendInitMd \<notin> pend (carw_call s) \<and> CarwRecvInitMd \<notin> pend (carw_call s)) \<and>
     map fst (car_statuses (carw_log s)) @ opt_list (carw_status_cb s) = opt_list cb \<and>
     prefix (carw_handed s) (carw_sent_msgs G s)"

definition carw_live ::
  "'buf grpc_lib \<Rightarrow> bool \<Rightarrow> ('cb, 'buf) ClientAsyncReaderWriterImpl \<Rightarrow> bool" where
  "carw_live G rd s \<longleftrightarrow>
     (carw_msg_queue s \<noteq> [] \<longrightarrow> CarwSendMsg \<in> pend (carw_call s)) \<and>
     carw_writing_ended s = carw_has_sent_close s \<and>
     carw_has_sent_close s = (carw_writing_closing s \<and> carw_msg_queue s = []) \<and>
     (CarwRead \<in> pend (carw_call s) \<or> rd) = (carw_reading_started s \<and> \<not> carw_reading_ended s) \<and>
     (carw_reading_ended s \<longrightarrow> carw_reading_started s) \<and>
     carw_sent_msgs G s = carw_handed s @ carw_waiting G s"

definition carw_dead :: "('cb, 'buf) ClientAsyncReaderWriterImpl \<Rightarrow> bool" where
  "carw_dead s \<longleftrightarrow> carw_reading_ended s \<and> carw_writing_ended s \<and> carw_status_cb s = None"

definition carw_ok ::
  "'buf grpc_lib \<Rightarrow> 'cb option \<Rightarrow> bool \<Rightarrow> carw_tag list \<Rightarrow> ('cb, 'buf) ClientAsyncReaderWriterImpl \<Rightarrow> bool"
where
  "carw_ok G cb rd extra s \<longleftrightarrow> carw_weak G cb rd extra s \<and>
     (if status_ok (carw_status s) then carw_live G rd s else carw_dead s)"

subsection \<open>The error end\<close>

definition carw_end ::
  "Status \<Rightarrow> ('cb, 'buf) ClientAsyncReaderWriterImpl \<Rightarrow> ('cb, 'buf) ClientAsyncReaderWriterImpl" where
  "carw_end st s =
     s\<lparr>carw_status := st,
       carw_log := carw_log s @ map (\<lambda>cb. CarStatus cb st) (opt_list (carw_status_cb s)),
       carw_status_cb := None, carw_reading_ended := True, carw_writing_ended := True\<rparr>"

named_theorems carw_ops

lemma CallStatusCb_passive [carw_ops]:
  "ClientAsyncReaderWriterImpl_CallStatusCb carw_passive s =
     Done (s\<lparr>carw_log := carw_log s @ map (\<lambda>cb. CarStatus cb (carw_status s)) (opt_list (carw_status_cb s)),
             carw_status_cb := None\<rparr>)"
  by (cases s) (simp add: ClientAsyncReaderWriterImpl_CallStatusCb_def carw_passive_def split: option.splits)

lemma EndOnErrorStatus_passive [carw_ops]:
  "status_ok (carw_status s) \<Longrightarrow> \<not> status_ok st \<Longrightarrow>
     ClientAsyncReaderWriterImpl_EndOnErrorStatus carw_passive st s = Done (carw_end st s)"
  by (simp add: ClientAsyncReaderWriterImpl_EndOnErrorStatus_def CallStatusCb_passive carw_end_def)

lemma SetInternalError_passive [carw_ops]:
  "status_ok (carw_status s) \<Longrightarrow>
     ClientAsyncReaderWriterImpl_SetInternalError carw_passive msg s =
       Done (carw_end (Status_InternalError msg) s)"
  by (simp add: ClientAsyncReaderWriterImpl_SetInternalError_def carw_ops)

lemma car_statuses_map [simp]:
  "map fst (car_statuses (map (\<lambda>cb. CarStatus cb st) cbs)) = cbs"
  by (induction cbs) auto

lemma carw_weak_end:
  "carw_weak G cb rd extra s \<Longrightarrow> carw_weak G cb rd extra (carw_end st s)"
  by (auto simp: carw_weak_def carw_end_def carw_handed_def carw_sent_msgs_def)

lemma carw_end_ok:
  "carw_weak G cb rd extra s \<Longrightarrow> \<not> status_ok st \<Longrightarrow> carw_ok G cb rd extra (carw_end st s)"
  using carw_weak_end [of G cb rd extra s st] by (simp add: carw_ok_def carw_dead_def carw_end_def)

lemma carw_end_status [simp]: "carw_status (carw_end st s) = st"
  by (simp add: carw_end_def)

text \<open>Starting a batch that sends no message.\<close>

lemma carw_weak_launched:
  assumes "carw_weak G cb rd extra s" "t \<notin> pend (carw_call s)" "map op_type b = carw_kinds t"
    and "batch_msgs b = []" "t \<noteq> CarwSendMsg" "t = CarwSendClose \<longrightarrow> carw_has_sent_close s"
    and "t = CarwRead \<longrightarrow> rd" "t = CarwSendInitMd \<or> t = CarwRecvInitMd \<longrightarrow> carw_inited s"
  shows "carw_weak G cb (rd \<and> (t = CarwRead \<longrightarrow> \<not> takes G (carw_call s) b)) extra
           (s\<lparr>carw_call := launched G b t (carw_call s)\<rparr>)"
  using assms by (auto simp: carw_weak_def tags_ok_launched carw_handed_def carw_sent_msgs_def)

lemma carw_ok_error: "carw_ok G cb rd extra s \<Longrightarrow> \<not> status_ok (carw_status s) \<Longrightarrow> carw_ok G cb False extra s"
  by (auto simp: carw_ok_def carw_weak_def)

lemma carw_okD: "carw_ok G cb rd extra s \<Longrightarrow> carw_weak G cb rd extra s"
  by (simp add: carw_ok_def)

lemma carw_ok_liveD: "carw_ok G cb rd extra s \<Longrightarrow> status_ok (carw_status s) \<Longrightarrow> carw_live G rd s"
  by (simp add: carw_ok_def)

lemma ReadNext_ok:
  assumes "carw_ok G cb True extra s" "status_ok (carw_status s)"
  shows "holds (carw_ok G cb False extra) (ClientAsyncReaderWriterImpl_ReadNext G carw_passive s)"
proof -
  let ?s = "s\<lparr>carw_call := launched G [RecvMessage] CarwRead (carw_call s)\<rparr>"
  have "CarwRead \<notin> pend (carw_call s)" using assms(1) by (simp add: carw_ok_def carw_weak_def)
  then have weak: "carw_weak G cb (\<not> takes G (carw_call s) [RecvMessage]) extra ?s"
    using carw_weak_launched [OF carw_okD [OF assms(1)], of CarwRead "[RecvMessage]"] by simp
  have "carw_live G False ?s" if "takes G (carw_call s) [RecvMessage]"
    using carw_ok_liveD [OF assms] that
    by (simp add: carw_live_def carw_sent_msgs_def carw_waiting_def carw_handed_def)
  moreover have "carw_ok G cb False extra (carw_end (Status_InternalError m) ?s)"
    if "\<not> takes G (carw_call s) [RecvMessage]" for m
    using carw_ok_error [OF carw_end_ok [OF weak]] by simp
  ultimately show ?thesis using assms(2) weak
    by (cases "takes G (carw_call s) [RecvMessage]")
      (simp_all add: ClientAsyncReaderWriterImpl_ReadNext_def tag_batches submit_new_tag carw_ops
        carw_ok_def)
qed

lemma InitIfNot_ok:
  assumes "carw_ok G cb rd extra s"
  shows "holds (carw_ok G cb rd extra) (ClientAsyncReaderWriterImpl_InitIfNot G carw_passive s)"
proof (cases "\<not> carw_inited s \<and> status_ok (carw_status s)")
  case False
  have "carw_ok G cb rd extra (s\<lparr>carw_inited := True\<rparr>)" if "\<not> status_ok (carw_status s)"
    using assms that
    by (auto simp: carw_ok_def carw_weak_def carw_dead_def carw_handed_def carw_sent_msgs_def)
  with False assms show ?thesis by (auto simp: ClientAsyncReaderWriterImpl_InitIfNot_def Let_def)
next
  case True
  let ?i = "s\<lparr>carw_inited := True\<rparr>"
  let ?s = "?i\<lparr>carw_call := launched G [SendInitialMetadata []] CarwSendInitMd (carw_call s)\<rparr>"
  let ?r = "?s\<lparr>carw_call := launched G [RecvInitialMetadata] CarwRecvInitMd (carw_call ?s)\<rparr>"
  have weak0: "carw_weak G cb rd extra ?i" and live0: "carw_live G rd s"
    and out: "CarwSendInitMd \<notin> pend (carw_call s)" "CarwRecvInitMd \<notin> pend (carw_call s)"
    using assms True
    by (auto simp: carw_ok_def carw_weak_def carw_handed_def carw_sent_msgs_def)
  have weak1: "carw_weak G cb rd extra ?s"
    using carw_weak_launched [OF weak0, of CarwSendInitMd "[SendInitialMetadata []]"] out by simp
  have weak2: "carw_weak G cb rd extra ?r"
    using carw_weak_launched [OF weak1, of CarwRecvInitMd "[RecvInitialMetadata]"] out by simp
  have "carw_live G rd ?r"
    using live0 by (simp add: carw_live_def carw_sent_msgs_def carw_waiting_def carw_handed_def)
  with weak2 True have "carw_ok G cb rd extra ?r" by (simp add: carw_ok_def)
  moreover have "carw_ok G cb rd extra (carw_end (Status_InternalError m) ?r)"
    "carw_ok G cb rd extra (carw_end (Status_InternalError m) ?s)" for m
    using carw_end_ok [OF weak1] carw_end_ok [OF weak2] by simp_all
  ultimately show ?thesis using True
    by (simp add: ClientAsyncReaderWriterImpl_InitIfNot_def tag_batches submit_new_tag carw_ops Let_def)
qed

text \<open>
  Sending the front message, when the queue is all that is waiting: \<open>m\<close> is the front, which
  is part of what \<^verbatim>\<open>Write\<close> accepts, or has accepted before.
\<close>

lemma SendNext_eq [carw_ops]:
  "carw_msg_queue s \<noteq> [] \<Longrightarrow> status_ok (carw_status s) \<Longrightarrow>
   ClientAsyncReaderWriterImpl_SendNext G carw_passive s =
     (let b = [SendMessage (grpc_raw_byte_buffer_create G (hd (carw_msg_queue s)))];
          s1 = s\<lparr>carw_call := launched G b CarwSendMsg (carw_call s)\<rparr>
      in if takes G (carw_call s) b then Done (True, s1)
         else Done (False, carw_end (Status_InternalError ''Failed to write bi-directional streaming.'') s1))"
  by (simp add: ClientAsyncReaderWriterImpl_SendNext_def tag_batches submit_new_tag carw_ops Let_def)

lemma SendClose_eq [carw_ops]:
  "carw_writing_closing s \<Longrightarrow> \<not> carw_has_sent_close s \<Longrightarrow> status_ok (carw_status s) \<Longrightarrow>
   ClientAsyncReaderWriterImpl_SendClose G carw_passive s =
     (let s1 = s\<lparr>carw_has_sent_close := True, carw_writing_ended := True,
                 carw_call := launched G [SendCloseFromClient] CarwSendClose (carw_call s)\<rparr>
      in Done (if takes G (carw_call s) [SendCloseFromClient] then s1
               else carw_end (Status_InternalError ''Failed to close writing.'') s1))"
  by (simp add: ClientAsyncReaderWriterImpl_SendClose_def tag_batches submit_new_tag carw_ops Let_def)

text \<open>Closing after the last message.\<close>

lemma SendClose_ok:
  assumes "carw_weak G cb rd extra s" "carw_writing_closing s" "\<not> carw_has_sent_close s"
    and "status_ok (carw_status s)" "carw_msg_queue s = []"
    and "(CarwRead \<in> pend (carw_call s) \<or> rd) = (carw_reading_started s \<and> \<not> carw_reading_ended s)"
    and "carw_reading_ended s \<longrightarrow> carw_reading_started s" "carw_sent_msgs G s = carw_handed s"
  shows "holds (\<lambda>s'. carw_ok G cb rd extra s' \<and> carw_writing_ended s')
           (ClientAsyncReaderWriterImpl_SendClose G carw_passive s)"
proof -
  let ?c = "s\<lparr>carw_has_sent_close := True, carw_writing_ended := True\<rparr>"
  let ?s = "?c\<lparr>carw_call := launched G [SendCloseFromClient] CarwSendClose (carw_call s)\<rparr>"
  have out: "CarwSendClose \<notin> pend (carw_call s)" using assms(1,3) by (auto simp: carw_weak_def)
  have "carw_weak G cb rd extra ?c"
    using assms(1,2) by (auto simp: carw_weak_def carw_handed_def carw_sent_msgs_def)
  then have weak: "carw_weak G cb rd extra ?s"
    using carw_weak_launched [of G cb rd extra ?c CarwSendClose "[SendCloseFromClient]"] out by simp
  have "carw_live G rd ?s"
    using assms by (auto simp: carw_live_def carw_sent_msgs_def carw_waiting_def carw_handed_def)
  with weak assms(4) have "carw_ok G cb rd extra ?s" by (simp add: carw_ok_def)
  moreover have "carw_ok G cb rd extra (carw_end (Status_InternalError m) ?s)" for m
    using carw_end_ok [OF weak] by simp
  ultimately show ?thesis using assms(2-4) by (simp add: SendClose_eq Let_def carw_end_def)
qed

lemma CloseWriting_ok:
  assumes "carw_ok G cb rd extra s"
  shows "holds (carw_ok G cb rd extra) (ClientAsyncReaderWriterImpl_CloseWriting G carw_passive s)"
proof -
  let ?s = "s\<lparr>carw_writing_closing := True\<rparr>"
  have weak: "carw_weak G cb rd extra ?s"
    using assms by (auto simp: carw_ok_def carw_weak_def carw_handed_def carw_sent_msgs_def)
  have dead: "carw_ok G cb rd extra ?s" if "\<not> status_ok (carw_status s)"
    using weak assms that by (simp add: carw_ok_def carw_dead_def)
  have live: "carw_live G rd s" if "status_ok (carw_status s)"
    using assms that by (rule carw_ok_liveD)
  have queued: "carw_ok G cb rd extra ?s" if "status_ok (carw_status s)" "carw_msg_queue s \<noteq> []"
    using weak live [OF that(1)] that
    by (simp add: carw_ok_def carw_live_def carw_sent_msgs_def carw_waiting_def carw_handed_def)
  have close: "holds (\<lambda>s'. carw_ok G cb rd extra s' \<and> carw_writing_ended s')
      (ClientAsyncReaderWriterImpl_SendClose G carw_passive ?s)" and "\<not> carw_has_sent_close s"
    if "status_ok (carw_status s)" "carw_msg_queue s = []" "\<not> carw_writing_closing s"
    using weak live [OF that(1)] that
    by (auto intro!: SendClose_ok simp: carw_live_def carw_sent_msgs_def carw_waiting_def carw_handed_def)
  then show ?thesis using assms dead queued
    by (auto simp: ClientAsyncReaderWriterImpl_CloseWriting_def Let_def elim!: holds_mono)
qed

lemma SetErrorStatus_ok:
  assumes "carw_ok G cb rd extra s" "\<not> status_ok st"
  shows "holds (carw_ok G cb rd extra) (ClientAsyncReaderWriterImpl_SetErrorStatus carw_passive st s)"
proof -
  have "carw_ok G cb rd extra (s\<lparr>carw_status := st\<rparr>)" if "\<not> status_ok (carw_status s)"
    using assms that
    by (auto simp: carw_ok_def carw_weak_def carw_dead_def carw_handed_def carw_sent_msgs_def)
  with assms carw_end_ok [OF carw_okD [OF assms(1)] assms(2)] show ?thesis
    by (simp add: ClientAsyncReaderWriterImpl_SetErrorStatus_def carw_ops)
qed

lemma Write_ok:
  assumes "carw_ok G cb rd extra s"
  shows "holds (\<lambda>(accepted, s'). carw_ok G cb rd extra s')
           (ClientAsyncReaderWriterImpl_Write G carw_passive msg s)"
proof -
  let ?b = "[SendMessage (grpc_raw_byte_buffer_create G msg)]"
  have main: "holds (\<lambda>(accepted, s'). carw_ok G cb rd extra s')
      (if \<not> status_ok (carw_status s)
       then assert_o (carw_reading_ended s \<and> carw_writing_ended s)
              ''reading_ended_ && writing_ended_'' (Done (False, s))
       else if carw_writing_closing s \<or> carw_writing_ended s then Done (False, s)
       else
         (let is_sending = (carw_msg_queue s \<noteq> []);
              s1 = s\<lparr>carw_msg_queue := carw_msg_queue s @ [msg]\<rparr>
          in bind_o (if is_sending then Done (True, s1)
                     else ClientAsyncReaderWriterImpl_SendNext G carw_passive s1)
               (\<lambda>(accepted, s2). Done (accepted,
                  if accepted then s2\<lparr>carw_accepted := carw_accepted s2 @ [msg]\<rparr> else s2))))"
    if ok: "carw_ok G cb rd extra s" for s
  proof (cases "status_ok (carw_status s) \<and> \<not> carw_writing_closing s \<and> \<not> carw_writing_ended s")
    case False
    with ok show ?thesis by (auto simp: carw_ok_def carw_dead_def)
  next
    case True
    with ok have live: "carw_live G rd s" by (auto intro: carw_ok_liveD)
    from ok have weak: "carw_weak G cb rd extra s" by (rule carw_okD)
    show ?thesis
    proof (cases "carw_msg_queue s")
      case Nil
      let ?s = "s\<lparr>carw_msg_queue := [msg], carw_call := launched G ?b CarwSendMsg (carw_call s)\<rparr>"
      have weak1: "carw_weak G cb rd extra ?s" if "\<not> takes G (carw_call s) ?b"
        using weak Nil that
        by (auto simp: carw_weak_def tags_ok_launched carw_handed_def carw_sent_msgs_def)
      have "carw_weak G cb rd extra (?s\<lparr>carw_accepted := carw_accepted s @ [msg]\<rparr>)"
        "carw_live G rd (?s\<lparr>carw_accepted := carw_accepted s @ [msg]\<rparr>)"
        if "takes G (carw_call s) ?b"
        using weak live Nil that True
        by (auto simp: carw_weak_def carw_live_def tags_ok_launched carw_handed_def
            carw_sent_msgs_def carw_waiting_def)
      with True Nil carw_end_ok [OF weak1] show ?thesis
        by (auto simp: SendNext_eq Let_def carw_ok_def)
    next
      case (Cons m ms)
      let ?s = "s\<lparr>carw_msg_queue := carw_msg_queue s @ [msg], carw_accepted := carw_accepted s @ [msg]\<rparr>"
      have "carw_weak G cb rd extra ?s"
        using weak by (auto simp: carw_weak_def carw_handed_def carw_sent_msgs_def)
      moreover have "carw_live G rd ?s"
        using live Cons True
        by (auto simp: carw_live_def carw_handed_def carw_sent_msgs_def carw_waiting_def)
      ultimately show ?thesis using True Cons by (simp add: carw_ok_def Let_def)
    qed
  qed
  show ?thesis
    unfolding ClientAsyncReaderWriterImpl_Write_def holds_bind
    by (rule holds_mono [OF InitIfNot_ok [OF assms]]) (rule main)
qed

lemma ReadEach_ok:
  assumes "carw_ok G cb False extra s"
  shows "holds (carw_ok G cb False extra) (ClientAsyncReaderWriterImpl_ReadEach G carw_passive mcb s)"
proof (cases "carw_reading_started s")
  case True
  with assms show ?thesis by (simp add: ClientAsyncReaderWriterImpl_ReadEach_def)
next
  case False
  with assms have "carw_ok G cb True extra (s\<lparr>carw_reading_started := True\<rparr>)"
    by (auto simp: carw_ok_def carw_weak_def carw_live_def carw_dead_def carw_handed_def
        carw_sent_msgs_def carw_waiting_def)
  note init = InitIfNot_ok [OF this]
  have "holds (carw_ok G cb False extra)
      (ClientAsyncReaderWriterImpl_ReadNext G carw_passive (s1\<lparr>carw_msg_cb := mcb\<rparr>))"
    if "carw_ok G cb True extra s1" "status_ok (carw_status s1)" for s1
    using that
    by (intro ReadNext_ok) (auto simp: carw_ok_def carw_weak_def carw_live_def carw_handed_def
        carw_sent_msgs_def carw_waiting_def)
  with init False show ?thesis
    by (auto simp: ClientAsyncReaderWriterImpl_ReadEach_def elim!: holds_mono intro: carw_ok_error)
qed

lemma run_calls_ok:
  "carw_ok G cb rd extra s \<Longrightarrow> list_all carw_call_valid calls \<Longrightarrow>
     holds (carw_ok G cb rd extra) (carw_run_calls G carw_passive calls s)"
proof (induction calls arbitrary: s)
  case Nil
  then show ?case by simp
next
  case (Cons call calls)
  then have "holds (carw_ok G cb rd extra) (carw_run_call G carw_passive call s)"
  proof (cases call)
    case (CarwDoWrite msg)
    with Write_ok [OF Cons.prems(1)] show ?thesis by (simp add: case_prod_unfold)
  next
    case CarwDoCloseWriting
    with CloseWriting_ok [OF Cons.prems(1)] show ?thesis by simp
  next
    case (CarwDoSetErrorStatus st)
    with SetErrorStatus_ok [OF Cons.prems(1)] Cons.prems(2) show ?thesis by simp
  qed
  with Cons.IH Cons.prems(2) show ?case by (auto elim!: holds_mono)
qed

subsection \<open>Completions\<close>

lemma carw_live_log [simp]:
  "carw_live G rd (s\<lparr>carw_log := l, carw_status_cb := c\<rparr>) = carw_live G rd s"
  "carw_live G rd (carw_delete t s) = carw_live G rd s"
  by (simp_all add: carw_live_def carw_handed_def carw_sent_msgs_def carw_waiting_def carw_delete_def)

lemma carw_dead_log [simp]:
  "carw_dead s \<Longrightarrow> carw_dead (s\<lparr>carw_log := l, carw_status_cb := None\<rparr>)"
  "carw_dead (carw_delete t s) = carw_dead s"
  by (simp_all add: carw_dead_def carw_delete_def)

lemma carw_weak_log:
  "carw_weak G cb rd extra s \<Longrightarrow>
     carw_weak G cb rd extra (s\<lparr>carw_log := carw_log s @
       map (\<lambda>cb. CarStatus cb st) (opt_list (carw_status_cb s)), carw_status_cb := None\<rparr>)"
  "carw_weak G cb rd [t] s \<Longrightarrow> carw_weak G cb rd [] (carw_delete t s)"
  by (simp_all add: carw_weak_def carw_handed_def carw_sent_msgs_def carw_delete_def tags_ok_delete)

lemma CallStatusCb_ok:
  "carw_ok G cb rd extra s \<Longrightarrow>
     holds (carw_ok G cb rd extra) (ClientAsyncReaderWriterImpl_CallStatusCb carw_passive s)"
  by (simp add: CallStatusCb_passive carw_ok_def carw_weak_log split: if_splits)

lemma carw_frames [simp]:
  "carw_call (carw_pop t s) = pop_pending t (carw_call s)"
  "carw_status (carw_pop t s) = carw_status s" "carw_msg_queue (carw_pop t s) = carw_msg_queue s"
  "carw_status_cb (carw_pop t s) = carw_status_cb s" "carw_inited (carw_pop t s) = carw_inited s"
  "carw_reading_started (carw_pop t s) = carw_reading_started s"
  "carw_writing_closing (carw_pop t s) = carw_writing_closing s"
  "carw_reading_ended (carw_pop t s) = carw_reading_ended s"
  "carw_writing_ended (carw_pop t s) = carw_writing_ended s"
  "carw_has_sent_close (carw_pop t s) = carw_has_sent_close s"
  "carw_log (carw_pop t s) = carw_log s" "carw_accepted (carw_pop t s) = carw_accepted s"
  "carw_msg_cb (carw_pop t s) = carw_msg_cb s"
  by (simp_all add: carw_pop_def)

lemma carw_frame_lists [simp]:
  "carw_handed (carw_pop t s) = carw_handed s" "carw_sent_msgs G (carw_pop t s) = carw_sent_msgs G s"
  "carw_waiting G (carw_pop t s) = carw_waiting G s"
  by (simp_all add: carw_handed_def carw_sent_msgs_def carw_waiting_def)

lemma carw_weak_pop:
  assumes "carw_weak G cb False [] s" "t \<in> pend (carw_call s)"
  shows "carw_weak G cb (t = CarwRead) [t] (carw_pop t s)"
    and "pend (pop_pending t (carw_call s)) = pend (carw_call s) - {t}"
proof -
  have tags: "tags_ok carw_kinds [] (carw_call s)" using assms(1) by (simp add: carw_weak_def)
  show pop: "pend (pop_pending t (carw_call s)) = pend (carw_call s) - {t}"
    by (rule pend_pop [OF tags])
  show "carw_weak G cb (t = CarwRead) [t] (carw_pop t s)"
    using assms tags_ok_pop [OF tags assms(2)] pop by (auto simp: carw_weak_def)
qed

lemma carw_ok_delete: "carw_ok G cb rd [t] s \<Longrightarrow> carw_ok G cb rd [] (carw_delete t s)"
  by (simp add: carw_ok_def carw_weak_log) (simp add: carw_delete_def)

lemma OnSent_ok:
  assumes "carw_ok G cb False [] s" "CarwSendMsg \<in> pend (carw_call s)"
  shows "holds (carw_ok G cb False [CarwSendMsg])
           (ClientAsyncReaderWriterImpl_OnSent G carw_passive success (carw_pop CarwSendMsg s))"
proof -
  from assms have q: "carw_msg_queue s \<noteq> []" by (simp add: carw_ok_def carw_weak_def)
  then obtain m ms where ms: "carw_msg_queue s = m # ms" by (cases "carw_msg_queue s") auto
  let ?s = "(carw_pop CarwSendMsg s)\<lparr>carw_msg_queue := ms\<rparr>"
  note pop = carw_weak_pop [OF carw_okD [OF assms(1)] assms(2)]
  have weak: "carw_weak G cb False [CarwSendMsg] ?s"
    using pop by (simp add: carw_weak_def carw_handed_def carw_sent_msgs_def)
  show ?thesis
  proof (cases "status_ok (carw_status s)")
    case False
    with assms(1) weak have "carw_ok G cb False [CarwSendMsg] ?s" "carw_status_cb s = None"
      by (auto simp: carw_ok_def carw_dead_def)
    with False ms show ?thesis by (simp add: ClientAsyncReaderWriterImpl_OnSent_def)
  next
    case True
    with assms(1) have live: "carw_live G False s" by (rule carw_ok_liveD)
    then have sent: "\<not> carw_has_sent_close s" "carw_sent_msgs G s = carw_handed s @ map (grpc_raw_byte_buffer_create G) ms"
      using ms by (simp_all add: carw_live_def carw_waiting_def)
    let ?b = "[SendMessage (grpc_raw_byte_buffer_create G (hd ms))]"
    let ?n = "?s\<lparr>carw_call := launched G ?b CarwSendMsg (carw_call ?s)\<rparr>"
    have next_weak: "carw_weak G cb False [CarwSendMsg] ?n" if "ms \<noteq> []"
      using weak that sent pop(2)
      by (cases ms) (auto simp: carw_weak_def tags_ok_launched carw_handed_def carw_sent_msgs_def)
    have next_live: "carw_live G False ?n" if "ms \<noteq> []" "takes G (carw_call ?s) ?b"
      using live that sent pop(2) ms
      by (cases ms) (auto simp: carw_live_def carw_handed_def carw_sent_msgs_def carw_waiting_def)
    have idle: "carw_ok G cb False [CarwSendMsg] ?s" if "ms = []" "\<not> carw_writing_closing s"
      using weak live that sent pop(2) True
      by (auto simp: carw_ok_def carw_live_def carw_handed_def carw_sent_msgs_def carw_waiting_def)
    have close: "holds (\<lambda>s'. carw_ok G cb False [CarwSendMsg] s' \<and> carw_writing_ended s')
        (ClientAsyncReaderWriterImpl_SendClose G carw_passive ?s)"
      if "ms = []" "carw_writing_closing s"
      using weak live that sent pop(2) True
      by (intro SendClose_ok) (auto simp: carw_live_def carw_handed_def carw_sent_msgs_def)
    have end_ok: "carw_ok G cb False [CarwSendMsg] (carw_end (Status_InternalError e) ?s)" for e
      using carw_end_ok [OF weak] by simp
    have next_end: "carw_ok G cb False [CarwSendMsg] (carw_end (Status_InternalError e) ?n)"
      if "ms \<noteq> []" for e
      using carw_end_ok [OF next_weak [OF that]] by simp
    consider (fail) "\<not> success" | (send) "success" "ms \<noteq> []" | (stay) "success" "ms = []" "\<not> carw_writing_closing s"
      | (close) "success" "ms = []" "carw_writing_closing s" by blast
    then show ?thesis
    proof cases
      case fail
      with True ms end_ok show ?thesis
        by (simp add: ClientAsyncReaderWriterImpl_OnSent_def SetInternalError_passive Let_def)
    next
      case send
      with True ms next_weak next_live next_end show ?thesis
        by (simp add: ClientAsyncReaderWriterImpl_OnSent_def SendNext_eq Let_def carw_ok_def)
    next
      case stay
      with True ms idle show ?thesis by (simp add: ClientAsyncReaderWriterImpl_OnSent_def Let_def)
    next
      case close
      with \<open>ms = [] \<Longrightarrow> carw_writing_closing s \<Longrightarrow> _\<close> True ms show ?thesis
        by (auto simp: ClientAsyncReaderWriterImpl_OnSent_def Let_def elim!: holds_mono
            intro: CallStatusCb_ok)
    qed
  qed
qed

lemma OnRead_ok:
  assumes "carw_ok G cb True [CarwRead] s" "carw_callback_ok G cp s"
  shows "holds (carw_ok G cb False [CarwRead])
           (ClientAsyncReaderWriterImpl_OnRead G carw_passive (cp_success cp)
             (ClientReaderReadCqTag_completed cp) s)"
proof -
  from assms(1) have started: "carw_reading_started s" by (simp add: carw_ok_def carw_weak_def)
  note weak = carw_okD [OF assms(1)]
  show ?thesis
  proof (cases "status_ok (carw_status s)")
    case False
    with assms(1) started carw_ok_error [OF assms(1)] show ?thesis
      by (auto simp: ClientAsyncReaderWriterImpl_OnRead_def carw_ok_def carw_dead_def)
  next
    case True
    note live = carw_ok_liveD [OF assms(1) True]
    have end_ok: "carw_ok G cb False [CarwRead] (carw_end st s')"
      if "carw_ok G cb True [CarwRead] s'" "\<not> status_ok st" for st s'
      using carw_ok_error [OF carw_end_ok [OF carw_okD [OF that(1)] that(2)]] that(2) by simp
    have last: "carw_ok G cb False [CarwRead] (s\<lparr>carw_reading_ended := True\<rparr>)"
      using weak live True
      by (auto simp: carw_ok_def carw_weak_def carw_live_def carw_handed_def carw_sent_msgs_def
          carw_waiting_def)
    have "holds (carw_ok G cb False [CarwRead])
        (bind_o (carw_CallMsgCb G carw_passive msg_cb m s) (\<lambda>(status, s1).
           if \<not> status_ok status
           then ClientAsyncReaderWriterImpl_EndOnErrorStatus carw_passive status s1
           else ClientAsyncReaderWriterImpl_ReadNext G carw_passive s1))"
      if m: "carw_read_message G cp = Some m" and cb: "carw_msg_cb s = Some msg_cb" for m msg_cb
    proof -
      obtain calls st where calls: "msg_cb (car_msgs (carw_log s)) m = (calls, st)"
        by (cases "msg_cb (car_msgs (carw_log s)) m")
      let ?s = "s\<lparr>carw_log := carw_log s @ [CarMsg m]\<rparr>"
      have "carw_ok G cb True [CarwRead] ?s"
        using assms(1) by (auto simp: carw_ok_def carw_weak_def carw_live_def carw_dead_def
            carw_handed_def carw_sent_msgs_def carw_waiting_def)
      moreover have "list_all carw_call_valid calls"
        using assms(2) m cb True calls by (simp add: carw_callback_ok_def)
      ultimately have "holds (carw_ok G cb True [CarwRead]) (carw_run_calls G carw_passive calls ?s)"
        by (rule run_calls_ok)
      then obtain s1 where s1: "carw_run_calls G carw_passive calls ?s = Done s1"
        "carw_ok G cb True [CarwRead] s1" by (auto simp: holds_iff)
      moreover from this assms(2) m cb True calls have "status_ok (carw_status s1)"
        by (simp add: carw_callback_ok_def carw_CallMsgCb_def)
      ultimately show ?thesis using calls end_ok ReadNext_ok [OF s1(2)]
        by (cases "status_ok st") (simp_all add: carw_CallMsgCb_def EndOnErrorStatus_passive)
    qed
    moreover have "holds (carw_ok G cb False [CarwRead])
        (ClientAsyncReaderWriterImpl_CallStatusCb carw_passive (s\<lparr>carw_reading_ended := True\<rparr>))"
      using last by (rule CallStatusCb_ok)
    moreover have "holds (carw_ok G cb False [CarwRead])
        (ClientAsyncReaderWriterImpl_ReadNext G carw_passive s)"
      using assms(1) True by (rule ReadNext_ok)
    ultimately show ?thesis using started True end_ok [OF assms(1)] last
      by (auto simp: ClientAsyncReaderWriterImpl_OnRead_def SetInternalError_passive
          EndOnErrorStatus_passive Let_def read_buf_def carw_read_message_def split: option.splits)
  qed
qed

lemma carw_completion_ok:
  assumes "carw_ok G cb False [] s" "carw_en G (CarwCompletion t cp) s"
  shows "holds (carw_ok G cb False [t]) (carw_DoComplete G carw_passive t cp (carw_pop t s))"
proof -
  from assms(2) have t: "t \<in> pend (carw_call s)" by simp
  note pop = carw_weak_pop [OF carw_okD [OF assms(1)] t]
  have live: "carw_live G (t = CarwRead) (carw_pop t s)" if "t \<noteq> CarwSendMsg" "carw_live G False s"
    using that t unfolding carw_live_def carw_frames carw_frame_lists pop(2) by blast
  have dead: "carw_dead (carw_pop t s) = carw_dead s" by (simp add: carw_dead_def)
  have popped: "carw_ok G cb (t = CarwRead) [t] (carw_pop t s)" if "t \<noteq> CarwSendMsg"
    using assms(1) pop(1) live dead that by (simp add: carw_ok_def split: if_splits)
  show ?thesis
  proof (cases t)
    case CarwSendMsg
    with OnSent_ok [OF assms(1)] t show ?thesis by simp
  next
    case CarwRead
    with popped have "carw_ok G cb True [CarwRead] (carw_pop CarwRead s)" by simp
    from OnRead_ok [OF this] assms(2) CarwRead show ?thesis by simp
  qed (use popped in simp_all)
qed

lemma carw_step_ok:
  assumes "carw_ok G cb False [] s" "carw_en G e s"
  shows "holds (\<lambda>(out, s'). carw_ok G cb False [] s') (carw_step G carw_passive e s)"
proof (cases e)
  case (CarwWrite msg)
  with Write_ok [OF assms(1)] show ?thesis by simp
next
  case CarwCloseWriting
  with CloseWriting_ok [OF assms(1)] show ?thesis by simp
next
  case (CarwReadEach mcb)
  with ReadEach_ok [OF assms(1)] show ?thesis by simp
next
  case (CarwSetErrorStatus st)
  with SetErrorStatus_ok [OF assms(1)] assms(2) show ?thesis
    by (simp add: ClientAsyncReaderWriterImplWrapper_SetErrorStatus_def)
next
  case CarwWrapperDtor
  with CloseWriting_ok [OF assms(1)] show ?thesis
    by (simp add: ClientAsyncReaderWriterImplWrapper_dtor_def)
next
  case (CarwCompletion t cp)
  with carw_completion_ok [of G cb s t cp] assms show ?thesis
    by (auto elim!: holds_mono intro: carw_ok_delete)
qed

interpretation carw: safe_machine "carw_start cb" "carw_en G" "carw_step G carw_passive"
    "carw_ok G cb False []" for cb G
proof (unfold_locales, goal_cases)
  case (1 s)
  then show ?case
    by (auto simp: carw_start_def ClientAsyncReaderWriterImpl_new_def carw_ok_def carw_weak_def
        carw_live_def carw_handed_def carw_sent_msgs_def carw_waiting_def)
next
  case (2 s e)
  then show ?case by (rule carw_step_ok)
qed

section \<open>Runs\<close>

definition carw_demo_start :: "(nat, string) ClientAsyncReaderWriterImpl" where
  "carw_demo_start =
     (case ClientAsyncReaderWriterImpl_new (Some Call_fresh) (Some 3) of Done s \<Rightarrow> s)"

definition carw_demo_run :: "string carw_event list \<Rightarrow>
    ((string carw_event \<times> bool) list \<times> (nat, string) ClientAsyncReaderWriterImpl) option" where
  "carw_demo_run es = exec (carw_en (demo_lib 10)) (carw_step (demo_lib 10) carw_passive) es carw_demo_start"

lemma carw_demo_reach:
  assumes "carw_demo_run es = Some (tr, s)"
  shows "reach (carw_start (Some 3)) (carw_en (demo_lib 10)) (carw_step (demo_lib 10) carw_passive) tr s"
proof -
  have "carw_start (Some 3) carw_demo_start"
    by (simp add: carw_start_def carw_demo_start_def ClientAsyncReaderWriterImpl_new_def)
  with assms show ?thesis
    using exec_reach [of "carw_start (Some 3)" carw_demo_start] by (simp add: carw_demo_run_def)
qed

text \<open>
  The message callback answers \<open>ping\<close> with a message of its own. A message is received and
  answered, writing is closed and reading ends: the status callback is called once.
\<close>

definition carw_demo_answer :: carw_msg_fun where
  "carw_demo_answer ms m = ([CarwDoWrite (m @ ''!'')], Status_OK)"

definition carw_demo_events :: "string carw_event list" where
  "carw_demo_events =
     [CarwWrite ''a'', CarwReadEach (Some carw_demo_answer), CarwCompletion CarwSendInitMd demo_done,
      CarwCompletion CarwRead demo_done, CarwCloseWriting, CarwCompletion CarwSendMsg demo_done,
      CarwCompletion CarwSendMsg demo_done]"

lemma carw_demo_result:
  "(case carw_demo_run carw_demo_events of
      None \<Rightarrow> False
    | Some (tr, s) \<Rightarrow> pending_tags (carw_call s) = [CarwRecvInitMd, CarwRead, CarwSendClose] \<and>
        carw_accepted s = [''a'', ''pong!''] \<and> status_ok (carw_status s) \<and>
        carw_handed s = [''a'', ''pong!''] \<and> carw_log s = [CarMsg ''pong''])"
  by code_simp

abbreviation carw_reach ::
  "'cb option \<Rightarrow> 'buf grpc_lib \<Rightarrow> ('buf carw_event \<times> bool) list \<Rightarrow> ('cb, 'buf) ClientAsyncReaderWriterImpl \<Rightarrow> bool"
where
  "carw_reach cb G \<equiv> reach (carw_start cb) (carw_en G) (carw_step G carw_passive)"

lemma carw_demo_state:
  obtains tr and s :: "(nat, string) ClientAsyncReaderWriterImpl" where
    "carw_reach (Some 3) (demo_lib 10) tr s" "pending_tags (carw_call s) = [CarwRecvInitMd, CarwRead, CarwSendClose]"
    "carw_accepted s = [''a'', ''pong!'']" "status_ok (carw_status s)" "carw_handed s = [''a'', ''pong!'']"
    "carw_log s = [CarMsg ''pong'']"
proof (cases "carw_demo_run carw_demo_events")
  case None
  with carw_demo_result show ?thesis by simp
next
  case (Some r)
  obtain tr s where r: "r = (tr, s)" by (cases r)
  with Some carw_demo_result show ?thesis
    by (intro that [of tr s] carw_demo_reach [of carw_demo_events]) auto
qed

lemma carw_demo_first:
  "(case carw_demo_run [CarwWrite ''a''] of
      None \<Rightarrow> False
    | Some (tr, s) \<Rightarrow> carw_inited s \<and> status_ok (carw_status s) \<and> \<not> carw_reading_ended s \<and>
        carw_status_cb s = Some 3)"
  by code_simp

section \<open>Properties\<close>

text \<open>
  The destructor of the object, which runs when the wrapper has closed writing and no tag
  with a callback shares the object any more.
\<close>

lemma carw_dtor_result:
  assumes "carw_ok G cb False [] s" and "carw_writing_closing s"
    and "CarwSendMsg \<notin> pend (carw_call s)" and "CarwRead \<notin> pend (carw_call s)"
  shows "ClientAsyncReaderWriterImpl_dtor s =
    (if carw_reading_started s \<or> \<not> status_ok (carw_status s) then Done () else Abort ''reading_ended_'')"
proof (cases "status_ok (carw_status s)")
  case True
  with assms(1) have live: "carw_live G False s" by (simp add: carw_ok_def)
  have "carw_msg_queue s = []" using live assms(3) unfolding carw_live_def by blast
  then have "carw_writing_ended s" using live assms(2) unfolding carw_live_def by blast
  moreover have "carw_reading_ended s \<longleftrightarrow> carw_reading_started s"
    using live assms(4) unfolding carw_live_def by blast
  ultimately show ?thesis using True by (simp add: ClientAsyncReaderWriterImpl_dtor_def)
next
  case False
  with assms(1) have "carw_dead s" by (simp add: carw_ok_def)
  with False show ?thesis by (simp add: ClientAsyncReaderWriterImpl_dtor_def carw_dead_def)
qed

lemma carw_discipline:
  assumes "carw_ok G cb False [] s"
  shows "one_of_each (carw_call s)" "mset (call_heap (carw_call s)) = mset (pending_tags (carw_call s))"
proof -
  from assms have tags: "tags_ok carw_kinds [] (carw_call s)" by (simp add: carw_ok_def carw_weak_def)
  have d: "distinct (carw_kinds t)" for t by (cases t) auto
  have "set (carw_kinds t) \<inter> set (carw_kinds u) = {}" if "t \<noteq> u" for t u
    using that by (cases t; cases u) auto
  then show "one_of_each (carw_call s)" using tags_ok_one_of_each [OF tags] d by blast
  show "mset (call_heap (carw_call s)) = mset (pending_tags (carw_call s))"
    by (rule tags_ok_no_leak [OF tags])
qed

text \<open>
  C9: Provided the status callback leaves the object alone and no call made inside the
  message callback fails, no assertion in the calls and completions of the asynchronous
  reader-writer fails, whatever gRPC refuses or delivers, and its call keeps the discipline of
  gRPC. The assertions of the destructor are decided exactly: when the wrapper has closed
  writing and no send or read shares the object any more, they hold if reading was started or
  the call ended with an error, and \<^verbatim>\<open>assert(reading_ended_)\<close> ends the process otherwise.
\<close>
theorem carw_safe:
  assumes "carw_reach cb G tr s"
  shows "(\<forall>e. carw_en G e s \<longrightarrow>
      (\<exists>out s'. carw_step G carw_passive e s = Done (out, s') \<and> one_of_each (carw_call s') \<and>
        mset (call_heap (carw_call s')) = mset (pending_tags (carw_call s')))) \<and>
    (carw_writing_closing s \<and> CarwSendMsg \<notin> pend (carw_call s) \<and> CarwRead \<notin> pend (carw_call s) \<longrightarrow>
      ClientAsyncReaderWriterImpl_dtor s =
        (if carw_reading_started s \<or> \<not> status_ok (carw_status s) then Done ()
         else Abort ''reading_ended_''))"
proof (intro conjI allI impI)
  fix e assume "carw_en G e s"
  from carw.reach_no_abort [OF assms this] obtain out s' where
    "carw_step G carw_passive e s = Done (out, s')" "carw_ok G cb False [] s'" by blast
  then show "\<exists>out s'. carw_step G carw_passive e s = Done (out, s') \<and> one_of_each (carw_call s') \<and>
      mset (call_heap (carw_call s')) = mset (pending_tags (carw_call s'))"
    using carw_discipline by blast
qed (use carw_dtor_result [OF carw.reach_inv [OF assms]] in blast)

lemma carw_demo_unread:
  "(case carw_demo_run [CarwWrite ''a'', CarwCompletion CarwSendMsg demo_done, CarwWrapperDtor] of
      None \<Rightarrow> False
    | Some (tr, s) \<Rightarrow> carw_writing_closing s \<and> CarwSendMsg \<notin> set (pending_tags (carw_call s)) \<and>
        CarwRead \<notin> set (pending_tags (carw_call s)) \<and> \<not> carw_reading_started s \<and>
        status_ok (carw_status s))"
  by code_simp

theorem carw_safe_witness:
  "(\<exists>(s :: (nat, string) ClientAsyncReaderWriterImpl) out s'.
     carw_step (demo_lib 10) carw_passive (CarwCompletion CarwRead demo_done) s = Done (out, s') \<and>
     one_of_each (carw_call s')) \<and>
   (\<exists>s :: (nat, string) ClientAsyncReaderWriterImpl.
     ClientAsyncReaderWriterImpl_dtor s = Abort ''reading_ended_'')"
proof (intro conjI)
  have "case carw_demo_run (butlast carw_demo_events) of
      None \<Rightarrow> False
    | Some (tr, s) \<Rightarrow> CarwRead \<in> set (pending_tags (carw_call s)) \<and>
        carw_callback_ok (demo_lib 10) demo_done (carw_pop CarwRead s)"
    by code_simp
  then obtain tr s where s: "carw_demo_run (butlast carw_demo_events) = Some (tr, s)"
    "carw_en (demo_lib 10) (CarwCompletion CarwRead demo_done) s"
    by (auto simp: pend_def split: option.splits)
  with carw_safe [OF carw_demo_reach [OF s(1)]]
  show "\<exists>(s :: (nat, string) ClientAsyncReaderWriterImpl) out s'.
     carw_step (demo_lib 10) carw_passive (CarwCompletion CarwRead demo_done) s = Done (out, s') \<and>
     one_of_each (carw_call s')" by blast
  from carw_demo_unread obtain tr s where
    "carw_demo_run [CarwWrite ''a'', CarwCompletion CarwSendMsg demo_done, CarwWrapperDtor] = Some (tr, s)"
    "carw_writing_closing s" "CarwSendMsg \<notin> pend (carw_call s)" "CarwRead \<notin> pend (carw_call s)"
    "\<not> carw_reading_started s" "status_ok (carw_status s)"
    by (auto simp: pend_def split: option.splits)
  with carw_safe [OF carw_demo_reach, of _ tr s]
  show "\<exists>s :: (nat, string) ClientAsyncReaderWriterImpl.
     ClientAsyncReaderWriterImpl_dtor s = Abort ''reading_ended_''" by auto
qed

text \<open>
  C10: Messages are first in, first out, also those written inside the message callback: what
  gRPC has taken is a prefix of what \<^verbatim>\<open>Write\<close> accepted, and before an error nothing is lost.
\<close>
theorem carw_fifo:
  assumes "carw_reach cb G tr s"
  shows "prefix (carw_handed s) (carw_sent_msgs G s) \<and>
    (status_ok (carw_status s) \<longrightarrow> carw_sent_msgs G s = carw_handed s @ carw_waiting G s)"
  using carw.reach_inv [OF assms]
  by (simp add: carw_ok_def carw_weak_def carw_live_def split: if_splits)

theorem carw_fifo_witness:
  "\<exists>s :: (nat, string) ClientAsyncReaderWriterImpl.
     carw_sent_msgs (demo_lib 10) s = carw_handed s @ carw_waiting (demo_lib 10) s \<and>
     carw_handed s = [''a'', ''pong!'']"
proof -
  obtain tr and s :: "(nat, string) ClientAsyncReaderWriterImpl" where
    s: "carw_reach (Some 3) (demo_lib 10) tr s" "status_ok (carw_status s)"
      "carw_handed s = [''a'', ''pong!'']"
    by (rule carw_demo_state)
  with carw_fifo [OF s(1)] show ?thesis by blast
qed

text \<open>
  A status callback that leaves the object alone is called at most once, and on an error it has been called with the
  error: the callbacks called and the one still waiting are the one given to the constructor,
  and in the error state both directions have ended and none is waiting.
\<close>
lemma carw_status_cb_once:
  assumes "carw_reach cb G tr s"
  shows "map fst (car_statuses (carw_log s)) @ opt_list (carw_status_cb s) = opt_list cb \<and>
    (\<not> status_ok (carw_status s) \<longrightarrow>
       carw_reading_ended s \<and> carw_writing_ended s \<and> carw_status_cb s = None)"
  using carw.reach_inv [OF assms] by (auto simp: carw_ok_def carw_weak_def carw_dead_def)

text \<open>
  The proviso is needed: \<^verbatim>\<open>CallStatusCb\<close> resets \<^verbatim>\<open>status_cb_\<close> only after the call. A callback that
  sets an error status when the call has ended normally is called a second time.
\<close>
lemma carw_status_cb_twice:
  "(case carw_demo_run [CarwReadEach None, CarwCloseWriting] of
      None \<Rightarrow> False
    | Some (tr, s) \<Rightarrow>
        (case carw_step (demo_lib 10)
           (\<lambda>cb st s. ClientAsyncReaderWriterImpl_SetErrorStatus carw_passive Status_CANCELLED s)
           (CarwCompletion CarwRead (demo_done\<lparr>cp_recv_buf := None\<rparr>)) s of
           Done (out, s') \<Rightarrow>
             car_statuses (carw_log s') = [(3, Status_OK), (3, Status_CANCELLED)]
         | Abort why \<Rightarrow> False))"
  by code_simp

text \<open>
  \<^verbatim>\<open>CloseWriting\<close> after the end of reading loses the status callback. When the server ends
  the stream first and the client closes writing afterwards with an empty queue, both
  directions end, nothing is pending any more and the status callback is never called
  (\<^verbatim>\<open>OnSent\<close> tests \<^verbatim>\<open>reading_ended_\<close> at the same point, \<^verbatim>\<open>CloseWriting\<close> does not).
\<close>
theorem carw_close_after_reading_loses_callback:
  "(case carw_demo_run [CarwReadEach None, CarwCompletion CarwSendInitMd demo_done,
        CarwCompletion CarwRecvInitMd demo_done,
        CarwCompletion CarwRead (demo_done\<lparr>cp_recv_buf := None\<rparr>),
        CarwCloseWriting, CarwCompletion CarwSendClose demo_done] of
      None \<Rightarrow> False
    | Some (tr, s) \<Rightarrow> call_pending (carw_call s) = [] \<and> carw_reading_ended s \<and> carw_writing_ended s \<and>
        ClientAsyncReaderWriterImpl_dtor s = Done () \<and>
        carw_status_cb s = Some 3 \<and> car_statuses (carw_log s) = [])"
  by code_simp

text \<open>
  The normal end reports OK whatever the server's status was: the status of the call is
  never received, no batch of the run asks for it, and the callback gets status OK.
\<close>
theorem carw_end_without_status:
  "(case carw_demo_run [CarwReadEach None, CarwCloseWriting,
        CarwCompletion CarwRead (demo_done\<lparr>cp_recv_buf := None\<rparr>)] of
      None \<Rightarrow> False
    | Some (tr, s) \<Rightarrow> car_statuses (carw_log s) = [(3, Status_OK)] \<and>
        list_all (\<lambda>(ops, taken). list_all (\<lambda>op. op_type op \<noteq> GRPC_OP_RECV_STATUS_ON_CLIENT) ops)
          (call_batches (carw_call s)))"
  by code_simp

text \<open>
  A call of \<^verbatim>\<open>Write\<close> inside the status callback ends the process when an error is reported:
  the callback runs before \<^verbatim>\<open>EndOnErrorStatus\<close> has set the flags \<^verbatim>\<open>Write\<close> asserts.
\<close>
theorem carw_write_in_status_cb_aborts:
  assumes "carw_reach cb G tr s" and "status_ok (carw_status s)" and "carw_inited s"
    and "\<not> (carw_reading_ended s \<and> carw_writing_ended s)" and "carw_status_cb s = Some c"
    and "\<not> status_ok st"
  shows "carw_step G (\<lambda>cb st s. bind_o (ClientAsyncReaderWriterImpl_Write G carw_passive msg s)
             (\<lambda>(accepted, s'). Done s')) (CarwSetErrorStatus st) s =
           Abort ''reading_ended_ && writing_ended_''"
  using assms
  by (cases "carw_reading_ended s")
    (simp_all add: ClientAsyncReaderWriterImplWrapper_SetErrorStatus_def
      ClientAsyncReaderWriterImpl_SetErrorStatus_def ClientAsyncReaderWriterImpl_EndOnErrorStatus_def
      ClientAsyncReaderWriterImpl_CallStatusCb_def ClientAsyncReaderWriterImpl_Write_def
      ClientAsyncReaderWriterImpl_InitIfNot_def)

theorem carw_write_in_status_cb_aborts_witness:
  "\<exists>s :: (nat, string) ClientAsyncReaderWriterImpl.
     carw_step (demo_lib 10)
       (\<lambda>cb st s. bind_o (ClientAsyncReaderWriterImpl_Write (demo_lib 10) carw_passive ''m'' s)
          (\<lambda>(accepted, s'). Done s')) (CarwSetErrorStatus Status_CANCELLED) s =
     Abort ''reading_ended_ && writing_ended_''"
proof (cases "carw_demo_run [CarwWrite ''a'']")
  case None
  with carw_demo_first show ?thesis by simp
next
  case (Some r)
  obtain tr s where r: "r = (tr, s)" by (cases r)
  with carw_demo_first Some show ?thesis
    by (intro exI [of _ s]
        carw_write_in_status_cb_aborts [OF carw_demo_reach [OF Some [unfolded r]], of 3]) auto
qed

text \<open>
  The proviso on the message callback is needed: when a \<^verbatim>\<open>Write\<close> inside it is refused by
  gRPC, the object is in the error state, and a callback that returns OK all the same makes
  \<^verbatim>\<open>OnRead\<close> start the next read, whose assertion fails.
\<close>
theorem carw_failed_write_in_msg_cb_aborts:
  "(case exec (carw_en (demo_lib 3)) (carw_step (demo_lib 3) carw_passive)
           [CarwReadEach (Some carw_demo_answer)] carw_demo_start of
      None \<Rightarrow> False
    | Some (tr, s) \<Rightarrow>
        abort_reason (carw_step (demo_lib 3) carw_passive (CarwCompletion CarwRead demo_done) s) =
          Some ''status_.ok()'')"
  by code_simp

end
