(* ===== verification/Client_Sync.thy ===== *)
theory Client_Sync
  imports Machine Completion_Queue
begin

text \<open>
  The synchronous clients: \<^verbatim>\<open>core/client/client_sync_reader*\<close>, \<^verbatim>\<open>client_sync_writer*\<close>,
  \<^verbatim>\<open>client_sync_reader_writer*\<close> with their helpers and data under \<^verbatim>\<open>impl\<close>. Every operation
  starts one batch and plucks its completion before it returns. The tag is a local variable,
  so there is no heap to keep; the call has at most one pending batch, of tag \<open>()\<close>.

  The success flag of a plucked event is not looked at by any of these functions. A response
  passed by pointer is an optional string: the null pointer is \<open>None\<close>.
\<close>

section \<open>Plucking\<close>

type_synonym 'buf sync_call = "(unit, 'buf) Call"

text \<open>\<^verbatim>\<open>CQueueForPluck::Pluck\<close> waits for the completion of the tag.\<close>

definition CQueueForPluck_Pluck ::
  "'buf grpc_lib \<Rightarrow> 'tag \<Rightarrow> ('tag, 'buf) Call \<Rightarrow> 'buf completion \<times> ('tag, 'buf) Call" where
  "CQueueForPluck_Pluck G tag c = (grpc_completion_queue_pluck G (call_batches c), pop_pending tag c)"

section \<open>Helpers\<close>

definition SyncWrite ::
  "'buf grpc_lib \<Rightarrow> string \<Rightarrow> 'buf sync_call \<Rightarrow> Status \<Rightarrow> (bool \<times> 'buf sync_call \<times> Status) outcome" where
  "SyncWrite G request c status =
     (if \<not> status_ok status then Done (False, c, status)
      else bind_o (ClientSendMsgCqTag_Start G request () c) (\<lambda>(started, c1).
        if started
        then (let (cp, c2) = CQueueForPluck_Pluck G () c1 in Done (True, c2, status))
        else Done (False, c1, SetInternalError ''Failed to write client-side streaming.'' status)))"

definition SyncReadOne ::
  "'buf grpc_lib \<Rightarrow> string \<Rightarrow> 'buf sync_call \<Rightarrow> Status \<Rightarrow> (bool \<times> string \<times> 'buf sync_call \<times> Status) outcome"
where
  "SyncReadOne G response c status =
     (if \<not> status_ok status then Done (False, response, c, status)
      else bind_o (ClientReaderReadCqTag_Start G () c) (\<lambda>(started, c1).
        if \<not> started
        then Done (False, response, c1, SetInternalError ''Failed to read server-side streaming.'' status)
        else
          (let (cp, c2) = CQueueForPluck_Pluck G () c1;
               tag = ClientReaderReadCqTag_completed cp
           in if \<not> ClientReaderReadCqTag_HasGotMsg tag then Done (False, response, c2, status)
              else bind_o (ClientReaderReadCqTag_GetResultMsg G tag response) (\<lambda>(status', response').
                     Done (status_ok status', response', c2, status')))))"

definition SyncRecvStatus :: "'buf grpc_lib \<Rightarrow> 'buf sync_call \<Rightarrow> (Status \<times> 'buf sync_call) outcome" where
  "SyncRecvStatus G c =
     bind_o (ClientReaderRecvStatusCqTag_Start G () c) (\<lambda>(started, c1).
       if \<not> started then Done (Status_InternalError ''Failed to receive status.'', c1)
       else
         (let (cp, c2) = CQueueForPluck_Pluck G () c1
          in Done (ClientReaderRecvStatusCqTag_GetStatus (ClientReaderRecvStatusCqTag_completed cp), c2)))"

section \<open>The reader\<close>

record 'buf ClientSyncReaderData =
  csr_call :: "'buf sync_call"
  csr_status :: Status

definition ClientSyncReader_new ::
  "'buf grpc_lib \<Rightarrow> 'buf sync_call \<Rightarrow> string \<Rightarrow> 'buf ClientSyncReaderData outcome" where
  "ClientSyncReader_new G c request =
     bind_o (ClientReaderInitCqTag_Start G request () c) (\<lambda>(started, c1).
       if started
       then (let (cp, c2) = CQueueForPluck_Pluck G () c1
             in Done \<lparr>csr_call = c2, csr_status = Status_default\<rparr>)
       else Done \<lparr>csr_call = c1,
              csr_status = SetInternalError ''Failed to start client sync reader.'' Status_default\<rparr>)"

definition ClientSyncReader_ReadOne ::
  "'buf grpc_lib \<Rightarrow> string option \<Rightarrow> 'buf ClientSyncReaderData \<Rightarrow>
     (bool \<times> string \<times> 'buf ClientSyncReaderData) outcome" where
  "ClientSyncReader_ReadOne G response d =
     (case response of
        None \<Rightarrow> Abort ''response''
      | Some r \<Rightarrow>
          bind_o (SyncReadOne G r (csr_call d) (csr_status d)) (\<lambda>(got, r', c, status).
            Done (got, r', d\<lparr>csr_call := c, csr_status := status\<rparr>)))"

definition ClientSyncReader_RecvStatus ::
  "'buf grpc_lib \<Rightarrow> 'buf ClientSyncReaderData \<Rightarrow> (Status \<times> 'buf ClientSyncReaderData) outcome" where
  "ClientSyncReader_RecvStatus G d =
     (if \<not> status_ok (csr_status d) then Done (csr_status d, d)
      else bind_o (SyncRecvStatus G (csr_call d)) (\<lambda>(status, c). Done (status, d\<lparr>csr_call := c\<rparr>)))"

definition ClientSyncReader_SetErrorStatus ::
  "Status \<Rightarrow> 'buf ClientSyncReaderData \<Rightarrow> 'buf ClientSyncReaderData outcome" where
  "ClientSyncReader_SetErrorStatus error_status d =
     assert_o (\<not> status_ok error_status) ''!error_status.ok()'' (Done (d\<lparr>csr_status := error_status\<rparr>))"

section \<open>The writer\<close>

record 'buf ClientSyncWriterData =
  csw_call :: "'buf sync_call"
  csw_status :: Status

definition ClientSyncWriter_new ::
  "'buf grpc_lib \<Rightarrow> 'buf sync_call \<Rightarrow> 'buf ClientSyncWriterData outcome" where
  "ClientSyncWriter_new G c =
     bind_o (ClientSendInitMdCqTag_Start G () c) (\<lambda>(started, c1).
       if started
       then (let (cp, c2) = CQueueForPluck_Pluck G () c1
             in Done \<lparr>csw_call = c2, csw_status = Status_default\<rparr>)
       else Done \<lparr>csw_call = c1,
              csw_status = SetInternalError ''Failed to start client sync writer.'' Status_default\<rparr>)"

definition ClientSyncWriter_Write ::
  "'buf grpc_lib \<Rightarrow> string \<Rightarrow> 'buf ClientSyncWriterData \<Rightarrow> (bool \<times> 'buf ClientSyncWriterData) outcome" where
  "ClientSyncWriter_Write G request d =
     bind_o (SyncWrite G request (csw_call d) (csw_status d)) (\<lambda>(written, c, status).
       Done (written, d\<lparr>csw_call := c, csw_status := status\<rparr>))"

definition ClientSyncWriter_Close ::
  "'buf grpc_lib \<Rightarrow> string option \<Rightarrow> 'buf ClientSyncWriterData \<Rightarrow>
     (Status \<times> string \<times> 'buf ClientSyncWriterData) outcome" where
  "ClientSyncWriter_Close G response d =
     (case response of
        None \<Rightarrow> Abort ''response''
      | Some r \<Rightarrow>
          (if \<not> status_ok (csw_status d) then Done (csw_status d, r, d)
           else bind_o (ClientWriterCloseCqTag_Start G () (csw_call d)) (\<lambda>(started, c1).
             if \<not> started
             then (let status = SetInternalError ''Failed to finish client-side streaming.'' (csw_status d)
                   in Done (status, r, d\<lparr>csw_call := c1, csw_status := status\<rparr>))
             else
               (let (cp, c2) = CQueueForPluck_Pluck G () c1;
                    tag = ClientWriterCloseCqTag_completed cp
                in bind_o (if ClientWriterCloseCqTag_IsStatusOk tag
                           then ClientWriterCloseCqTag_GetResponse G tag r
                           else Done (ClientWriterCloseCqTag_GetStatus tag, r)) (\<lambda>(status, r').
                     Done (status, r', d\<lparr>csw_call := c2, csw_status := status\<rparr>))))))"

section \<open>The reader-writer\<close>

record 'buf ClientSyncReaderWriterImpl =
  csrw_call :: "'buf sync_call"
  csrw_status :: Status
  csrw_writing_closed :: bool
  csrw_init_md_received :: bool

definition ClientSyncReaderWriterImpl_new ::
  "'buf grpc_lib \<Rightarrow> 'buf sync_call \<Rightarrow> 'buf ClientSyncReaderWriterImpl outcome" where
  "ClientSyncReaderWriterImpl_new G c =
     bind_o (ClientSendInitMdCqTag_Start G () c) (\<lambda>(started, c1).
       let d = \<lparr>csrw_call = c1, csrw_status = Status_default, csrw_writing_closed = False,
                csrw_init_md_received = False\<rparr>
       in if started
          then (let (cp, c2) = CQueueForPluck_Pluck G () c1 in Done (d\<lparr>csrw_call := c2\<rparr>))
          else Done (d\<lparr>csrw_status := SetInternalError ''Failed to start client sync reader writer.''
                  (csrw_status d)\<rparr>))"

definition ClientSyncReaderWriterImpl_Write ::
  "'buf grpc_lib \<Rightarrow> string \<Rightarrow> 'buf ClientSyncReaderWriterImpl \<Rightarrow>
     (bool \<times> 'buf ClientSyncReaderWriterImpl) outcome" where
  "ClientSyncReaderWriterImpl_Write G request d =
     bind_o (SyncWrite G request (csrw_call d) (csrw_status d)) (\<lambda>(written, c, status).
       Done (written, d\<lparr>csrw_call := c, csrw_status := status\<rparr>))"

definition ClientSyncReaderWriterImpl_CloseWriting ::
  "'buf grpc_lib \<Rightarrow> 'buf ClientSyncReaderWriterImpl \<Rightarrow> 'buf ClientSyncReaderWriterImpl outcome" where
  "ClientSyncReaderWriterImpl_CloseWriting G d =
     (if csrw_writing_closed d then Done d
      else
        (let d1 = d\<lparr>csrw_writing_closed := True\<rparr>
         in if \<not> status_ok (csrw_status d1) then Done d1
            else bind_o (ClientSendCloseCqTag_Start G () (csrw_call d1)) (\<lambda>(started, c1).
              if started
              then (let (cp, c2) = CQueueForPluck_Pluck G () c1 in Done (d1\<lparr>csrw_call := c2\<rparr>))
              else Done (d1\<lparr>csrw_call := c1,
                     csrw_status := SetInternalError ''Failed to close writing.'' (csrw_status d1)\<rparr>))))"

definition ClientSyncReaderWriterImpl_dtor ::
  "'buf grpc_lib \<Rightarrow> 'buf ClientSyncReaderWriterImpl \<Rightarrow> 'buf ClientSyncReaderWriterImpl outcome" where
  "ClientSyncReaderWriterImpl_dtor G d = ClientSyncReaderWriterImpl_CloseWriting G d"

definition ClientSyncReaderWriterImpl_RecvInitMdIfNot ::
  "'buf grpc_lib \<Rightarrow> 'buf ClientSyncReaderWriterImpl \<Rightarrow> 'buf ClientSyncReaderWriterImpl outcome" where
  "ClientSyncReaderWriterImpl_RecvInitMdIfNot G d =
     (if csrw_init_md_received d then Done d
      else
        (let d1 = d\<lparr>csrw_init_md_received := True\<rparr>
         in assert_o (status_ok (csrw_status d1)) ''status.ok()''
              (bind_o (ClientRecvInitMdCqTag_Start G () (csrw_call d1)) (\<lambda>(started, c1).
                 if started
                 then (let (cp, c2) = CQueueForPluck_Pluck G () c1 in Done (d1\<lparr>csrw_call := c2\<rparr>))
                 else Done (d1\<lparr>csrw_call := c1,
                        csrw_status := SetInternalError ''Failed to receive init metadata.''
                          (csrw_status d1)\<rparr>)))))"

definition ClientSyncReaderWriterImpl_ReadOne ::
  "'buf grpc_lib \<Rightarrow> string option \<Rightarrow> 'buf ClientSyncReaderWriterImpl \<Rightarrow>
     (bool \<times> string \<times> 'buf ClientSyncReaderWriterImpl) outcome" where
  "ClientSyncReaderWriterImpl_ReadOne G response d =
     (case response of
        None \<Rightarrow> Abort ''response''
      | Some r \<Rightarrow>
          (if \<not> status_ok (csrw_status d) then Done (False, r, d)
           else bind_o (ClientSyncReaderWriterImpl_RecvInitMdIfNot G d) (\<lambda>d1.
             if \<not> status_ok (csrw_status d1) then Done (False, r, d1)
             else bind_o (SyncReadOne G r (csrw_call d1) (csrw_status d1)) (\<lambda>(got, r', c, status).
                    Done (got, r', d1\<lparr>csrw_call := c, csrw_status := status\<rparr>)))))"

definition ClientSyncReaderWriterImpl_RecvStatus ::
  "'buf grpc_lib \<Rightarrow> 'buf ClientSyncReaderWriterImpl \<Rightarrow> (Status \<times> 'buf ClientSyncReaderWriterImpl) outcome"
where
  "ClientSyncReaderWriterImpl_RecvStatus G d =
     (if \<not> status_ok (csrw_status d) then Done (csrw_status d, d)
      else bind_o (SyncRecvStatus G (csrw_call d)) (\<lambda>(status, c). Done (status, d\<lparr>csrw_call := c\<rparr>)))"

definition ClientSyncReaderWriterImpl_SetErrorStatus ::
  "Status \<Rightarrow> 'buf ClientSyncReaderWriterImpl \<Rightarrow> 'buf ClientSyncReaderWriterImpl outcome" where
  "ClientSyncReaderWriterImpl_SetErrorStatus error_status d =
     assert_o (\<not> status_ok error_status) ''!error_status.ok()'' (Done (d\<lparr>csrw_status := error_status\<rparr>))"

section \<open>Rounds\<close>

text \<open>
  A call is idle when no batch is pending. A round starts a batch on an idle call and, if
  gRPC took it, plucks its completion; the call is idle again and has one more batch.
\<close>

definition idle_call :: "'buf sync_call \<Rightarrow> bool" where
  "idle_call c \<longleftrightarrow> call_pending c = [] \<and> call_heap c = []"

definition after_round :: "'buf grpc_lib \<Rightarrow> 'buf grpc_op list \<Rightarrow> 'buf sync_call \<Rightarrow> 'buf sync_call" where
  "after_round G b c = c\<lparr>call_batches := call_batches c @ [(b, takes G c b)]\<rparr>"

text \<open>The completion the round plucks.\<close>

definition round_cp :: "'buf grpc_lib \<Rightarrow> 'buf grpc_op list \<Rightarrow> 'buf sync_call \<Rightarrow> 'buf completion" where
  "round_cp G b c = grpc_completion_queue_pluck G (call_batches c @ [(b, True)])"

named_theorems rounds

lemma submit_round [rounds]:
  assumes "idle_call c"
  shows "fst (submit G b () c) = takes G c b"
    and "takes G c b \<Longrightarrow> CQueueForPluck_Pluck G () (snd (submit G b () c)) =
           (round_cp G b c, after_round G b c)"
    and "\<not> takes G c b \<Longrightarrow> snd (submit G b () c) = after_round G b c"
  using assms
  by (simp_all add: submit_def CQueueForPluck_Pluck_def round_cp_def after_round_def idle_call_def
      pop_pending_def)

lemma idle_after_round [simp]: "idle_call c \<Longrightarrow> idle_call (after_round G b c)"
  by (simp add: idle_call_def after_round_def)

lemma taken_after_round [simp]:
  "taken_msgs (call_batches (after_round G b c)) =
     taken_msgs (call_batches c) @ (if takes G c b then batch_msgs b else [])"
  by (simp add: after_round_def)

lemma idle_fresh [simp]: "idle_call Call_fresh"
  by (simp add: idle_call_def)

text \<open>What each helper does on an idle call.\<close>

abbreviation write_batch :: "'buf grpc_lib \<Rightarrow> string \<Rightarrow> 'buf grpc_op list" where
  "write_batch G m \<equiv> [SendMessage (grpc_raw_byte_buffer_create G m)]"

lemma SyncWrite_round [rounds]:
  assumes "idle_call c"
  shows "SyncWrite G m c status =
    (if \<not> status_ok status then Done (False, c, status)
     else if takes G c (write_batch G m) then Done (True, after_round G (write_batch G m) c, status)
     else Done (False, after_round G (write_batch G m) c,
            Status_InternalError ''Failed to write client-side streaming.''))"
  using submit_round [OF assms, of G "write_batch G m"]
  by (cases "submit G (write_batch G m) () c")
    (auto simp: SyncWrite_def tag_batches SetInternalError_eq)

lemma SyncReadOne_round [rounds]:
  assumes "idle_call c"
  shows "SyncReadOne G r c status =
    (if \<not> status_ok status then Done (False, r, c, status)
     else if \<not> takes G c [RecvMessage]
     then Done (False, r, after_round G [RecvMessage] c,
            Status_InternalError ''Failed to read server-side streaming.'')
     else case cp_recv_buf (round_cp G [RecvMessage] c) of
            None \<Rightarrow> Done (False, r, after_round G [RecvMessage] c, status)
          | Some buf \<Rightarrow>
              (case read_buf G buf r of (status', r') \<Rightarrow>
                 Done (status_ok status', r', after_round G [RecvMessage] c, status')))"
  using submit_round [OF assms, of G "[RecvMessage]"]
  by (cases "submit G [RecvMessage] () c")
    (auto simp: SyncReadOne_def tag_batches SetInternalError_eq Let_def split: option.splits prod.splits)

lemma SyncRecvStatus_round [rounds]:
  assumes "idle_call c"
  shows "SyncRecvStatus G c =
    Done (if takes G c [RecvStatusOnClient]
          then Status_make (cp_status (round_cp G [RecvStatusOnClient] c))
                 (cp_details (round_cp G [RecvStatusOnClient] c))
          else Status_InternalError ''Failed to receive status.'',
          after_round G [RecvStatusOnClient] c)"
  using submit_round [OF assms, of G "[RecvStatusOnClient]"]
  by (cases "submit G [RecvStatusOnClient] () c") (auto simp: SyncRecvStatus_def tag_batches)

lemma CloseWriting_round [rounds]:
  assumes "idle_call (csrw_call d)"
  shows "ClientSyncReaderWriterImpl_CloseWriting G d =
    Done (if csrw_writing_closed d then d
          else if \<not> status_ok (csrw_status d) then d\<lparr>csrw_writing_closed := True\<rparr>
          else d\<lparr>csrw_writing_closed := True,
                 csrw_call := after_round G [SendCloseFromClient] (csrw_call d),
                 csrw_status := (if takes G (csrw_call d) [SendCloseFromClient] then csrw_status d
                                 else Status_InternalError ''Failed to close writing.'')\<rparr>)"
  using submit_round [OF assms, of G "[SendCloseFromClient]"]
  by (cases "submit G [SendCloseFromClient] () (csrw_call d)")
    (auto simp: ClientSyncReaderWriterImpl_CloseWriting_def tag_batches SetInternalError_eq Let_def)

lemma RecvInitMd_round [rounds]:
  assumes "idle_call (csrw_call d)" "status_ok (csrw_status d)"
  shows "ClientSyncReaderWriterImpl_RecvInitMdIfNot G d =
    Done (if csrw_init_md_received d then d
          else d\<lparr>csrw_init_md_received := True,
                 csrw_call := after_round G [RecvInitialMetadata] (csrw_call d),
                 csrw_status := (if takes G (csrw_call d) [RecvInitialMetadata] then csrw_status d
                                 else Status_InternalError ''Failed to receive init metadata.'')\<rparr>)"
  using submit_round [OF assms(1), of G "[RecvInitialMetadata]"] assms(2)
  by (cases "submit G [RecvInitialMetadata] () (csrw_call d)")
    (auto simp: ClientSyncReaderWriterImpl_RecvInitMdIfNot_def tag_batches SetInternalError_eq Let_def)

section \<open>The reader-writer as a machine\<close>

datatype csrw_event =
    CsrwWrite string | CsrwCloseWriting | CsrwReadOne | CsrwRecvStatus | CsrwSetErrorStatus Status

fun csrw_en :: "csrw_event \<Rightarrow> 'buf ClientSyncReaderWriterImpl \<Rightarrow> bool" where
  "csrw_en (CsrwSetErrorStatus st) d \<longleftrightarrow> \<not> status_ok st"
| "csrw_en _ d \<longleftrightarrow> True"

fun csrw_step ::
  "'buf grpc_lib \<Rightarrow> csrw_event \<Rightarrow> 'buf ClientSyncReaderWriterImpl \<Rightarrow>
     (bool \<times> 'buf ClientSyncReaderWriterImpl) outcome" where
  "csrw_step G (CsrwWrite m) d = ClientSyncReaderWriterImpl_Write G m d"
| "csrw_step G CsrwCloseWriting d =
     bind_o (ClientSyncReaderWriterImpl_CloseWriting G d) (\<lambda>d'. Done (True, d'))"
| "csrw_step G CsrwReadOne d =
     bind_o (ClientSyncReaderWriterImpl_ReadOne G (Some '''') d) (\<lambda>(got, r, d'). Done (got, d'))"
| "csrw_step G CsrwRecvStatus d =
     bind_o (ClientSyncReaderWriterImpl_RecvStatus G d) (\<lambda>(status, d'). Done (status_ok status, d'))"
| "csrw_step G (CsrwSetErrorStatus st) d =
     bind_o (ClientSyncReaderWriterImpl_SetErrorStatus st d) (\<lambda>d'. Done (True, d'))"

definition csrw_start :: "'buf grpc_lib \<Rightarrow> 'buf ClientSyncReaderWriterImpl \<Rightarrow> bool" where
  "csrw_start G d \<longleftrightarrow> ClientSyncReaderWriterImpl_new G Call_fresh = Done d"

fun csrw_accepts :: "'buf grpc_lib \<Rightarrow> csrw_event \<Rightarrow> bool \<Rightarrow> 'buf list" where
  "csrw_accepts G (CsrwWrite m) True = [grpc_raw_byte_buffer_create G m]"
| "csrw_accepts G _ _ = []"

definition csrw_handed :: "'buf ClientSyncReaderWriterImpl \<Rightarrow> 'buf list" where
  "csrw_handed d = taken_msgs (call_batches (csrw_call d))"

lemma csrw_step_flow:
  assumes "idle_call (csrw_call d)" "csrw_en e d"
  shows "holds (\<lambda>(out, d'). idle_call (csrw_call d') \<and>
             csrw_handed d' = csrw_handed d @ csrw_accepts G e out) (csrw_step G e d)"
proof (cases e)
  case (CsrwWrite m)
  with assms show ?thesis
    by (simp add: ClientSyncReaderWriterImpl_Write_def rounds csrw_handed_def)
next
  case CsrwCloseWriting
  with assms show ?thesis by (simp add: rounds csrw_handed_def)
next
  case CsrwReadOne
  have read: "holds (\<lambda>(got, r', c, status). idle_call c \<and>
      taken_msgs (call_batches c) = taken_msgs (call_batches c0)) (SyncReadOne G r c0 status)"
    if "idle_call c0" for c0 r status
    using that by (auto simp: SyncReadOne_round split: option.splits prod.splits)
  show ?thesis
  proof (cases "status_ok (csrw_status d)")
    case False
    with assms CsrwReadOne show ?thesis by (simp add: ClientSyncReaderWriterImpl_ReadOne_def)
  next
    case True
    obtain d1 where d1: "ClientSyncReaderWriterImpl_RecvInitMdIfNot G d = Done d1"
      "idle_call (csrw_call d1)" "csrw_handed d1 = csrw_handed d"
      using RecvInitMd_round [OF assms(1) True, of G] assms(1)
      by (auto simp: csrw_handed_def split: if_splits)
    with True CsrwReadOne read [of "csrw_call d1" "''''" "csrw_status d1"] show ?thesis
      by (auto simp: ClientSyncReaderWriterImpl_ReadOne_def case_prod_unfold csrw_handed_def
          elim!: holds_mono)
  qed
next
  case CsrwRecvStatus
  with assms show ?thesis
    by (simp add: ClientSyncReaderWriterImpl_RecvStatus_def rounds csrw_handed_def)
next
  case (CsrwSetErrorStatus st)
  with assms show ?thesis
    by (simp add: ClientSyncReaderWriterImpl_SetErrorStatus_def csrw_handed_def)
qed

interpretation csrw: fifo_sender "csrw_start G" csrw_en "csrw_step G" "\<lambda>d. idle_call (csrw_call d)"
    "csrw_accepts G" csrw_handed "\<lambda>d. []" "\<lambda>d. True" for G
proof (unfold_locales, goal_cases)
  case (1 d)
  with submit_round [OF idle_fresh, of G "[SendInitialMetadata []]"] show ?case
    by (cases "submit G [SendInitialMetadata []] () Call_fresh")
      (auto simp: csrw_start_def ClientSyncReaderWriterImpl_new_def tag_batches Let_def split: if_splits)
next
  case (2 d e)
  with csrw_step_flow [of d e G] show ?case by (auto elim!: holds_mono)
next
  case (3 d)
  with submit_round [OF idle_fresh, of G "[SendInitialMetadata []]"] show ?case
    by (cases "submit G [SendInitialMetadata []] () Call_fresh")
      (auto simp: csrw_start_def ClientSyncReaderWriterImpl_new_def tag_batches Let_def csrw_handed_def
        split: if_splits)
next
  case (4 d e out d')
  with csrw_step_flow [of d e G] show ?case by simp
qed simp_all

section \<open>The writer as a machine\<close>

datatype csw_event = CswWrite string | CswClose

text \<open>As for the asynchronous writer, a close that ends with status OK brings a response.\<close>

fun csw_en :: "'buf grpc_lib \<Rightarrow> csw_event \<Rightarrow> 'buf ClientSyncWriterData \<Rightarrow> bool" where
  "csw_en G (CswWrite m) d \<longleftrightarrow> True"
| "csw_en G CswClose d \<longleftrightarrow>
     (let cp = round_cp G [SendCloseFromClient, RecvInitialMetadata, RecvMessage, RecvStatusOnClient]
                 (csw_call d)
      in cp_status cp = GRPC_STATUS_OK \<longrightarrow> cp_recv_buf cp \<noteq> None)"

fun csw_step ::
  "'buf grpc_lib \<Rightarrow> csw_event \<Rightarrow> 'buf ClientSyncWriterData \<Rightarrow>
     ((bool \<times> string) \<times> 'buf ClientSyncWriterData) outcome" where
  "csw_step G (CswWrite m) d =
     bind_o (ClientSyncWriter_Write G m d) (\<lambda>(written, d'). Done ((written, ''''), d'))"
| "csw_step G CswClose d =
     bind_o (ClientSyncWriter_Close G (Some '''') d) (\<lambda>(status, r, d'). Done ((status_ok status, r), d'))"

definition csw_start :: "'buf grpc_lib \<Rightarrow> 'buf ClientSyncWriterData \<Rightarrow> bool" where
  "csw_start G d \<longleftrightarrow> ClientSyncWriter_new G Call_fresh = Done d"

fun csw_accepts :: "'buf grpc_lib \<Rightarrow> csw_event \<Rightarrow> bool \<times> string \<Rightarrow> 'buf list" where
  "csw_accepts G (CswWrite m) (True, r) = [grpc_raw_byte_buffer_create G m]"
| "csw_accepts G _ _ = []"

definition csw_handed :: "'buf ClientSyncWriterData \<Rightarrow> 'buf list" where
  "csw_handed d = taken_msgs (call_batches (csw_call d))"

lemma csw_step_flow:
  assumes "idle_call (csw_call d)" "csw_en G e d"
  shows "holds (\<lambda>(out, d'). idle_call (csw_call d') \<and>
             csw_handed d' = csw_handed d @ csw_accepts G e out) (csw_step G e d)"
proof (cases e)
  case (CswWrite m)
  with assms show ?thesis by (simp add: ClientSyncWriter_Write_def rounds csw_handed_def)
next
  case CswClose
  let ?b = "[SendCloseFromClient, RecvInitialMetadata, RecvMessage, RecvStatusOnClient]"
  from submit_round [OF assms(1), of G ?b] assms CswClose show ?thesis
    by (cases "submit G ?b () (csw_call d)")
      (auto simp: ClientSyncWriter_Close_def tag_batches csw_handed_def case_prod_unfold Let_def)
qed

interpretation csw: fifo_sender "csw_start G" "csw_en G" "csw_step G" "\<lambda>d. idle_call (csw_call d)"
    "csw_accepts G" csw_handed "\<lambda>d. []" "\<lambda>d. True" for G
proof (unfold_locales, goal_cases)
  case (1 d)
  with submit_round [OF idle_fresh, of G "[SendInitialMetadata []]"] show ?case
    by (cases "submit G [SendInitialMetadata []] () Call_fresh")
      (auto simp: csw_start_def ClientSyncWriter_new_def tag_batches split: if_splits)
next
  case (2 d e)
  with csw_step_flow [of d G e] show ?case by (auto elim!: holds_mono)
next
  case (3 d)
  with submit_round [OF idle_fresh, of G "[SendInitialMetadata []]"] show ?case
    by (cases "submit G [SendInitialMetadata []] () Call_fresh")
      (auto simp: csw_start_def ClientSyncWriter_new_def tag_batches csw_handed_def split: if_splits)
next
  case (4 d e out d')
  with csw_step_flow [of d G e] show ?case by simp
qed simp_all

section \<open>Properties\<close>

definition csrw_demo :: "string ClientSyncReaderWriterImpl" where
  "csrw_demo = (case ClientSyncReaderWriterImpl_new (demo_lib 10) Call_fresh of Done d \<Rightarrow> d)"

definition csw_demo :: "string ClientSyncWriterData" where
  "csw_demo = (case ClientSyncWriter_new (demo_lib 10) Call_fresh of Done d \<Rightarrow> d)"

lemma sync_demo_starts: "csrw_start (demo_lib 10) csrw_demo" "csw_start (demo_lib 10) csw_demo"
  by (simp_all add: csrw_start_def csrw_demo_def ClientSyncReaderWriterImpl_new_def csw_start_def
      csw_demo_def ClientSyncWriter_new_def tag_batches submit_def CQueueForPluck_Pluck_def Let_def)

lemma sync_demo_reach:
  "exec csrw_en (csrw_step (demo_lib 10)) es csrw_demo = Some (tr, d) \<Longrightarrow>
     reach (csrw_start (demo_lib 10)) csrw_en (csrw_step (demo_lib 10)) tr d"
  "exec (csw_en (demo_lib 10)) (csw_step (demo_lib 10)) es' csw_demo = Some (tr', d') \<Longrightarrow>
     reach (csw_start (demo_lib 10)) (csw_en (demo_lib 10)) (csw_step (demo_lib 10)) tr' d'"
  using exec_reach [of "csrw_start (demo_lib 10)" csrw_demo]
    exec_reach [of "csw_start (demo_lib 10)" csw_demo] sync_demo_starts by simp_all

text \<open>
  The synchronous reader-writer sends exactly what \<^verbatim>\<open>Write\<close> returned true for, in order, and
  no operation fails an assertion or leaves a batch behind, whatever gRPC refuses or delivers.
\<close>
theorem csrw_transfer:
  assumes "reach (csrw_start G) csrw_en (csrw_step G) tr d"
  shows "csrw_handed d = concat (map (\<lambda>(e, out). csrw_accepts G e out) tr) \<and>
    call_pending (csrw_call d) = [] \<and>
    (\<forall>e. csrw_en e d \<longrightarrow> (\<exists>out d'. csrw_step G e d = Done (out, d')))"
  using csrw.accepted_split [OF assms] csrw.reach_inv [OF assms] csrw.reach_no_abort [OF assms]
  by (fastforce simp: csrw.accepted_def idle_call_def)

theorem csrw_transfer_witness:
  "\<exists>d. csrw_handed d = [''a'', ''b''] \<and>
     (\<exists>out d'. csrw_step (demo_lib 10) (CsrwSetErrorStatus Status_CANCELLED) d = Done (out, d'))"
proof -
  let ?es = "[CsrwWrite ''a'', CsrwReadOne, CsrwWrite ''b'', CsrwCloseWriting, CsrwRecvStatus]"
  have run: "case exec csrw_en (csrw_step (demo_lib 10)) ?es csrw_demo of
      None \<Rightarrow> False
    | Some (tr, d) \<Rightarrow> concat (map (\<lambda>(e, out). csrw_accepts (demo_lib 10) e out) tr) = [''a'', ''b'']"
    by code_simp
  then obtain tr d where r: "exec csrw_en (csrw_step (demo_lib 10)) ?es csrw_demo = Some (tr, d)"
    by (auto split: option.splits)
  have "csrw_handed d = [''a'', ''b'']"
    using csrw_transfer [OF sync_demo_reach(1) [OF r]] run r
    by (simp only: option.case prod.case)
  moreover have "csrw_en (CsrwSetErrorStatus Status_CANCELLED) d" by simp
  with csrw_transfer [OF sync_demo_reach(1) [OF r]]
  have "\<exists>out d'. csrw_step (demo_lib 10) (CsrwSetErrorStatus Status_CANCELLED) d = Done (out, d')"
    by blast
  ultimately show ?thesis by blast
qed

text \<open>
  An error of the synchronous reader-writer is final: once the status is not OK, every
  operation returns at once with it and no further batch is started on the call.
\<close>
theorem csrw_error_is_final:
  assumes "\<not> status_ok (csrw_status d)"
  shows "ClientSyncReaderWriterImpl_Write G m d = Done (False, d) \<and>
    ClientSyncReaderWriterImpl_ReadOne G (Some r) d = Done (False, r, d) \<and>
    ClientSyncReaderWriterImpl_RecvStatus G d = Done (csrw_status d, d) \<and>
    ClientSyncReaderWriterImpl_CloseWriting G d = Done (d\<lparr>csrw_writing_closed := True\<rparr>)"
  using assms
  by (simp add: ClientSyncReaderWriterImpl_Write_def SyncWrite_def ClientSyncReaderWriterImpl_ReadOne_def
      ClientSyncReaderWriterImpl_RecvStatus_def ClientSyncReaderWriterImpl_CloseWriting_def Let_def)

theorem csrw_error_is_final_witness:
  "ClientSyncReaderWriterImpl_Write (demo_lib 10) ''m'' (csrw_demo\<lparr>csrw_status := Status_CANCELLED\<rparr>) =
     Done (False, csrw_demo\<lparr>csrw_status := Status_CANCELLED\<rparr>)"
  using csrw_error_is_final [of "csrw_demo\<lparr>csrw_status := Status_CANCELLED\<rparr>"] by simp

text \<open>
  The synchronous writer sends exactly what \<^verbatim>\<open>Write\<close> returned true for, in order, and no
  operation aborts, provided a close that ends with status OK brings a response.
\<close>
theorem csw_transfer:
  assumes "reach (csw_start G) (csw_en G) (csw_step G) tr d"
  shows "csw_handed d = concat (map (\<lambda>(e, out). csw_accepts G e out) tr) \<and>
    call_pending (csw_call d) = [] \<and>
    (\<forall>e. csw_en G e d \<longrightarrow> (\<exists>out d'. csw_step G e d = Done (out, d')))"
  using csw.accepted_split [OF assms] csw.reach_inv [OF assms] csw.reach_no_abort [OF assms]
  by (fastforce simp: csw.accepted_def idle_call_def)

theorem csw_transfer_witness:
  "\<exists>d. csw_handed d = [''a'', ''b''] \<and>
     (\<exists>out d'. csw_step (demo_lib 10) CswClose d = Done (out, d'))"
proof -
  let ?es = "[CswWrite ''a'', CswWrite ''b'']"
  have run: "case exec (csw_en (demo_lib 10)) (csw_step (demo_lib 10)) ?es csw_demo of
      None \<Rightarrow> False
    | Some (tr, d) \<Rightarrow> concat (map (\<lambda>(e, out). csw_accepts (demo_lib 10) e out) tr) = [''a'', ''b'']"
    by code_simp
  then obtain tr d where r: "exec (csw_en (demo_lib 10)) (csw_step (demo_lib 10)) ?es csw_demo = Some (tr, d)"
    by (auto split: option.splits)
  have "csw_en (demo_lib 10) CswClose d" by (simp add: round_cp_def demo_lib_def Let_def)
  with csw_transfer [OF sync_demo_reach(2) [OF r]] have
    "\<exists>out d'. csw_step (demo_lib 10) CswClose d = Done (out, d')" by blast
  moreover have "csw_handed d = [''a'', ''b'']"
    using csw_transfer [OF sync_demo_reach(2) [OF r]] run r
    by (simp only: option.case prod.case)
  ultimately show ?thesis by blast
qed

end
