(* ===== verification/Service_Stub.thy ===== *)
theory Service_Stub
  imports Client_Sync
begin

text \<open>
  \<^verbatim>\<open>core/client/channel*\<close>, \<^verbatim>\<open>core/client/service_stub*\<close>, \<^verbatim>\<open>client_async_call_cqtag.h\<close>: the channel,
  the stub with its synchronous and asynchronous unary requests, and the thread that watches
  the channel's connectivity.

  Each request has a call object of its own. The asynchronous requests in flight are kept in a
  map from request numbers to their tags, so that their completions may come in any order.
\<close>

section \<open>The channel\<close>

type_synonym grpc_connectivity_state = nat

definition GRPC_CHANNEL_SHUTDOWN :: grpc_connectivity_state where "GRPC_CHANNEL_SHUTDOWN = 4"

definition INT64_MAX :: int where "INT64_MAX = 2 ^ 63 - 1"

record Channel =
  ch_c_channel :: nat
  ch_call_timeout_ms :: int

text \<open>
  The constructor throws when gRPC yields no channel; the sources catch no exception, so it
  is modelled as the end of the computation. \<open>create\<close> is \<^verbatim>\<open>grpc_insecure_channel_create\<close>.
\<close>

definition Channel_new :: "(string \<Rightarrow> nat option) \<Rightarrow> string \<Rightarrow> Channel outcome" where
  "Channel_new create target =
     (case create (c_str target) of
        None \<Rightarrow> Abort ''throw: Can not create channel.''
      | Some h \<Rightarrow> Done \<lparr>ch_c_channel = h, ch_call_timeout_ms = INT64_MAX\<rparr>)"

definition Channel_SetCallTimeoutMs :: "int \<Rightarrow> Channel \<Rightarrow> Channel" where
  "Channel_SetCallTimeoutMs timeout_ms ch = ch\<lparr>ch_call_timeout_ms := timeout_ms\<rparr>"

definition Channel_GetCallTimeoutMs :: "Channel \<Rightarrow> int" where
  "Channel_GetCallTimeoutMs ch = ch_call_timeout_ms ch"

text \<open>
  \<^verbatim>\<open>MakeSharedCall\<close>: \<open>create_call\<close> is \<^verbatim>\<open>grpc_channel_create_call\<close> on the method and the deadline,
  which is \<open>now\<close> plus the timeout.
\<close>

definition Channel_MakeSharedCall ::
  "(string \<Rightarrow> int \<Rightarrow> nat option) \<Rightarrow> int \<Rightarrow> string \<Rightarrow> int \<Rightarrow> Channel \<Rightarrow> ('tag, 'buf) Call outcome" where
  "Channel_MakeSharedCall create_call now method timeout_ms ch =
     (let deadline = now + timeout_ms;
          method_slice = SliceFromCopiedString method
      in Call_new (create_call method_slice deadline))"

text \<open>\<^verbatim>\<open>WaitForStateChangeImpl\<close>: true when the watched event completed successfully.\<close>

definition Channel_WaitForStateChangeImpl :: "(unit, bool) grpc_event \<Rightarrow> bool" where
  "Channel_WaitForStateChangeImpl ev =
     (case ev of GRPC_OP_COMPLETE tag success \<Rightarrow> success | _ \<Rightarrow> False)"

section \<open>The stub\<close>

text \<open>\<open>ss_thread\<close> counts the watch threads created in \<^verbatim>\<open>*m_pID\<close>.\<close>

record 'cb ServiceStub =
  ss_start :: bool
  ss_channel :: Channel
  ss_cq :: CompletionQueue
  ss_status_change_cb :: "'cb option"
  ss_error_cb :: "'cb option"
  ss_call_timeout_ms :: int
  ss_thread :: nat

text \<open>Without an external queue the stub makes one of its own, \<open>own\<close>.\<close>

definition ServiceStub_new ::
  "'cb option \<Rightarrow> CompletionQueue \<Rightarrow> Channel option \<Rightarrow> CompletionQueue option \<Rightarrow> 'cb ServiceStub outcome" where
  "ServiceStub_new default_error_cb own channel_sptr cq4n_sptr =
     (case channel_sptr of
        None \<Rightarrow> Abort ''channel_sptr''
      | Some ch \<Rightarrow>
          Done \<lparr>ss_start = False, ss_channel = ch,
                ss_cq = (case cq4n_sptr of None \<Rightarrow> own | Some cq \<Rightarrow> cq),
                ss_status_change_cb = None, ss_error_cb = default_error_cb,
                ss_call_timeout_ms = Channel_GetCallTimeoutMs ch, ss_thread = 0\<rparr>)"

definition ServiceStub_SetStatusChangeCb :: "'cb option \<Rightarrow> 'cb ServiceStub \<Rightarrow> 'cb ServiceStub" where
  "ServiceStub_SetStatusChangeCb cb s =
     (let s1 = s\<lparr>ss_status_change_cb := cb\<rparr>
      in if \<not> ss_start s1 then s1\<lparr>ss_start := True, ss_thread := ss_thread s1 + 1\<rparr> else s1)"

definition ServiceStub_SetCompletionQueue :: "CompletionQueue option \<Rightarrow> 'cb ServiceStub \<Rightarrow> 'cb ServiceStub" where
  "ServiceStub_SetCompletionQueue cq4n_sptr s =
     (case cq4n_sptr of None \<Rightarrow> s | Some cq \<Rightarrow> s\<lparr>ss_cq := cq\<rparr>)"

definition ServiceStub_SetErrorCb :: "'cb option \<Rightarrow> 'cb ServiceStub \<Rightarrow> 'cb ServiceStub" where
  "ServiceStub_SetErrorCb cb s = s\<lparr>ss_error_cb := cb\<rparr>"

definition ServiceStub_SetCallTimeoutMs :: "int \<Rightarrow> 'cb ServiceStub \<Rightarrow> 'cb ServiceStub" where
  "ServiceStub_SetCallTimeoutMs timeout_ms s = s\<lparr>ss_call_timeout_ms := timeout_ms\<rparr>"

definition ServiceStub_Shutdown :: "'cb ServiceStub \<Rightarrow> 'cb ServiceStub outcome" where
  "ServiceStub_Shutdown s =
     bind_o (CompletionQueue_Shutdown (ss_cq s)) (\<lambda>cq. Done (s\<lparr>ss_start := False, ss_cq := cq\<rparr>))"

text \<open>
  The destructor joins the thread in \<^verbatim>\<open>*m_pID\<close>, which was value-initialised by the
  constructor: joining is undefined when no thread was ever created, and does not return
  while the thread's loop runs.
\<close>

datatype join_result = Joined | JoinBlocks

definition ServiceStub_dtor :: "'cb ServiceStub \<Rightarrow> join_result outcome" where
  "ServiceStub_dtor s =
     (if ss_thread s = 0 then Abort ''pthread_join without a thread''
      else if ss_start s then Done JoinBlocks
      else Done Joined)"

text \<open>
  \<^verbatim>\<open>ThreadRun\<close>: \<open>obs\<close> are the observations of the successive rounds: the value of \<^verbatim>\<open>start_\<close> at the
  test of the loop, the completion of the watch and the state read after it. The result is
  the list of calls of the status change callback, and whether the loop has ended.
\<close>

fun ServiceStub_ThreadRun ::
  "(bool \<times> (unit, bool) grpc_event \<times> grpc_connectivity_state) list \<Rightarrow>
     (bool \<times> grpc_connectivity_state) list \<times> bool" where
  "ServiceStub_ThreadRun [] = ([], False)"
| "ServiceStub_ThreadRun ((start, ev, state) # obs) =
     (if start
      then (let flag = Channel_WaitForStateChangeImpl ev;
                (calls, ended) = ServiceStub_ThreadRun obs
            in ((flag, state) # calls, ended))
      else ([], True))"

section \<open>Synchronous requests\<close>

text \<open>\<^verbatim>\<open>SyncRequest\<close> on the fresh call of the request: the status and the new response.\<close>

definition ServiceStub_SyncRequest ::
  "'buf grpc_lib \<Rightarrow> 'buf sync_call \<Rightarrow> string \<Rightarrow> string \<Rightarrow> (Status \<times> string \<times> 'buf sync_call) outcome" where
  "ServiceStub_SyncRequest G c request response =
     bind_o (ClientCallCqTag_Start G request () c) (\<lambda>(started, c1).
       if \<not> started then Done (Status_InternalError ''Failed to request.'', response, c1)
       else
         (let (cp, c2) = CQueueForPluck_Pluck G () c1
          in bind_o (ClientCallCqTag_GetResponse G (ClientCallCqTag_completed cp) response)
               (\<lambda>(status, response'). Done (status, response', c2))))"

section \<open>Asynchronous requests\<close>

type_synonym RespStrCb = "string \<Rightarrow> Status"

datatype 'cb ac_log = AcResponse string | AcError 'cb Status

text \<open>The tag of an asynchronous request with its call, and the calls of callbacks made.\<close>

record ('cb, 'buf) ClientAsyncCallCqTag =
  ac_call :: "'buf sync_call"
  ac_response_cb :: "RespStrCb option"
  ac_error_cb :: "'cb option"

definition ClientAsyncCallCqTag_CallErrorCb ::
  "Status \<Rightarrow> ('cb, 'buf) ClientAsyncCallCqTag \<Rightarrow> 'cb ac_log list" where
  "ClientAsyncCallCqTag_CallErrorCb status tag =
     (case ac_error_cb tag of None \<Rightarrow> [] | Some cb \<Rightarrow> [AcError cb status])"

definition ClientAsyncCallCqTag_DoComplete ::
  "'buf grpc_lib \<Rightarrow> 'buf completion \<Rightarrow> ('cb, 'buf) ClientAsyncCallCqTag \<Rightarrow> 'cb ac_log list outcome" where
  "ClientAsyncCallCqTag_DoComplete G cp tag =
     (if \<not> cp_success cp
      then Done (ClientAsyncCallCqTag_CallErrorCb
             (Status_InternalError ''ClientAsyncCallCqTag failed.'') tag)
      else bind_o (ClientCallCqTag_GetResponse G (ClientCallCqTag_completed cp) '''')
        (\<lambda>(status, resp).
          if \<not> status_ok status then Done (ClientAsyncCallCqTag_CallErrorCb status tag)
          else case ac_response_cb tag of
            None \<Rightarrow> Done []
          | Some response_cb \<Rightarrow>
              (let status' = response_cb resp
               in Done (AcResponse resp #
                    (if \<not> status_ok status' then ClientAsyncCallCqTag_CallErrorCb status' tag else [])))))"

text \<open>The requests of a stub: the tags on the heap by number, and each request's callbacks.\<close>

record ('cb, 'buf) stub_calls =
  sc_tags :: "nat \<rightharpoonup> ('cb, 'buf) ClientAsyncCallCqTag"
  sc_next :: nat
  sc_log :: "nat \<Rightarrow> 'cb ac_log list"

definition ServiceStub_AsyncRequest ::
  "'buf grpc_lib \<Rightarrow> 'buf sync_call \<Rightarrow> string \<Rightarrow> RespStrCb option \<Rightarrow> 'cb option \<Rightarrow>
     ('cb, 'buf) stub_calls \<Rightarrow> ('cb, 'buf) stub_calls outcome" where
  "ServiceStub_AsyncRequest G c request response_cb error_cb w =
     (let n = sc_next w;
          w1 = w\<lparr>sc_next := n + 1\<rparr>
      in bind_o (ClientCallCqTag_Start G request () c) (\<lambda>(started, c').
           if started
           then Done (w1\<lparr>sc_tags := (sc_tags w1)(n \<mapsto>
                  \<lparr>ac_call = c', ac_response_cb = response_cb, ac_error_cb = error_cb\<rparr>)\<rparr>)
           else Done (case error_cb of
                  None \<Rightarrow> w1
                | Some cb \<Rightarrow> w1\<lparr>sc_log := (sc_log w1)(n := sc_log w1 n @
                    [AcError cb (Status_InternalError ''Failed to async request.'')])\<rparr>)))"

definition stub_DoComplete ::
  "'buf grpc_lib \<Rightarrow> nat \<Rightarrow> 'buf completion \<Rightarrow> ('cb, 'buf) stub_calls \<Rightarrow> ('cb, 'buf) stub_calls outcome" where
  "stub_DoComplete G n cp w =
     (case sc_tags w n of
        None \<Rightarrow> Abort ''tag''
      | Some tag \<Rightarrow> bind_o (ClientAsyncCallCqTag_DoComplete G cp tag) (\<lambda>log.
          Done (w\<lparr>sc_log := (sc_log w)(n := sc_log w n @ log)\<rparr>)))"

definition stub_delete :: "nat \<Rightarrow> ('cb, 'buf) stub_calls \<Rightarrow> ('cb, 'buf) stub_calls" where
  "stub_delete n w = w\<lparr>sc_tags := (sc_tags w)(n := None)\<rparr>"

section \<open>The machine of asynchronous requests\<close>

text \<open>Every request runs on a fresh call.\<close>

datatype ('cb, 'buf) ac_event =
    AcRequest string "RespStrCb option" "'cb option"
  | AcComplete nat "'buf completion"

fun ac_en :: "('cb, 'buf) ac_event \<Rightarrow> ('cb, 'buf) stub_calls \<Rightarrow> bool" where
  "ac_en (AcComplete n cp) w \<longleftrightarrow> sc_tags w n \<noteq> None \<and>
     (cp_success cp \<and> cp_status cp = GRPC_STATUS_OK \<longrightarrow> cp_recv_buf cp \<noteq> None)"
| "ac_en (AcRequest request response_cb error_cb) w \<longleftrightarrow> True"

fun ac_step ::
  "'buf grpc_lib \<Rightarrow> ('cb, 'buf) ac_event \<Rightarrow> ('cb, 'buf) stub_calls \<Rightarrow>
     (bool \<times> ('cb, 'buf) stub_calls) outcome" where
  "ac_step G (AcRequest request response_cb error_cb) w =
     bind_o (ServiceStub_AsyncRequest G Call_fresh request response_cb error_cb w) (\<lambda>w'. Done (True, w'))"
| "ac_step G (AcComplete n cp) w =
     handle_event (stub_DoComplete G) stub_delete (GRPC_OP_COMPLETE (Some n) cp) w"

definition ac_start :: "('cb, 'buf) stub_calls \<Rightarrow> bool" where
  "ac_start w \<longleftrightarrow> sc_tags w = Map.empty \<and> sc_next w = 0 \<and> sc_log w = (\<lambda>n. [])"

text \<open>
  What the callbacks of a request may have seen when it is settled: one error, or one
  response, which the error callback follows if the response callback rejected it.
\<close>

definition ac_error_log :: "Status \<Rightarrow> 'cb option \<Rightarrow> 'cb ac_log list" where
  "ac_error_log st error_cb = map (\<lambda>cb. AcError cb st) (opt_list error_cb)"

definition ac_settled :: "RespStrCb option \<Rightarrow> 'cb option \<Rightarrow> 'cb ac_log list \<Rightarrow> bool" where
  "ac_settled response_cb error_cb log \<longleftrightarrow>
     (\<exists>st. \<not> status_ok st \<and> log = ac_error_log st error_cb) \<or>
     (\<exists>resp. log = (case response_cb of
         None \<Rightarrow> []
       | Some f \<Rightarrow> AcResponse resp # (if status_ok (f resp) then [] else ac_error_log (f resp) error_cb)))"

lemma ac_settled_error: "\<not> status_ok st \<Longrightarrow> ac_settled rcb ecb (ac_error_log st ecb)"
  unfolding ac_settled_def by blast

lemma CallErrorCb_log: "ClientAsyncCallCqTag_CallErrorCb st tag = ac_error_log st (ac_error_cb tag)"
  by (simp add: ClientAsyncCallCqTag_CallErrorCb_def ac_error_log_def split: option.splits)

lemma read_buf_ok: "read_buf G buf r = (st, r') \<Longrightarrow> status_ok st \<or> (\<exists>m. st = Status_InternalError m)"
  by (auto simp: read_buf_def split: option.splits)

lemma DoComplete_settles:
  assumes "cp_success cp \<and> cp_status cp = GRPC_STATUS_OK \<longrightarrow> cp_recv_buf cp \<noteq> None"
  shows "holds (ac_settled (ac_response_cb tag) (ac_error_cb tag))
           (ClientAsyncCallCqTag_DoComplete G cp tag)"
proof -
  note error = ac_settled_error
  have response: "ac_settled (ac_response_cb tag) (ac_error_cb tag)
      (case ac_response_cb tag of None \<Rightarrow> []
       | Some f \<Rightarrow> AcResponse resp #
           (if status_ok (f resp) then [] else ac_error_log (f resp) (ac_error_cb tag)))" for resp
    unfolding ac_settled_def by blast
  show ?thesis
  proof (cases "cp_success cp \<and> cp_status cp = GRPC_STATUS_OK")
    case False
    then show ?thesis
      by (auto simp: ClientAsyncCallCqTag_DoComplete_def CallErrorCb_log intro: error)
  next
    case True
    with assms obtain buf where buf: "cp_recv_buf cp = Some buf" by auto
    obtain st resp where r: "read_buf G buf '''' = (st, resp)" by (cases "read_buf G buf ''''")
    show ?thesis
    proof (cases "status_ok st")
      case False
      with True buf r show ?thesis
        by (simp add: ClientAsyncCallCqTag_DoComplete_def CallErrorCb_log error)
    next
      case ok: True
      from response [of resp] True buf r ok show ?thesis
        by (cases "ac_response_cb tag")
          (auto simp: ClientAsyncCallCqTag_DoComplete_def CallErrorCb_log Let_def)
    qed
  qed
qed

text \<open>The requests made so far, with their callbacks; \<open>ac_inv rs\<close> relates the state to them.\<close>

fun ac_requests :: "(('cb, 'buf) ac_event \<times> bool) list \<Rightarrow> (RespStrCb option \<times> 'cb option) list" where
  "ac_requests [] = []"
| "ac_requests ((AcRequest request response_cb error_cb, out) # tr) =
     (response_cb, error_cb) # ac_requests tr"
| "ac_requests ((AcComplete n cp, out) # tr) = ac_requests tr"

lemma ac_requests_append [simp]: "ac_requests (tr @ tr') = ac_requests tr @ ac_requests tr'"
  by (induction tr rule: ac_requests.induct) auto

definition ac_entry ::
  "(RespStrCb option \<times> 'cb option) list \<Rightarrow> nat \<Rightarrow> ('cb, 'buf) ClientAsyncCallCqTag option \<Rightarrow>
     'cb ac_log list \<Rightarrow> bool" where
  "ac_entry rs n t log \<longleftrightarrow>
     (case t of
        Some tag \<Rightarrow> n < length rs \<and> rs ! n = (ac_response_cb tag, ac_error_cb tag) \<and> log = []
      | None \<Rightarrow> if n < length rs then ac_settled (fst (rs ! n)) (snd (rs ! n)) log else log = [])"

definition ac_inv :: "(RespStrCb option \<times> 'cb option) list \<Rightarrow> ('cb, 'buf) stub_calls \<Rightarrow> bool" where
  "ac_inv rs w \<longleftrightarrow> sc_next w = length rs \<and> (\<forall>n. ac_entry rs n (sc_tags w n) (sc_log w n))"

lemma ac_invD: "ac_inv rs w \<Longrightarrow> ac_entry rs n (sc_tags w n) (sc_log w n)"
  by (simp add: ac_inv_def)

lemma ac_entry_append:
  "n \<noteq> length rs \<Longrightarrow> ac_entry rs n t log \<Longrightarrow> ac_entry (rs @ [r]) n t log"
  by (auto simp: ac_entry_def nth_append split: option.splits if_splits)

lemma ac_request_inv:
  assumes "ac_inv rs w"
  shows "holds (ac_inv (rs @ [(rcb, ecb)])) (ServiceStub_AsyncRequest G Call_fresh request rcb ecb w)"
proof -
  let ?b = "[SendMessage (grpc_raw_byte_buffer_create G request), SendInitialMetadata [],
      RecvInitialMetadata, RecvMessage, SendCloseFromClient, RecvStatusOnClient]"
  let ?st = "Status_InternalError ''Failed to async request.''"
  have "ac_entry rs (length rs) (sc_tags w (length rs)) (sc_log w (length rs))"
    using assms by (rule ac_invD)
  then have new: "sc_next w = length rs" "sc_tags w (length rs) = None" "sc_log w (length rs) = []"
    using assms by (auto simp: ac_inv_def ac_entry_def split: option.splits)
  have old: "ac_entry (rs @ [(rcb, ecb)]) n (sc_tags w n) (sc_log w n)" if "n \<noteq> length rs" for n
    using ac_entry_append [OF that ac_invD [OF assms]] .
  have failed: "ac_entry (rs @ [(rcb, ecb)]) (length rs) None (ac_error_log ?st ecb)"
    by (simp add: ac_entry_def ac_settled_error)
  have "ac_inv (rs @ [(rcb, ecb)]) (case ecb of None \<Rightarrow> w\<lparr>sc_next := Suc (length rs)\<rparr>
      | Some cb \<Rightarrow> w\<lparr>sc_next := Suc (length rs),
          sc_log := (sc_log (w\<lparr>sc_next := Suc (length rs)\<rparr>))(length rs :=
            sc_log (w\<lparr>sc_next := Suc (length rs)\<rparr>) (length rs) @ [AcError cb ?st])\<rparr>)"
  proof (cases ecb)
    case None
    have "ac_entry (rs @ [(rcb, ecb)]) n (sc_tags w n) (sc_log w n)" for n
    proof (cases "n = length rs")
      case True
      with new failed None show ?thesis by (simp add: ac_error_log_def)
    qed (rule old)
    with None new show ?thesis by (simp add: ac_inv_def)
  qed (use new old failed in \<open>simp add: ac_inv_def ac_error_log_def\<close>)
  moreover have "ac_entry (rs @ [(rcb, ecb)]) (length rs)
      (Some \<lparr>ac_call = c, ac_response_cb = rcb, ac_error_cb = ecb\<rparr>) []" for c
    by (simp add: ac_entry_def)
  with new old have "ac_inv (rs @ [(rcb, ecb)])
      (w\<lparr>sc_next := Suc (length rs), sc_tags := (sc_tags w)(length rs \<mapsto>
         \<lparr>ac_call = c, ac_response_cb = rcb, ac_error_cb = ecb\<rparr>)\<rparr>)" for c
    by (simp add: ac_inv_def)
  ultimately show ?thesis
    using new(1)
    by (cases "submit G ?b () Call_fresh")
      (auto simp: ServiceStub_AsyncRequest_def tag_batches Let_def)
qed

lemma ac_step_inv:
  assumes "ac_inv rs w" "ac_en e w"
  shows "holds (\<lambda>(out, w'). ac_inv (rs @ ac_requests [(e, out)]) w') (ac_step G e w)"
proof (cases e)
  case (AcRequest request rcb ecb)
  with ac_request_inv [OF assms(1)] show ?thesis by simp
next
  case (AcComplete n cp)
  with assms(2) obtain tag where tag: "sc_tags w n = Some tag"
    and cp: "cp_success cp \<and> cp_status cp = GRPC_STATUS_OK \<longrightarrow> cp_recv_buf cp \<noteq> None" by auto
  from ac_invD [OF assms(1), of n] tag have n: "n < length rs"
    "rs ! n = (ac_response_cb tag, ac_error_cb tag)" "sc_log w n = []"
    by (simp_all add: ac_entry_def)
  have "ac_inv rs (stub_delete n (w\<lparr>sc_log := (sc_log w)(n := log)\<rparr>))"
    if "ac_settled (ac_response_cb tag) (ac_error_cb tag) log" for log
    using assms(1) n that by (simp add: ac_inv_def stub_delete_def) (simp add: ac_entry_def)
  with DoComplete_settles [OF cp, of tag G] AcComplete tag n(3) show ?thesis
    by (auto simp: stub_DoComplete_def elim!: holds_mono)
qed

lemma ac_start_inv: "ac_start w \<Longrightarrow> ac_inv [] w"
  by (simp add: ac_start_def ac_inv_def ac_entry_def)

interpretation ac: safe_machine ac_start ac_en "ac_step G" "\<lambda>w. \<exists>rs. ac_inv rs w" for G
proof (unfold_locales, goal_cases)
  case (1 w)
  then show ?case using ac_start_inv by blast
next
  case (2 w e)
  then obtain rs where "ac_inv rs w" by blast
  from ac_step_inv [OF this 2(2), of G] show ?case by (auto elim!: holds_mono)
qed

lemma ac_runs:
  assumes "reach ac_start ac_en (ac_step G) tr w"
  shows "ac_inv (ac_requests tr) w"
  using assms
proof (induction rule: reach.induct)
  case (reach_start w)
  then show ?case by (simp add: ac_start_inv)
next
  case (reach_step tr w e out w')
  with ac_step_inv [of "ac_requests tr" w e G] show ?case by simp
qed

section \<open>Properties\<close>

definition ac_demo_start :: "(nat, string) stub_calls" where
  "ac_demo_start = \<lparr>sc_tags = Map.empty, sc_next = 0, sc_log = (\<lambda>n. [])\<rparr>"

definition ac_demo_events :: "(nat, string) ac_event list" where
  "ac_demo_events =
     [AcRequest ''a'' (Some (\<lambda>r. Status_OK)) (Some 1), AcRequest ''b'' (Some (\<lambda>r. Status_CANCELLED)) (Some 2),
      AcRequest ''c'' None (Some 3), AcComplete 1 demo_done,
      AcComplete 0 (demo_done\<lparr>cp_success := False\<rparr>)]"

lemma ac_demo_reach:
  "exec ac_en (ac_step (demo_lib 10)) es ac_demo_start = Some (tr, w) \<Longrightarrow>
     reach ac_start ac_en (ac_step (demo_lib 10)) tr w"
  using exec_reach [of ac_start ac_demo_start] by (simp add: ac_start_def ac_demo_start_def)

text \<open>
  C11: Every asynchronous request is settled exactly once and by its own callbacks, in whatever
  order the requests complete: while it is in flight no callback of it has been called;
  afterwards either its error callback got one error, or its response callback got one
  response, followed by the error callback exactly if it rejected the response.
\<close>
theorem ac_settled_once:
  assumes "reach ac_start ac_en (ac_step G) tr w" and "n < length (ac_requests tr)"
  shows "case sc_tags w n of
      Some tag \<Rightarrow> (ac_response_cb tag, ac_error_cb tag) = ac_requests tr ! n \<and> sc_log w n = []
    | None \<Rightarrow> ac_settled (fst (ac_requests tr ! n)) (snd (ac_requests tr ! n)) (sc_log w n)"
  using ac_invD [OF ac_runs [OF assms(1)], of n] assms(2)
  by (auto simp: ac_entry_def split: option.splits)

theorem ac_settled_once_witness:
  "\<exists>(tr :: ((nat, string) ac_event \<times> bool) list) (w :: (nat, string) stub_calls).
     ac_settled (fst (ac_requests tr ! 1)) (snd (ac_requests tr ! 1)) (sc_log w 1) \<and>
     sc_log w 1 = [AcResponse ''pong'', AcError 2 Status_CANCELLED]"
proof -
  have run: "case exec ac_en (ac_step (demo_lib 10)) ac_demo_events ac_demo_start of
      None \<Rightarrow> False
    | Some (tr, w) \<Rightarrow> length (ac_requests tr) = 3 \<and> sc_log w 1 = [AcResponse ''pong'', AcError 2 Status_CANCELLED] \<and>
        (case sc_tags w 1 of None \<Rightarrow> True | Some t \<Rightarrow> False)"
    by code_simp
  then obtain tr w where r: "exec ac_en (ac_step (demo_lib 10)) ac_demo_events ac_demo_start = Some (tr, w)"
    by (auto split: option.splits)
  with run have w: "1 < length (ac_requests tr)" "sc_log w 1 = [AcResponse ''pong'', AcError 2 Status_CANCELLED]"
    "sc_tags w 1 = None" by (auto split: option.splits)
  from ac_settled_once [OF ac_demo_reach [OF r] w(1)] w(2,3) show ?thesis
    by (intro exI [of _ tr] exI [of _ w]) simp
qed

text \<open>
  A synchronous request is a round trip: when gRPC takes the batch, the batch carries the
  request, and when the call ends with status OK and the reply, \<^verbatim>\<open>SyncRequest\<close> returns status OK
  and exactly the bytes of the reply. A refused batch or an error status leaves the response
  as it was and is reported.
\<close>
theorem sync_request_roundtrip:
  fixes G :: "'buf grpc_lib" and request :: string
  defines "b \<equiv> [SendMessage (grpc_raw_byte_buffer_create G request), SendInitialMetadata [],
      RecvInitialMetadata, RecvMessage, SendCloseFromClient, RecvStatusOnClient]"
  assumes "buffers_faithful G" and "idle_call c"
    and "cp_status (round_cp G b c) = GRPC_STATUS_OK \<longrightarrow>
           cp_recv_buf (round_cp G b c) = Some (grpc_raw_byte_buffer_create G reply)"
  shows "ServiceStub_SyncRequest G c request response =
    Done (if \<not> takes G c b then (Status_InternalError ''Failed to request.'', response, after_round G b c)
          else if cp_status (round_cp G b c) = GRPC_STATUS_OK
          then (Status_OK, reply, after_round G b c)
          else (Status_make (cp_status (round_cp G b c)) (cp_details (round_cp G b c)), response,
                after_round G b c))"
  using submit_round [OF assms(3), of G b] assms(2,4)
  by (cases "submit G b () c")
    (auto simp: ServiceStub_SyncRequest_def tag_batches b_def [symmetric] buffers_faithful_def
      read_buf_def)

theorem sync_request_roundtrip_witness:
  "ServiceStub_SyncRequest (demo_lib 10) Call_fresh ''ping'' '''' =
     Done (Status_OK, ''pong'', after_round (demo_lib 10)
       [SendMessage ''ping'', SendInitialMetadata [], RecvInitialMetadata, RecvMessage,
        SendCloseFromClient, RecvStatusOnClient] Call_fresh)"
proof -
  have cp: "round_cp (demo_lib 10) b c = demo_done" for b c
    by (simp add: round_cp_def demo_lib_def demo_done_def)
  have "buffers_faithful (demo_lib 10)" by (simp add: buffers_faithful_def)
  from sync_request_roundtrip [OF this idle_fresh, of "''ping''" "''pong''" "''''"] show ?thesis
    by (simp add: cp demo_done_def takes_def)
qed

text \<open>
  The destructor of a stub whose status change callback was never set joins a thread that
  does not exist: the constructor allocates \<^verbatim>\<open>m_pID\<close>, only \<^verbatim>\<open>SetStatusChangeCb\<close> creates the thread,
  and \<^verbatim>\<open>m_pID\<close> is never null. None of the other setters changes that.
\<close>
theorem stub_dtor_joins_no_thread:
  assumes "ServiceStub_new default_cb own channel_sptr cq4n_sptr = Done s"
  shows "ServiceStub_dtor (ServiceStub_SetErrorCb cb (ServiceStub_SetCallTimeoutMs t
      (ServiceStub_SetCompletionQueue q s))) = Abort ''pthread_join without a thread''"
proof -
  have "ss_thread s = 0" using assms by (auto simp: ServiceStub_new_def split: option.splits)
  then show ?thesis
    by (simp add: ServiceStub_dtor_def ServiceStub_SetErrorCb_def ServiceStub_SetCallTimeoutMs_def
        ServiceStub_SetCompletionQueue_def split: option.splits)
qed

theorem stub_dtor_joins_no_thread_witness:
  "\<exists>s :: nat ServiceStub.
     ServiceStub_new None \<lparr>c_cq_uptr = Some 1, cq_shutdown_requested = False\<rparr>
       (Some \<lparr>ch_c_channel = 1, ch_call_timeout_ms = 5\<rparr>) None = Done s \<and>
     ServiceStub_dtor (ServiceStub_SetErrorCb None (ServiceStub_SetCallTimeoutMs 1
       (ServiceStub_SetCompletionQueue None s))) = Abort ''pthread_join without a thread''"
proof -
  obtain s :: "nat ServiceStub" where
    s: "ServiceStub_new None \<lparr>c_cq_uptr = Some 1, cq_shutdown_requested = False\<rparr>
       (Some \<lparr>ch_c_channel = 1, ch_call_timeout_ms = 5\<rparr>) None = Done s"
    by (simp add: ServiceStub_new_def)
  from s stub_dtor_joins_no_thread [OF s] show ?thesis by blast
qed

end
