(* ===== verification/Server_Writer.thy ===== *)
theory Server_Writer
  imports Machine Completion_Queue "HOL-Library.Word"
begin

text \<open>
  \<^verbatim>\<open>core/server/impl/server_writer_impl*\<close>: the server end of a stream of responses. A message is
  handed to gRPC at once if none is being sent, otherwise it is queued; the completion of a
  write hands over the next one, and after the last the status, once the writer is closed.

  \<^verbatim>\<open>SyncWrite\<close> and \<^verbatim>\<open>SyncClose\<close> spin until the queue is empty, which needs completions handled by
  another thread: those are the list \<open>cps\<close> of the model, and a result \<open>None\<close> says that the
  call still waits when they are used up. Popping an empty \<^verbatim>\<open>std::queue\<close> is undefined
  behaviour, which the model treats as an end of the computation.
\<close>

section \<open>State and operations\<close>

datatype sw_tag = SwWrite | SwStatus

type_synonym size_t = "64 word"

record 'buf ServerWriterImpl =
  sw_call :: "(sw_tag, 'buf) Call"
  sw_closed :: bool
  sw_send_init_md :: bool
  sw_is_sending :: bool
  sw_high_queue_size :: size_t
  sw_queue :: "string list"
  sw_close_status :: "Status option"

type_synonym 'buf sw_op = "'buf ServerWriterImpl \<Rightarrow> 'buf ServerWriterImpl outcome"

definition size_t_max :: size_t where "size_t_max = - 1"  \<comment> \<open>\<^verbatim>\<open>std::numeric_limits<size_t>::max()\<close>\<close>

definition ServerWriterImpl_new :: "(sw_tag, 'buf) Call option \<Rightarrow> 'buf ServerWriterImpl outcome" where
  "ServerWriterImpl_new call_sptr =
     (case call_sptr of
        None \<Rightarrow> Abort ''call_sptr''
      | Some c \<Rightarrow> Done \<lparr>sw_call = c, sw_closed = False, sw_send_init_md = True, sw_is_sending = False,
          sw_high_queue_size = size_t_max, sw_queue = [], sw_close_status = None\<rparr>)"

definition ServerWriterImpl_GetQueueSize :: "'buf ServerWriterImpl \<Rightarrow> nat" where
  "ServerWriterImpl_GetQueueSize s = length (sw_queue s)"

definition ServerWriterImpl_GetHighQueueSize :: "'buf ServerWriterImpl \<Rightarrow> size_t" where
  "ServerWriterImpl_GetHighQueueSize s = sw_high_queue_size s"

definition ServerWriterImpl_SetHighQueueSize :: "size_t \<Rightarrow> 'buf ServerWriterImpl \<Rightarrow> 'buf ServerWriterImpl" where
  "ServerWriterImpl_SetHighQueueSize n s = s\<lparr>sw_high_queue_size := n\<rparr>"

definition ServerWriterImpl_IsClosed :: "'buf ServerWriterImpl \<Rightarrow> bool" where
  "ServerWriterImpl_IsClosed s = sw_closed s"

definition ServerWriterImpl_SendStatus :: "'buf grpc_lib \<Rightarrow> 'buf sw_op" where
  "ServerWriterImpl_SendStatus G s =
     assert_o (\<not> sw_closed s) ''!closed_''
      (case sw_close_status s of
         None \<Rightarrow> Abort ''close_status_uptr_''
       | Some status \<Rightarrow>
           assert_o (sw_queue s = []) ''queue_.empty()''
             (let s1 = s\<lparr>sw_closed := True\<rparr>
              in bind_o (ServerWriterSendStatusCqTag_StartSend G status (sw_send_init_md s1) SwStatus
                           (new_tag SwStatus (sw_call s1)))
                   (\<lambda>(started, c).
                     if started then Done (s1\<lparr>sw_call := c\<rparr>)
                     else Done (s1\<lparr>sw_call := delete_tag SwStatus c\<rparr>))))"

definition ServerWriterImpl_SendMsg ::
  "'buf grpc_lib \<Rightarrow> string \<Rightarrow> 'buf ServerWriterImpl \<Rightarrow> (bool \<times> 'buf ServerWriterImpl) outcome" where
  "ServerWriterImpl_SendMsg G msg s =
     assert_o (\<not> sw_closed s) ''!closed_''
      (assert_o (\<not> sw_is_sending s) ''!is_sending_''
        (let s1 = s\<lparr>sw_is_sending := True\<rparr>
         in bind_o (ServerWriterWriteCqTag_Start G msg (sw_send_init_md s1) SwWrite
                      (new_tag SwWrite (sw_call s1)))
              (\<lambda>(started, c).
                if started then Done (True, s1\<lparr>sw_call := c, sw_send_init_md := False\<rparr>)
                else Done (False, s1\<lparr>sw_call := delete_tag SwWrite c, sw_closed := True,
                                     sw_queue := []\<rparr>))))"

definition ServerWriterImpl_TryToWriteNext :: "'buf grpc_lib \<Rightarrow> 'buf sw_op" where
  "ServerWriterImpl_TryToWriteNext G s =
     (if sw_closed s then Done s
      else
        (let s1 = s\<lparr>sw_is_sending := False\<rparr>
         in if sw_queue s1 \<noteq> []
            then bind_o (ServerWriterImpl_SendMsg G (hd (sw_queue s1)) s1) (\<lambda>(sent, s2).
                   if sw_queue s2 = [] then Abort ''pop of an empty queue''
                   else (let s3 = s2\<lparr>sw_queue := tl (sw_queue s2)\<rparr>
                         in assert_o (sw_is_sending s3) ''is_sending_'' (Done s3)))
            else if sw_close_status s1 \<noteq> None then ServerWriterImpl_SendStatus G s1
            else assert_o (\<not> sw_is_sending s1) ''!is_sending_'' (Done s1)))"

definition ServerWriterImpl_AsyncWrite ::
  "'buf grpc_lib \<Rightarrow> string \<Rightarrow> 'buf ServerWriterImpl \<Rightarrow> (bool \<times> 'buf ServerWriterImpl) outcome" where
  "ServerWriterImpl_AsyncWrite G response s =
     (if sw_closed s \<or> sw_close_status s \<noteq> None then Done (False, s)
      else if sw_is_sending s then Done (True, s\<lparr>sw_queue := sw_queue s @ [response]\<rparr>)
      else assert_o (sw_queue s = []) ''queue_.empty()'' (ServerWriterImpl_SendMsg G response s))"

definition ServerWriterImpl_AsyncClose :: "'buf grpc_lib \<Rightarrow> Status \<Rightarrow> 'buf sw_op" where
  "ServerWriterImpl_AsyncClose G status s =
     (if sw_closed s \<or> sw_close_status s \<noteq> None then Done s
      else
        (let s1 = s\<lparr>sw_close_status := Some status\<rparr>
         in if sw_is_sending s1 then Done s1
            else assert_o (sw_queue s1 = []) ''queue_.empty()'' (ServerWriterImpl_SendStatus G s1)))"

text \<open>Completions of the tags, and waiting for them.\<close>

fun sw_DoComplete :: "'buf grpc_lib \<Rightarrow> sw_tag \<Rightarrow> bool \<Rightarrow> 'buf sw_op" where
  "sw_DoComplete G SwWrite success s =
     GeneralCallCqTag_DoComplete (Some (\<lambda>success. ServerWriterImpl_TryToWriteNext G)) success s"
| "sw_DoComplete G SwStatus success s = CompletionQueueTag_DoComplete success s"

definition sw_pop :: "sw_tag \<Rightarrow> 'buf ServerWriterImpl \<Rightarrow> 'buf ServerWriterImpl" where
  "sw_pop tag s = s\<lparr>sw_call := pop_pending tag (sw_call s)\<rparr>"

definition sw_delete :: "sw_tag \<Rightarrow> 'buf ServerWriterImpl \<Rightarrow> 'buf ServerWriterImpl" where
  "sw_delete tag s = s\<lparr>sw_call := delete_tag tag (sw_call s)\<rparr>"

definition sw_completion ::
  "'buf grpc_lib \<Rightarrow> sw_tag \<Rightarrow> bool \<Rightarrow> 'buf ServerWriterImpl \<Rightarrow> (bool \<times> 'buf ServerWriterImpl) outcome" where
  "sw_completion G tag success s =
     handle_event (sw_DoComplete G) sw_delete (GRPC_OP_COMPLETE (Some tag) success) (sw_pop tag s)"

fun sw_wait :: "'buf grpc_lib \<Rightarrow> bool list \<Rightarrow> 'buf ServerWriterImpl \<Rightarrow> 'buf ServerWriterImpl outcome option" where
  "sw_wait G [] s = (if ServerWriterImpl_GetQueueSize s = 0 then Some (Done s) else None)"
| "sw_wait G (success # cps) s =
     (if ServerWriterImpl_GetQueueSize s = 0 then Some (Done s)
      else case sw_completion G SwWrite success s of
        Abort why \<Rightarrow> Some (Abort why)
      | Done (go, s') \<Rightarrow> sw_wait G cps s')"

definition ServerWriterImpl_SyncWrite ::
  "'buf grpc_lib \<Rightarrow> bool list \<Rightarrow> string \<Rightarrow> 'buf ServerWriterImpl \<Rightarrow>
     (bool \<times> 'buf ServerWriterImpl) outcome option" where
  "ServerWriterImpl_SyncWrite G cps response s =
     (case ServerWriterImpl_AsyncWrite G response s of
        Abort why \<Rightarrow> Some (Abort why)
      | Done (accepted, s1) \<Rightarrow>
          (if \<not> accepted then Some (Done (False, s1))
           else map_option (\<lambda>r. bind_o r (\<lambda>s2. Done (\<not> sw_closed s2, s2))) (sw_wait G cps s1)))"

definition ServerWriterImpl_SyncClose ::
  "'buf grpc_lib \<Rightarrow> bool list \<Rightarrow> Status \<Rightarrow> 'buf ServerWriterImpl \<Rightarrow> 'buf ServerWriterImpl outcome option"
where
  "ServerWriterImpl_SyncClose G cps status s =
     (case ServerWriterImpl_AsyncClose G status s of
        Abort why \<Rightarrow> Some (Abort why)
      | Done s1 \<Rightarrow> sw_wait G cps s1)"

definition ServerWriterImpl_Write ::
  "'buf grpc_lib \<Rightarrow> bool list \<Rightarrow> string \<Rightarrow> 'buf ServerWriterImpl \<Rightarrow>
     (bool \<times> 'buf ServerWriterImpl) outcome option" where
  "ServerWriterImpl_Write G cps response s =
     (let is_high = (length (sw_queue s) \<ge> unat (sw_high_queue_size s))
      in if is_high then ServerWriterImpl_SyncWrite G cps response s
         else Some (ServerWriterImpl_AsyncWrite G response s))"

definition ServerWriterImpl_dtor ::
  "'buf grpc_lib \<Rightarrow> bool list \<Rightarrow> 'buf ServerWriterImpl \<Rightarrow> 'buf ServerWriterImpl outcome option" where
  "ServerWriterImpl_dtor G cps s =
     (if sw_queue s \<noteq> [] then Some (Abort ''queue_.empty()'')
      else ServerWriterImpl_SyncClose G cps Status_OK s)"

section \<open>The machine\<close>

datatype sw_event =
    SwAsyncWrite string
  | SwAsyncClose Status
  | SwSetHighQueueSize size_t
  | SwCompletion sw_tag bool

text \<open>The batch of a message in the present state, and gRPC's acceptance of the next queued one.\<close>

abbreviation sw_batch :: "'buf grpc_lib \<Rightarrow> string \<Rightarrow> 'buf ServerWriterImpl \<Rightarrow> 'buf grpc_op list" where
  "sw_batch G m s \<equiv> init_md_ops (sw_send_init_md s) @ [SendMessage (grpc_raw_byte_buffer_create G m)]"

definition sw_next_taken :: "'buf grpc_lib \<Rightarrow> 'buf ServerWriterImpl \<Rightarrow> bool" where
  "sw_next_taken G s \<longleftrightarrow>
     (case sw_queue s of [] \<Rightarrow> True | m # ms \<Rightarrow> takes G (sw_call s) (sw_batch G m s))"

fun sw_en :: "'buf grpc_lib \<Rightarrow> sw_event \<Rightarrow> 'buf ServerWriterImpl \<Rightarrow> bool" where
  "sw_en G (SwCompletion tag success) s \<longleftrightarrow>
     tag \<in> pend (sw_call s) \<and> (tag = SwWrite \<longrightarrow> sw_next_taken G s)"
| "sw_en G _ s \<longleftrightarrow> True"

fun sw_step ::
  "'buf grpc_lib \<Rightarrow> sw_event \<Rightarrow> 'buf ServerWriterImpl \<Rightarrow> (bool \<times> 'buf ServerWriterImpl) outcome" where
  "sw_step G (SwAsyncWrite response) s = ServerWriterImpl_AsyncWrite G response s"
| "sw_step G (SwAsyncClose status) s =
     bind_o (ServerWriterImpl_AsyncClose G status s) (\<lambda>s'. Done (True, s'))"
| "sw_step G (SwSetHighQueueSize n) s = Done (True, ServerWriterImpl_SetHighQueueSize n s)"
| "sw_step G (SwCompletion tag success) s = sw_completion G tag success s"

definition sw_start :: "'buf ServerWriterImpl \<Rightarrow> bool" where
  "sw_start s \<longleftrightarrow> ServerWriterImpl_new (Some Call_fresh) = Done s"

section \<open>The invariant\<close>

text \<open>At most one batch is pending on the call, and the heap holds its tag.\<close>

definition sw_calls :: "sw_tag list \<Rightarrow> (sw_tag, 'buf) Call \<Rightarrow> bool" where
  "sw_calls extra c \<longleftrightarrow>
     (call_pending c = [] \<or> (\<exists>t b. call_pending c = [(t, b)] \<and> distinct (map op_type b))) \<and>
     mset (call_heap c) = mset (pending_tags c) + mset extra"

definition no_status :: "'buf grpc_op list list \<Rightarrow> bool" where
  "no_status bs \<longleftrightarrow> (\<forall>b \<in> set bs. GRPC_OP_SEND_STATUS_FROM_SERVER \<notin> set (map op_type b))"

abbreviation status_batch :: "Status \<Rightarrow> bool \<Rightarrow> 'buf grpc_op list" where
  "status_batch st im \<equiv> init_md_ops im @ [SendStatusFromServer [] (GetCode st) (c_str (GetDetails st))]"

definition sw_status_ok :: "'buf ServerWriterImpl \<Rightarrow> bool" where
  "sw_status_ok s \<longleftrightarrow>
     no_status (map fst (call_batches (sw_call s))) \<or>
     (sw_closed s \<and> (\<exists>bs im st. map fst (call_batches (sw_call s)) = bs @ [status_batch st im] \<and>
        no_status bs \<and> sw_close_status s = Some st))"

definition sw_ctl :: "'buf ServerWriterImpl \<Rightarrow> bool" where
  "sw_ctl s \<longleftrightarrow>
     (SwWrite \<in> pend (sw_call s)) = (sw_is_sending s \<and> \<not> sw_closed s) \<and>
     (SwStatus \<in> pend (sw_call s) \<longrightarrow> sw_closed s) \<and>
     (sw_queue s \<noteq> [] \<longrightarrow> sw_is_sending s \<and> \<not> sw_closed s) \<and>
     (sw_close_status s \<noteq> None \<longrightarrow> sw_is_sending s \<or> sw_closed s) \<and>
     (\<not> sw_closed s \<longrightarrow> no_status (map fst (call_batches (sw_call s))))"

definition sw_ok :: "sw_tag list \<Rightarrow> 'buf ServerWriterImpl \<Rightarrow> bool" where
  "sw_ok extra s \<longleftrightarrow> sw_calls extra (sw_call s) \<and> sw_ctl s \<and> sw_status_ok s"

lemma sw_calls_launched:
  "sw_calls extra c \<Longrightarrow> pend c = {} \<Longrightarrow> distinct (map op_type b) \<Longrightarrow> sw_calls extra (launched G b t c)"
  by (auto simp: sw_calls_def pend_empty)

lemma sw_calls_pop:
  "sw_calls [] c \<Longrightarrow> t \<in> pend c \<Longrightarrow> sw_calls [t] (pop_pending t c) \<and> pend (pop_pending t c) = {}"
  by (auto simp: sw_calls_def pend_def)

lemma sw_calls_delete: "sw_calls [t] c \<Longrightarrow> sw_calls [] (delete_tag t c)"
  by (auto simp: sw_calls_def)

lemma no_status_append [simp]: "no_status (bs @ [b]) \<longleftrightarrow> no_status bs \<and> GRPC_OP_SEND_STATUS_FROM_SERVER \<notin> op_type ` set b"
  by (auto simp: no_status_def)

text \<open>What the two senders do when their assertions hold.\<close>

lemma SendMsg_eq:
  "\<not> sw_closed s \<Longrightarrow> \<not> sw_is_sending s \<Longrightarrow>
   ServerWriterImpl_SendMsg G m s =
     (let s1 = s\<lparr>sw_is_sending := True, sw_call := launched G (sw_batch G m s) SwWrite (sw_call s)\<rparr>
      in if takes G (sw_call s) (sw_batch G m s) then Done (True, s1\<lparr>sw_send_init_md := False\<rparr>)
         else Done (False, s1\<lparr>sw_closed := True, sw_queue := []\<rparr>))"
  by (simp add: ServerWriterImpl_SendMsg_def tag_batches submit_new_tag Let_def)

lemma SendStatus_eq:
  "\<not> sw_closed s \<Longrightarrow> sw_close_status s = Some st \<Longrightarrow> sw_queue s = [] \<Longrightarrow>
   ServerWriterImpl_SendStatus G s =
     Done (s\<lparr>sw_closed := True,
             sw_call := launched G (status_batch st (sw_send_init_md s)) SwStatus (sw_call s)\<rparr>)"
  by (simp add: ServerWriterImpl_SendStatus_def tag_batches submit_new_tag Let_def)

definition sw_handed :: "'buf ServerWriterImpl \<Rightarrow> 'buf list" where
  "sw_handed s = taken_msgs (call_batches (sw_call s))"

definition sw_waiting :: "'buf grpc_lib \<Rightarrow> 'buf ServerWriterImpl \<Rightarrow> 'buf list" where
  "sw_waiting G s = map (grpc_raw_byte_buffer_create G) (sw_queue s)"

definition sw_status_sent :: "'buf ServerWriterImpl \<Rightarrow> bool" where
  "sw_status_sent s \<longleftrightarrow> \<not> no_status (map fst (call_batches (sw_call s)))"

text \<open>
  How a step moves messages; \<open>ms\<close> are the messages it accepts. The status batch goes out in a
  step that accepts nothing, from a state where nothing waits.
\<close>

definition sw_flow :: "'buf grpc_lib \<Rightarrow> 'buf list \<Rightarrow> 'buf ServerWriterImpl \<Rightarrow> 'buf ServerWriterImpl \<Rightarrow> bool" where
  "sw_flow G ms s s' \<longleftrightarrow>
     (if sw_closed s then sw_closed s' \<and> sw_handed s' = sw_handed s \<and> ms = []
      else if \<not> sw_closed s' then sw_handed s' @ sw_waiting G s' = sw_handed s @ sw_waiting G s @ ms
      else prefix (sw_handed s') (sw_handed s @ sw_waiting G s @ ms)) \<and>
     (sw_status_sent s' \<and> \<not> sw_status_sent s \<longrightarrow>
        \<not> sw_closed s \<and> sw_waiting G s = [] \<and> ms = [] \<and> sw_handed s' = sw_handed s)"

lemmas sw_simps = sw_ok_def sw_ctl_def sw_status_ok_def sw_flow_def sw_handed_def sw_waiting_def
  sw_status_sent_def

lemma AsyncWrite_ok:
  assumes "sw_ok [] s"
  shows "holds (\<lambda>(accepted, s'). sw_ok [] s' \<and>
             sw_flow G (if accepted then [grpc_raw_byte_buffer_create G m] else []) s s')
           (ServerWriterImpl_AsyncWrite G m s)"
proof (cases "sw_closed s \<or> sw_close_status s \<noteq> None")
  case True
  with assms show ?thesis by (auto simp: ServerWriterImpl_AsyncWrite_def sw_flow_def)
next
  case open_: False
  show ?thesis
  proof (cases "sw_is_sending s")
    case True
    with open_ assms show ?thesis by (auto simp: ServerWriterImpl_AsyncWrite_def sw_simps)
  next
    case False
    let ?b = "sw_batch G m s"
    from False open_ assms have idle: "pend (sw_call s) = {}" "sw_queue s = []"
      by (auto simp: sw_ok_def sw_ctl_def) (metis sw_tag.exhaust)
    with assms have "sw_calls [] (launched G ?b SwWrite (sw_call s))"
      by (intro sw_calls_launched) (auto simp: sw_ok_def)
    with idle False open_ assms show ?thesis
      by (auto simp: ServerWriterImpl_AsyncWrite_def SendMsg_eq Let_def sw_simps)
  qed
qed

lemma AsyncClose_ok:
  assumes "sw_ok [] s"
  shows "holds (\<lambda>s'. sw_ok [] s' \<and> sw_flow G [] s s') (ServerWriterImpl_AsyncClose G st s)"
proof (cases "sw_closed s \<or> sw_close_status s \<noteq> None")
  case True
  with assms show ?thesis by (auto simp: ServerWriterImpl_AsyncClose_def sw_flow_def)
next
  case open_: False
  show ?thesis
  proof (cases "sw_is_sending s")
    case True
    with open_ assms show ?thesis by (auto simp: ServerWriterImpl_AsyncClose_def Let_def sw_simps)
  next
    case False
    let ?b = "status_batch st (sw_send_init_md s)"
    from False open_ assms have idle: "pend (sw_call s) = {}" "sw_queue s = []"
      by (auto simp: sw_ok_def sw_ctl_def) (metis sw_tag.exhaust)
    with assms have "sw_calls [] (launched G ?b SwStatus (sw_call s))"
      by (intro sw_calls_launched) (auto simp: sw_ok_def)
    with idle False open_ assms show ?thesis
      by (auto simp: ServerWriterImpl_AsyncClose_def SendStatus_eq Let_def sw_simps)
  qed
qed


lemma GeneralCallCqTag_write [simp]:
  "sw_DoComplete G SwWrite success s = ServerWriterImpl_TryToWriteNext G s"
  by (simp add: GeneralCallCqTag_DoComplete_def)

lemma sw_pop_fields [simp]:
  "sw_call (sw_pop t s) = pop_pending t (sw_call s)" "sw_closed (sw_pop t s) = sw_closed s"
  "sw_is_sending (sw_pop t s) = sw_is_sending s" "sw_queue (sw_pop t s) = sw_queue s"
  "sw_close_status (sw_pop t s) = sw_close_status s" "sw_send_init_md (sw_pop t s) = sw_send_init_md s"
  "sw_call (sw_delete t s) = delete_tag t (sw_call s)" "sw_closed (sw_delete t s) = sw_closed s"
  "sw_is_sending (sw_delete t s) = sw_is_sending s" "sw_queue (sw_delete t s) = sw_queue s"
  "sw_close_status (sw_delete t s) = sw_close_status s" "sw_send_init_md (sw_delete t s) = sw_send_init_md s"
  by (simp_all add: sw_pop_def sw_delete_def)

lemma sw_calls_next:
  "sw_calls [] c \<Longrightarrow> t \<in> pend c \<Longrightarrow> distinct (map op_type b) \<Longrightarrow>
     sw_calls [] (delete_tag t (launched G b u (pop_pending t c))) \<and>
     pend (pop_pending t c) = {}"
  using sw_calls_pop [of c t] pend_empty [of "pop_pending t c"] by (simp add: sw_calls_def)

lemma takes_pop [simp]: "takes G (pop_pending t c) b = takes G c b"
  by (simp add: takes_def)

lemma status_completion_ok:
  assumes "sw_ok [] s" "SwStatus \<in> pend (sw_call s)"
  shows "holds (\<lambda>(go, s'). sw_ok [] s' \<and> sw_flow G [] s s') (sw_completion G SwStatus success s)"
proof -
  have "sw_calls [] (delete_tag SwStatus (pop_pending SwStatus (sw_call s)))"
    "pend (pop_pending SwStatus (sw_call s)) = {}" "SwWrite \<notin> pend (sw_call s)"
    using assms sw_calls_pop [of "sw_call s" SwStatus] sw_calls_delete
    by (auto simp: sw_ok_def sw_calls_def pend_def)
  with assms show ?thesis
    by (auto simp: sw_completion_def CompletionQueueTag_DoComplete_def sw_simps)
qed

lemma write_completion_cases:
  assumes "sw_ok [] s" "SwWrite \<in> pend (sw_call s)" "sw_next_taken G s"
  shows "\<exists>s'. sw_completion G SwWrite success s = Done (True, s') \<and>
     sw_close_status s' = sw_close_status s \<and>
     (case sw_queue s of
        m # ms \<Rightarrow> sw_call s' = delete_tag SwWrite (launched G (sw_batch G m s) SwWrite
                                 (pop_pending SwWrite (sw_call s))) \<and>
                  sw_queue s' = ms \<and> sw_is_sending s' \<and> \<not> sw_closed s'
      | [] \<Rightarrow> sw_queue s' = [] \<and> \<not> sw_is_sending s' \<and>
         (case sw_close_status s of
            None \<Rightarrow> sw_call s' = delete_tag SwWrite (pop_pending SwWrite (sw_call s)) \<and> \<not> sw_closed s'
          | Some st \<Rightarrow> sw_call s' = delete_tag SwWrite (launched G
                (status_batch st (sw_send_init_md s)) SwStatus (pop_pending SwWrite (sw_call s))) \<and>
              sw_closed s'))"
proof -
  have open_: "\<not> sw_closed s" using assms(1,2) by (simp add: sw_ok_def sw_ctl_def)
  show ?thesis
  proof (cases "sw_queue s")
    case Nil
    with open_ show ?thesis
      by (cases "sw_close_status s")
        (simp_all add: sw_completion_def ServerWriterImpl_TryToWriteNext_def SendStatus_eq Let_def)
  next
    case (Cons m ms)
    with open_ assms(3) show ?thesis
      by (simp add: sw_completion_def ServerWriterImpl_TryToWriteNext_def SendMsg_eq Let_def sw_next_taken_def)
  qed
qed


lemma write_completion_ok:
  assumes "sw_ok [] s" "SwWrite \<in> pend (sw_call s)" "sw_next_taken G s"
  shows "holds (\<lambda>(go, s'). sw_ok [] s' \<and> sw_flow G [] s s' \<and>
             length (sw_queue s') = length (sw_queue s) - 1 \<and>
             (sw_queue s \<noteq> [] \<longrightarrow> \<not> sw_closed s' \<and> SwWrite \<in> pend (sw_call s')))
           (sw_completion G SwWrite success s)"
proof -
  from write_completion_cases [OF assms] obtain s' where
    s': "sw_completion G SwWrite success s = Done (True, s')" "sw_close_status s' = sw_close_status s"
    and cases: "case sw_queue s of
        m # ms \<Rightarrow> sw_call s' = delete_tag SwWrite (launched G (sw_batch G m s) SwWrite
                                 (pop_pending SwWrite (sw_call s))) \<and>
                  sw_queue s' = ms \<and> sw_is_sending s' \<and> \<not> sw_closed s'
      | [] \<Rightarrow> sw_queue s' = [] \<and> \<not> sw_is_sending s' \<and>
         (case sw_close_status s of
            None \<Rightarrow> sw_call s' = delete_tag SwWrite (pop_pending SwWrite (sw_call s)) \<and> \<not> sw_closed s'
          | Some st \<Rightarrow> sw_call s' = delete_tag SwWrite (launched G
                (status_batch st (sw_send_init_md s)) SwStatus (pop_pending SwWrite (sw_call s))) \<and>
              sw_closed s')" by blast
  from assms(1,2) have open_: "\<not> sw_closed s" "no_status (map fst (call_batches (sw_call s)))"
    and calls: "sw_calls [] (sw_call s)"
    by (auto simp: sw_ok_def sw_ctl_def)
  note nxt = sw_calls_next [OF calls assms(2)]
  show ?thesis
  proof (cases "sw_queue s")
    case (Cons m ms)
    with nxt [of "sw_batch G m s" G SwWrite] cases s' assms(3) open_ show ?thesis
      by (simp add: sw_simps sw_next_taken_def)
  next
    case Nil
    show ?thesis
    proof (cases "sw_close_status s")
      case None
      have "sw_calls [] (delete_tag SwWrite (pop_pending SwWrite (sw_call s)))"
        "pend (pop_pending SwWrite (sw_call s)) = {}"
        using sw_calls_pop [OF calls assms(2)] sw_calls_delete by auto
      with None Nil cases s' open_ show ?thesis by (simp add: sw_simps)
    next
      case (Some st)
      with nxt [of "status_batch st (sw_send_init_md s)" G SwStatus] Nil cases s' open_
      show ?thesis by (auto simp: sw_simps)
    qed
  qed
qed


section \<open>The writer as a sender\<close>

fun sw_accepts :: "'buf grpc_lib \<Rightarrow> sw_event \<Rightarrow> bool \<Rightarrow> 'buf list" where
  "sw_accepts G (SwAsyncWrite m) True = [grpc_raw_byte_buffer_create G m]"
| "sw_accepts G e out = []"

lemma sw_start_iff: "sw_start s \<longleftrightarrow> s = \<lparr>sw_call = Call_fresh, sw_closed = False, sw_send_init_md = True,
    sw_is_sending = False, sw_high_queue_size = size_t_max, sw_queue = [], sw_close_status = None\<rparr>"
  by (auto simp: sw_start_def ServerWriterImpl_new_def)

lemma sw_start_ok: "sw_start s \<Longrightarrow> sw_ok [] s"
  by (simp add: sw_start_iff sw_simps sw_calls_def no_status_def)

lemma sw_step_ok:
  assumes "sw_ok [] s" "sw_en G e s"
  shows "holds (\<lambda>(out, s'). sw_ok [] s' \<and> sw_flow G (sw_accepts G e out) s s') (sw_step G e s)"
proof (cases e)
  case (SwAsyncWrite m)
  with AsyncWrite_ok [OF assms(1), of G m] show ?thesis
    by (auto elim!: holds_mono split: if_splits)
next
  case (SwAsyncClose st)
  with AsyncClose_ok [OF assms(1), of G st] show ?thesis by (auto elim!: holds_mono)
next
  case (SwSetHighQueueSize n)
  with assms show ?thesis by (auto simp: ServerWriterImpl_SetHighQueueSize_def sw_simps)
next
  case (SwCompletion t success)
  with assms show ?thesis
    using write_completion_ok [of s G success] status_completion_ok [of s G success]
    by (cases t) (auto elim!: holds_mono)
qed

interpretation sw: fifo_sender sw_start "sw_en G" "sw_step G" "sw_ok []" "sw_accepts G"
  sw_handed "sw_waiting G" "\<lambda>s. \<not> sw_closed s" for G :: "'buf grpc_lib"
proof (unfold_locales, goal_cases)
  case (1 s)
  then show ?case by (rule sw_start_ok)
next
  case (2 s e)
  then show ?case by (auto elim!: holds_mono [OF sw_step_ok])
next
  case (3 s)
  then show ?case by (simp add: sw_start_iff sw_handed_def sw_waiting_def)
next
  case (4 s e out s')
  with sw_step_ok [OF 4(1,2)] show ?case by (simp add: sw_flow_def)
next
  case (5 s e out s')
  with sw_step_ok [OF 5(1,2)] show ?case by (simp add: sw_flow_def)
next
  case (6 s e out s')
  with sw_step_ok [OF 6(1,2)] show ?case by (simp add: sw_flow_def)
qed

lemma sw_status_after_messages:
  assumes "reach sw_start (sw_en G) (sw_step G) tr s"
  shows "sw_status_sent s \<longrightarrow> sw_handed s = sw.accepted G tr"
  using assms
proof (induction rule: reach.induct)
  case (reach_start s)
  then show ?case by (simp add: sw_start_iff sw_status_sent_def no_status_def)
next
  case (reach_step tr s e out s')
  note ok = sw.reach_inv [OF reach_step.hyps(1)]
  from sw_step_ok [OF ok reach_step.hyps(2)] reach_step.hyps(3)
  have flow: "sw_flow G (sw_accepts G e out) s s'" by simp
  have closed: "sw_status_sent s \<Longrightarrow> sw_closed s"
    using ok by (auto simp: sw_ok_def sw_ctl_def sw_status_sent_def)
  show ?case
  proof (cases "sw_status_sent s")
    case True
    with closed flow reach_step.IH show ?thesis by (simp add: sw_flow_def)
  next
    case False
    with flow sw.accepted_split [OF reach_step.hyps(1)] show ?thesis by (auto simp: sw_flow_def)
  qed
qed

section \<open>Waiting\<close>

definition takes_all :: "'buf grpc_lib \<Rightarrow> bool" where
  "takes_all G \<longleftrightarrow> (\<forall>log b. grpc_call_start_batch G log b = GRPC_CALL_OK)"

lemma takes_all_takes: "takes_all G \<Longrightarrow> takes G c b"
  by (simp add: takes_all_def takes_def)

lemma sw_wait_returns:
  "sw_ok [] s \<Longrightarrow> takes_all G \<Longrightarrow> length (sw_queue s) \<le> length cps \<Longrightarrow>
     \<exists>s'. sw_wait G cps s = Some (Done s') \<and> sw_ok [] s' \<and> sw_queue s' = [] \<and>
       (\<not> sw_closed s \<longrightarrow> \<not> sw_closed s' \<and> sw_handed s' = sw_handed s @ sw_waiting G s)"
proof (induction cps arbitrary: s)
  case Nil
  then show ?case by (simp add: ServerWriterImpl_GetQueueSize_def sw_waiting_def)
next
  case (Cons success cps)
  show ?case
  proof (cases "sw_queue s = []")
    case True
    with Cons.prems show ?thesis by (simp add: ServerWriterImpl_GetQueueSize_def sw_waiting_def)
  next
    case False
    with Cons.prems have "SwWrite \<in> pend (sw_call s)" "\<not> sw_closed s" by (auto simp: sw_ok_def sw_ctl_def)
    moreover have "sw_next_taken G s"
      using Cons.prems(2) by (auto simp: sw_next_taken_def takes_all_takes split: list.split)
    ultimately obtain go s1 where s1: "sw_completion G SwWrite success s = Done (go, s1)" "sw_ok [] s1"
      "sw_flow G [] s s1" "length (sw_queue s1) = length (sw_queue s) - 1" "\<not> sw_closed s1"
      using write_completion_ok [OF Cons.prems(1)] False by (fastforce simp: holds_iff)
    with False Cons.prems \<open>\<not> sw_closed s\<close> show ?thesis
      using Cons.IH [of s1] by (auto simp: ServerWriterImpl_GetQueueSize_def sw_flow_def)
  qed
qed


text \<open>An open writer accepts every message.\<close>

lemma AsyncWrite_open:
  assumes "sw_ok [] s" "takes_all G" "\<not> sw_closed s" "sw_close_status s = None"
  shows "\<exists>s1. ServerWriterImpl_AsyncWrite G m s = Done (True, s1) \<and> \<not> sw_closed s1 \<and>
    length (sw_queue s1) \<le> Suc (length (sw_queue s))"
proof (cases "sw_is_sending s")
  case True
  with assms show ?thesis by (simp add: ServerWriterImpl_AsyncWrite_def)
next
  case False
  with assms have "sw_queue s = []" by (auto simp: sw_ok_def sw_ctl_def)
  with False assms show ?thesis
    by (simp add: ServerWriterImpl_AsyncWrite_def SendMsg_eq takes_all_takes Let_def)
qed

section \<open>Runs to apply the properties to\<close>

text \<open>gRPC as in the other examples, but without a limit on the batches.\<close>

definition sync_lib :: "string grpc_lib" where
  "sync_lib = (demo_lib 0)\<lparr>grpc_call_start_batch := (\<lambda>log batch. GRPC_CALL_OK)\<rparr>"

definition sw_demo :: "string ServerWriterImpl" where
  "sw_demo = \<lparr>sw_call = Call_fresh, sw_closed = False, sw_send_init_md = True,
    sw_is_sending = False, sw_high_queue_size = size_t_max, sw_queue = [], sw_close_status = None\<rparr>"

lemma sw_demo_start [simp]: "sw_start sw_demo"
  by (simp add: sw_start_iff sw_demo_def)

lemmas sw_demo_reach = exec_reach [where start = sw_start and s = sw_demo, OF sw_demo_start]

section \<open>Properties\<close>

text \<open>
  C12: The server writer never fails an assertion while gRPC accepts the queued messages it is
  given: from every reachable state each call and each completion runs to its end. At most one
  batch is outstanding, and exactly its tag is on the heap.
\<close>
theorem sw_never_aborts:
  assumes "reach sw_start (sw_en G) (sw_step G) tr s"
  shows "length (call_pending (sw_call s)) \<le> 1 \<and>
    mset (call_heap (sw_call s)) = mset (pending_tags (sw_call s)) \<and>
    (\<forall>e. sw_en G e s \<longrightarrow> (\<exists>out s'. sw_step G e s = Done (out, s')))"
  using sw.reach_inv [OF assms] sw.reach_no_abort [OF assms]
  by (fastforce simp: sw_ok_def sw_calls_def)

theorem sw_never_aborts_witness:
  "\<exists>s :: string ServerWriterImpl. sw_queue s = [''b''] \<and> length (call_pending (sw_call s)) \<le> 1 \<and>
     (\<exists>out s'. sw_step (demo_lib 10) (SwAsyncClose Status_OK) s = Done (out, s'))"
proof -
  let ?G = "demo_lib 10"
  let ?es = "[SwAsyncWrite ''a'', SwAsyncWrite ''b'']"
  have run: "case exec (sw_en ?G) (sw_step ?G) ?es sw_demo of
      None \<Rightarrow> False | Some (tr, s) \<Rightarrow> sw_queue s = [''b'']" by code_simp
  then obtain tr s where r: "exec (sw_en ?G) (sw_step ?G) ?es sw_demo = Some (tr, s)"
    by (auto split: option.splits)
  have "sw_en ?G (SwAsyncClose Status_OK) s" by simp
  with sw_never_aborts [OF sw_demo_reach [OF r]] have
    "length (call_pending (sw_call s)) \<le> 1"
    "\<exists>out s'. sw_step ?G (SwAsyncClose Status_OK) s = Done (out, s')" by blast+
  with run r show ?thesis by (intro exI [of _ s]) (simp only: option.case prod.case)
qed

text \<open>
  C13: The stream of responses is first in, first out: what gRPC has taken is a prefix of what
  \<^verbatim>\<open>AsyncWrite\<close> returned true for, and while the writer is open everything else waits in the queue.
\<close>
theorem sw_fifo:
  assumes "reach sw_start (sw_en G) (sw_step G) tr s"
  shows "prefix (sw_handed s) (concat (map (\<lambda>(e, out). sw_accepts G e out) tr)) \<and>
    (\<not> sw_closed s \<longrightarrow> concat (map (\<lambda>(e, out). sw_accepts G e out) tr) = sw_handed s @ sw_waiting G s)"
  using sw.handed_prefix [OF assms] sw.accepted_split [OF assms] by (simp add: sw.accepted_def)

theorem sw_fifo_witness:
  "\<exists>s :: string ServerWriterImpl. sw_handed s @ sw_waiting (demo_lib 10) s = [''a'', ''b'', ''c''] \<and>
     sw_queue s = [''c'']"
proof -
  let ?G = "demo_lib 10"
  let ?es = "[SwAsyncWrite ''a'', SwAsyncWrite ''b'', SwAsyncWrite ''c'', SwCompletion SwWrite True]"
  have run: "case exec (sw_en ?G) (sw_step ?G) ?es sw_demo of
      None \<Rightarrow> False | Some (tr, s) \<Rightarrow> concat (map (\<lambda>(e, out). sw_accepts ?G e out) tr) = [''a'', ''b'', ''c'']
        \<and> sw_queue s = [''c''] \<and> \<not> sw_closed s" by code_simp
  then obtain tr s where r: "exec (sw_en ?G) (sw_step ?G) ?es sw_demo = Some (tr, s)"
    by (auto split: option.splits)
  with run have s: "concat (map (\<lambda>(e, out). sw_accepts ?G e out) tr) = [''a'', ''b'', ''c'']"
    "sw_queue s = [''c'']" "\<not> sw_closed s" by (auto simp only: option.case prod.case not_False_eq_True)
  with sw_fifo [OF sw_demo_reach [OF r]] show ?thesis by metis
qed

text \<open>
  C14: The status ends the stream. Once the status batch has been started it is the last batch of
  the call and the only one with a status; it carries the status the writer was closed with, and
  every message accepted before has been taken by gRPC.
\<close>
theorem sw_status_last:
  assumes "reach sw_start (sw_en G) (sw_step G) tr s" and "sw_status_sent s"
  shows "concat (map (\<lambda>(e, out). sw_accepts G e out) tr) = sw_handed s \<and>
    (\<exists>bs im st. map fst (call_batches (sw_call s)) = bs @ [status_batch st im] \<and> no_status bs \<and>
       sw_close_status s = Some st)"
  using sw_status_after_messages [OF assms(1)] sw.reach_inv [OF assms(1)] assms(2)
  by (auto simp: sw.accepted_def sw_ok_def sw_status_ok_def sw_status_sent_def)

theorem sw_status_last_witness:
  "\<exists>s :: string ServerWriterImpl. sw_handed s = [''a'', ''b''] \<and> sw_close_status s = Some Status_CANCELLED"
proof -
  let ?G = "demo_lib 10"
  let ?es = "[SwAsyncWrite ''a'', SwAsyncWrite ''b'', SwAsyncClose Status_CANCELLED,
              SwCompletion SwWrite True, SwCompletion SwWrite True]"
  have run: "case exec (sw_en ?G) (sw_step ?G) ?es sw_demo of
      None \<Rightarrow> False | Some (tr, s) \<Rightarrow> concat (map (\<lambda>(e, out). sw_accepts ?G e out) tr) = [''a'', ''b''] \<and>
        GRPC_OP_SEND_STATUS_FROM_SERVER \<in> set (concat (map (map op_type \<circ> fst) (call_batches (sw_call s))))
        \<and> sw_close_status s = Some Status_CANCELLED" by code_simp
  then obtain tr s where r: "exec (sw_en ?G) (sw_step ?G) ?es sw_demo = Some (tr, s)"
    by (auto split: option.splits)
  with run have "sw_status_sent s" by (auto simp: sw_status_sent_def no_status_def)
  from sw_status_last [OF sw_demo_reach [OF r] this] run r show ?thesis
    by (intro exI [of _ s]) (simp only: option.case prod.case)
qed

text \<open>
  C15: \<^verbatim>\<open>SyncWrite\<close> returns. When gRPC accepts its batches, as many completed writes as messages are
  queued end the wait. The result tells whether the writer was open; if so, the queue is empty
  and all the messages queued before and this one have been handed to gRPC.
\<close>
theorem sw_sync_write_returns:
  assumes "reach sw_start (sw_en G) (sw_step G) tr s" and "takes_all G"
    and "length (sw_queue s) < length cps"
  shows "\<exists>ok s'. ServerWriterImpl_SyncWrite G cps m s = Some (Done (ok, s')) \<and>
    ok = (\<not> sw_closed s \<and> sw_close_status s = None) \<and>
    (ok \<longrightarrow> sw_queue s' = [] \<and>
       sw_handed s' = sw_handed s @ sw_waiting G s @ [grpc_raw_byte_buffer_create G m])"
proof (cases "sw_closed s \<or> sw_close_status s \<noteq> None")
  case True
  then show ?thesis by (auto simp: ServerWriterImpl_SyncWrite_def ServerWriterImpl_AsyncWrite_def)
next
  case False
  have ok: "sw_ok [] s" by (rule sw.reach_inv [OF assms(1)])
  from AsyncWrite_open [OF ok assms(2)] False obtain s1 where
    s1: "ServerWriterImpl_AsyncWrite G m s = Done (True, s1)" "\<not> sw_closed s1"
    "length (sw_queue s1) \<le> Suc (length (sw_queue s))" by blast
  from AsyncWrite_ok [OF ok, of G m] s1(1) have ok1: "sw_ok [] s1"
    "sw_flow G [grpc_raw_byte_buffer_create G m] s s1" by simp_all
  from s1(3) assms(3) have "length (sw_queue s1) \<le> length cps" by simp
  from sw_wait_returns [OF ok1(1) assms(2) this] obtain s' where
    "sw_wait G cps s1 = Some (Done s')" "sw_queue s' = []" "\<not> sw_closed s'"
    "sw_handed s' = sw_handed s1 @ sw_waiting G s1" using s1(2) by blast
  with s1 ok1(2) False show ?thesis
    by (intro exI [of _ True] exI [of _ s']) (simp add: ServerWriterImpl_SyncWrite_def sw_flow_def)
qed

theorem sw_sync_write_returns_witness:
  "\<exists>s s' :: string ServerWriterImpl. sw_queue s = [''b''] \<and>
     ServerWriterImpl_SyncWrite sync_lib [True, True, True] ''c'' s = Some (Done (True, s')) \<and>
     sw_handed s' = [''a'', ''b'', ''c'']"
proof -
  let ?G = "sync_lib"
  let ?es = "[SwAsyncWrite ''a'', SwAsyncWrite ''b'']"
  have run: "case exec (sw_en ?G) (sw_step ?G) ?es sw_demo of
      None \<Rightarrow> False | Some (tr, s) \<Rightarrow> sw_queue s = [''b''] \<and> \<not> sw_closed s \<and> sw_close_status s = None \<and>
        sw_handed s @ sw_waiting ?G s @ [grpc_raw_byte_buffer_create ?G ''c''] = [''a'', ''b'', ''c'']"
    by code_simp
  then obtain tr s where r: "exec (sw_en ?G) (sw_step ?G) ?es sw_demo = Some (tr, s)"
    by (auto split: option.splits)
  have "takes_all ?G" by (simp add: takes_all_def sync_lib_def)
  moreover have "length (sw_queue s) < length [True, True, True]" using run r by simp
  ultimately show ?thesis
    using sw_sync_write_returns [OF sw_demo_reach [OF r], of "[True, True, True]" "''c''"] run r
    by (simp only: option.case prod.case) metis
qed

text \<open>
  Without the proviso on the queued messages the process dies: when gRPC refuses the next
  queued message after a completed write, \<^verbatim>\<open>SendMsg\<close> has already emptied the queue, and the
  \<^verbatim>\<open>pop\<close> that follows it is applied to an empty \<^verbatim>\<open>std::queue\<close>.
\<close>
theorem sw_refused_queued_message_pops_empty_queue:
  assumes "reach sw_start (sw_en G) (sw_step G) tr s"
    and "SwWrite \<in> pend (sw_call s)" and "\<not> sw_next_taken G s"
  shows "sw_step G (SwCompletion SwWrite success) s = Abort ''pop of an empty queue''"
proof -
  from assms(3) obtain m ms where q: "sw_queue s = m # ms" "\<not> takes G (sw_call s) (sw_batch G m s)"
    by (auto simp: sw_next_taken_def split: list.splits)
  have "\<not> sw_closed s" using sw.reach_inv [OF assms(1)] assms(2) by (simp add: sw_ok_def sw_ctl_def)
  with q show ?thesis
    by (simp add: sw_completion_def ServerWriterImpl_TryToWriteNext_def SendMsg_eq Let_def)
qed

theorem sw_refused_queued_message_pops_empty_queue_witness:
  "\<exists>s :: string ServerWriterImpl. sw_queue s = [''b''] \<and>
     sw_step (demo_lib 1) (SwCompletion SwWrite True) s = Abort ''pop of an empty queue''"
proof -
  let ?G = "demo_lib 1"
  let ?es = "[SwAsyncWrite ''a'', SwAsyncWrite ''b'']"
  have run: "case exec (sw_en ?G) (sw_step ?G) ?es sw_demo of
      None \<Rightarrow> False | Some (tr, s) \<Rightarrow> sw_queue s = [''b''] \<and> pending_tags (sw_call s) = [SwWrite] \<and>
        length (call_batches (sw_call s)) = 1 \<and> \<not> sw_send_init_md s" by code_simp
  then obtain tr s where r: "exec (sw_en ?G) (sw_step ?G) ?es sw_demo = Some (tr, s)"
    by (auto split: option.splits)
  with run have "SwWrite \<in> pend (sw_call s)" "\<not> sw_next_taken ?G s"
    by (simp_all add: pend_def sw_next_taken_def takes_def)
  from sw_refused_queued_message_pops_empty_queue [OF sw_demo_reach [OF r] this] run r show ?thesis
    by (intro exI [of _ s]) simp
qed

end
