(* ===== verification/Server_Reader.thy ===== *)
theory Server_Reader
  imports Machine Completion_Queue
begin

text \<open>
  \<^verbatim>\<open>core/server/server_reader*, impl/cqtag/server_reader_cqtag.h\<close>: the server end of a stream of
  requests. One read is outstanding at a time; its completion calls the handler the
  application provides and starts the next read, until the stream ends or fails.

  The handler is an object of a class derived from \<^verbatim>\<open>ServerReader\<close>. It is the record \<open>R\<close> of
  its three virtual methods on a state of the application's choice. \<open>sr_log\<close> records the
  calls made to it, and \<open>sr_started\<close> that \<^verbatim>\<open>Start\<close> has been called.
\<close>

section \<open>The handler interface\<close>

record 'h ServerReader =
  OnMsgStr :: "string \<Rightarrow> 'h \<Rightarrow> (Status \<times> 'h) outcome"
  OnError :: "Status \<Rightarrow> 'h \<Rightarrow> 'h outcome"
  OnEnd :: "'h \<Rightarrow> 'h outcome"

text \<open>The defaults of the base class.\<close>

definition ServerReader_base :: "'h ServerReader" where
  "ServerReader_base =
     \<lparr>OnMsgStr = (\<lambda>msg_str h. Done (Status_OK, h)), OnError = (\<lambda>status h. Done h), OnEnd = Done\<rparr>"

datatype reader_call = CallOnMsgStr string Status | CallOnError Status | CallOnEnd

record ('buf, 'h) ServerReading =
  sr_call :: "(unit, 'buf) Call"
  sr_handler :: 'h
  sr_started :: bool
  sr_log :: "reader_call list"

type_synonym ('buf, 'h) sr_op = "('buf, 'h) ServerReading \<Rightarrow> ('buf, 'h) ServerReading outcome"

definition call_OnMsgStr ::
  "'h ServerReader \<Rightarrow> string \<Rightarrow> ('buf, 'h) ServerReading \<Rightarrow> (Status \<times> ('buf, 'h) ServerReading) outcome" where
  "call_OnMsgStr R msg s = bind_o (OnMsgStr R msg (sr_handler s)) (\<lambda>(status, h).
     Done (status, s\<lparr>sr_handler := h, sr_log := sr_log s @ [CallOnMsgStr msg status]\<rparr>))"

definition call_OnError :: "'h ServerReader \<Rightarrow> Status \<Rightarrow> ('buf, 'h) sr_op" where
  "call_OnError R status s = bind_o (OnError R status (sr_handler s)) (\<lambda>h.
     Done (s\<lparr>sr_handler := h, sr_log := sr_log s @ [CallOnError status]\<rparr>))"

definition call_OnEnd :: "'h ServerReader \<Rightarrow> ('buf, 'h) sr_op" where
  "call_OnEnd R s = bind_o (OnEnd R (sr_handler s)) (\<lambda>h.
     Done (s\<lparr>sr_handler := h, sr_log := sr_log s @ [CallOnEnd]\<rparr>))"

section \<open>Starting and completing reads\<close>

definition ServerReaderCqTag_EndOnError :: "'h ServerReader \<Rightarrow> Status \<Rightarrow> ('buf, 'h) sr_op" where
  "ServerReaderCqTag_EndOnError R status s =
     assert_o (\<not> status_ok status) ''!status.ok()''
       (bind_o (call_OnError R status s) (call_OnEnd R))"

definition ServerReader_Start ::
  "'buf grpc_lib \<Rightarrow> 'h ServerReader \<Rightarrow> (unit, 'buf) Call option \<Rightarrow> ('buf, 'h) sr_op" where
  "ServerReader_Start G R call_sptr s =
     (case call_sptr of
        None \<Rightarrow> Abort ''call_sptr''
      | Some c \<Rightarrow>
          bind_o (ServerReaderCqTag_Start G () (new_tag () c)) (\<lambda>(started, c1).
            (let s1 = s\<lparr>sr_started := True\<rparr>
             in if started then Done (s1\<lparr>sr_call := c1\<rparr>)
                else bind_o (call_OnError R (Status_InternalError ''Failed to init client streaming.'')
                               (s1\<lparr>sr_call := delete_tag () c1\<rparr>))
                       (call_OnEnd R))))"

text \<open>Starting the read that follows a message the handler has accepted.\<close>

definition ServerReaderCqTag_ReadNext :: "'buf grpc_lib \<Rightarrow> 'h ServerReader \<Rightarrow> ('buf, 'h) sr_op" where
  "ServerReaderCqTag_ReadNext G R s =
     bind_o (ServerReaderCqTag_Start G () (new_tag () (sr_call s))) (\<lambda>(started, c).
       if started then Done (s\<lparr>sr_call := c\<rparr>)
       else ServerReaderCqTag_EndOnError R
              (Status_InternalError ''Failed to read client-side streaming.'')
              (s\<lparr>sr_call := delete_tag () c\<rparr>))"

definition ServerReaderCqTag_DoComplete ::
  "'buf grpc_lib \<Rightarrow> 'h ServerReader \<Rightarrow> unit \<Rightarrow> 'buf completion \<Rightarrow> ('buf, 'h) sr_op" where
  "ServerReaderCqTag_DoComplete G R tag cp s =
     (let cod = fill_recv_msg cp CodRecvMsg_new
      in if \<not> cp_success cp
         then ServerReaderCqTag_EndOnError R (Status_InternalError ''ServerReaderCqTag failed.'') s
         else if \<not> HasGotMsg cod then call_OnEnd R s
         else bind_o (GetResultMsg G cod '''') (\<lambda>(status, msg).
                if \<not> status_ok status then ServerReaderCqTag_EndOnError R status s
                else bind_o (call_OnMsgStr R msg s) (\<lambda>(status, s1).
                       if \<not> status_ok status then ServerReaderCqTag_EndOnError R status s1
                       else ServerReaderCqTag_ReadNext G R s1)))"

definition sr_pop :: "('buf, 'h) ServerReading \<Rightarrow> ('buf, 'h) ServerReading" where
  "sr_pop s = s\<lparr>sr_call := pop_pending () (sr_call s)\<rparr>"

definition sr_delete :: "unit \<Rightarrow> ('buf, 'h) ServerReading \<Rightarrow> ('buf, 'h) ServerReading" where
  "sr_delete tag s = s\<lparr>sr_call := delete_tag tag (sr_call s)\<rparr>"

section \<open>The machine\<close>

datatype 'buf sr_event = SrStart | SrCompletion "'buf completion"

fun sr_en :: "'buf sr_event \<Rightarrow> ('buf, 'h) ServerReading \<Rightarrow> bool" where
  "sr_en SrStart s \<longleftrightarrow> \<not> sr_started s"
| "sr_en (SrCompletion cp) s \<longleftrightarrow> () \<in> pend (sr_call s)"

fun sr_step ::
  "'buf grpc_lib \<Rightarrow> 'h ServerReader \<Rightarrow> 'buf sr_event \<Rightarrow> ('buf, 'h) ServerReading \<Rightarrow>
     (bool \<times> ('buf, 'h) ServerReading) outcome" where
  "sr_step G R SrStart s =
     bind_o (ServerReader_Start G R (Some (sr_call s)) s) (\<lambda>s'. Done (True, s'))"
| "sr_step G R (SrCompletion cp) s =
     handle_event (ServerReaderCqTag_DoComplete G R) sr_delete (GRPC_OP_COMPLETE (Some ()) cp) (sr_pop s)"

definition sr_start :: "('h \<Rightarrow> bool) \<Rightarrow> ('buf, 'h) ServerReading \<Rightarrow> bool" where
  "sr_start hinv s \<longleftrightarrow> sr_call s = Call_fresh \<and> \<not> sr_started s \<and> sr_log s = [] \<and> hinv (sr_handler s)"

section \<open>The protocol of the handler's calls\<close>

text \<open>
  What the handler may rely on: messages it accepts, then one ending. The stream ends normally,
  or on an error, or because the handler refused the last message.
\<close>

definition reading :: "reader_call list \<Rightarrow> bool" where
  "reading log \<longleftrightarrow> list_all (\<lambda>c. case c of CallOnMsgStr msg status \<Rightarrow> status_ok status | _ \<Rightarrow> False) log"

definition ending :: "reader_call list \<Rightarrow> bool" where
  "ending e \<longleftrightarrow> e = [CallOnEnd] \<or>
     (\<exists>status. \<not> status_ok status \<and>
        (e = [CallOnError status, CallOnEnd] \<or>
         (\<exists>msg. e = [CallOnMsgStr msg status, CallOnError status, CallOnEnd])))"

definition ended :: "reader_call list \<Rightarrow> bool" where
  "ended log \<longleftrightarrow> (\<exists>ms e. log = ms @ e \<and> reading ms \<and> ending e)"

fun call_msg :: "reader_call \<Rightarrow> string list" where
  "call_msg (CallOnMsgStr msg status) = [msg]"
| "call_msg c = []"

definition log_msgs :: "reader_call list \<Rightarrow> string list" where
  "log_msgs log = concat (map call_msg log)"

text \<open>The message a completed read carries.\<close>

fun sr_received :: "'buf grpc_lib \<Rightarrow> 'buf sr_event \<Rightarrow> string list" where
  "sr_received G SrStart = []"
| "sr_received G (SrCompletion cp) =
     (if cp_success cp
      then (case cp_recv_buf cp of None \<Rightarrow> [] | Some buf \<Rightarrow> opt_list (grpc_byte_buffer_reader_readall G buf))
      else [])"

lemma reading_append [simp]: "reading (xs @ ys) \<longleftrightarrow> reading xs \<and> reading ys"
  by (simp add: reading_def)

lemma reading_simps [simp]: "reading []" "reading [CallOnMsgStr msg status] \<longleftrightarrow> status_ok status"
  by (simp_all add: reading_def)

lemma log_msgs_simps [simp]:
  "log_msgs [] = []" "log_msgs (c # log) = call_msg c @ log_msgs log"
  "log_msgs (xs @ ys) = log_msgs xs @ log_msgs ys"
  by (simp_all add: log_msgs_def)

lemma endedI: "reading ms \<Longrightarrow> ending e \<Longrightarrow> ended (ms @ e)"
  by (auto simp: ended_def)

lemma ending_simps [simp]:
  "ending [CallOnEnd]"
  "\<not> status_ok status \<Longrightarrow> ending [CallOnError status, CallOnEnd]"
  "\<not> status_ok status \<Longrightarrow> ending [CallOnMsgStr msg status, CallOnError status, CallOnEnd]"
  by (auto simp: ending_def)


section \<open>The contract of a handler, and the reader verified against it\<close>

locale reader_handler =
  fixes R :: "'h ServerReader"
    and hinv :: "'h \<Rightarrow> bool"
  assumes OnMsgStr_total: "hinv h \<Longrightarrow> holds (\<lambda>(status, h'). hinv h') (OnMsgStr R msg h)"
    and OnError_total: "hinv h \<Longrightarrow> \<not> status_ok status \<Longrightarrow> holds hinv (OnError R status h)"
    and OnEnd_total: "hinv h \<Longrightarrow> holds hinv (OnEnd R h)"
begin

definition sr_ok :: "unit list \<Rightarrow> ('buf, 'h) ServerReading \<Rightarrow> bool" where
  "sr_ok extra s \<longleftrightarrow> tags_ok (\<lambda>_. [GRPC_OP_RECV_MESSAGE]) extra (sr_call s) \<and> hinv (sr_handler s) \<and>
     (if \<not> sr_started s then pend (sr_call s) = {} \<and> sr_log s = []
      else if pend (sr_call s) = {} then ended (sr_log s) else reading (sr_log s))"

text \<open>A state between a completion and the next read: nothing is pending, the log is one of reading.\<close>

definition sr_between :: "unit list \<Rightarrow> ('buf, 'h) ServerReading \<Rightarrow> bool" where
  "sr_between extra s \<longleftrightarrow> tags_ok (\<lambda>_. [GRPC_OP_RECV_MESSAGE]) extra (sr_call s) \<and> hinv (sr_handler s) \<and>
     sr_started s \<and> pend (sr_call s) = {}"

lemma call_OnError_holds:
  assumes "sr_between extra s" "\<not> status_ok status"
  shows "holds (\<lambda>s'. sr_between extra s' \<and> sr_log s' = sr_log s @ [CallOnError status]) (call_OnError R status s)"
  using OnError_total [OF _ assms(2), of "sr_handler s"] assms(1)
  by (auto simp: call_OnError_def sr_between_def elim!: holds_mono)

lemma call_OnEnd_holds:
  assumes "sr_between extra s"
  shows "holds (\<lambda>s'. sr_between extra s' \<and> sr_log s' = sr_log s @ [CallOnEnd]) (call_OnEnd R s)"
  using OnEnd_total [of "sr_handler s"] assms
  by (auto simp: call_OnEnd_def sr_between_def elim!: holds_mono)

lemma call_OnMsgStr_holds:
  assumes "sr_between extra s"
  shows "holds (\<lambda>(status, s'). sr_between extra s' \<and> sr_log s' = sr_log s @ [CallOnMsgStr msg status])
           (call_OnMsgStr R msg s)"
  using OnMsgStr_total [of "sr_handler s" msg] assms
  by (auto simp: call_OnMsgStr_def sr_between_def elim!: holds_mono)

lemma error_then_end:
  assumes "sr_between extra s" "\<not> status_ok status"
  shows "holds (\<lambda>s'. sr_between extra s' \<and> sr_log s' = sr_log s @ [CallOnError status, CallOnEnd])
           (bind_o (call_OnError R status s) (call_OnEnd R))"
  using call_OnError_holds [OF assms]
  by (auto elim!: holds_mono intro: holds_mono [OF call_OnEnd_holds])

lemma EndOnError_holds:
  assumes "sr_between extra s" "\<not> status_ok status"
  shows "holds (\<lambda>s'. sr_between extra s' \<and> sr_log s' = sr_log s @ [CallOnError status, CallOnEnd])
           (ServerReaderCqTag_EndOnError R status s)"
  using error_then_end [OF assms] assms(2) by (simp add: ServerReaderCqTag_EndOnError_def)

lemma sr_okI: "sr_between extra s \<Longrightarrow> ended (sr_log s) \<Longrightarrow> sr_ok extra s"
  by (simp add: sr_between_def sr_ok_def)

lemma ReadNext_holds:
  assumes "sr_between extra s" "reading (sr_log s)"
  shows "holds (\<lambda>s'. sr_ok extra s' \<and> log_msgs (sr_log s') = log_msgs (sr_log s))
           (ServerReaderCqTag_ReadNext G R s)"
proof (cases "takes G (sr_call s) [RecvMessage]")
  case True
  with assms show ?thesis
    by (auto simp: ServerReaderCqTag_ReadNext_def tag_batches submit_new_tag sr_between_def sr_ok_def
        intro!: tags_ok_launched)
next
  case False
  let ?s = "s\<lparr>sr_call := launched G [RecvMessage] () (sr_call s)\<rparr>"
  from False assms(1) have "sr_between extra ?s"
    by (auto simp: sr_between_def intro!: tags_ok_launched)
  from EndOnError_holds [OF this, of "Status_InternalError ''Failed to read client-side streaming.''"]
    False assms(2) show ?thesis
    by (auto simp: ServerReaderCqTag_ReadNext_def tag_batches submit_new_tag
        elim!: holds_mono intro!: sr_okI endedI)
qed

lemma Start_holds:
  assumes "sr_ok [] s" "\<not> sr_started s"
  shows "holds (\<lambda>s'. sr_ok [] s' \<and> log_msgs (sr_log s') = log_msgs (sr_log s))
           (ServerReader_Start G R (Some (sr_call s)) s)"
proof (cases "takes G (sr_call s) [RecvMessage]")
  case True
  with assms show ?thesis
    by (auto simp: ServerReader_Start_def tag_batches submit_new_tag sr_ok_def Let_def
        intro!: tags_ok_launched)
next
  case False
  let ?s = "s\<lparr>sr_started := True, sr_call := launched G [RecvMessage] () (sr_call s)\<rparr>"
  from False assms have "sr_between [] ?s"
    by (auto simp: sr_between_def sr_ok_def intro!: tags_ok_launched)
  note ends = error_then_end [OF this, of "Status_InternalError ''Failed to init client streaming.''"]
  have "ended [CallOnError (Status_InternalError ''Failed to init client streaming.''), CallOnEnd]"
    using endedI [of "[]"] by simp
  moreover have "sr_log s = []" using assms by (simp add: sr_ok_def)
  ultimately show ?thesis using ends False
    by (auto simp: ServerReader_Start_def tag_batches submit_new_tag Let_def elim!: holds_mono intro!: sr_okI)
qed

lemma DoComplete_holds:
  assumes "sr_between [()] s" "reading (sr_log s)"
  shows "holds (\<lambda>s'. sr_ok [()] s' \<and>
             log_msgs (sr_log s') = log_msgs (sr_log s) @ sr_received G (SrCompletion cp))
           (ServerReaderCqTag_DoComplete G R () cp s)"
proof (cases "cp_success cp \<and> cp_recv_buf cp \<noteq> None")
  case False
  with EndOnError_holds [OF assms(1), of "Status_InternalError ''ServerReaderCqTag failed.''"]
    call_OnEnd_holds [OF assms(1)] assms(2)
  show ?thesis
    by (auto simp: ServerReaderCqTag_DoComplete_def fill_recv_msg_def HasGotMsg_def Let_def
        elim!: holds_mono intro!: sr_okI endedI)
next
  case True
  then obtain buf where buf: "cp_success cp" "cp_recv_buf cp = Some buf" by auto
  show ?thesis
  proof (cases "grpc_byte_buffer_reader_readall G buf")
    case None
    with buf EndOnError_holds [OF assms(1), of "Status_InternalError ''Failed to read recv byte buffer.''"]
      assms(2) show ?thesis
      by (auto simp: ServerReaderCqTag_DoComplete_def fill_recv_msg_def HasGotMsg_def Let_def
          GetResultMsg_eq read_buf_def elim!: holds_mono intro!: sr_okI endedI)
  next
    case (Some msg)
    have after: "holds (\<lambda>s'. sr_ok [()] s' \<and> log_msgs (sr_log s') = log_msgs (sr_log s) @ [msg])
        (if \<not> status_ok status then ServerReaderCqTag_EndOnError R status s1
         else ServerReaderCqTag_ReadNext G R s1)"
      if s1: "sr_between [()] s1" "sr_log s1 = sr_log s @ [CallOnMsgStr msg status]" for status s1
    proof (cases "status_ok status")
      case True
      with ReadNext_holds [OF s1(1), of G] s1 assms(2) show ?thesis by simp
    next
      case bad: False
      with assms(2) have "ended (sr_log s @ [CallOnMsgStr msg status, CallOnError status, CallOnEnd])"
        by (intro endedI) auto
      with EndOnError_holds [OF s1(1) bad] s1(2) bad show ?thesis
        by (auto elim!: holds_mono intro!: sr_okI)
    qed
    from Some buf call_OnMsgStr_holds [OF assms(1), of msg] show ?thesis
      by (auto simp: ServerReaderCqTag_DoComplete_def fill_recv_msg_def HasGotMsg_def Let_def
          GetResultMsg_eq read_buf_def elim!: holds_mono intro!: after)
  qed
qed

lemma sr_ok_delete: "sr_ok [t] s \<Longrightarrow> sr_ok [] (sr_delete t s)"
  by (simp add: sr_ok_def sr_delete_def tags_ok_delete)

lemma sr_delete_log [simp]: "sr_log (sr_delete t s) = sr_log s"
  by (simp add: sr_delete_def)

lemma sr_step_holds:
  assumes "sr_ok [] s" "sr_en e s"
  shows "holds (\<lambda>(out, s'). sr_ok [] s' \<and> log_msgs (sr_log s') = log_msgs (sr_log s) @ sr_received G e)
           (sr_step G R e s)"
proof (cases e)
  case SrStart
  with assms Start_holds [OF assms(1), of G] show ?thesis by (auto elim!: holds_mono)
next
  case (SrCompletion cp)
  with assms have s: "() \<in> pend (sr_call s)" "tags_ok (\<lambda>_. [GRPC_OP_RECV_MESSAGE]) [] (sr_call s)"
    "hinv (sr_handler s)" "sr_started s" "reading (sr_log s)"
    by (auto simp: sr_ok_def split: if_splits)
  then have "sr_between [()] (sr_pop s)"
    by (auto simp: sr_between_def sr_pop_def pend_pop intro!: tags_ok_pop)
  moreover have "sr_log (sr_pop s) = sr_log s" by (simp add: sr_pop_def)
  ultimately show ?thesis
    using SrCompletion DoComplete_holds [of "sr_pop s" G cp] s(5)
    by (auto elim!: holds_mono intro!: sr_ok_delete)
qed

sublocale reading: safe_machine "sr_start hinv :: ('buf, 'h) ServerReading \<Rightarrow> bool" sr_en "sr_step G R"
  "sr_ok []" for G :: "'buf grpc_lib"
proof (unfold_locales, goal_cases)
  case (1 s)
  then show ?case by (simp add: sr_start_def sr_ok_def)
next
  case (2 s e)
  then show ?case by (auto elim!: holds_mono [OF sr_step_holds])
qed

lemma log_received:
  assumes "reach (sr_start hinv) sr_en (sr_step G R) tr s"
  shows "log_msgs (sr_log s) = concat (map (\<lambda>(e, out). sr_received G e) tr)"
  using assms
proof (rule reading.reach_induct_inv, goal_cases)
  case (1 s)
  then show ?case by (simp add: sr_start_def)
next
  case (2 tr s e out s')
  with sr_step_holds [OF 2(1) 2(4), of G] show ?case by simp
qed

lemma protocol:
  assumes "reach (sr_start hinv) sr_en (sr_step G R) tr s"
  shows "(sr_started s \<longrightarrow> (if pend (sr_call s) = {} then ended (sr_log s) else reading (sr_log s))) \<and>
    distinct (pending_tags (sr_call s)) \<and>
    mset (call_heap (sr_call s)) = mset (pending_tags (sr_call s)) \<and>
    (\<forall>e. sr_en e s \<longrightarrow> (\<exists>out s'. sr_step G R e s = Done (out, s')))"
proof -
  have "\<forall>e. sr_en e s \<longrightarrow> (\<exists>out s'. sr_step G R e s = Done (out, s'))"
    using reading.reach_no_abort [OF assms] by blast
  moreover have "sr_ok [] s" by (rule reading.reach_inv [OF assms])
  ultimately show ?thesis by (simp add: sr_ok_def tags_ok_def)
qed

end


text \<open>The handler every other one derives from keeps the contract.\<close>

interpretation base_reader: reader_handler ServerReader_base "\<lambda>_. True"
  by unfold_locales (simp_all add: ServerReader_base_def)

section \<open>Runs to apply the properties to\<close>

definition sr_demo :: "(string, unit) ServerReading" where
  "sr_demo = \<lparr>sr_call = Call_fresh, sr_handler = (), sr_started = False, sr_log = []\<rparr>"

lemma sr_demo_start [simp]: "sr_start (\<lambda>_. True) sr_demo"
  by (simp add: sr_start_def sr_demo_def)

lemmas sr_demo_reach = exec_reach [where start = "sr_start (\<lambda>_. True)" and s = sr_demo, OF sr_demo_start]

definition sr_demo_msg :: "string \<Rightarrow> string sr_event" where
  "sr_demo_msg m = SrCompletion (demo_done\<lparr>cp_recv_buf := Some m\<rparr>)"

definition sr_demo_events :: "string sr_event list" where
  "sr_demo_events = [SrStart, sr_demo_msg ''a'', sr_demo_msg ''b'', SrCompletion (demo_done\<lparr>cp_recv_buf := None\<rparr>)]"

section \<open>Properties\<close>

text \<open>
  C16: A handler of a stream of requests is called by the rules, whatever gRPC delivers and
  refuses: first messages it accepts, then exactly one ending, which is \<^verbatim>\<open>OnEnd\<close> alone or
  \<^verbatim>\<open>OnError\<close> with an error followed by \<^verbatim>\<open>OnEnd\<close>. The ending is there as soon as no read is
  outstanding. No assertion fails and at most one read is outstanding at any time.
\<close>
theorem sr_protocol:
  assumes "reader_handler R hinv" and "reach (sr_start hinv) sr_en (sr_step G R) tr s"
  shows "(sr_started s \<longrightarrow> (if pend (sr_call s) = {} then ended (sr_log s) else reading (sr_log s))) \<and>
    distinct (pending_tags (sr_call s)) \<and>
    mset (call_heap (sr_call s)) = mset (pending_tags (sr_call s)) \<and>
    (\<forall>e. sr_en e s \<longrightarrow> (\<exists>out s'. sr_step G R e s = Done (out, s')))"
  by (rule reader_handler.protocol [OF assms])

theorem sr_protocol_witness:
  "\<exists>s :: (string, unit) ServerReading.
     sr_log s = [CallOnMsgStr ''a'' Status_OK, CallOnMsgStr ''b'' Status_OK, CallOnEnd] \<and> ended (sr_log s)"
proof -
  let ?G = "demo_lib 10"
  have run: "case exec sr_en (sr_step ?G ServerReader_base) sr_demo_events sr_demo of
      None \<Rightarrow> False | Some (tr, s) \<Rightarrow> sr_log s = [CallOnMsgStr ''a'' Status_OK, CallOnMsgStr ''b'' Status_OK, CallOnEnd]
        \<and> sr_started s \<and> call_pending (sr_call s) = []" by code_simp
  then obtain tr s where r: "exec sr_en (sr_step ?G ServerReader_base) sr_demo_events sr_demo = Some (tr, s)"
    by (auto split: option.splits)
  with run have s: "sr_log s = [CallOnMsgStr ''a'' Status_OK, CallOnMsgStr ''b'' Status_OK, CallOnEnd]"
    "sr_started s" "pend (sr_call s) = {}" by (simp_all only: option.case prod.case pend_empty)
  from sr_protocol [OF base_reader.reader_handler_axioms sr_demo_reach [OF r]] s show ?thesis by metis
qed

text \<open>
  C17: No message of the stream is lost, repeated or reordered on its way to the handler: the
  messages \<^verbatim>\<open>OnMsgStr\<close> was called with are those of the completed reads, in their order.
\<close>
theorem sr_delivery:
  assumes "reader_handler R hinv" and "reach (sr_start hinv) sr_en (sr_step G R) tr s"
  shows "log_msgs (sr_log s) = concat (map (\<lambda>(e, out). sr_received G e) tr)"
  by (rule reader_handler.log_received [OF assms])

theorem sr_delivery_witness:
  "\<exists>s :: (string, unit) ServerReading. log_msgs (sr_log s) = [''a'', ''b'']"
proof -
  let ?G = "demo_lib 10"
  have run: "case exec sr_en (sr_step ?G ServerReader_base) sr_demo_events sr_demo of
      None \<Rightarrow> False | Some (tr, s) \<Rightarrow> concat (map (\<lambda>(e, out). sr_received ?G e) tr) = [''a'', ''b'']"
    by code_simp
  then obtain tr s where r: "exec sr_en (sr_step ?G ServerReader_base) sr_demo_events sr_demo = Some (tr, s)"
    by (auto split: option.splits)
  from sr_delivery [OF base_reader.reader_handler_axioms sr_demo_reach [OF r]] run r show ?thesis
    by (intro exI [of _ s]) (simp only: option.case prod.case)
qed

end
