(* ===== verification/Server_Replier.thy ===== *)
theory Server_Replier
  imports Machine Completion_Queue
begin

text \<open>
  \<^verbatim>\<open>core/server/server_replier*, impl/server_replier_impl.h, impl/cqtag/server_replier_cqtag.h\<close>:
  the single reply of a call without a response stream. \<^verbatim>\<open>ReplyStr\<close> and \<^verbatim>\<open>ReplyError\<close> first
  look at the atomic flag \<^verbatim>\<open>replied_\<close>, then set it, then start the batch. They are modelled
  twice: as a whole, for calls that do not overlap, and as the steps of threads that interleave
  at each access of the flag.
\<close>

section \<open>Replying, one call at a time\<close>

record 'buf ServerReplierImpl =
  rp_call :: "(unit, 'buf) Call"
  rp_send_init_md :: bool
  rp_replied :: bool

definition ServerReplierImpl_new :: "(unit, 'buf) Call option \<Rightarrow> 'buf ServerReplierImpl outcome" where
  "ServerReplierImpl_new call_sptr =
     (case call_sptr of
        None \<Rightarrow> Abort ''call_sptr''
      | Some c \<Rightarrow> Done \<lparr>rp_call = c, rp_send_init_md = True, rp_replied = False\<rparr>)"

definition ServerReplier_new :: "(unit, 'buf) Call option \<Rightarrow> 'buf ServerReplierImpl outcome" where
  "ServerReplier_new call_sptr =
     bind_o (ServerReplierImpl_new call_sptr) (\<lambda>impl. assert_o (call_sptr \<noteq> None) ''call_sptr'' (Done impl))"

definition delete_if_refused ::
  "bool \<times> (unit, 'buf) Call \<Rightarrow> 'buf ServerReplierImpl \<Rightarrow> 'buf ServerReplierImpl outcome" where
  "delete_if_refused r s = (case r of (started, c) \<Rightarrow>
     Done (s\<lparr>rp_call := (if \<not> started then delete_tag () c else c)\<rparr>))"

definition ServerReplierImpl_ReplyStr ::
  "'buf grpc_lib \<Rightarrow> string \<Rightarrow> 'buf ServerReplierImpl \<Rightarrow> 'buf ServerReplierImpl outcome" where
  "ServerReplierImpl_ReplyStr G response s =
     (if rp_replied s then Done s
      else
        (let s1 = s\<lparr>rp_replied := True\<rparr>
         in bind_o (ServerReplierCqTag_StartReply G (rp_send_init_md s1) response ()
                      (new_tag () (rp_call s1)))
              (\<lambda>r. delete_if_refused r s1)))"

definition ServerReplierImpl_ReplyError ::
  "'buf grpc_lib \<Rightarrow> Status \<Rightarrow> 'buf ServerReplierImpl \<Rightarrow> 'buf ServerReplierImpl outcome" where
  "ServerReplierImpl_ReplyError G status s =
     (if rp_replied s then Done s
      else
        (let s1 = s\<lparr>rp_replied := True\<rparr>
         in bind_o (ServerReplierCqTag_StartReplyError G (rp_send_init_md s1) status ()
                      (new_tag () (rp_call s1)))
              (\<lambda>r. delete_if_refused r s1)))"

text \<open>The copyable handle forwards.\<close>

definition ServerReplier_ReplyStr ::
  "'buf grpc_lib \<Rightarrow> string \<Rightarrow> 'buf ServerReplierImpl \<Rightarrow> 'buf ServerReplierImpl outcome" where
  "ServerReplier_ReplyStr G response impl = ServerReplierImpl_ReplyStr G response impl"

definition ServerReplier_ReplyError ::
  "'buf grpc_lib \<Rightarrow> Status \<Rightarrow> 'buf ServerReplierImpl \<Rightarrow> 'buf ServerReplierImpl outcome" where
  "ServerReplier_ReplyError G status impl = ServerReplierImpl_ReplyError G status impl"

datatype reply = ReplyMsg string | ReplyErr Status

fun send_reply :: "'buf grpc_lib \<Rightarrow> reply \<Rightarrow> 'buf ServerReplierImpl \<Rightarrow> 'buf ServerReplierImpl outcome" where
  "send_reply G (ReplyMsg m) s = ServerReplier_ReplyStr G m s"
| "send_reply G (ReplyErr st) s = ServerReplier_ReplyError G st s"

section \<open>Replying from several threads\<close>

text \<open>
  A thread in \<^verbatim>\<open>ReplyStr\<close> or \<^verbatim>\<open>ReplyError\<close> is about to load \<^verbatim>\<open>replied_\<close>, about to store it,
  or about to start its batch. \<^verbatim>\<open>StartBatch\<close> holds the mutex of the call.
\<close>

datatype rp_pc = RpLoad reply | RpStore reply | RpStart reply | RpReturned

record 'buf rp_threads =
  rp_impl :: "'buf ServerReplierImpl"
  rp_pcs :: "rp_pc list"

fun start_reply :: "'buf grpc_lib \<Rightarrow> reply \<Rightarrow> 'buf ServerReplierImpl \<Rightarrow> 'buf ServerReplierImpl outcome" where
  "start_reply G (ReplyMsg m) s =
     bind_o (ServerReplierCqTag_StartReply G (rp_send_init_md s) m () (new_tag () (rp_call s)))
       (\<lambda>r. delete_if_refused r s)"
| "start_reply G (ReplyErr st) s =
     bind_o (ServerReplierCqTag_StartReplyError G (rp_send_init_md s) st () (new_tag () (rp_call s)))
       (\<lambda>r. delete_if_refused r s)"

fun rp_access ::
  "'buf grpc_lib \<Rightarrow> rp_pc \<Rightarrow> 'buf ServerReplierImpl \<Rightarrow> (rp_pc \<times> 'buf ServerReplierImpl) outcome" where
  "rp_access G (RpLoad r) s = Done (if rp_replied s then RpReturned else RpStore r, s)"
| "rp_access G (RpStore r) s = Done (RpStart r, s\<lparr>rp_replied := True\<rparr>)"
| "rp_access G (RpStart r) s = bind_o (start_reply G r s) (\<lambda>s'. Done (RpReturned, s'))"
| "rp_access G RpReturned s = Done (RpReturned, s)"

fun rp_thread_step :: "'buf grpc_lib \<Rightarrow> nat \<Rightarrow> 'buf rp_threads \<Rightarrow> 'buf rp_threads outcome" where
  "rp_thread_step G i w =
     bind_o (rp_access G (rp_pcs w ! i) (rp_impl w)) (\<lambda>(pc, s).
       Done (w\<lparr>rp_impl := s, rp_pcs := (rp_pcs w)[i := pc]\<rparr>))"

fun rp_schedule :: "'buf grpc_lib \<Rightarrow> nat list \<Rightarrow> 'buf rp_threads \<Rightarrow> 'buf rp_threads outcome" where
  "rp_schedule G [] w = Done w"
| "rp_schedule G (i # is) w = bind_o (rp_thread_step G i w) (rp_schedule G is)"

text \<open>The batch a reply starts.\<close>

fun reply_batch :: "'buf grpc_lib \<Rightarrow> bool \<Rightarrow> reply \<Rightarrow> 'buf grpc_op list" where
  "reply_batch G im (ReplyMsg m) =
     init_md_ops im @ [SendMessage (grpc_raw_byte_buffer_create G m), SendStatusFromServer [] GRPC_STATUS_OK '''']"
| "reply_batch G im (ReplyErr st) =
     init_md_ops im @ [SendStatusFromServer [] (GetCode st) (c_str (GetDetails st))]"

lemma start_reply_eq:
  "start_reply G r s =
     Done (s\<lparr>rp_call := launched G (reply_batch G (rp_send_init_md s) r) () (rp_call s)\<rparr>)"
  by (cases r) (simp_all add: tag_batches submit_new_tag delete_if_refused_def)

lemma send_reply_eq:
  "send_reply G r s =
     (if rp_replied s then Done s
      else Done (s\<lparr>rp_replied := True,
                   rp_call := launched G (reply_batch G (rp_send_init_md s) r) () (rp_call s)\<rparr>))"
  by (cases r)
    (simp_all add: ServerReplier_ReplyStr_def ServerReplier_ReplyError_def ServerReplierImpl_ReplyStr_def
      ServerReplierImpl_ReplyError_def tag_batches submit_new_tag delete_if_refused_def Let_def)

text \<open>Replies made one after the other.\<close>

fun send_replies :: "'buf grpc_lib \<Rightarrow> reply list \<Rightarrow> 'buf ServerReplierImpl \<Rightarrow> 'buf ServerReplierImpl outcome" where
  "send_replies G [] s = Done s"
| "send_replies G (r # rs) s = bind_o (send_reply G r s) (send_replies G rs)"

lemma send_replies_replied: "rp_replied s \<Longrightarrow> send_replies G rs s = Done s"
  by (induction rs) (simp_all add: send_reply_eq)

section \<open>Properties\<close>

text \<open>
  Only the first reply counts. Of any sequence of replies made one after the other on a new
  call, exactly the first starts a batch, which carries the reply with the status that ends the
  call; the others change nothing. A refused batch leaves no tag behind.
\<close>
theorem rp_first_reply_only:
  assumes "ServerReplier_new (Some Call_fresh) = Done s"
  shows "\<exists>s'. send_replies G (r # rs) s = Done s' \<and>
    map fst (call_batches (rp_call s')) = [reply_batch G True r] \<and>
    mset (call_heap (rp_call s')) = mset (pending_tags (rp_call s'))"
  using assms
  by (auto simp: ServerReplier_new_def ServerReplierImpl_new_def send_reply_eq send_replies_replied)

theorem rp_first_reply_only_witness:
  "\<exists>s' :: string ServerReplierImpl. map fst (call_batches (rp_call s')) =
     [[SendInitialMetadata [], SendMessage ''pong'', SendStatusFromServer [] GRPC_STATUS_OK '''']]"
proof -
  let ?s = "\<lparr>rp_call = Call_fresh, rp_send_init_md = True, rp_replied = False\<rparr> :: string ServerReplierImpl"
  have "ServerReplier_new (Some Call_fresh) = Done ?s"
    by (simp add: ServerReplier_new_def ServerReplierImpl_new_def)
  from rp_first_reply_only [OF this, of "demo_lib 5" "ReplyMsg ''pong''" "[ReplyErr Status_CANCELLED]"]
  obtain s' :: "string ServerReplierImpl" where
    "map fst (call_batches (rp_call s')) = [reply_batch (demo_lib 5) True (ReplyMsg ''pong'')]"
    by (elim exE conjE) (erule that)
  moreover have "reply_batch (demo_lib 5) True (ReplyMsg ''pong'') =
      [SendInitialMetadata [], SendMessage ''pong'', SendStatusFromServer [] GRPC_STATUS_OK '''']"
    by (simp add: init_md_ops_def)
  ultimately show ?thesis by metis
qed

text \<open>
  The steps of one thread, taken without interruption, are the function: this links the
  interleaved model to the code as it is written.
\<close>
theorem rp_uninterrupted_thread:
  assumes "i < length (rp_pcs w)" and "rp_pcs w ! i = RpLoad r"
  shows "rp_schedule G [i, i, i] w =
    bind_o (send_reply G r (rp_impl w)) (\<lambda>s. Done (w\<lparr>rp_impl := s, rp_pcs := (rp_pcs w)[i := RpReturned]\<rparr>))"
  using assms by (simp add: send_reply_eq start_reply_eq)

definition rp_demo :: "string rp_threads" where
  "rp_demo = \<lparr>rp_impl = \<lparr>rp_call = Call_fresh, rp_send_init_md = True, rp_replied = False\<rparr>,
     rp_pcs = [RpLoad (ReplyMsg ''pong''), RpLoad (ReplyErr Status_CANCELLED)]\<rparr>"

theorem rp_uninterrupted_thread_witness:
  "\<exists>s. rp_schedule (demo_lib 5) [1, 1, 1] rp_demo =
     Done (rp_demo\<lparr>rp_impl := s, rp_pcs := [RpLoad (ReplyMsg ''pong''), RpReturned]\<rparr>)"
proof -
  have "rp_pcs rp_demo ! 1 = RpLoad (ReplyErr Status_CANCELLED)" "1 < length (rp_pcs rp_demo)"
    "(rp_pcs rp_demo)[1 := RpReturned] = [RpLoad (ReplyMsg ''pong''), RpReturned]"
    "\<not> rp_replied (rp_impl rp_demo)"
    by (simp_all add: rp_demo_def)
  with rp_uninterrupted_thread [of 1 rp_demo "ReplyErr Status_CANCELLED" "demo_lib 5"]
  show ?thesis by (simp add: send_reply_eq del: rp_schedule.simps) auto
qed

text \<open>
  The flag does not protect against two threads: the load and the store are two accesses, and
  when both threads load before either stores, both start their batch, each with a status
  and with the initial metadata. That only one reply reaches the client is left to gRPC.
\<close>
theorem rp_two_threads_both_reply:
  assumes "i < length (rp_pcs w)" "j < length (rp_pcs w)" "i \<noteq> j" "\<not> rp_replied (rp_impl w)"
    and "rp_pcs w ! i = RpLoad r1" "rp_pcs w ! j = RpLoad r2"
  shows "\<exists>w'. rp_schedule G [i, j, i, j, i, j] w = Done w' \<and>
    map fst (call_batches (rp_call (rp_impl w'))) = map fst (call_batches (rp_call (rp_impl w))) @
      [reply_batch G (rp_send_init_md (rp_impl w)) r1, reply_batch G (rp_send_init_md (rp_impl w)) r2]"
  using assms by (simp add: start_reply_eq)

theorem rp_two_threads_both_reply_witness:
  "\<exists>w'. rp_schedule (demo_lib 5) [0, 1, 0, 1, 0, 1] rp_demo = Done w' \<and>
     length (map fst (call_batches (rp_call (rp_impl w')))) = 2"
proof -
  have r: "rp_pcs rp_demo ! 0 = RpLoad (ReplyMsg ''pong'')" "rp_pcs rp_demo ! 1 = RpLoad (ReplyErr Status_CANCELLED)"
    "0 < length (rp_pcs rp_demo)" "1 < length (rp_pcs rp_demo)" "\<not> rp_replied (rp_impl rp_demo)"
    "call_batches (rp_call (rp_impl rp_demo)) = []"
    by (simp_all add: rp_demo_def)
  from rp_two_threads_both_reply [OF r(3,4) _ r(5) r(1,2), of "demo_lib 5"] r(6)
  obtain w' where "rp_schedule (demo_lib 5) [0, 1, 0, 1, 0, 1] rp_demo = Done w'"
    "map fst (call_batches (rp_call (rp_impl w'))) =
      [reply_batch (demo_lib 5) (rp_send_init_md (rp_impl rp_demo)) (ReplyMsg ''pong''),
       reply_batch (demo_lib 5) (rp_send_init_md (rp_impl rp_demo)) (ReplyErr Status_CANCELLED)]"
    by auto
  then show ?thesis by (intro exI [of _ w']) (simp only: list.size, simp)
qed

end
