(* ===== verification/Server_Core.thy ===== *)
theory Server_Core
  imports Machine Completion_Queue "HOL-Library.AList"
begin

text \<open>
  \<^verbatim>\<open>core/server/server.h, server.cpp, service.h, impl/cqtag/server_method_call_cqtag*\<close>: the server
  object. It registers the methods of its services with gRPC, keeps one request for the next
  call of each method outstanding, and hands every call that arrives to the service.

  A \<^verbatim>\<open>Service*\<close> is a number; \<open>S\<close> tells which service it points to. The functions of the gRPC
  server API are the parameter \<open>L\<close>. \<^verbatim>\<open>std::unordered_map\<close> is an association list: the order in
  which the loop of \<^verbatim>\<open>RequestMethodsCalls\<close> meets its entries is unspecified, and no
  property below depends on it. The application's state has type \<open>'a\<close>.
\<close>

section \<open>The interface of a service\<close>

record ('buf, 'a) Service =
  svc_GetFullName :: string
  svc_GetMethodCount :: nat
  svc_IsMethodClientStreaming :: "nat \<Rightarrow> bool outcome"
  svc_GetMethodName :: "nat \<Rightarrow> string outcome"
  svc_CallMethod :: "nat \<Rightarrow> 'buf option \<Rightarrow> nat \<Rightarrow> 'a \<Rightarrow> 'a outcome"

text \<open>
  What the server relies on: the accessors are defined for every method, and a call is handled
  without an abort if its payload is missing exactly for a client-streaming method. \<open>ainv\<close> is
  the invariant of the application's state.
\<close>

locale service_contract =
  fixes svc :: "('buf, 'a) Service"
    and ainv :: "'a \<Rightarrow> bool"
  assumes IsMethodClientStreaming_total:
      "i < svc_GetMethodCount svc \<Longrightarrow> \<exists>b. svc_IsMethodClientStreaming svc i = Done b"
    and GetMethodName_total: "i < svc_GetMethodCount svc \<Longrightarrow> \<exists>n. svc_GetMethodName svc i = Done n"
    and CallMethod_total: "i < svc_GetMethodCount svc \<Longrightarrow> ainv a \<Longrightarrow>
      svc_IsMethodClientStreaming svc i = Done (payload = None) \<Longrightarrow>
      holds ainv (svc_CallMethod svc i payload call a)"

section \<open>The server's state\<close>

datatype grpc_server_register_method_payload_handling =
  GRPC_SRM_PAYLOAD_NONE | GRPC_SRM_PAYLOAD_READ_INITIAL_BYTE_BUFFER

type_synonym registration = "string \<times> grpc_server_register_method_payload_handling"

text \<open>A request passes the handle of the method, and whether it passes a place for the payload.\<close>

record grpc_server_lib =
  grpc_server_register_method :: "(registration \<times> nat option) list \<Rightarrow> registration \<Rightarrow> nat option"
  grpc_server_request_registered_call :: "(nat \<times> bool) list \<Rightarrow> nat \<times> bool \<Rightarrow> grpc_call_error"
  grpc_server_add_secure_http2_port :: "string \<Rightarrow> nat \<Rightarrow> int"
  grpc_server_add_insecure_http2_port :: "string \<Rightarrow> int"

record RegisteredService =
  rs_service :: nat
  rs_registered_methods :: "nat option list"

record ServerMethodCallCqTag =
  mc_service :: nat
  mc_method_index :: nat
  mc_registered_method :: nat

record 'a Server =
  sv_cq4n :: CompletionQueue
  sv_started :: bool
  sv_shutdown :: bool
  sv_thread_created :: bool
  sv_services :: "nat list"
  sv_service_map :: "(string \<times> RegisteredService) list"
  sv_registrations :: "(registration \<times> nat option) list"
  sv_request_log :: "(nat \<times> bool) list"
  sv_outstanding :: "ServerMethodCallCqTag list"
  sv_heap :: "ServerMethodCallCqTag list"
  sv_notified :: bool
  sv_app :: 'a

definition Server_new :: "nat option \<Rightarrow> nat option \<Rightarrow> 'a \<Rightarrow> 'a Server outcome" where
  "Server_new cq c_server app =
     bind_o (CompletionQueue_new cq) (\<lambda>cq4n.
       assert_o (c_server \<noteq> None) ''cq4n_sptr_ && c_server_uptr_''
         (bind_o (CompletionQueue_c_cq cq4n) (\<lambda>h.
            Done \<lparr>sv_cq4n = cq4n, sv_started = False, sv_shutdown = False, sv_thread_created = False,
              sv_services = [], sv_service_map = [], sv_registrations = [], sv_request_log = [],
              sv_outstanding = [], sv_heap = [], sv_notified = False, sv_app = app\<rparr>)))"

section \<open>Registering services\<close>

definition GetMethodPayloadHandling ::
  "('buf, 'a) Service \<Rightarrow> nat \<Rightarrow> grpc_server_register_method_payload_handling outcome" where
  "GetMethodPayloadHandling service method_index =
     assert_o (method_index < svc_GetMethodCount service) ''method_index < service.GetMethodCount()''
       (bind_o (svc_IsMethodClientStreaming service method_index) (\<lambda>streaming.
          Done (if streaming then GRPC_SRM_PAYLOAD_NONE else GRPC_SRM_PAYLOAD_READ_INITIAL_BYTE_BUFFER)))"

definition register_method ::
  "grpc_server_lib \<Rightarrow> ('buf, 'a) Service \<Rightarrow> nat \<Rightarrow> nat option list \<times> 'a Server \<Rightarrow>
     (nat option list \<times> 'a Server) outcome" where
  "register_method L service i r = (case r of (registered_methods, s) \<Rightarrow>
     bind_o (svc_GetMethodName service i) (\<lambda>name.
     bind_o (GetMethodPayloadHandling service i) (\<lambda>handling.
       (let reg = (c_str name, handling);
            registered_method = grpc_server_register_method L (sv_registrations s) reg
        in Done (registered_methods @ [registered_method],
                 s\<lparr>sv_registrations := sv_registrations s @ [(reg, registered_method)]\<rparr>)))))"

text \<open>
  \<open>operator[]\<close> of the map yields the entry, made empty if there is none; the loop fills its
  vector.
\<close>

definition Server_RegisterService ::
  "grpc_server_lib \<Rightarrow> (nat \<Rightarrow> ('buf, 'a) Service) \<Rightarrow> nat \<Rightarrow> 'a Server \<Rightarrow> 'a Server outcome" where
  "Server_RegisterService L S service s =
     bind_o (fold_o (register_method L (S service)) [0..<svc_GetMethodCount (S service)] ([], s))
       (\<lambda>(registered_methods, s1).
          Done (s1\<lparr>sv_service_map := AList.update (svc_GetFullName (S service))
                     \<lparr>rs_service = service, rs_registered_methods = registered_methods\<rparr>
                     (sv_service_map s1)\<rparr>))"

definition Server_RegisterService_sptr ::
  "grpc_server_lib \<Rightarrow> (nat \<Rightarrow> ('buf, 'a) Service) \<Rightarrow> nat option \<Rightarrow> 'a Server \<Rightarrow> 'a Server outcome" where
  "Server_RegisterService_sptr L S service_sptr s =
     (case service_sptr of
        None \<Rightarrow> Done s
      | Some p \<Rightarrow> Server_RegisterService L S p (s\<lparr>sv_services := sv_services s @ [p]\<rparr>))"

definition InsecureServerCredentials_c_creds :: "nat option" where
  "InsecureServerCredentials_c_creds = None"

definition Server_AddListeningPort ::
  "grpc_server_lib \<Rightarrow> string \<Rightarrow> nat option \<Rightarrow> 'a Server \<Rightarrow> int outcome" where
  "Server_AddListeningPort L addr c_creds s =
     assert_o (\<not> sv_started s) ''!started_''
       (Done (case c_creds of
                Some creds \<Rightarrow> grpc_server_add_secure_http2_port L (c_str addr) creds
              | None \<Rightarrow> grpc_server_add_insecure_http2_port L (c_str addr)))"

definition Server_AddListeningPort_insecure ::
  "grpc_server_lib \<Rightarrow> string \<Rightarrow> 'a Server \<Rightarrow> int outcome" where
  "Server_AddListeningPort_insecure L addr s =
     Server_AddListeningPort L addr InsecureServerCredentials_c_creds s"

section \<open>Requesting and serving calls\<close>

definition ServerMethodCallCqTag_new ::
  "grpc_server_lib \<Rightarrow> (nat \<Rightarrow> ('buf, 'a) Service) \<Rightarrow> ServerMethodCallCqTag \<Rightarrow> 'a Server \<Rightarrow> 'a Server outcome"
where
  "ServerMethodCallCqTag_new L S tag s =
     (let service = S (mc_service tag)
      in assert_o (mc_method_index tag < svc_GetMethodCount service) ''method_index < service->GetMethodCount()''
          (bind_o (CompletionQueue_c_cq (sv_cq4n s)) (\<lambda>ccq.
           bind_o (svc_IsMethodClientStreaming service (mc_method_index tag)) (\<lambda>streaming.
             (let request = (mc_registered_method tag, \<not> streaming);
                  ret = grpc_server_request_registered_call L (sv_request_log s) request
              in assert_o (GRPC_CALL_OK = ret) ''GRPC_CALL_OK == ret''
                  (Done (s\<lparr>sv_request_log := sv_request_log s @ [request],
                           sv_outstanding := tag # sv_outstanding s,
                           sv_heap := tag # sv_heap s\<rparr>)))))))"

text \<open>What gRPC delivers with a call: the call, and the payload if a place for it was passed.\<close>

record 'buf method_call =
  mcp_success :: bool
  mcp_call :: "nat option"
  mcp_payload :: "'buf option"

definition ServerMethodCallCqTag_DoComplete ::
  "grpc_server_lib \<Rightarrow> (nat \<Rightarrow> ('buf, 'a) Service) \<Rightarrow> ServerMethodCallCqTag \<Rightarrow> 'buf method_call \<Rightarrow>
     'a Server \<Rightarrow> 'a Server outcome" where
  "ServerMethodCallCqTag_DoComplete L S tag cp s =
     bind_o (if mcp_success cp
             then (case mcp_call cp of
                     None \<Rightarrow> Abort ''call_ptr_''
                   | Some call \<Rightarrow>
                       bind_o (svc_CallMethod (S (mc_service tag)) (mc_method_index tag) (mcp_payload cp)
                                 call (sv_app s))
                         (\<lambda>a. Done (s\<lparr>sv_app := a\<rparr>)))
             else Done s)
       (ServerMethodCallCqTag_new L S tag)"

definition Server_RequestServiceMethodsCalls ::
  "grpc_server_lib \<Rightarrow> (nat \<Rightarrow> ('buf, 'a) Service) \<Rightarrow> RegisteredService \<Rightarrow> 'a Server \<Rightarrow> 'a Server outcome" where
  "Server_RequestServiceMethodsCalls L S rs s =
     fold_o (\<lambda>i s. case rs_registered_methods rs ! i of
                None \<Rightarrow> Done s
              | Some registered_method \<Rightarrow>
                  ServerMethodCallCqTag_new L S \<lparr>mc_service = rs_service rs, mc_method_index = i,
                    mc_registered_method = registered_method\<rparr> s)
       [0..<length (rs_registered_methods rs)] s"

definition Server_RequestMethodsCalls ::
  "grpc_server_lib \<Rightarrow> (nat \<Rightarrow> ('buf, 'a) Service) \<Rightarrow> 'a Server \<Rightarrow> 'a Server outcome" where
  "Server_RequestMethodsCalls L S s =
     fold_o (\<lambda>(name, rs). Server_RequestServiceMethodsCalls L S rs) (sv_service_map s) s"

definition sv_delete :: "ServerMethodCallCqTag \<Rightarrow> 'a Server \<Rightarrow> 'a Server" where
  "sv_delete tag s = s\<lparr>sv_heap := remove1 tag (sv_heap s)\<rparr>"

text \<open>What the queue has for the next poll; a completed request is no longer outstanding.\<close>

fun sv_polled ::
  "(ServerMethodCallCqTag, 'buf method_call) grpc_event \<Rightarrow> 'a Server \<Rightarrow> 'a Server" where
  "sv_polled (GRPC_OP_COMPLETE (Some tag) cp) s = s\<lparr>sv_outstanding := remove1 tag (sv_outstanding s)\<rparr>"
| "sv_polled ev s = s"

definition Server_Run ::
  "grpc_server_lib \<Rightarrow> (nat \<Rightarrow> ('buf, 'a) Service) \<Rightarrow> (ServerMethodCallCqTag, 'buf method_call) grpc_event \<Rightarrow>
     'a Server \<Rightarrow> 'a Server outcome" where
  "Server_Run L S ev s =
     (if sv_shutdown s then Done s
      else bind_o (if \<not> sv_started s then Server_RequestMethodsCalls L S (s\<lparr>sv_started := True\<rparr>) else Done s)
             (\<lambda>s1. UnBlockingRun_sptr (Some ()) (\<lambda>(d :: unit gpr_deadline) s. (ev, sv_polled ev s))
                     (ServerMethodCallCqTag_DoComplete L S) sv_delete s1))"

definition Server_ShutdownInternal :: "'a Server \<Rightarrow> 'a Server outcome" where
  "Server_ShutdownInternal s =
     (if \<not> sv_started s then Done s
      else if sv_shutdown s then Done s
      else bind_o (CompletionQueue_c_cq (sv_cq4n s)) (\<lambda>ccq.
             bind_o (CompletionQueue_Shutdown (sv_cq4n s)) (\<lambda>cq.
               Done (s\<lparr>sv_shutdown := True, sv_notified := True, sv_cq4n := cq\<rparr>))))"

definition Server_Shutdown :: "'a Server \<Rightarrow> 'a Server outcome" where
  "Server_Shutdown s = Server_ShutdownInternal s"

text \<open>
  The destructor joins the thread behind \<open>pid_\<close>. Nothing creates it: the call of
  \<^verbatim>\<open>pthread_create\<close> in \<^verbatim>\<open>Run\<close> is commented out. Joining a thread that was never created is
  undefined behaviour.
\<close>

definition Server_dtor :: "'a Server \<Rightarrow> 'a Server outcome" where
  "Server_dtor s =
     bind_o (Server_Shutdown s) (\<lambda>s1.
       if sv_thread_created s1 then Done s1 else Abort ''pthread_join of a thread that was never created'')"


section \<open>The machine\<close>

text \<open>The requests for all methods of all registered services.\<close>

definition service_requests :: "RegisteredService \<Rightarrow> ServerMethodCallCqTag list" where
  "service_requests rs =
     concat (map (\<lambda>i. map (\<lambda>h. \<lparr>mc_service = rs_service rs, mc_method_index = i, mc_registered_method = h\<rparr>)
                        (opt_list (rs_registered_methods rs ! i)))
              [0..<length (rs_registered_methods rs)])"

definition method_requests :: "(string \<times> RegisteredService) list \<Rightarrow> ServerMethodCallCqTag list" where
  "method_requests m = concat (map (service_requests \<circ> snd) m)"

datatype 'buf sv_event =
    SvRegister "nat option"
  | SvListen string "nat option"
  | SvRun "(ServerMethodCallCqTag, 'buf method_call) grpc_event"
  | SvShutdown

text \<open>
  Services are registered and ports added before the server runs. gRPC completes requests that
  are outstanding, those of the present \<^verbatim>\<open>Run\<close> included; with a new call it delivers the
  payload if a place for it was passed.
\<close>

fun sv_delivers ::
  "(nat \<Rightarrow> ('buf, 'a) Service) \<Rightarrow> (ServerMethodCallCqTag, 'buf method_call) grpc_event \<Rightarrow> 'a Server \<Rightarrow> bool" where
  "sv_delivers S (GRPC_OP_COMPLETE tag_ptr cp) s \<longleftrightarrow>
     (case tag_ptr of
        None \<Rightarrow> False
      | Some tag \<Rightarrow>
          tag \<in> set (if sv_started s then sv_outstanding s else method_requests (sv_service_map s)) \<and>
          (mcp_success cp \<longrightarrow> mcp_call cp \<noteq> None \<and>
             svc_IsMethodClientStreaming (S (mc_service tag)) (mc_method_index tag) =
               Done (mcp_payload cp = None)))"
| "sv_delivers S GRPC_QUEUE_SHUTDOWN s \<longleftrightarrow> sv_shutdown s"
| "sv_delivers S GRPC_QUEUE_TIMEOUT s \<longleftrightarrow> True"
| "sv_delivers S GRPC_OTHER_EVENT s \<longleftrightarrow> False"

fun sv_en :: "nat list \<Rightarrow> (nat \<Rightarrow> ('buf, 'a) Service) \<Rightarrow> 'buf sv_event \<Rightarrow> 'a Server \<Rightarrow> bool" where
  "sv_en svcs S (SvRegister p) s \<longleftrightarrow> \<not> sv_started s \<and> set (opt_list p) \<subseteq> set svcs"
| "sv_en svcs S (SvListen addr creds) s \<longleftrightarrow> \<not> sv_started s"
| "sv_en svcs S (SvRun ev) s \<longleftrightarrow> sv_delivers S ev s"
| "sv_en svcs S SvShutdown s \<longleftrightarrow> True"

fun sv_step ::
  "grpc_server_lib \<Rightarrow> (nat \<Rightarrow> ('buf, 'a) Service) \<Rightarrow> 'buf sv_event \<Rightarrow> 'a Server \<Rightarrow> (int \<times> 'a Server) outcome" where
  "sv_step L S (SvRegister p) s = bind_o (Server_RegisterService_sptr L S p s) (\<lambda>s'. Done (0, s'))"
| "sv_step L S (SvListen addr creds) s = bind_o (Server_AddListeningPort L addr creds s) (\<lambda>port. Done (port, s))"
| "sv_step L S (SvRun ev) s = bind_o (Server_Run L S ev s) (\<lambda>s'. Done (0, s'))"
| "sv_step L S SvShutdown s = bind_o (Server_Shutdown s) (\<lambda>s'. Done (0, s'))"

definition sv_start :: "('a \<Rightarrow> bool) \<Rightarrow> 'a Server \<Rightarrow> bool" where
  "sv_start ainv s \<longleftrightarrow> (\<exists>cq c app. Server_new (Some cq) (Some c) app = Done s \<and> ainv app)"

text \<open>The environment: services that keep their contract, and gRPC accepting the requests.\<close>

locale server_env =
  fixes L :: grpc_server_lib
    and S :: "nat \<Rightarrow> ('buf, 'a) Service"
    and svcs :: "nat list"
    and ainv :: "'a \<Rightarrow> bool"
  assumes contract: "p \<in> set svcs \<Longrightarrow> service_contract (S p) ainv"
    and requests_accepted: "grpc_server_request_registered_call L log request = GRPC_CALL_OK"
begin

definition handling :: "bool \<Rightarrow> grpc_server_register_method_payload_handling" where
  "handling streaming =
     (if streaming then GRPC_SRM_PAYLOAD_NONE else GRPC_SRM_PAYLOAD_READ_INITIAL_BYTE_BUFFER)"

definition sv_known :: "(registration \<times> nat option) list \<Rightarrow> ServerMethodCallCqTag \<Rightarrow> bool" where
  "sv_known regs tag \<longleftrightarrow> mc_service tag \<in> set svcs \<and>
     mc_method_index tag < svc_GetMethodCount (S (mc_service tag)) \<and>
     (\<exists>b name. svc_IsMethodClientStreaming (S (mc_service tag)) (mc_method_index tag) = Done b \<and>
        ((name, handling b), Some (mc_registered_method tag)) \<in> set regs)"

definition sv_ok :: "ServerMethodCallCqTag list \<Rightarrow> 'a Server \<Rightarrow> bool" where
  "sv_ok extra s \<longleftrightarrow>
     c_cq_uptr (sv_cq4n s) \<noteq> None \<and> \<not> sv_thread_created s \<and> ainv (sv_app s) \<and>
     (\<forall>tag \<in> set (method_requests (sv_service_map s)). sv_known (sv_registrations s) tag) \<and>
     mset (sv_heap s) = mset (sv_outstanding s) + mset extra \<and>
     (\<forall>(h, payload) \<in> set (sv_request_log s).
        \<exists>name. ((name, handling (\<not> payload)), Some h) \<in> set (sv_registrations s))"

text \<open>All methods are requested, those in \<open>missing\<close> excepted.\<close>

definition sv_serving :: "ServerMethodCallCqTag list \<Rightarrow> 'a Server \<Rightarrow> bool" where
  "sv_serving missing s \<longleftrightarrow>
     mset (sv_outstanding s) + mset missing = mset (method_requests (sv_service_map s))"

lemma sv_known_mono: "sv_known regs tag \<Longrightarrow> set regs \<subseteq> set regs' \<Longrightarrow> sv_known regs' tag"
  by (fastforce simp: sv_known_def)

lemma method_requests_update:
  "set (method_requests (AList.update k rs m)) \<subseteq> set (service_requests rs) \<union> set (method_requests m)"
  by (induction m) (auto simp: method_requests_def)

text \<open>Requesting a method.\<close>

lemma MethodCall_new_holds:
  assumes "sv_ok extra s" "sv_known (sv_registrations s) tag"
  shows "\<exists>request. ServerMethodCallCqTag_new L S tag s =
      Done (s\<lparr>sv_request_log := sv_request_log s @ [request], sv_outstanding := tag # sv_outstanding s,
              sv_heap := tag # sv_heap s\<rparr>) \<and>
    sv_ok extra (s\<lparr>sv_request_log := sv_request_log s @ [request], sv_outstanding := tag # sv_outstanding s,
              sv_heap := tag # sv_heap s\<rparr>)"
proof -
  from assms(1) obtain h where "c_cq_uptr (sv_cq4n s) = Some h" by (auto simp: sv_ok_def)
  with assms show ?thesis
    by (fastforce simp: sv_known_def ServerMethodCallCqTag_new_def Let_def CompletionQueue_c_cq_def
        requests_accepted sv_ok_def)
qed

text \<open>Registering a service.\<close>

lemma register_method_holds:
  assumes "p \<in> set svcs" "i < svc_GetMethodCount (S p)"
  shows "\<exists>r b name. svc_IsMethodClientStreaming (S p) i = Done b \<and>
    register_method L (S p) i (rms, s) =
      Done (rms @ [r], s\<lparr>sv_registrations := sv_registrations s @ [((name, handling b), r)]\<rparr>)"
proof -
  have c: "service_contract (S p) ainv" by (rule contract [OF assms(1)])
  obtain b name where "svc_IsMethodClientStreaming (S p) i = Done b" "svc_GetMethodName (S p) i = Done name"
    using service_contract.IsMethodClientStreaming_total [OF c assms(2)]
      service_contract.GetMethodName_total [OF c assms(2)] by blast
  with assms(2) show ?thesis
    by (auto simp: register_method_def GetMethodPayloadHandling_def handling_def Let_def)
qed

definition registered_upto :: "nat \<Rightarrow> 'a Server \<Rightarrow> nat list \<Rightarrow> nat option list \<times> 'a Server \<Rightarrow> bool" where
  "registered_upto p s ixs r \<longleftrightarrow> length (fst r) = length ixs \<and>
     (\<exists>regs. snd r = s\<lparr>sv_registrations := sv_registrations s @ regs\<rparr>) \<and>
     (\<forall>i < length ixs. \<forall>h. fst r ! i = Some h \<longrightarrow>
        sv_known (sv_registrations (snd r)) \<lparr>mc_service = p, mc_method_index = i, mc_registered_method = h\<rparr>)"

lemma RegisterService_holds:
  assumes "sv_ok [] s" "p \<in> set svcs"
  shows "holds (\<lambda>s'. sv_ok [] s' \<and> sv_outstanding s' = sv_outstanding s \<and> sv_started s' = sv_started s \<and>
      sv_request_log s' = sv_request_log s)
    (Server_RegisterService L S p s)"
proof -
  let ?n = "svc_GetMethodCount (S p)"
  have loop: "holds (registered_upto p s [0..<?n])
      (fold_o (register_method L (S p)) [0..<?n] ([], s))"
  proof (rule fold_o_holds)
    show "registered_upto p s [] ([], s)"
      by (simp add: registered_upto_def) (rule exI [of _ "[]"], simp)
  next
    fix pre i rest r
    assume split: "[0..<?n] = pre @ i # rest" and r: "registered_upto p s pre r"
    obtain rms s1 where rs: "r = (rms, s1)" by (cases r)
    from split have pre: "pre = [0..<i]" "i < ?n"
      using upt_split by auto
    from register_method_holds [OF assms(2) pre(2), of rms s1] rs obtain q b name where
      q: "svc_IsMethodClientStreaming (S p) i = Done b"
      "register_method L (S p) i r =
        Done (rms @ [q], s1\<lparr>sv_registrations := sv_registrations s1 @ [((name, handling b), q)]\<rparr>)"
      by blast
    have "sv_known (sv_registrations s1 @ [((name, handling b), q)])
        \<lparr>mc_service = p, mc_method_index = j, mc_registered_method = h\<rparr>"
      if "j < Suc i" "(rms @ [q]) ! j = Some h" for j h
    proof (cases "j < i")
      case True
      with r rs pre that have "sv_known (sv_registrations s1)
          \<lparr>mc_service = p, mc_method_index = j, mc_registered_method = h\<rparr>"
        by (simp add: registered_upto_def nth_append)
      then show ?thesis by (rule sv_known_mono) auto
    next
      case False
      with r rs pre that have "j = i" "q = Some h" by (auto simp: registered_upto_def nth_append)
      with q(1) pre(2) assms(2) show ?thesis by (auto simp: sv_known_def)
    qed
    moreover from r rs obtain regs where "s1 = s\<lparr>sv_registrations := sv_registrations s @ regs\<rparr>"
      by (auto simp: registered_upto_def)
    ultimately have "registered_upto p s (pre @ [i])
        (rms @ [q], s1\<lparr>sv_registrations := sv_registrations s1 @ [((name, handling b), q)]\<rparr>)"
      using r rs pre(1) by (simp add: registered_upto_def) (metis append_assoc)
    then show "holds (registered_upto p s (pre @ [i])) (register_method L (S p) i r)"
      by (simp only: q(2) holds.simps)
  qed
  then obtain rms s1 where res: "fold_o (register_method L (S p)) [0..<?n] ([], s) = Done (rms, s1)"
    and up: "registered_upto p s [0..<?n] (rms, s1)"
    by (auto simp: holds_iff)
  let ?rs = "\<lparr>rs_service = p, rs_registered_methods = rms\<rparr>"
  from up obtain regs where s1: "s1 = s\<lparr>sv_registrations := sv_registrations s @ regs\<rparr>"
    by (auto simp: registered_upto_def)
  have "sv_known (sv_registrations s @ regs) tag" if "tag \<in> set (service_requests ?rs)" for tag
    using that up s1 by (auto simp: service_requests_def registered_upto_def)
  moreover have "sv_known (sv_registrations s @ regs) tag" if "tag \<in> set (method_requests (sv_service_map s))" for tag
    using that assms(1) by (auto simp: sv_ok_def intro: sv_known_mono)
  ultimately show ?thesis
    using assms(1) method_requests_update [of "svc_GetFullName (S p)" ?rs "sv_service_map s"]
    by (fastforce simp: Server_RegisterService_def res s1 sv_ok_def)
qed


text \<open>Requesting the calls of all methods.\<close>

lemma RequestServiceMethodsCalls_holds:
  assumes "sv_ok [] s" and "\<forall>tag \<in> set (service_requests rs). sv_known (sv_registrations s) tag"
  shows "holds (\<lambda>s'. sv_ok [] s' \<and> sv_service_map s' = sv_service_map s \<and>
      sv_registrations s' = sv_registrations s \<and> sv_started s' = sv_started s \<and> sv_shutdown s' = sv_shutdown s \<and>
      mset (sv_outstanding s') = mset (sv_outstanding s) + mset (service_requests rs))
    (Server_RequestServiceMethodsCalls L S rs s)"
proof -
  let ?upto = "\<lambda>ixs. concat (map (\<lambda>i. map (\<lambda>h. \<lparr>mc_service = rs_service rs, mc_method_index = i,
      mc_registered_method = h\<rparr>) (opt_list (rs_registered_methods rs ! i))) ixs)"
  have "holds (\<lambda>s'. sv_ok [] s' \<and> sv_service_map s' = sv_service_map s \<and>
      sv_registrations s' = sv_registrations s \<and> sv_started s' = sv_started s \<and> sv_shutdown s' = sv_shutdown s \<and>
      mset (sv_outstanding s') = mset (sv_outstanding s) + mset (?upto [0..<length (rs_registered_methods rs)]))
    (Server_RequestServiceMethodsCalls L S rs s)"
    unfolding Server_RequestServiceMethodsCalls_def
  proof (rule fold_o_holds [where P = "\<lambda>ixs s'. sv_ok [] s' \<and> sv_service_map s' = sv_service_map s \<and>
      sv_registrations s' = sv_registrations s \<and> sv_started s' = sv_started s \<and> sv_shutdown s' = sv_shutdown s \<and>
      mset (sv_outstanding s') = mset (sv_outstanding s) + mset (?upto ixs)"], goal_cases)
    case 1
    with assms show ?case by simp
  next
    case (2 pre i rest s1)
    then have i: "i < length (rs_registered_methods rs)" using upt_split by blast
    show ?case
    proof (cases "rs_registered_methods rs ! i")
      case None
      with 2 show ?thesis by simp
    next
      case (Some h)
      let ?tag = "\<lparr>mc_service = rs_service rs, mc_method_index = i, mc_registered_method = h\<rparr>"
      from i Some have "?tag \<in> set (service_requests rs)"
        by (auto simp: service_requests_def intro!: bexI [of _ i])
      with assms(2) 2 have "sv_known (sv_registrations s1) ?tag" by simp
      with MethodCall_new_holds [of "[]" s1 ?tag] 2 Some show ?thesis by auto
    qed
  qed
  then show ?thesis by (simp only: service_requests_def)
qed

lemma RequestMethodsCalls_holds:
  assumes "sv_ok [] s" "sv_outstanding s = []"
  shows "holds (\<lambda>s'. sv_ok [] s' \<and> sv_started s' = sv_started s \<and> sv_shutdown s' = sv_shutdown s \<and>
      sv_service_map s' = sv_service_map s \<and> sv_serving [] s')
    (Server_RequestMethodsCalls L S s)"
proof -
  have "holds (\<lambda>s'. sv_ok [] s' \<and> sv_service_map s' = sv_service_map s \<and>
      sv_registrations s' = sv_registrations s \<and> sv_started s' = sv_started s \<and> sv_shutdown s' = sv_shutdown s \<and>
      mset (sv_outstanding s') = mset (method_requests (sv_service_map s)))
    (Server_RequestMethodsCalls L S s)"
    unfolding Server_RequestMethodsCalls_def
  proof (rule fold_o_holds [where P = "\<lambda>m s'. sv_ok [] s' \<and> sv_service_map s' = sv_service_map s \<and>
      sv_registrations s' = sv_registrations s \<and> sv_started s' = sv_started s \<and> sv_shutdown s' = sv_shutdown s \<and>
      mset (sv_outstanding s') = mset (method_requests m)"], goal_cases)
    case 1
    with assms show ?case by (simp add: method_requests_def)
  next
    case (2 pre e rest s1)
    obtain name rs where e: "e = (name, rs)" by (cases e)
    with 2(1) assms(1) have "\<forall>tag \<in> set (service_requests rs). sv_known (sv_registrations s) tag"
      by (auto simp: sv_ok_def method_requests_def)
    with 2 RequestServiceMethodsCalls_holds [of s1 rs] e show ?case
      by (auto simp: method_requests_def elim!: holds_mono)
  qed
  then show ?thesis by (auto simp: sv_serving_def elim!: holds_mono)
qed

text \<open>Serving one call.\<close>

lemma DoComplete_holds:
  assumes "sv_ok [tag] s" "sv_serving [tag] s"
    and "mcp_success cp \<Longrightarrow> mcp_call cp \<noteq> None \<and>
      svc_IsMethodClientStreaming (S (mc_service tag)) (mc_method_index tag) = Done (mcp_payload cp = None)"
  shows "holds (\<lambda>s'. sv_ok [tag] s' \<and> sv_serving [] s' \<and> sv_started s' = sv_started s \<and>
      sv_shutdown s' = sv_shutdown s)
    (ServerMethodCallCqTag_DoComplete L S tag cp s)"
proof -
  have "mset (method_requests (sv_service_map s)) = add_mset tag (mset (sv_outstanding s))"
    using assms(2) by (simp add: sv_serving_def)
  then have "tag \<in># mset (method_requests (sv_service_map s))" by (simp only: union_single_eq_member)
  then have known: "sv_known (sv_registrations s) tag" using assms(1) by (auto simp: sv_ok_def)
  show ?thesis
  proof (cases "mcp_success cp")
    case False
    with MethodCall_new_holds [OF assms(1) known] assms(2) show ?thesis
      by (auto simp: ServerMethodCallCqTag_DoComplete_def sv_serving_def)
  next
    case True
    with assms(3) obtain call where call: "mcp_call cp = Some call" by auto
    from known have "service_contract (S (mc_service tag)) ainv"
      "mc_method_index tag < svc_GetMethodCount (S (mc_service tag))"
      by (auto simp: sv_known_def intro: contract)
    then obtain a where a: "svc_CallMethod (S (mc_service tag)) (mc_method_index tag) (mcp_payload cp) call
        (sv_app s) = Done a" "ainv a"
      using service_contract.CallMethod_total [of "S (mc_service tag)" ainv "mc_method_index tag" "sv_app s"
          "mcp_payload cp" call] assms(1,3) True
      by (auto simp: holds_iff sv_ok_def)
    let ?s = "s\<lparr>sv_app := a\<rparr>"
    have "sv_ok [tag] ?s" using assms(1) a(2) by (simp add: sv_ok_def)
    with MethodCall_new_holds [of "[tag]" ?s tag] known a(1) True call assms(2) show ?thesis
      by (auto simp: ServerMethodCallCqTag_DoComplete_def sv_serving_def)
  qed
qed

lemma handle_holds:
  assumes "sv_ok [] s" "sv_started s" "sv_serving [] s" "sv_delivers S ev s"
  shows "holds (\<lambda>s'. sv_ok [] s' \<and> sv_started s' \<and> sv_serving [] s' \<and> sv_shutdown s' = sv_shutdown s)
    (UnBlockingRun_sptr (Some ()) (\<lambda>(d :: unit gpr_deadline) s. (ev, sv_polled ev s))
       (ServerMethodCallCqTag_DoComplete L S) sv_delete s)"
proof (cases ev)
  case (GRPC_OP_COMPLETE tag_ptr cp)
  with assms(4) obtain tag where tag: "tag_ptr = Some tag" by (auto split: option.splits)
  with GRPC_OP_COMPLETE assms(2,4) have d: "tag \<in> set (sv_outstanding s)"
    "mcp_success cp \<Longrightarrow> mcp_call cp \<noteq> None \<and>
      svc_IsMethodClientStreaming (S (mc_service tag)) (mc_method_index tag) = Done (mcp_payload cp = None)"
    by auto
  let ?s = "s\<lparr>sv_outstanding := remove1 tag (sv_outstanding s)\<rparr>"
  have "mset (sv_outstanding s) = add_mset tag (mset (remove1 tag (sv_outstanding s)))"
    using d(1) by simp
  then have "sv_ok [tag] ?s" "sv_serving [tag] ?s"
    using assms(1,3) by (auto simp: sv_ok_def sv_serving_def)
  from DoComplete_holds [OF this d(2)] assms(2) GRPC_OP_COMPLETE tag show ?thesis
    by (auto simp: UnBlockingRun_sptr_def UnBlockingRun_def DoTryNextCompletion_def
        CompletionQueueForNext_TryNext_def sv_delete_def sv_ok_def sv_serving_def elim!: holds_mono)
qed (use assms in \<open>auto simp: UnBlockingRun_sptr_def UnBlockingRun_def DoTryNextCompletion_def
        CompletionQueueForNext_TryNext_def\<close>)


lemma Run_holds:
  assumes "sv_ok [] s" "if sv_started s then sv_serving [] s else sv_outstanding s = []" "sv_delivers S ev s"
  shows "holds (\<lambda>s'. sv_ok [] s' \<and> (if sv_started s' then sv_serving [] s' else sv_outstanding s' = []))
    (Server_Run L S ev s)"
proof (cases "sv_shutdown s")
  case True
  with assms show ?thesis by (simp add: Server_Run_def)
next
  case run: False
  show ?thesis
  proof (cases "sv_started s")
    case True
    with run assms handle_holds [OF assms(1) True _ assms(3)] show ?thesis
      by (auto simp: Server_Run_def elim!: holds_mono)
  next
    case False
    let ?s = "s\<lparr>sv_started := True\<rparr>"
    have deliver: "sv_delivers S ev s'" if "sv_started s'" "sv_serving [] s'"
      "sv_service_map s' = sv_service_map s" "sv_shutdown s' = sv_shutdown s" for s'
      using that assms(3) False
      by (cases ev) (auto simp: sv_serving_def split: option.splits dest!: mset_eq_setD)
    have "sv_ok [] ?s" "sv_outstanding ?s = []" using assms(1,2) False by (simp_all add: sv_ok_def)
    from RequestMethodsCalls_holds [OF this]
    have "holds (\<lambda>s1. holds (\<lambda>s'. sv_ok [] s' \<and> (if sv_started s' then sv_serving [] s' else sv_outstanding s' = []))
        (UnBlockingRun_sptr (Some ()) (\<lambda>(d :: unit gpr_deadline) s. (ev, sv_polled ev s))
           (ServerMethodCallCqTag_DoComplete L S) sv_delete s1)) (Server_RequestMethodsCalls L S ?s)"
      by (rule holds_mono) (rule holds_mono [OF handle_holds], auto intro: deliver)
    with run False show ?thesis by (simp add: Server_Run_def)
  qed
qed

definition sv_inv :: "'a Server \<Rightarrow> bool" where
  "sv_inv s \<longleftrightarrow> sv_ok [] s \<and> (if sv_started s then sv_serving [] s else sv_outstanding s = [])"

lemma sv_step_holds:
  assumes "sv_inv s" "sv_en svcs S e s"
  shows "holds (\<lambda>(out, s'). sv_inv s') (sv_step L S e s)"
proof (cases e)
  case (SvRegister p)
  show ?thesis
  proof (cases p)
    case None
    with SvRegister assms show ?thesis by (simp add: Server_RegisterService_sptr_def)
  next
    case (Some q)
    let ?s = "s\<lparr>sv_services := sv_services s @ [q]\<rparr>"
    from assms SvRegister Some have "sv_ok [] ?s" "q \<in> set svcs" "\<not> sv_started s" "sv_outstanding s = []"
      by (auto simp: sv_ok_def sv_inv_def)
    with RegisterService_holds [of ?s q] SvRegister Some show ?thesis
      by (auto simp: Server_RegisterService_sptr_def sv_inv_def elim!: holds_mono)
  qed
next
  case (SvListen addr creds)
  with assms show ?thesis by (simp add: Server_AddListeningPort_def)
next
  case (SvRun ev)
  with assms Run_holds [of s ev] show ?thesis by (auto simp: sv_inv_def elim!: holds_mono)
next
  case SvShutdown
  with assms show ?thesis
    by (auto simp: Server_Shutdown_def Server_ShutdownInternal_def CompletionQueue_c_cq_def
        CompletionQueue_Shutdown_def sv_inv_def sv_ok_def sv_serving_def)
qed

lemma sv_start_inv: "sv_start ainv s \<Longrightarrow> sv_inv s"
  by (auto simp: sv_start_def Server_new_def CompletionQueue_new_def CompletionQueue_c_cq_def sv_inv_def
      sv_ok_def method_requests_def)

sublocale serving: safe_machine "sv_start ainv" "sv_en svcs S" "sv_step L S" sv_inv
  by unfold_locales (auto intro: sv_start_inv sv_step_holds)

lemma serves_all_methods:
  assumes "reach (sv_start ainv) (sv_en svcs S) (sv_step L S) tr s"
  shows "(sv_started s \<longrightarrow> mset (sv_outstanding s) = mset (method_requests (sv_service_map s))) \<and>
    mset (sv_heap s) = mset (sv_outstanding s) \<and>
    (\<forall>e. sv_en svcs S e s \<longrightarrow> (\<exists>out s'. sv_step L S e s = Done (out, s')))"
proof -
  have "\<forall>e. sv_en svcs S e s \<longrightarrow> (\<exists>out s'. sv_step L S e s = Done (out, s'))"
    using serving.reach_no_abort [OF assms] by blast
  moreover have "sv_inv s" by (rule serving.reach_inv [OF assms])
  ultimately show ?thesis by (cases "sv_started s") (auto simp: sv_inv_def sv_ok_def sv_serving_def)
qed

lemma app_invariant:
  assumes "reach (sv_start ainv) (sv_en svcs S) (sv_step L S) tr s"
  shows "ainv (sv_app s)"
  using serving.reach_inv [OF assms] by (simp add: sv_inv_def sv_ok_def)

lemma payloads_as_registered:
  assumes "reach (sv_start ainv) (sv_en svcs S) (sv_step L S) tr s"
    and "(h, payload) \<in> set (sv_request_log s)"
  shows "\<exists>name. ((name, if payload then GRPC_SRM_PAYLOAD_READ_INITIAL_BYTE_BUFFER else GRPC_SRM_PAYLOAD_NONE),
           Some h) \<in> set (sv_registrations s)"
proof -
  have "\<forall>(h, payload) \<in> set (sv_request_log s).
      \<exists>name. ((name, handling (\<not> payload)), Some h) \<in> set (sv_registrations s)"
    using serving.reach_inv [OF assms(1)] by (simp add: sv_inv_def sv_ok_def)
  from bspec [OF this assms(2)] show ?thesis by (cases payload) (simp_all add: handling_def)
qed

lemma dtor_joins_no_thread:
  assumes "reach (sv_start ainv) (sv_en svcs S) (sv_step L S) tr s"
  shows "Server_dtor s = Abort ''pthread_join of a thread that was never created''"
proof -
  have "sv_ok [] s" using serving.reach_inv [OF assms] by (simp add: sv_inv_def)
  then show ?thesis
    by (auto simp: Server_dtor_def Server_Shutdown_def Server_ShutdownInternal_def sv_ok_def
        CompletionQueue_c_cq_def CompletionQueue_Shutdown_def)
qed

end


section \<open>A server to apply the properties to\<close>

definition demo_server_lib :: grpc_server_lib where
  "demo_server_lib =
     \<lparr>grpc_server_register_method = (\<lambda>log reg. Some (length log)),
      grpc_server_request_registered_call = (\<lambda>log request. GRPC_CALL_OK),
      grpc_server_add_secure_http2_port = (\<lambda>addr creds. 50051),
      grpc_server_add_insecure_http2_port = (\<lambda>addr. 50051)\<rparr>"

text \<open>A service with a unary and a client-streaming method, which notes the calls.\<close>

definition demo_service :: "(string, (nat \<times> string option) list) Service" where
  "demo_service =
     \<lparr>svc_GetFullName = ''demo.Echo'', svc_GetMethodCount = 2,
      svc_IsMethodClientStreaming = (\<lambda>i. Done (i = 1)),
      svc_GetMethodName = (\<lambda>i. Done (if i = 0 then ''/demo.Echo/One'' else ''/demo.Echo/Many'')),
      svc_CallMethod = (\<lambda>i payload call a. Done (a @ [(i, payload)]))\<rparr>"

interpretation demo_env: server_env demo_server_lib "\<lambda>p. demo_service" "[0]" "\<lambda>_. True"
  by unfold_locales (simp_all add: service_contract_def demo_service_def demo_server_lib_def)

definition sv_demo :: "(nat \<times> string option) list Server" where
  "sv_demo = \<lparr>sv_cq4n = \<lparr>c_cq_uptr = Some 1, cq_shutdown_requested = False\<rparr>, sv_started = False,
     sv_shutdown = False, sv_thread_created = False, sv_services = [], sv_service_map = [],
     sv_registrations = [], sv_request_log = [], sv_outstanding = [], sv_heap = [], sv_notified = False,
     sv_app = []\<rparr>"

lemma sv_demo_start [simp]: "sv_start (\<lambda>_. True) sv_demo"
  by (auto simp: sv_start_def sv_demo_def Server_new_def CompletionQueue_new_def CompletionQueue_c_cq_def)

lemmas sv_demo_reach = exec_reach [where start = "sv_start (\<lambda>_. True)" and s = sv_demo, OF sv_demo_start]

definition sv_demo_events :: "string sv_event list" where
  "sv_demo_events = [SvRegister (Some 0), SvListen ''0.0.0.0:50051'' None, SvRun GRPC_QUEUE_TIMEOUT,
     SvRun (GRPC_OP_COMPLETE (Some \<lparr>mc_service = 0, mc_method_index = 0, mc_registered_method = 0\<rparr>)
              \<lparr>mcp_success = True, mcp_call = Some 7, mcp_payload = Some ''hi''\<rparr>)]"

section \<open>Properties\<close>



text \<open>
  The two places that decide about the first message agree: a request passes a place for the
  payload exactly if its method was registered to read the initial byte buffer.
\<close>
theorem sv_payloads_as_registered:
  assumes "server_env L S svcs ainv" and "reach (sv_start ainv) (sv_en svcs S) (sv_step L S) tr s"
    and "(h, payload) \<in> set (sv_request_log s)"
  shows "\<exists>name. ((name, if payload then GRPC_SRM_PAYLOAD_READ_INITIAL_BYTE_BUFFER else GRPC_SRM_PAYLOAD_NONE),
           Some h) \<in> set (sv_registrations s)"
  by (rule server_env.payloads_as_registered [OF assms])

theorem sv_payloads_as_registered_witness:
  "\<exists>s :: (nat \<times> string option) list Server. (1, False) \<in> set (sv_request_log s) \<and>
     (\<exists>name. ((name, GRPC_SRM_PAYLOAD_NONE), Some 1) \<in> set (sv_registrations s))"
proof -
  let ?L = demo_server_lib and ?S = "\<lambda>p :: nat. demo_service"
  have run: "case exec (sv_en [0] ?S) (sv_step ?L ?S) sv_demo_events sv_demo of
      None \<Rightarrow> False | Some (tr, s) \<Rightarrow> (1, False) \<in> set (sv_request_log s)" by code_simp
  then obtain tr s where r: "exec (sv_en [0] ?S) (sv_step ?L ?S) sv_demo_events sv_demo = Some (tr, s)"
    by (auto split: option.splits)
  with run have s: "(1, False) \<in> set (sv_request_log s)" by (simp only: option.case prod.case)
  from sv_payloads_as_registered [OF demo_env.server_env_axioms sv_demo_reach [OF r] s] s
  show ?thesis by (intro exI [of _ s]) simp
qed

text \<open>
  The destructor of a server always joins a thread that was never created: no operation of the
  server creates the thread its \<^verbatim>\<open>pid_\<close> stands for.
\<close>
theorem sv_dtor_joins_no_thread:
  assumes "server_env L S svcs ainv" and "reach (sv_start ainv) (sv_en svcs S) (sv_step L S) tr s"
  shows "Server_dtor s = Abort ''pthread_join of a thread that was never created''"
  by (rule server_env.dtor_joins_no_thread [OF assms])

theorem sv_dtor_joins_no_thread_witness:
  "Server_dtor sv_demo = Abort ''pthread_join of a thread that was never created''"
  by (rule sv_dtor_joins_no_thread [OF demo_env.server_env_axioms reach_start [where start = "sv_start (\<lambda>_. True)", OF sv_demo_start]])

end
