(* ===== verification/String_Ref.thy ===== *)
theory String_Ref
  imports Prelude "HOL-Library.Word" "HOL-Library.Char_ord" "HOL-Library.List_Lexorder"
begin

text \<open>
  \<^verbatim>\<open>core/common/impl/string_ref*\<close>: a view of characters that belong to somebody else. A pointer
  \<^verbatim>\<open>const char*\<close> is the list of the characters from there to the end of its buffer; \<open>valid\<close>
  says that the view does not reach beyond it. \<^verbatim>\<open>size_t\<close> is a 64-bit word and wraps around.
\<close>

section \<open>Views\<close>

type_synonym char_ptr = "char list"

record string_ref =
  sref_data :: char_ptr
  sref_length :: "64 word"

definition npos :: "64 word" where "npos = - 1"

definition valid :: "string_ref \<Rightarrow> bool" where
  "valid x \<longleftrightarrow> unat (sref_length x) \<le> length (sref_data x) \<and> length (sref_data x) < 2 ^ 64"

text \<open>The characters a view stands for.\<close>

definition view :: "string_ref \<Rightarrow> string" where
  "view x = take (unat (sref_length x)) (sref_data x)"

definition string_ref_empty :: string_ref where
  "string_ref_empty = \<lparr>sref_data = [], sref_length = 0\<rparr>"

definition string_ref_assign :: "string_ref \<Rightarrow> string_ref \<Rightarrow> string_ref" where
  "string_ref_assign lhs rhs = lhs\<lparr>sref_data := sref_data rhs, sref_length := sref_length rhs\<rparr>"

definition strlen :: "char_ptr \<Rightarrow> 64 word" where
  "strlen s = of_nat (length (takeWhile (\<lambda>c. c \<noteq> CHR 0x00) s))"

definition string_ref_cstr :: "char_ptr \<Rightarrow> string_ref" where
  "string_ref_cstr s = \<lparr>sref_data = s, sref_length = strlen s\<rparr>"

definition string_ref_ptr :: "char_ptr \<Rightarrow> 64 word \<Rightarrow> string_ref" where
  "string_ref_ptr s l = \<lparr>sref_data = s, sref_length = l\<rparr>"

definition string_ref_string :: "string \<Rightarrow> string_ref" where
  "string_ref_string s = \<lparr>sref_data = s, sref_length = of_nat (length s)\<rparr>"

definition string_ref_size :: "string_ref \<Rightarrow> 64 word" where
  "string_ref_size x = sref_length x"

definition string_ref_is_empty :: "string_ref \<Rightarrow> bool" where
  "string_ref_is_empty x \<longleftrightarrow> sref_length x = 0"

section \<open>Operations\<close>

definition substr :: "string_ref \<Rightarrow> 64 word \<Rightarrow> 64 word \<Rightarrow> string_ref" where
  "substr x pos n =
     (let pos = (if pos > sref_length x then sref_length x else pos);
          n = (if n > sref_length x - pos then sref_length x - pos else n)
      in string_ref_ptr (drop (unat pos) (sref_data x)) n)"

text \<open>\<^verbatim>\<open>memcmp\<close> compares the first \<open>n\<close> characters as unsigned bytes; only the sign of its result matters.\<close>

fun memcmp :: "char_ptr \<Rightarrow> char_ptr \<Rightarrow> nat \<Rightarrow> int" where
  "memcmp (c # cs) (d # ds) (Suc n) =
     (if (of_char c :: nat) < of_char d then -1
      else if (of_char c :: nat) > of_char d then 1
      else memcmp cs ds n)"
| "memcmp cs ds n = 0"

definition string_ref_compare :: "string_ref \<Rightarrow> string_ref \<Rightarrow> int" where
  "string_ref_compare this x =
     (let min_size = (if sref_length this < sref_length x then sref_length this else sref_length x);
          r = memcmp (sref_data this) (sref_data x) (unat min_size)
      in if r < 0 then -1
         else if r > 0 then 1
         else if sref_length this < sref_length x then -1
         else if sref_length this > sref_length x then 1
         else 0)"

definition starts_with :: "string_ref \<Rightarrow> string_ref \<Rightarrow> bool" where
  "starts_with this x \<longleftrightarrow> sref_length this \<ge> sref_length x \<and>
     memcmp (sref_data this) (sref_data x) (unat (sref_length x)) = 0"

definition ends_with :: "string_ref \<Rightarrow> string_ref \<Rightarrow> bool" where
  "ends_with this x \<longleftrightarrow> sref_length this \<ge> sref_length x \<and>
     memcmp (drop (unat (sref_length this - sref_length x)) (sref_data this)) (sref_data x)
       (unat (sref_length x)) = 0"

text \<open>
  \<^verbatim>\<open>std::search\<close> and \<^verbatim>\<open>std::find\<close> return the distance of the first match, or that of the end of
  the range when there is none.
\<close>

fun std_search :: "string \<Rightarrow> string \<Rightarrow> nat" where
  "std_search [] s = 0"
| "std_search (c # cs) s = (if take (length s) (c # cs) = s then 0 else Suc (std_search cs s))"

fun std_find :: "char \<Rightarrow> string \<Rightarrow> nat" where
  "std_find c [] = 0"
| "std_find c (d # ds) = (if d = c then 0 else Suc (std_find c ds))"

definition find_str :: "string_ref \<Rightarrow> string_ref \<Rightarrow> 64 word" where
  "find_str this s =
     (let it = std_search (view this) (view s)
      in if it = length (view this) then npos else of_nat it)"

definition find_char :: "string_ref \<Rightarrow> char \<Rightarrow> 64 word" where
  "find_char this c =
     (let it = std_find c (view this)
      in if it = length (view this) then npos else of_nat it)"

definition op_eq :: "string_ref \<Rightarrow> string_ref \<Rightarrow> bool" where
  "op_eq x y \<longleftrightarrow> string_ref_compare x y = 0"

definition op_neq :: "string_ref \<Rightarrow> string_ref \<Rightarrow> bool" where
  "op_neq x y \<longleftrightarrow> string_ref_compare x y \<noteq> 0"

definition op_less :: "string_ref \<Rightarrow> string_ref \<Rightarrow> bool" where
  "op_less x y \<longleftrightarrow> string_ref_compare x y < 0"

definition op_le :: "string_ref \<Rightarrow> string_ref \<Rightarrow> bool" where
  "op_le x y \<longleftrightarrow> string_ref_compare x y \<le> 0"

definition op_greater :: "string_ref \<Rightarrow> string_ref \<Rightarrow> bool" where
  "op_greater x y \<longleftrightarrow> string_ref_compare x y > 0"

definition op_ge :: "string_ref \<Rightarrow> string_ref \<Rightarrow> bool" where
  "op_ge x y \<longleftrightarrow> string_ref_compare x y \<ge> 0"

section \<open>Facts\<close>

lemma valid_string [simp]: "length s < 2 ^ 64 \<Longrightarrow> valid (string_ref_string s)"
  by (simp add: valid_def string_ref_string_def unat_of_nat)

lemma view_string [simp]: "length s < 2 ^ 64 \<Longrightarrow> view (string_ref_string s) = s"
  by (simp add: view_def string_ref_string_def unat_of_nat)

lemma length_view: "valid x \<Longrightarrow> length (view x) = unat (sref_length x)"
  by (simp add: view_def valid_def)

lemma memcmp_take: "n \<le> length cs \<Longrightarrow> n \<le> length ds \<Longrightarrow>
   memcmp cs ds n = (if take n cs < take n ds then -1 else if take n cs = take n ds then 0 else 1)"
  by (induction cs ds n rule: memcmp.induct) (auto simp: less_char_def)

lemma memcmp_zero: "n \<le> length cs \<Longrightarrow> n \<le> length ds \<Longrightarrow> memcmp cs ds n = 0 \<longleftrightarrow> take n cs = take n ds"
  by (simp add: memcmp_take)

text \<open>Comparing lists that agree on, or differ in, their common part.\<close>

lemma less_common_prefix:
  "(xs < (ys :: 'a :: linorder list)) =
     (let n = min (length xs) (length ys)
      in take n xs < take n ys \<or> take n xs = take n ys \<and> length xs < length ys)"
proof (induction xs ys rule: list_induct2')
  case (4 x xs y ys)
  then show ?case by (cases "x = y") (simp_all add: Let_def)
qed simp_all


lemma take_data: "n \<le> unat (sref_length x) \<Longrightarrow> take n (sref_data x) = take n (view x)"
  by (simp add: view_def min_absorb1)

lemma unat_min: "unat (if a < b then a else b) = min (unat a) (unat (b :: 64 word))"
  by (simp add: word_less_nat_alt)

lemma three_way:
  fixes a b :: "'x :: linorder" and m n :: nat
  shows "(if (if a < b then -1 else if a = b then 0 else 1 :: int) < 0 then -1
      else if (if a < b then -1 else if a = b then 0 else 1 :: int) > 0 then 1
      else if m < n then -1 else if n < m then 1 else 0) =
    (if a < b \<or> a = b \<and> m < n then -1 else if a = b \<and> m = n then 0 else (1 :: int))"
  by (cases "a < b"; cases "a = b") auto

lemma substr_fields:
  "sref_data (substr x pos n) = drop (min (unat (sref_length x)) (unat pos)) (sref_data x)"
  "unat (sref_length (substr x pos n)) = min (unat n) (unat (sref_length x) - unat pos)"
proof -
  let ?p = "if pos > sref_length x then sref_length x else pos"
  have p: "?p \<le> sref_length x" "unat ?p = min (unat (sref_length x)) (unat pos)"
    by (auto simp: word_less_nat_alt word_le_nat_alt)
  from p(2) show "sref_data (substr x pos n) = drop (min (unat (sref_length x)) (unat pos)) (sref_data x)"
    by (simp only: substr_def string_ref_ptr_def Let_def string_ref.simps)
  from p have "unat (sref_length x - ?p) = unat (sref_length x) - unat pos" by (simp only: unat_sub)
  then show "unat (sref_length (substr x pos n)) = min (unat n) (unat (sref_length x) - unat pos)"
    by (simp only: substr_def string_ref_ptr_def Let_def string_ref.simps word_less_nat_alt if_distrib [of unat]) auto
qed

lemma memcmp_views:
  assumes "valid x" "n + unat (sref_length x) \<le> length cs"
  shows "memcmp (drop n cs) (sref_data x) (unat (sref_length x)) = 0 \<longleftrightarrow>
    take (unat (sref_length x)) (drop n cs) = view x"
proof -
  have "unat (sref_length x) \<le> length (drop n cs)" using assms(2) by simp
  with assms(1) show ?thesis by (subst memcmp_zero) (auto simp: valid_def view_def)
qed

lemma std_search_le: "std_search xs s \<le> length xs"
  by (induction xs) auto

lemma std_search_before: "i < std_search xs s \<Longrightarrow> take (length s) (drop i xs) \<noteq> s"
proof (induction xs arbitrary: i)
  case (Cons c cs)
  then show ?case by (cases i) (auto split: if_splits)
qed simp

lemma std_search_found: "std_search xs s < length xs \<Longrightarrow> take (length s) (drop (std_search xs s) xs) = s"
  by (induction xs) (auto split: if_splits)

lemmas std_search_spec = std_search_le std_search_before std_search_found

lemma std_find_eq: "std_find c xs = std_search xs [c]"
  by (induction xs) (simp_all add: take_Cons')

section \<open>Properties\<close>

text \<open>
  C29: \<^verbatim>\<open>compare\<close> is the lexicographic order of the characters as unsigned bytes, so the six
  comparison operators are those of a linear order.
\<close>
theorem sref_compare_lexicographic:
  assumes "valid x" and "valid y"
  shows "string_ref_compare x y =
    (if view x < view y then -1 else if view x = view y then 0 else 1)"
proof -
  let ?n = "min (length (view x)) (length (view y))"
  have n: "unat (if sref_length x < sref_length y then sref_length x else sref_length y) = ?n"
    unfolding unat_min using assms by (simp only: length_view)
  have "take ?n (sref_data x) = take ?n (view x)" "take ?n (sref_data y) = take ?n (view y)"
    using assms by (auto intro!: take_data simp: length_view)
  moreover have "?n \<le> length (sref_data x)" "?n \<le> length (sref_data y)"
    using assms by (auto simp: valid_def view_def)
  ultimately have r: "memcmp (sref_data x) (sref_data y) ?n =
      (if take ?n (view x) < take ?n (view y) then -1
       else if take ?n (view x) = take ?n (view y) then 0 else 1)"
    by (simp only: memcmp_take)
  have len: "sref_length x < sref_length y \<longleftrightarrow> length (view x) < length (view y)"
    "sref_length y < sref_length x \<longleftrightarrow> length (view y) < length (view x)"
    using assms by (simp_all only: length_view word_less_nat_alt)
  have eq: "view x = view y \<longleftrightarrow> take ?n (view x) = take ?n (view y) \<and> length (view x) = length (view y)"
    by auto
  show ?thesis
    unfolding string_ref_compare_def Let_def n r
    unfolding len less_common_prefix [of "view x" "view y"] Let_def eq
    by (rule three_way)
qed

theorem sref_compare_lexicographic_witness:
  "string_ref_compare (string_ref_string ''ab'') (string_ref_string ''b'') = -1"
  using sref_compare_lexicographic [of "string_ref_string ''ab''" "string_ref_string ''b''"]
  by (simp add: less_char_def)

text \<open>
  \<^verbatim>\<open>substr\<close> never leaves the view, whatever position and count it is given, and yields the
  characters from the position on, at most the count: no sum of the two is computed that could
  wrap around.
\<close>
theorem sref_substr:
  assumes "valid x"
  shows "valid (substr x pos n) \<and> view (substr x pos n) = take (unat n) (drop (unat pos) (view x))"
proof (cases "unat pos \<le> unat (sref_length x)")
  case True
  with assms show ?thesis by (auto simp: valid_def view_def substr_fields drop_take min.commute min_le_iff_disj)
next
  case False
  with assms show ?thesis by (simp add: valid_def view_def substr_fields, linarith)
qed

theorem sref_substr_witness:
  "view (substr (string_ref_string ''grpc_lua'') 5 100) = ''lua''"
proof -
  have "valid (string_ref_string ''grpc_lua'')" by simp
  from sref_substr [OF this, of 5 100] show ?thesis by simp
qed

text \<open>\<^verbatim>\<open>starts_with\<close> and \<^verbatim>\<open>ends_with\<close> are the prefix and the suffix relation on the characters viewed.\<close>
theorem sref_starts_ends:
  assumes "valid this" and "valid x"
  shows "starts_with this x = prefix (view x) (view this) \<and> ends_with this x = suffix (view x) (view this)"
proof (cases "sref_length x \<le> sref_length this")
  case False
  then have "length (view this) < length (view x)"
    using assms by (simp add: length_view word_le_nat_alt)
  with False show ?thesis
    by (auto simp: starts_with_def ends_with_def dest: prefix_length_le suffix_length_le)
next
  case True
  then have le: "unat (sref_length x) \<le> unat (sref_length this)"
    and diff: "unat (sref_length this - sref_length x) = unat (sref_length this) - unat (sref_length x)"
    by (simp_all add: word_le_nat_alt unat_sub)
  have fits: "unat (sref_length this) \<le> length (sref_data this)" using assms(1) by (simp add: valid_def)
  have "take (unat (sref_length x)) (sref_data this) = take (length (view x)) (view this)"
    using le assms(2) by (simp add: length_view take_data)
  then have "starts_with this x \<longleftrightarrow> take (length (view x)) (view this) = view x"
    using True le fits memcmp_views [OF assms(2), of 0 "sref_data this"] by (simp add: starts_with_def)
  moreover have "take (unat (sref_length x)) (drop (unat (sref_length this) - unat (sref_length x)) (sref_data this)) =
      drop (length (view this) - length (view x)) (view this)"
    using le fits assms by (simp add: length_view) (simp add: view_def drop_take)
  then have "ends_with this x \<longleftrightarrow> drop (length (view this) - length (view x)) (view this) = view x"
    using True le fits memcmp_views [OF assms(2), of "unat (sref_length this) - unat (sref_length x)" "sref_data this"]
    by (simp add: ends_with_def diff)
  moreover have "length (view x) \<le> length (view this)" using le assms by (simp add: length_view)
  ultimately show ?thesis
    by (metis append_take_drop_id prefix_def suffix_def append_eq_conv_conj append_eq_append_conv length_drop
        diff_diff_cancel take_is_prefix suffix_drop)
qed

theorem sref_starts_ends_witness:
  "starts_with (string_ref_string ''grpc'') (string_ref_string ''gr'') \<and>
   ends_with (string_ref_string ''grpc'') (string_ref_string ''pc'')"
  using sref_starts_ends [of "string_ref_string ''grpc''" "string_ref_string ''gr''"]
    sref_starts_ends [of "string_ref_string ''grpc''" "string_ref_string ''pc''"]
  by (simp add: suffix_def)

text \<open>
  \<^verbatim>\<open>find\<close> yields the first position inside the view at which the string sought occurs, and
  \<open>npos\<close> if there is none. In an empty view there is no such position: not even the empty string
  is found there.
\<close>
theorem sref_find_first:
  assumes "valid this"
  shows "find_str this s = npos \<and> (\<forall>i < length (view this). take (length (view s)) (drop i (view this)) \<noteq> view s) \<or>
    (\<exists>i < length (view this). unat (find_str this s) = i \<and> take (length (view s)) (drop i (view this)) = view s \<and>
       (\<forall>j < i. take (length (view s)) (drop j (view this)) \<noteq> view s))"
proof (cases "std_search (view this) (view s) = length (view this)")
  case True
  with std_search_spec(2) [of _ "view this" "view s"] show ?thesis by (simp add: find_str_def)
next
  case False
  with std_search_spec(1) [of "view this" "view s"] have less: "std_search (view this) (view s) < length (view this)"
    by simp
  moreover have "length (view this) < 2 ^ 64" using assms by (simp add: valid_def view_def)
  ultimately have "unat (find_str this s) = std_search (view this) (view s)"
    by (simp add: find_str_def unat_of_nat)
  with less std_search_before [of _ "view this" "view s"] std_search_found [of "view this" "view s"] show ?thesis by auto
qed

theorem sref_find_first_witness:
  "find_str (string_ref_string []) (string_ref_string []) = npos"
  using sref_find_first [of "string_ref_string []" "string_ref_string []"] by simp

end
