(* ===== verification/Lua_Values.thy ===== *)
theory Lua_Values
  imports Prelude "HOL-Library.Word" "HOL-Library.AList"
begin

text \<open>
  The values that cross the border to Lua, as \<^verbatim>\<open>lua-intf/LuaIntf\<close> sees them: the types of
  \<^verbatim>\<open>LuaRef\<close>, the conversions of \<^verbatim>\<open>impl/LuaType.h\<close> in both directions, and C++ exceptions.

  The Lua library itself is not part of the sources. Its rules for converting between
  numbers and strings are the record \<open>C\<close>; the payload \<open>'f\<close> of a float is opaque. A table is the
  list of its entries in the order \<^verbatim>\<open>lua_next\<close> yields them, with no metatable; functions, threads and
  userdata are known by a number only. Tables that contain themselves are left out.
\<close>

section \<open>Exceptions\<close>

text \<open>
  A \<^verbatim>\<open>LuaException\<close> leaves a function without ending the process; it is a result of its own
  beside the value returned and the failed assertion.
\<close>

datatype 'a excepting = Returned 'a | Thrown string

type_synonym 'a exn = "'a excepting outcome"

definition ret :: "'a \<Rightarrow> 'a exn" where "ret x = Done (Returned x)"

definition throw :: "string \<Rightarrow> 'a exn" where "throw msg = Done (Thrown msg)"

definition bind_x :: "'a exn \<Rightarrow> ('a \<Rightarrow> 'b exn) \<Rightarrow> 'b exn" where
  "bind_x m f = bind_o m (\<lambda>r. case r of Returned x \<Rightarrow> f x | Thrown msg \<Rightarrow> Done (Thrown msg))"

lemma bind_x_simps [simp]:
  "bind_x (ret x) f = f x" "bind_x (throw msg) f = throw msg" "bind_x (Abort why) f = Abort why"
  by (simp_all add: bind_x_def ret_def throw_def)

lemma ret_inject [simp]: "ret x = ret y \<longleftrightarrow> x = y" "ret x \<noteq> throw msg" "throw msg \<noteq> ret x"
  "throw msg = throw msg' \<longleftrightarrow> msg = msg'" "Abort why \<noteq> ret x" "ret x \<noteq> Abort why"
  "Abort why \<noteq> throw msg" "throw msg \<noteq> Abort why"
  by (auto simp: ret_def throw_def)

lemma bind_x_ret: "bind_x m f = ret y \<longleftrightarrow> (\<exists>x. m = ret x \<and> f x = ret y)"
  by (cases m) (auto simp: bind_x_def ret_def split: excepting.splits)

lemma bind_x_assoc: "bind_x (bind_x m f) g = bind_x m (\<lambda>x. bind_x (f x) g)"
  by (cases m) (auto simp: bind_x_def split: excepting.splits)

lemma bind_x_cong [fundef_cong]:
  "m = m' \<Longrightarrow> (\<And>x. m' = ret x \<Longrightarrow> f x = f' x) \<Longrightarrow> bind_x m f = bind_x m' f'"
  by (cases m') (auto simp: bind_x_def ret_def split: excepting.splits)

text \<open>The computation neither aborts nor throws anything that does not satisfy \<open>Q\<close>.\<close>

fun holds_x :: "('a \<Rightarrow> bool) \<Rightarrow> (string \<Rightarrow> bool) \<Rightarrow> 'a exn \<Rightarrow> bool" where
  "holds_x P Q (Done (Returned x)) = P x"
| "holds_x P Q (Done (Thrown msg)) = Q msg"
| "holds_x P Q (Abort why) = False"

lemma holds_x_simps [simp]: "holds_x P Q (ret x) = P x" "holds_x P Q (throw msg) = Q msg"
  by (simp_all add: ret_def throw_def)

lemma holds_x_bind: "holds_x P Q (bind_x m f) \<longleftrightarrow> holds_x (\<lambda>x. holds_x P Q (f x)) Q m"
  by (cases m) (auto simp: bind_x_def split: excepting.splits)

lemma holds_x_bindI:
  "holds_x P Q m \<Longrightarrow> (\<And>x. m = ret x \<Longrightarrow> P x \<Longrightarrow> holds_x P' Q (f x)) \<Longrightarrow> holds_x P' Q (bind_x m f)"
  by (cases "(P, Q, m)" rule: holds_x.cases) (auto simp: bind_x_def ret_def)

lemma holds_x_mono:
  "holds_x P Q m \<Longrightarrow> (\<And>x. P x \<Longrightarrow> P' x) \<Longrightarrow> (\<And>e. Q e \<Longrightarrow> Q' e) \<Longrightarrow> holds_x P' Q' m"
  by (cases "(P, Q, m)" rule: holds_x.cases) auto

text \<open>A loop whose body may leave with an exception.\<close>

fun fold_x :: "('b \<Rightarrow> 'a \<Rightarrow> 'a exn) \<Rightarrow> 'b list \<Rightarrow> 'a \<Rightarrow> 'a exn" where
  "fold_x f [] a = ret a"
| "fold_x f (x # xs) a = bind_x (f x a) (fold_x f xs)"

lemma fold_x_cong [fundef_cong]:
  "xs = ys \<Longrightarrow> a = b \<Longrightarrow> (\<And>x c. x \<in> set ys \<Longrightarrow> f x c = g x c) \<Longrightarrow> fold_x f xs a = fold_x g ys b"
proof (induction xs arbitrary: ys a b)
  case (Cons x xs)
  then have "f x b = g x b" "\<And>c. fold_x f xs c = fold_x g xs c" by auto
  then have "f x b = g x b" "fold_x f xs = fold_x g xs" by (auto intro: ext)
  with Cons.prems(1,2) show ?case by auto
qed simp

lemma fold_x_append: "fold_x f (xs @ ys) a = bind_x (fold_x f xs a) (fold_x f ys)"
proof (induction xs arbitrary: a)
  case (Cons x xs)
  then have "fold_x f (xs @ ys) = (\<lambda>b. bind_x (fold_x f xs b) (fold_x f ys))" by (intro ext)
  then show ?case by (simp add: bind_x_assoc)
qed simp

lemma fold_x_holds:
  assumes "I a" and "\<And>x b. x \<in> set xs \<Longrightarrow> I b \<Longrightarrow> holds_x I Q (f x b)"
  shows "holds_x I Q (fold_x f xs a)"
  using assms
proof (induction xs arbitrary: a)
  case (Cons x xs)
  have "holds_x (\<lambda>b. holds_x I Q (fold_x f xs b)) Q (f x a)"
    by (rule holds_x_mono [where P = I and Q = Q]) (use Cons in auto)
  then show ?case by (simp add: holds_x_bind)
qed simp

section \<open>Values and their types\<close>

text \<open>
  A table is the list of its entries, taken by value, as the converters only read tables they are given and write tables they
  have made: finite trees, without metatables. A table that contains itself is not among them.
\<close>

datatype 'f lua =
    LNil
  | LBool bool
  | LInt "64 word"
  | LNum 'f
  | LStr string
  | LTable "('f lua \<times> 'f lua) list"
  | LFunction nat
  | LThread nat
  | LUserdata nat
  | LLightUserdata nat

datatype LuaTypeID =
  NONE | NIL | STRING | NUMBER | THREAD | BOOLEAN | FUNCTION | TABLE | USERDATA | LIGHTUSERDATA

fun LuaRef_type :: "'f lua \<Rightarrow> LuaTypeID" where
  "LuaRef_type LNil = NIL"
| "LuaRef_type (LBool b) = BOOLEAN"
| "LuaRef_type (LInt i) = NUMBER"
| "LuaRef_type (LNum f) = NUMBER"
| "LuaRef_type (LStr s) = STRING"
| "LuaRef_type (LTable t) = TABLE"
| "LuaRef_type (LFunction p) = FUNCTION"
| "LuaRef_type (LThread p) = THREAD"
| "LuaRef_type (LUserdata p) = USERDATA"
| "LuaRef_type (LLightUserdata p) = LIGHTUSERDATA"

definition LuaRef_typeName :: "'f lua \<Rightarrow> string" where
  "LuaRef_typeName v = (case LuaRef_type v of
     NONE \<Rightarrow> ''no value'' | NIL \<Rightarrow> ''nil'' | STRING \<Rightarrow> ''string'' | NUMBER \<Rightarrow> ''number''
   | THREAD \<Rightarrow> ''thread'' | BOOLEAN \<Rightarrow> ''boolean'' | FUNCTION \<Rightarrow> ''function'' | TABLE \<Rightarrow> ''table''
   | USERDATA \<Rightarrow> ''userdata'' | LIGHTUSERDATA \<Rightarrow> ''userdata'')"

definition LuaRef_isTable :: "'f lua \<Rightarrow> bool" where
  "LuaRef_isTable v \<longleftrightarrow> LuaRef_type v = TABLE"

definition LuaRef_checkTable :: "'f lua \<Rightarrow> unit exn" where
  "LuaRef_checkTable v = (if LuaRef_type v = TABLE then ret () else throw ''table expected'')"

text \<open>\<^verbatim>\<open>operator bool\<close>: the reference is valid and not nil, so \<^verbatim>\<open>false\<close> is true here.\<close>

definition LuaRef_bool :: "'f lua \<Rightarrow> bool" where
  "LuaRef_bool v \<longleftrightarrow> LuaRef_type v \<noteq> NIL"

text \<open>Raw access and the entries of a table.\<close>

fun lua_entries :: "'f lua \<Rightarrow> ('f lua \<times> 'f lua) list" where
  "lua_entries (LTable t) = t"
| "lua_entries v = []"

text \<open>Reading and writing a field; writing nil takes the entry out.\<close>

definition lua_get :: "'f lua \<Rightarrow> 'f lua \<Rightarrow> 'f lua" where
  "lua_get t k = (case map_of (lua_entries t) k of Some v \<Rightarrow> v | None \<Rightarrow> LNil)"

fun lua_set :: "'f lua \<Rightarrow> 'f lua \<Rightarrow> 'f lua \<Rightarrow> 'f lua" where
  "lua_set (LTable t) k v = LTable (if v = LNil then AList.delete k t else AList.update k v t)"
| "lua_set t k v = t"

lemma lua_get_set:
  "lua_get (lua_set (LTable t) k v) k' = (if k' = k then v else lua_get (LTable t) k')"
  by (auto simp: lua_get_def update_conv' delete_conv' split: option.splits)

lemma lua_set_table: "\<exists>t'. lua_set (LTable t) k v = LTable t'" by simp

text \<open>\<^verbatim>\<open>lua_settable\<close> refuses nil as a key.\<close>

definition lua_settable :: "'f lua \<Rightarrow> 'f lua \<Rightarrow> 'f lua \<Rightarrow> 'f lua exn" where
  "lua_settable t k v = (if k = LNil then throw ''index is nil'' else ret (lua_set t k v))"

section \<open>Conversions\<close>

record 'f lua_conv =
  num_to_int :: "'f \<Rightarrow> 64 word option"
  str_to_int :: "string \<Rightarrow> 64 word option"
  int_to_num :: "64 word \<Rightarrow> 'f"
  str_to_num :: "string \<Rightarrow> 'f option"
  int_to_str :: "64 word \<Rightarrow> string"
  num_to_str :: "'f \<Rightarrow> string"
  to_float :: "'f \<Rightarrow> 'f"
  lua_border :: "('f lua \<times> 'f lua) list \<Rightarrow> nat"

text \<open>\<^verbatim>\<open>len()\<close>, that is \<^verbatim>\<open>#t\<close>; which of several borders it is, is left to Lua.\<close>

definition lua_len :: "'f lua_conv \<Rightarrow> 'f lua \<Rightarrow> nat" where
  "lua_len C t = lua_border C (lua_entries t)"

fun luaL_checkinteger :: "'f lua_conv \<Rightarrow> 'f lua \<Rightarrow> 64 word exn" where
  "luaL_checkinteger C (LInt i) = ret i"
| "luaL_checkinteger C (LNum f) =
     (case num_to_int C f of Some i \<Rightarrow> ret i | None \<Rightarrow> throw ''number has no integer representation'')"
| "luaL_checkinteger C (LStr s) =
     (case str_to_int C s of Some i \<Rightarrow> ret i | None \<Rightarrow> throw ''number expected'')"
| "luaL_checkinteger C v = throw ''number expected''"

fun luaL_checknumber :: "'f lua_conv \<Rightarrow> 'f lua \<Rightarrow> 'f exn" where
  "luaL_checknumber C (LInt i) = ret (int_to_num C i)"
| "luaL_checknumber C (LNum f) = ret f"
| "luaL_checknumber C (LStr s) =
     (case str_to_num C s of Some f \<Rightarrow> ret f | None \<Rightarrow> throw ''number expected'')"
| "luaL_checknumber C v = throw ''number expected''"

fun luaL_checklstring :: "'f lua_conv \<Rightarrow> 'f lua \<Rightarrow> string exn" where
  "luaL_checklstring C (LStr s) = ret s"
| "luaL_checklstring C (LInt i) = ret (int_to_str C i)"
| "luaL_checklstring C (LNum f) = ret (num_to_str C f)"
| "luaL_checklstring C v = throw ''string expected''"

fun lua_toboolean :: "'f lua \<Rightarrow> bool" where
  "lua_toboolean LNil = False"
| "lua_toboolean (LBool b) = b"
| "lua_toboolean v = True"

text \<open>
  \<^verbatim>\<open>toValue<T>\<close>. The integer types share one mapping: fetch a \<^verbatim>\<open>lua_Integer\<close> and
  \<^verbatim>\<open>static_cast\<close> it, which keeps the low bits.
\<close>

definition toValue_int32 :: "'f lua_conv \<Rightarrow> 'f lua \<Rightarrow> 32 word exn" where
  "toValue_int32 C v = bind_x (luaL_checkinteger C v) (\<lambda>i. ret (ucast i))"

definition toValue_uint32 :: "'f lua_conv \<Rightarrow> 'f lua \<Rightarrow> 32 word exn" where
  "toValue_uint32 C v = bind_x (luaL_checkinteger C v) (\<lambda>i. ret (ucast i))"

definition toValue_int64 :: "'f lua_conv \<Rightarrow> 'f lua \<Rightarrow> 64 word exn" where
  "toValue_int64 C v = luaL_checkinteger C v"

definition toValue_uint64 :: "'f lua_conv \<Rightarrow> 'f lua \<Rightarrow> 64 word exn" where
  "toValue_uint64 C v = luaL_checkinteger C v"

definition toValue_double :: "'f lua_conv \<Rightarrow> 'f lua \<Rightarrow> 'f exn" where
  "toValue_double C v = luaL_checknumber C v"

definition toValue_float :: "'f lua_conv \<Rightarrow> 'f lua \<Rightarrow> 'f exn" where
  "toValue_float C v = bind_x (luaL_checknumber C v) (\<lambda>f. ret (to_float C f))"

definition toValue_bool :: "'f lua \<Rightarrow> bool exn" where
  "toValue_bool v = ret (lua_toboolean v)"

definition toValue_string :: "'f lua_conv \<Rightarrow> 'f lua \<Rightarrow> string exn" where
  "toValue_string C v = luaL_checklstring C v"

text \<open>\<^verbatim>\<open>LuaRefValue\<close>: signed types are sign-extended to a \<^verbatim>\<open>lua_Integer\<close>, unsigned ones zero-extended.\<close>

definition push_int32 :: "32 word \<Rightarrow> 'f lua" where "push_int32 i = LInt (scast i)"

definition push_uint32 :: "32 word \<Rightarrow> 'f lua" where "push_uint32 i = LInt (ucast i)"

definition push_int64 :: "64 word \<Rightarrow> 'f lua" where "push_int64 i = LInt i"

definition push_uint64 :: "64 word \<Rightarrow> 'f lua" where "push_uint64 i = LInt i"

definition push_string :: "string \<Rightarrow> 'f lua" where "push_string s = LStr s"

text \<open>The sizes of a table's parts, for recursions over values.\<close>

lemma size_lua_entry: "(k, v) \<in> set t \<Longrightarrow> size k + size v < size (LTable t)"
  by (induction t) auto

lemma entries_size: "(k, v) \<in> set (lua_entries t) \<Longrightarrow> size k + size v < size t"
  by (cases t) (auto dest: size_lua_entry)

lemma entries_size_value: "(k, v) \<in> set (lua_entries t) \<Longrightarrow> size v < size t"
  by (drule entries_size) simp

lemma lua_get_size: "size (lua_get v k) \<le> size v"
  unfolding lua_get_def
  by (cases v) (auto split: option.splits dest!: map_of_SomeD size_lua_entry)

end
