(* ===== verification/Pb_Reflection.thy ===== *)
theory Pb_Reflection
  imports Lua_Values
begin

text \<open>
  The part of protobuf that \<^verbatim>\<open>pb/MessageSetter.cpp\<close>, \<^verbatim>\<open>pb/MsgToTbl.cpp\<close> and
  \<^verbatim>\<open>pb/LuaPbIntfImpl.cpp\<close> call: descriptors, reflection, and the wire format. The library is not
  part of the sources, so messages have an abstract type \<open>'m\<close> and the functions are the record
  \<open>R\<close>. What the code relies on is the predicate \<open>reflection_ok\<close>, stated over the content
  of each field; it takes up protobuf's documentation of \<^verbatim>\<open>Reflection\<close>, \<^verbatim>\<open>Descriptor\<close> and proto3 defaults.
\<close>

section \<open>Descriptors and scalar values\<close>

datatype CppType =
    CPPTYPE_INT32 | CPPTYPE_INT64 | CPPTYPE_UINT32 | CPPTYPE_UINT64 | CPPTYPE_DOUBLE
  | CPPTYPE_FLOAT | CPPTYPE_BOOL | CPPTYPE_ENUM | CPPTYPE_STRING | CPPTYPE_MESSAGE | CPPTYPE_UNKNOWN

record FieldDescriptor =
  fd_name :: string
  fd_full_name :: string
  fd_is_repeated :: bool
  fd_is_map :: bool
  fd_cpp_type :: CppType
  fd_containing_oneof :: "nat option"

text \<open>A \<^verbatim>\<open>Descriptor\<close> is the list of its fields, \<^verbatim>\<open>field(0)\<close> to \<^verbatim>\<open>field(field_count() - 1)\<close>.\<close>

type_synonym Descriptor = "FieldDescriptor list"

datatype 'f pb_value =
    VInt32 "32 word" | VInt64 "64 word" | VUInt32 "32 word" | VUInt64 "64 word" | VDouble 'f
  | VFloat 'f | VBool bool | VEnum "32 word" | VString string

fun value_type :: "'f pb_value \<Rightarrow> CppType" where
  "value_type (VInt32 i) = CPPTYPE_INT32"
| "value_type (VInt64 i) = CPPTYPE_INT64"
| "value_type (VUInt32 i) = CPPTYPE_UINT32"
| "value_type (VUInt64 i) = CPPTYPE_UINT64"
| "value_type (VDouble d) = CPPTYPE_DOUBLE"
| "value_type (VFloat d) = CPPTYPE_FLOAT"
| "value_type (VBool b) = CPPTYPE_BOOL"
| "value_type (VEnum i) = CPPTYPE_ENUM"
| "value_type (VString s) = CPPTYPE_STRING"

definition is_scalar_type :: "CppType \<Rightarrow> bool" where
  "is_scalar_type t \<longleftrightarrow> t \<noteq> CPPTYPE_MESSAGE \<and> t \<noteq> CPPTYPE_UNKNOWN"

lemma value_type_scalar [simp]: "is_scalar_type (value_type x)"
  by (cases x) (simp_all add: is_scalar_type_def)

section \<open>The library\<close>

text \<open>
  One function stands for the family \<^verbatim>\<open>SetInt32\<close>, \<^verbatim>\<open>SetInt64\<close> and so on, its value carrying the type.
  \<^verbatim>\<open>MutableMessage\<close> and \<^verbatim>\<open>AddMessage\<close> give out a pointer into the parent: the pair of reading the
  submessage and storing it back (\<open>pb_SetMessage\<close>, \<open>pb_AddMessage\<close>) stands for it. A missing
  descriptor, reflection or message is \<open>None\<close> or \<open>False\<close>.
\<close>

record ('m, 'f) protobuf =
  pb_GetDescriptor :: "'m \<Rightarrow> Descriptor option"
  pb_GetReflection :: "'m \<Rightarrow> bool"
  pb_GetTypeName :: "'m \<Rightarrow> string"
  pb_FindFieldByName :: "Descriptor \<Rightarrow> string \<Rightarrow> FieldDescriptor option"
  pb_FindValueByName :: "FieldDescriptor \<Rightarrow> string \<Rightarrow> 32 word option"
  pb_CppTypeName :: "CppType \<Rightarrow> string"
  pb_Get :: "'m \<Rightarrow> FieldDescriptor \<Rightarrow> 'f pb_value"
  pb_Set :: "FieldDescriptor \<Rightarrow> 'f pb_value \<Rightarrow> 'm \<Rightarrow> 'm"
  pb_FieldSize :: "'m \<Rightarrow> FieldDescriptor \<Rightarrow> nat"
  pb_GetRepeated :: "'m \<Rightarrow> FieldDescriptor \<Rightarrow> nat \<Rightarrow> 'f pb_value"
  pb_Add :: "FieldDescriptor \<Rightarrow> 'f pb_value \<Rightarrow> 'm \<Rightarrow> 'm"
  pb_HasField :: "'m \<Rightarrow> FieldDescriptor \<Rightarrow> bool"
  pb_GetMessage :: "'m \<Rightarrow> FieldDescriptor \<Rightarrow> 'm"
  pb_MutableMessage :: "'m \<Rightarrow> FieldDescriptor \<Rightarrow> 'm option"
  pb_SetMessage :: "FieldDescriptor \<Rightarrow> 'm \<Rightarrow> 'm \<Rightarrow> 'm"
  pb_GetRepeatedMessage :: "'m \<Rightarrow> FieldDescriptor \<Rightarrow> nat \<Rightarrow> 'm"
  pb_NewElement :: "'m \<Rightarrow> FieldDescriptor \<Rightarrow> 'm option"
  pb_AddMessage :: "FieldDescriptor \<Rightarrow> 'm \<Rightarrow> 'm \<Rightarrow> 'm"
  pb_GetOneofFieldDescriptor :: "'m \<Rightarrow> nat \<Rightarrow> FieldDescriptor option"
  pb_SerializeAsString :: "'m \<Rightarrow> string"
  pb_ParseFromString :: "string \<Rightarrow> 'm \<Rightarrow> 'm option"

text \<open>
  Reflection checks that the accessor fits the field, and ends the process otherwise.
\<close>

definition SetScalar ::
  "('m, 'f) protobuf \<Rightarrow> FieldDescriptor \<Rightarrow> 'f pb_value \<Rightarrow> 'm \<Rightarrow> 'm exn" where
  "SetScalar R f x m =
     assert_o (value_type x = fd_cpp_type f \<and> \<not> fd_is_repeated f) ''reflection: wrong accessor''
       (ret (pb_Set R f x m))"

definition AddScalar ::
  "('m, 'f) protobuf \<Rightarrow> FieldDescriptor \<Rightarrow> 'f pb_value \<Rightarrow> 'm \<Rightarrow> 'm exn" where
  "AddScalar R f x m =
     assert_o (value_type x = fd_cpp_type f \<and> fd_is_repeated f) ''reflection: wrong accessor''
       (ret (pb_Add R f x m))"

section \<open>What is relied on\<close>

text \<open>The content of a field: a single value, a possibly absent message, or a list.\<close>

datatype ('m, 'f) content =
  Single "'f pb_value" | Sub "'m option" | Many "'f pb_value list" | Subs "'m list"

fun content_fits :: "FieldDescriptor \<Rightarrow> ('m, 'f) content \<Rightarrow> bool" where
  "content_fits f (Single x) \<longleftrightarrow> \<not> fd_is_repeated f \<and> value_type x = fd_cpp_type f"
| "content_fits f (Sub s) \<longleftrightarrow> \<not> fd_is_repeated f \<and> fd_cpp_type f = CPPTYPE_MESSAGE"
| "content_fits f (Many xs) \<longleftrightarrow> fd_is_repeated f \<and> \<not> fd_is_map f \<and> (\<forall>x \<in> set xs. value_type x = fd_cpp_type f)
     \<and> is_scalar_type (fd_cpp_type f)"
| "content_fits f (Subs ss) \<longleftrightarrow> fd_is_repeated f \<and> fd_cpp_type f = CPPTYPE_MESSAGE"

fun submessages :: "('m, 'f) content \<Rightarrow> 'm list" where
  "submessages (Single x) = []"
| "submessages (Sub s) = opt_list s"
| "submessages (Many xs) = []"
| "submessages (Subs ss) = ss"

text \<open>
  \<open>view m f\<close> is the content of field \<open>f\<close> of \<open>m\<close> and \<open>valid\<close> says which messages
  occur. The names of a descriptor's fields are distinct, a map field is a repeated message field
  whose entries have the fields \<^verbatim>\<open>key\<close> and \<^verbatim>\<open>value\<close>, an element or submessage that is created is itself valid,
  and an operation changes the content of its field and of no field outside the field's oneof.
\<close>

definition descriptor_ok :: "('m, 'f) protobuf \<Rightarrow> Descriptor \<Rightarrow> bool" where
  "descriptor_ok R D \<longleftrightarrow> distinct (map fd_name D) \<and>
     (\<forall>s. pb_FindFieldByName R D s = List.find (\<lambda>f. fd_name f = s) D) \<and>
     (\<forall>f \<in> set D. fd_is_map f \<longrightarrow> fd_is_repeated f \<and> fd_cpp_type f = CPPTYPE_MESSAGE) \<and>
     (\<forall>f \<in> set D. fd_containing_oneof f \<noteq> None \<longrightarrow> \<not> fd_is_repeated f)"

definition frames :: "FieldDescriptor \<Rightarrow> ('m, 'f) content \<Rightarrow> (FieldDescriptor \<Rightarrow> ('m, 'f) content) \<Rightarrow>
    (FieldDescriptor \<Rightarrow> ('m, 'f) content) \<Rightarrow> bool" where
  "frames f c old new \<longleftrightarrow> new f = c \<and>
     (\<forall>g. g \<noteq> f \<and> (fd_containing_oneof g = None \<or> fd_containing_oneof g \<noteq> fd_containing_oneof f) \<longrightarrow>
       new g = old g)"

type_synonym ('m, 'f) contents = "'m \<Rightarrow> FieldDescriptor \<Rightarrow> ('m, 'f) content"

definition map_entry_ok :: "('m, 'f) protobuf \<Rightarrow> 'm \<Rightarrow> bool" where
  "map_entry_ok R entry \<longleftrightarrow> (\<forall>D. pb_GetDescriptor R entry = Some D \<longrightarrow>
     (\<exists>k \<in> set D. \<exists>v \<in> set D. fd_name k = ''key'' \<and> fd_name v = ''value'' \<and>
        \<not> fd_is_repeated k \<and> is_scalar_type (fd_cpp_type k) \<and> fd_containing_oneof k = None \<and> \<not> fd_is_repeated v))"

definition field_read :: "('m, 'f) protobuf \<Rightarrow> ('m \<Rightarrow> bool) \<Rightarrow> ('m, 'f) contents \<Rightarrow> 'm \<Rightarrow> FieldDescriptor \<Rightarrow> bool" where
  "field_read R valid view m f \<longleftrightarrow>
     content_fits f (view m f) \<and>
     (\<forall>s \<in> set (submessages (view m f)). valid s \<and> (fd_is_map f \<longrightarrow> map_entry_ok R s)) \<and>
     (case view m f of
        Single x \<Rightarrow> pb_Get R m f = x
      | Sub s \<Rightarrow> pb_HasField R m f = (s \<noteq> None) \<and> (\<forall>s'. s = Some s' \<longrightarrow> pb_GetMessage R m f = s')
      | Many xs \<Rightarrow> pb_FieldSize R m f = length xs \<and> (\<forall>i < length xs. pb_GetRepeated R m f i = xs ! i)
      | Subs ss \<Rightarrow> pb_FieldSize R m f = length ss \<and> (\<forall>i < length ss. pb_GetRepeatedMessage R m f i = ss ! i))"

definition descriptor_read :: "('m, 'f) protobuf \<Rightarrow> ('m \<Rightarrow> bool) \<Rightarrow> ('m, 'f) contents \<Rightarrow> 'm \<Rightarrow> Descriptor \<Rightarrow> bool" where
  "descriptor_read R valid view m D \<longleftrightarrow> descriptor_ok R D \<and> (\<forall>f \<in> set D. field_read R valid view m f) \<and>
     (\<forall>n g. pb_GetOneofFieldDescriptor R m n = Some g \<longrightarrow> g \<in> set D \<and> fd_containing_oneof g = Some n)"

definition reads_ok :: "('m, 'f) protobuf \<Rightarrow> ('m \<Rightarrow> bool) \<Rightarrow> ('m, 'f) contents \<Rightarrow> bool" where
  "reads_ok R valid view \<longleftrightarrow> (\<forall>m. valid m \<longrightarrow> pb_GetReflection R m \<and>
     (\<exists>D. pb_GetDescriptor R m = Some D \<and> descriptor_read R valid view m D))"

definition same_message :: "('m, 'f) protobuf \<Rightarrow> ('m \<Rightarrow> bool) \<Rightarrow> 'm \<Rightarrow> 'm \<Rightarrow> bool" where
  "same_message R valid m m' \<longleftrightarrow> valid m' \<and> pb_GetDescriptor R m' = pb_GetDescriptor R m"

definition written :: "('m, 'f) protobuf \<Rightarrow> ('m \<Rightarrow> bool) \<Rightarrow> ('m, 'f) contents \<Rightarrow> 'm \<Rightarrow> FieldDescriptor \<Rightarrow>
    ('m, 'f) content \<Rightarrow> 'm \<Rightarrow> bool" where
  "written R valid view m f c m' \<longleftrightarrow> same_message R valid m m' \<and> frames f c (view m) (view m')"

definition field_write :: "('m, 'f) protobuf \<Rightarrow> ('m \<Rightarrow> bool) \<Rightarrow> ('m, 'f) contents \<Rightarrow> 'm \<Rightarrow> FieldDescriptor \<Rightarrow> bool" where
  "field_write R valid view m f \<longleftrightarrow>
     (\<forall>x. content_fits f (Single x :: ('m, 'f) content) \<longrightarrow> written R valid view m f (Single x) (pb_Set R f x m)) \<and>
     (\<forall>x xs. view m f = Many xs \<and> value_type x = fd_cpp_type f \<longrightarrow>
        written R valid view m f (Many (xs @ [x])) (pb_Add R f x m)) \<and>
     (\<forall>s. view m f = Sub s \<longrightarrow>
        (\<exists>sub. pb_MutableMessage R m f = Some sub \<and> valid sub \<and> (\<forall>s'. s = Some s' \<longrightarrow> sub = s') \<and>
           (\<forall>sub'. same_message R valid sub sub' \<longrightarrow>
              written R valid view m f (Sub (Some sub')) (pb_SetMessage R f sub' m)))) \<and>
     (\<forall>ss. view m f = Subs ss \<longrightarrow>
        (\<exists>new. pb_NewElement R m f = Some new \<and> valid new \<and> (fd_is_map f \<longrightarrow> map_entry_ok R new) \<and>
           (\<forall>new'. same_message R valid new new' \<longrightarrow>
              written R valid view m f (Subs (ss @ [new'])) (pb_AddMessage R f new' m))))"

definition writes_ok :: "('m, 'f) protobuf \<Rightarrow> ('m \<Rightarrow> bool) \<Rightarrow> ('m, 'f) contents \<Rightarrow> bool" where
  "writes_ok R valid view \<longleftrightarrow> (\<forall>m D f. valid m \<and> pb_GetDescriptor R m = Some D \<and> f \<in> set D \<longrightarrow>
     field_write R valid view m f)"

definition reflection_ok ::
  "('m, 'f) protobuf \<Rightarrow> ('m \<Rightarrow> bool) \<Rightarrow> ('m, 'f) contents \<Rightarrow> bool" where
  "reflection_ok R valid view \<longleftrightarrow> reads_ok R valid view \<and> writes_ok R valid view"

section \<open>Consequences\<close>

text \<open>\<open>keeps R valid view D m\<close>: a valid message with the fields \<open>D\<close>, of a library that does what is relied on.\<close>

definition keeps :: "('m, 'f) protobuf \<Rightarrow> ('m \<Rightarrow> bool) \<Rightarrow> ('m, 'f) contents \<Rightarrow>
    Descriptor \<Rightarrow> 'm \<Rightarrow> bool" where
  "keeps R valid view D m \<longleftrightarrow> reflection_ok R valid view \<and> valid m \<and> pb_GetDescriptor R m = Some D"

lemma keepsD: "keeps R valid view D m \<Longrightarrow> valid m" "keeps R valid view D m \<Longrightarrow> pb_GetDescriptor R m = Some D"
  "keeps R valid view D m \<Longrightarrow> reflection_ok R valid view"
  by (simp_all add: keeps_def)

lemma keeps_read:
  assumes "keeps R valid view D m"
  shows "descriptor_read R valid view m D" "pb_GetReflection R m"
  using assms unfolding keeps_def reflection_ok_def reads_ok_def by fastforce+

lemma valid_keeps: "reflection_ok R valid view \<Longrightarrow> valid m \<Longrightarrow> \<exists>D. keeps R valid view D m"
  unfolding keeps_def reflection_ok_def reads_ok_def by blast

lemma keeps_descriptor: "keeps R valid view D m \<Longrightarrow> descriptor_ok R D"
  by (drule keeps_read(1)) (simp add: descriptor_read_def)

lemma keeps_field_read: "keeps R valid view D m \<Longrightarrow> f \<in> set D \<Longrightarrow> field_read R valid view m f"
  by (drule keeps_read(1)) (simp add: descriptor_read_def)

lemma keeps_fits: "keeps R valid view D m \<Longrightarrow> f \<in> set D \<Longrightarrow> content_fits f (view m f)"
  by (drule (1) keeps_field_read) (simp add: field_read_def)

lemma keeps_field_write: "keeps R valid view D m \<Longrightarrow> f \<in> set D \<Longrightarrow> field_write R valid view m f"
  unfolding keeps_def reflection_ok_def writes_ok_def by blast

lemma same_message_keeps: "keeps R valid view D m \<Longrightarrow> same_message R valid m m' \<longleftrightarrow> keeps R valid view D m'"
  by (auto simp: keeps_def same_message_def)

lemma written_keeps: "keeps R valid view D m \<Longrightarrow> written R valid view m f c m' \<Longrightarrow> keeps R valid view D m'"
  by (auto simp: keeps_def same_message_def written_def)

lemma find_field:
  assumes "keeps R valid view D m" "pb_FindFieldByName R D s = Some f"
  shows "f \<in> set D" "fd_name f = s"
proof -
  have "List.find (\<lambda>f. fd_name f = s) D = Some f"
    using keeps_descriptor [OF assms(1)] assms(2) by (simp add: descriptor_ok_def)
  then show "f \<in> set D" "fd_name f = s" by (auto simp: find_Some_iff)
qed

lemma find_field_by_name:
  assumes "keeps R valid view D m" "f \<in> set D"
  shows "pb_FindFieldByName R D (fd_name f) = Some f"
proof -
  have d: "distinct (map fd_name D)" "pb_FindFieldByName R D (fd_name f) = List.find (\<lambda>g. fd_name g = fd_name f) D"
    using keeps_descriptor [OF assms(1)] by (simp_all add: descriptor_ok_def)
  from d(1) assms(2) have "List.find (\<lambda>g. fd_name g = fd_name f) D = Some f"
    by (induction D) auto
  with d(2) show ?thesis by simp
qed

lemma find_field_None:
  "keeps R valid view D m \<Longrightarrow> pb_FindFieldByName R D s = None \<longleftrightarrow> s \<notin> fd_name ` set D"
  by (drule keeps_descriptor) (auto simp: descriptor_ok_def find_None_iff)

lemma view_single:
  assumes "keeps R valid view D m" "f \<in> set D" "\<not> fd_is_repeated f" "is_scalar_type (fd_cpp_type f)"
  obtains x where "view m f = Single x"
  using keeps_fits [OF assms(1,2)] assms(3,4) by (cases "view m f") (auto simp: is_scalar_type_def)

lemma view_sub:
  assumes "keeps R valid view D m" "f \<in> set D" "\<not> fd_is_repeated f" "fd_cpp_type f = CPPTYPE_MESSAGE"
  obtains s where "view m f = Sub s"
  using keeps_fits [OF assms(1,2)] assms(3,4) value_type_scalar
  by (cases "view m f") (auto simp: is_scalar_type_def)

lemma view_many:
  assumes "keeps R valid view D m" "f \<in> set D" "fd_is_repeated f" "is_scalar_type (fd_cpp_type f)"
  obtains xs where "view m f = Many xs"
  using keeps_fits [OF assms(1,2)] assms(3,4) by (cases "view m f") (auto simp: is_scalar_type_def)

lemma view_subs:
  assumes "keeps R valid view D m" "f \<in> set D" "fd_is_repeated f" "fd_cpp_type f = CPPTYPE_MESSAGE"
  obtains ss where "view m f = Subs ss"
  using keeps_fits [OF assms(1,2)] assms(3,4) by (cases "view m f") (auto simp: is_scalar_type_def)

lemma write_single:
  assumes "keeps R valid view D m" "f \<in> set D" "\<not> fd_is_repeated f" "value_type x = fd_cpp_type f"
  shows "written R valid view m f (Single x) (pb_Set R f x m)"
  using keeps_field_write [OF assms(1,2)] assms(3,4) unfolding field_write_def by simp

lemma write_many:
  assumes "keeps R valid view D m" "f \<in> set D" "view m f = Many xs" "value_type x = fd_cpp_type f"
  shows "written R valid view m f (Many (xs @ [x])) (pb_Add R f x m)"
  using keeps_field_write [OF assms(1,2)] assms(3,4) unfolding field_write_def by simp

lemma write_sub:
  assumes "keeps R valid view D m" "f \<in> set D" "view m f = Sub s"
  obtains sub D' where "pb_MutableMessage R m f = Some sub" "keeps R valid view D' sub"
    "\<And>s'. s = Some s' \<Longrightarrow> sub = s'"
    "\<And>sub'. keeps R valid view D' sub' \<Longrightarrow> written R valid view m f (Sub (Some sub')) (pb_SetMessage R f sub' m)"
proof -
  from keeps_field_write [OF assms(1,2)] assms(3) obtain sub where
    sub: "pb_MutableMessage R m f = Some sub" "valid sub" "\<And>s'. s = Some s' \<Longrightarrow> sub = s'"
    "\<And>sub'. same_message R valid sub sub' \<Longrightarrow> written R valid view m f (Sub (Some sub')) (pb_SetMessage R f sub' m)"
    unfolding field_write_def by blast
  from valid_keeps [OF keepsD(3) [OF assms(1)] sub(2)] obtain D' where "keeps R valid view D' sub" by blast
  with sub show ?thesis by (intro that [of sub D']) (simp_all add: same_message_keeps)
qed

lemma write_subs:
  assumes "keeps R valid view D m" "f \<in> set D" "view m f = Subs ss"
  obtains new D' where "pb_NewElement R m f = Some new" "keeps R valid view D' new"
    "fd_is_map f \<Longrightarrow> map_entry_ok R new"
    "\<And>new'. keeps R valid view D' new' \<Longrightarrow> written R valid view m f (Subs (ss @ [new'])) (pb_AddMessage R f new' m)"
proof -
  from keeps_field_write [OF assms(1,2)] assms(3)
  have "\<exists>new. pb_NewElement R m f = Some new \<and> valid new \<and> (fd_is_map f \<longrightarrow> map_entry_ok R new) \<and>
      (\<forall>new'. same_message R valid new new' \<longrightarrow> written R valid view m f (Subs (ss @ [new'])) (pb_AddMessage R f new' m))"
    by (simp add: field_write_def)
  then obtain new where
    new: "pb_NewElement R m f = Some new" "valid new" "fd_is_map f \<longrightarrow> map_entry_ok R new"
    "\<forall>new'. same_message R valid new new' \<longrightarrow> written R valid view m f (Subs (ss @ [new'])) (pb_AddMessage R f new' m)"
    by (elim exE conjE) (erule that)
  from valid_keeps [OF keepsD(3) [OF assms(1)] new(2)] obtain D' where k: "keeps R valid view D' new" by blast
  show ?thesis by (rule that [OF new(1) k mp [OF new(3)]]) (use new(4) in \<open>simp_all add: same_message_keeps [OF k]\<close>)
qed

end
