(* ===== verification/Pb_Setter.thy ===== *)
theory Pb_Setter
  imports Pb_Reflection
begin

text \<open>
  \<^verbatim>\<open>pb/MessageSetter.cpp\<close>: writing a Lua table into a protobuf message. The message is passed on as
  it is built; when an exception is thrown the half-built message is dropped by the only caller,
  \<^verbatim>\<open>LuaPbIntfImpl::Encode\<close>, so it is not part of the result.
\<close>

section \<open>The setter\<close>

text \<open>The constructor: yields \<^verbatim>\<open>m_pDesc\<close>, the message and its reflection being at hand.\<close>

definition MessageSetter_new :: "('m, 'f) protobuf \<Rightarrow> 'm \<Rightarrow> Descriptor exn" where
  "MessageSetter_new R rMsg = (case pb_GetDescriptor R rMsg of
     None \<Rightarrow> throw (''Message '' @ pb_GetTypeName R rMsg @ '' has no descriptor.'')
   | Some D \<Rightarrow>
       if \<not> pb_GetReflection R rMsg
       then throw (''Message '' @ pb_GetTypeName R rMsg @ '' has no reflection.'')
       else ret D)"

definition GetEnumValue ::
  "'f lua_conv \<Rightarrow> ('m, 'f) protobuf \<Rightarrow> 'f lua \<Rightarrow> FieldDescriptor \<Rightarrow> 32 word exn" where
  "GetEnumValue C R luaValue field =
     (if LuaRef_type luaValue \<noteq> STRING then toValue_int32 C luaValue
      else bind_x (toValue_string C luaValue) (\<lambda>sEnum.
        assert_o (fd_cpp_type field = CPPTYPE_ENUM) ''field.cpp_type() == CPPTYPE_ENUM''
          (case pb_FindValueByName R field sEnum of
             Some number \<Rightarrow> ret number
           | None \<Rightarrow> toValue_int32 C luaValue)))"

text \<open>The nine scalar cases of the two switches: the value that is passed to \<^verbatim>\<open>Set\<close> or \<^verbatim>\<open>Add\<close>.\<close>

definition scalar_argument ::
  "'f lua_conv \<Rightarrow> ('m, 'f) protobuf \<Rightarrow> FieldDescriptor \<Rightarrow> 'f lua \<Rightarrow> 'f pb_value exn" where
  "scalar_argument C R field luaValue = (case fd_cpp_type field of
     CPPTYPE_INT32 \<Rightarrow> bind_x (toValue_int32 C luaValue) (\<lambda>x. ret (VInt32 x))
   | CPPTYPE_INT64 \<Rightarrow> bind_x (toValue_int64 C luaValue) (\<lambda>x. ret (VInt64 x))
   | CPPTYPE_UINT32 \<Rightarrow> bind_x (toValue_uint32 C luaValue) (\<lambda>x. ret (VUInt32 x))
   | CPPTYPE_UINT64 \<Rightarrow> bind_x (toValue_uint64 C luaValue) (\<lambda>x. ret (VUInt64 x))
   | CPPTYPE_DOUBLE \<Rightarrow> bind_x (toValue_double C luaValue) (\<lambda>x. ret (VDouble x))
   | CPPTYPE_FLOAT \<Rightarrow> bind_x (toValue_float C luaValue) (\<lambda>x. ret (VFloat x))
   | CPPTYPE_BOOL \<Rightarrow> bind_x (toValue_bool luaValue) (\<lambda>x. ret (VBool x))
   | CPPTYPE_ENUM \<Rightarrow> bind_x (GetEnumValue C R luaValue field) (\<lambda>x. ret (VEnum x))
   | CPPTYPE_STRING \<Rightarrow> bind_x (toValue_string C luaValue) (\<lambda>x. ret (VString x))
   | CPPTYPE_MESSAGE \<Rightarrow> Abort ''no scalar case''
   | CPPTYPE_UNKNOWN \<Rightarrow> Abort ''no scalar case'')"

definition expects_table :: "FieldDescriptor \<Rightarrow> 'f lua \<Rightarrow> string" where
  "expects_table field luaValue =
     ''Field '' @ fd_full_name field @ '' expects a table but got a '' @ LuaRef_typeName luaValue"

definition unknown_field_type :: "('m, 'f) protobuf \<Rightarrow> FieldDescriptor \<Rightarrow> string" where
  "unknown_field_type R field =
     ''Unknown field type '' @ pb_CppTypeName R (fd_cpp_type field) @ '' of '' @ fd_full_name field"

function SetField :: "'f lua_conv \<Rightarrow> ('m, 'f) protobuf \<Rightarrow> Descriptor \<Rightarrow> string \<Rightarrow> 'f lua \<Rightarrow> 'm \<Rightarrow> 'm exn"
  and SetMsg :: "'f lua_conv \<Rightarrow> ('m, 'f) protobuf \<Rightarrow> Descriptor \<Rightarrow> 'f lua \<Rightarrow> 'm \<Rightarrow> 'm exn"
  and SetRepeatedField :: "'f lua_conv \<Rightarrow> ('m, 'f) protobuf \<Rightarrow> FieldDescriptor \<Rightarrow> 'f lua \<Rightarrow> 'm \<Rightarrow> 'm exn"
  and SetRepeatedMapField :: "'f lua_conv \<Rightarrow> ('m, 'f) protobuf \<Rightarrow> FieldDescriptor \<Rightarrow> 'f lua \<Rightarrow> 'm \<Rightarrow> 'm exn"
  and AddToRepeatedField :: "'f lua_conv \<Rightarrow> ('m, 'f) protobuf \<Rightarrow> FieldDescriptor \<Rightarrow> 'f lua \<Rightarrow> 'm \<Rightarrow> 'm exn"
  and AddToMapField :: "'f lua_conv \<Rightarrow> ('m, 'f) protobuf \<Rightarrow> FieldDescriptor \<Rightarrow> 'f lua \<Rightarrow> 'f lua \<Rightarrow> 'm \<Rightarrow> 'm exn"
where
  "SetField C R m_pDesc sField luaValue m = (case pb_FindFieldByName R m_pDesc sField of
     None \<Rightarrow> throw (''Message '' @ pb_GetTypeName R m @ '' has no field: '' @ sField)
   | Some pField \<Rightarrow>
       if fd_is_repeated pField then SetRepeatedField C R pField luaValue m
       else if fd_cpp_type pField = CPPTYPE_MESSAGE then
         (if LuaRef_isTable luaValue then
            (case pb_MutableMessage R m pField of
               None \<Rightarrow> Abort ''pSubMsg''
             | Some pSubMsg \<Rightarrow> bind_x (MessageSetter_new R pSubMsg) (\<lambda>subDesc.
                 bind_x (SetMsg C R subDesc luaValue pSubMsg) (\<lambda>sub. ret (pb_SetMessage R pField sub m))))
          else throw (expects_table pField luaValue))
       else if fd_cpp_type pField = CPPTYPE_UNKNOWN then throw (unknown_field_type R pField)
       else bind_x (scalar_argument C R pField luaValue) (\<lambda>x. SetScalar R pField x m))"
| "SetMsg C R m_pDesc luaTable m =
     assert_o (LuaRef_isTable luaTable) ''luaTable.isTable()''
       (fold_x (\<lambda>(key, val) m.
          if LuaRef_type key \<noteq> STRING then ret m
          else bind_x (toValue_string C key) (\<lambda>sKey. SetField C R m_pDesc sKey val m))
        (lua_entries luaTable) m)"
| "SetRepeatedField C R field luaTable m =
     assert_o (fd_is_repeated field) ''field.is_repeated()''
       (if \<not> LuaRef_isTable luaTable then throw (expects_table field luaTable)
        else if fd_is_map field then SetRepeatedMapField C R field luaTable m
        else fold_x (\<lambda>index m. AddToRepeatedField C R field (lua_get luaTable (LInt (word_of_nat index))) m)
               [1..<lua_len C luaTable + 1] m)"
| "SetRepeatedMapField C R field luaTable m =
     assert_o (fd_is_repeated field) ''field.is_repeated()''
    (assert_o (fd_is_map field) ''field.is_map()''
    (assert_o (LuaRef_isTable luaTable) ''luaTable.isTable()''
       (fold_x (\<lambda>(key, val) m. AddToMapField C R field key val m) (lua_entries luaTable) m)))"
| "AddToRepeatedField C R field luaValue m =
     assert_o (fd_is_repeated field) ''field.is_repeated()''
    (assert_o (\<not> fd_is_map field) ''!field.is_map()''
      (if fd_cpp_type field = CPPTYPE_MESSAGE then
         (if LuaRef_isTable luaValue then
            (case pb_NewElement R m field of
               None \<Rightarrow> Abort ''pSubMsg''
             | Some pSubMsg \<Rightarrow> bind_x (MessageSetter_new R pSubMsg) (\<lambda>subDesc.
                 bind_x (SetMsg C R subDesc luaValue pSubMsg) (\<lambda>sub. ret (pb_AddMessage R field sub m))))
          else throw (expects_table field luaValue))
       else if fd_cpp_type field = CPPTYPE_UNKNOWN then throw (unknown_field_type R field)
       else bind_x (scalar_argument C R field luaValue) (\<lambda>x. AddScalar R field x m)))"
| "AddToMapField C R field key val m =
     assert_o (fd_is_repeated field) ''field.is_repeated()''
    (assert_o (fd_is_map field) ''field.is_map()''
    (assert_o (fd_cpp_type field = CPPTYPE_MESSAGE) ''field.cpp_type() == CPPTYPE_MESSAGE''
      (case pb_NewElement R m field of
         None \<Rightarrow> Abort ''pMapEntry''
       | Some pMapEntry \<Rightarrow> bind_x (MessageSetter_new R pMapEntry) (\<lambda>entryDesc.
           bind_x (SetField C R entryDesc ''key'' key pMapEntry) (\<lambda>entry.
           bind_x (SetField C R entryDesc ''value'' val entry) (\<lambda>entry'.
             ret (pb_AddMessage R field entry' m)))))))"
  by pat_completeness auto

termination
  by (relation "measures
    [(\<lambda>x. case x of
        Inl (Inl (_, _, _, _, v, _)) \<Rightarrow> size v | Inl (Inr (Inl (_, _, _, t, _))) \<Rightarrow> size t
      | Inl (Inr (Inr (_, _, _, t, _))) \<Rightarrow> size t | Inr (Inl (_, _, _, t, _)) \<Rightarrow> size t
      | Inr (Inr (Inl (_, _, _, v, _))) \<Rightarrow> size v | Inr (Inr (Inr (_, _, _, k, v, _))) \<Rightarrow> size k + size v),
     (\<lambda>x. case x of
        Inl (Inl _) \<Rightarrow> 4 | Inl (Inr (Inl _)) \<Rightarrow> 0 | Inl (Inr (Inr _)) \<Rightarrow> 3 | Inr (Inl _) \<Rightarrow> 1
      | Inr (Inr (Inl _)) \<Rightarrow> 2 | Inr (Inr (Inr _)) \<Rightarrow> 5)]")
    (auto simp: entries_size entries_size_value lua_get_size le_imp_less_or_eq [OF lua_get_size])


declare SetField.simps [simp del] SetMsg.simps [simp del] SetRepeatedField.simps [simp del]
  SetRepeatedMapField.simps [simp del] AddToRepeatedField.simps [simp del] AddToMapField.simps [simp del]

lemmas setter_simps = SetField.simps SetMsg.simps SetRepeatedField.simps SetRepeatedMapField.simps
  AddToRepeatedField.simps AddToMapField.simps

section \<open>No assertion fails\<close>

lemma MessageSetter_new_keeps: "keeps R valid view D m \<Longrightarrow> MessageSetter_new R m = ret D"
  using keeps_read(2) [of R valid view D m] keepsD(2) [of R valid view D m]
  by (simp add: MessageSetter_new_def)

lemma luaL_check_holds [simp]:
  "holds_x (\<lambda>_. True) (\<lambda>_. True) (luaL_checkinteger C v)"
  "holds_x (\<lambda>_. True) (\<lambda>_. True) (luaL_checknumber C v)"
  "holds_x (\<lambda>_. True) (\<lambda>_. True) (luaL_checklstring C v)"
  by (cases v; simp split: option.splits)+

lemma scalar_argument_holds:
  assumes "is_scalar_type (fd_cpp_type f)"
  shows "holds_x (\<lambda>x. value_type x = fd_cpp_type f) (\<lambda>_. True) (scalar_argument C R f v)"
proof -
  have "holds_x (\<lambda>_. True) (\<lambda>_. True) (GetEnumValue C R v f)" if "fd_cpp_type f = CPPTYPE_ENUM"
    using that by (simp add: GetEnumValue_def toValue_int32_def toValue_string_def holds_x_bind
        split: option.splits)
  then show ?thesis using assms
    by (cases "fd_cpp_type f")
      (simp_all add: scalar_argument_def is_scalar_type_def holds_x_bind toValue_int32_def toValue_int64_def
        toValue_uint32_def toValue_uint64_def toValue_double_def toValue_float_def toValue_bool_def toValue_string_def)
qed

lemma written_holds: "keeps R valid view D m \<Longrightarrow> written R valid view m f c m' \<Longrightarrow> holds_x (keeps R valid view D) Q (ret m')"
  by (simp add: written_keeps)

lemma setter_keeps:
  "keeps R valid view D m \<Longrightarrow> holds_x (keeps R valid view D) (\<lambda>_. True) (SetField C R D s v m)"
  "keeps R2 valid view D2 m2 \<Longrightarrow> LuaRef_isTable t2 \<Longrightarrow>
     holds_x (keeps R2 valid view D2) (\<lambda>_. True) (SetMsg C2 R2 D2 t2 m2)"
  "\<And>D. keeps R3 valid view D m3 \<Longrightarrow> f3 \<in> set D \<Longrightarrow> fd_is_repeated f3 \<Longrightarrow>
     holds_x (keeps R3 valid view D) (\<lambda>_. True) (SetRepeatedField C3 R3 f3 v3 m3)"
  "\<And>D. keeps R4 valid view D m4 \<Longrightarrow> f4 \<in> set D \<Longrightarrow> fd_is_map f4 \<Longrightarrow> LuaRef_isTable v4 \<Longrightarrow>
     holds_x (keeps R4 valid view D) (\<lambda>_. True) (SetRepeatedMapField C4 R4 f4 v4 m4)"
  "\<And>D. keeps R5 valid view D m5 \<Longrightarrow> f5 \<in> set D \<Longrightarrow> fd_is_repeated f5 \<Longrightarrow> \<not> fd_is_map f5 \<Longrightarrow>
     holds_x (keeps R5 valid view D) (\<lambda>_. True) (AddToRepeatedField C5 R5 f5 v5 m5)"
  "\<And>D. keeps R6 valid view D m6 \<Longrightarrow> f6 \<in> set D \<Longrightarrow> fd_is_map f6 \<Longrightarrow>
     holds_x (keeps R6 valid view D) (\<lambda>_. True) (AddToMapField C6 R6 f6 k6 v6 m6)"
proof (induction C R D s v m and C2 R2 D2 t2 m2 and C3 R3 f3 v3 m3 and C4 R4 f4 v4 m4 and C5 R5 f5 v5 m5
    and C6 R6 f6 k6 v6 m6 rule: SetField_SetMsg_SetRepeatedField_SetRepeatedMapField_AddToRepeatedField_AddToMapField.induct)
  case (1 C R D s v m)
  show ?case
  proof (cases "pb_FindFieldByName R D s")
    case None
    then show ?thesis by (simp add: SetField.simps)
  next
    case (Some f)
    then have f: "f \<in> set D" using find_field [OF 1(3)] by blast
    consider "fd_is_repeated f" | "\<not> fd_is_repeated f" "fd_cpp_type f = CPPTYPE_MESSAGE" "LuaRef_isTable v"
      | "\<not> fd_is_repeated f" "fd_cpp_type f = CPPTYPE_MESSAGE" "\<not> LuaRef_isTable v"
      | "\<not> fd_is_repeated f" "fd_cpp_type f = CPPTYPE_UNKNOWN"
      | "\<not> fd_is_repeated f" "is_scalar_type (fd_cpp_type f)" by (auto simp: is_scalar_type_def)
    then show ?thesis
    proof cases
      case rep: 1
      with 1 Some f show ?thesis by (simp add: SetField.simps)
    next
      case 2
      from view_sub [OF 1(3) f 2(1,2)] obtain sub where "view m f = Sub sub" .
      from write_sub [OF 1(3) f this] obtain p D' where
        p: "pb_MutableMessage R m f = Some p" "keeps R valid view D' p"
        "\<And>sub'. keeps R valid view D' sub' \<Longrightarrow> written R valid view m f (Sub (Some sub')) (pb_SetMessage R f sub' m)"
        by metis
      have n: "MessageSetter_new R p = ret D'" by (rule MessageSetter_new_keeps [OF p(2)])
      have "holds_x (keeps R valid view D') (\<lambda>_. True) (SetMsg C R D' v p)"
        by (rule 1(2) [OF Some 2(1) 2(2) 2(3) p(1) n p(2) 2(3)])
      then show ?thesis using Some 2 p(1) n
        by (simp add: SetField.simps holds_x_bind)
          (auto elim!: holds_x_mono intro: written_keeps [OF 1(3)] p(3))
    next
      case 5
      then have "holds_x (\<lambda>x. value_type x = fd_cpp_type f) (\<lambda>_. True) (scalar_argument C R f v)"
        by (intro scalar_argument_holds)
      with 5 Some show ?thesis
        by (auto simp: SetField.simps holds_x_bind SetScalar_def is_scalar_type_def elim!: holds_x_mono
            intro!: written_keeps [OF 1(3) write_single [OF 1(3) f]])
    qed (use Some in \<open>simp_all add: SetField.simps\<close>)
  qed
next
  case (2 C R D t m)
  have "holds_x (keeps R valid view D) (\<lambda>_. True) (if LuaRef_type key \<noteq> STRING then ret m'
      else bind_x (toValue_string C key) (\<lambda>sKey. SetField C R D sKey val m'))"
    if "(key, val) \<in> set (lua_entries t)" "keeps R valid view D m'" for key val m'
    using that 2(1) [of "(key, val)" key val] 2(3) by (cases key) (auto simp: toValue_string_def)
  then show ?case
    unfolding SetMsg.simps using 2(2,3) by (auto intro!: fold_x_holds)
next
  case (3 C R f t m)
  show ?case
    unfolding SetRepeatedField.simps using 3
    by (auto intro!: fold_x_holds)
next
  case (4 C R f t m)
  then have "fd_is_repeated f" using keeps_descriptor [OF 4(2)] by (auto simp: descriptor_ok_def)
  show ?case
    unfolding SetRepeatedMapField.simps using 4 \<open>fd_is_repeated f\<close>
    by (auto intro!: fold_x_holds split: prod.split)
next
  case (5 C R f v m)
  consider "fd_cpp_type f = CPPTYPE_MESSAGE" "LuaRef_isTable v"
      | "fd_cpp_type f = CPPTYPE_MESSAGE" "\<not> LuaRef_isTable v"
      | "fd_cpp_type f = CPPTYPE_UNKNOWN"
      | "is_scalar_type (fd_cpp_type f)" by (auto simp: is_scalar_type_def)
  then show ?case
  proof cases
    case 1
    from view_subs [OF 5(2-4) 1(1)] obtain ss where "view m f = Subs ss" .
    from write_subs [OF 5(2,3) this] obtain p D' where
      p: "pb_NewElement R m f = Some p" "keeps R valid view D' p"
      "\<And>new'. keeps R valid view D' new' \<Longrightarrow> written R valid view m f (Subs (ss @ [new'])) (pb_AddMessage R f new' m)"
      by metis
    have n: "MessageSetter_new R p = ret D'" by (rule MessageSetter_new_keeps [OF p(2)])
    have "holds_x (keeps R valid view D') (\<lambda>_. True) (SetMsg C R D' v p)"
      by (rule 5(1) [OF 1(1) 1(2) p(1) n p(2) 1(2)])
    then show ?thesis using 5 1 p(1) n
      by (simp add: AddToRepeatedField.simps holds_x_bind)
        (auto elim!: holds_x_mono intro: written_keeps [OF 5(2)] p(3))
  next
    case 4
    then have h: "holds_x (\<lambda>x. value_type x = fd_cpp_type f) (\<lambda>_. True) (scalar_argument C R f v)"
      by (intro scalar_argument_holds)
    from view_many [OF 5(2-4) 4] 5(5) obtain xs where xs: "view m f = Many xs" by blast
    from h 4 5 show ?thesis
      by (auto simp: AddToRepeatedField.simps holds_x_bind AddScalar_def is_scalar_type_def elim!: holds_x_mono
          intro!: written_keeps [OF 5(2) write_many [OF 5(2,3) xs]])
  qed (use 5 in \<open>simp_all add: AddToRepeatedField.simps\<close>)
next
  case (6 C R f k v m)
  then have f: "fd_is_repeated f" "fd_cpp_type f = CPPTYPE_MESSAGE"
    using keeps_descriptor [OF 6(3)] by (auto simp: descriptor_ok_def)
  from view_subs [OF 6(3,4) f] obtain ss where "view m f = Subs ss" .
  from write_subs [OF 6(3,4) this] obtain p D' where
    p: "pb_NewElement R m f = Some p" "keeps R valid view D' p"
    "\<And>new'. keeps R valid view D' new' \<Longrightarrow> written R valid view m f (Subs (ss @ [new'])) (pb_AddMessage R f new' m)"
    by metis
  have n: "MessageSetter_new R p = ret D'" by (rule MessageSetter_new_keeps [OF p(2)])
  have "holds_x (keeps R valid view D') (\<lambda>_. True) (SetField C R D' ''key'' k p)"
    by (rule 6(1) [OF p(1) n p(2)])
  moreover have "holds_x (keeps R valid view D') (\<lambda>_. True) (SetField C R D' ''value'' v e)"
    if "SetField C R D' ''key'' k p = ret e" "keeps R valid view D' e" for e
    by (rule 6(2) [OF p(1) n that])
  ultimately have "holds_x (keeps R valid view D') (\<lambda>_. True)
      (bind_x (SetField C R D' ''key'' k p) (\<lambda>e. SetField C R D' ''value'' v e))"
    by (rule holds_x_bindI)
  then show ?case using 6 f p(1) n
    by (simp add: AddToMapField.simps bind_x_assoc [symmetric] holds_x_bind)
      (auto elim!: holds_x_mono intro: written_keeps [OF 6(3)] p(3))
qed

section \<open>What is written\<close>

lemma frames_trans: "frames f c old mid \<Longrightarrow> frames f c' mid new \<Longrightarrow> frames f c' old new"
  by (auto simp: frames_def)

lemma written_trans:
  "written R valid view m f c m' \<Longrightarrow> written R valid view m' f c' m'' \<Longrightarrow> written R valid view m f c' m''"
  by (auto simp: written_def same_message_def intro: frames_trans)

lemma written_refl: "keeps R valid view D m \<Longrightarrow> written R valid view m f (view m f) m"
  by (simp add: written_def same_message_keeps frames_def)

lemma written_view: "written R valid view m f c m' \<Longrightarrow> view m' f = c"
  by (simp add: written_def frames_def)

lemma fold_x_ret_in:
  assumes "fold_x f xs a = ret b" "I a" "x \<in> set xs"
    and "\<And>y c d. y \<in> set xs \<Longrightarrow> I c \<Longrightarrow> f y c = ret d \<Longrightarrow> I d"
  shows "\<exists>c d. I c \<and> f x c = ret d"
  using assms
proof (induction xs arbitrary: a)
  case (Cons y ys)
  from Cons.prems(1) obtain c where c: "f y a = ret c" "fold_x f ys c = ret b" by (auto simp: bind_x_ret)
  have "I c" by (rule Cons.prems(4) [OF _ Cons.prems(2) c(1)]) simp
  show ?case
  proof (cases "x = y")
    case True
    with Cons.prems(2) c(1) show ?thesis by blast
  next
    case False
    with Cons.prems(3) have "x \<in> set ys" by simp
    show ?thesis
      by (rule Cons.IH [OF c(2) \<open>I c\<close> \<open>x \<in> set ys\<close>]) (rule Cons.prems(4), simp_all)
  qed
qed simp

lemma fold_x_ret_inv:
  assumes "fold_x f xs a = ret b" "I a" "\<And>y c d. y \<in> set xs \<Longrightarrow> I c \<Longrightarrow> f y c = ret d \<Longrightarrow> I d"
  shows "I b"
  using assms
proof (induction xs arbitrary: a)
  case (Cons y ys)
  from Cons.prems(1) obtain c where c: "f y a = ret c" "fold_x f ys c = ret b" by (auto simp: bind_x_ret)
  have "I c" by (rule Cons.prems(3) [OF _ Cons.prems(2) c(1)]) simp
  show ?case by (rule Cons.IH [OF c(2) \<open>I c\<close>]) (rule Cons.prems(3), simp_all)
qed simp

lemma holds_x_ret: "holds_x P Q (m :: 'a exn) \<Longrightarrow> m = ret x \<Longrightarrow> P x" by simp

lemma AddToRepeatedField_written:
  assumes "keeps R valid view D m" "f \<in> set D" "fd_is_repeated f" "\<not> fd_is_map f"
    and "AddToRepeatedField C R f v m = ret m'"
  shows "\<exists>c. written R valid view m f c m'"
    and "is_scalar_type (fd_cpp_type f) \<Longrightarrow> view m f = Many xs \<Longrightarrow>
      \<exists>x. scalar_argument C R f v = ret x \<and> view m' f = Many (xs @ [x])"
proof -
  have scalar: "\<exists>x. scalar_argument C R f v = ret x \<and> written R valid view m f (Many (ys @ [x])) m'"
    if "is_scalar_type (fd_cpp_type f)" "view m f = Many ys" for ys
  proof -
    from assms(3-5) that(1) obtain x where x: "scalar_argument C R f v = ret x" "AddScalar R f x m = ret m'"
      by (auto simp: AddToRepeatedField.simps is_scalar_type_def bind_x_ret)
    then have "value_type x = fd_cpp_type f" "m' = pb_Add R f x m"
      using holds_x_ret [OF scalar_argument_holds [OF that(1)] x(1)] assms(3) by (auto simp: AddScalar_def)
    with write_many [OF assms(1,2) that(2)] x(1) show ?thesis by blast
  qed
  then show "is_scalar_type (fd_cpp_type f) \<Longrightarrow> view m f = Many xs \<Longrightarrow>
      \<exists>x. scalar_argument C R f v = ret x \<and> view m' f = Many (xs @ [x])" by (auto dest: written_view)
  show "\<exists>c. written R valid view m f c m'"
  proof (cases "is_scalar_type (fd_cpp_type f)")
    case True
    from view_many [OF assms(1-3) True] assms(4) obtain ys where "view m f = Many ys" by blast
    with scalar True show ?thesis by blast
  next
    case False
    with assms(3-5) have message: "fd_cpp_type f = CPPTYPE_MESSAGE" "LuaRef_isTable v"
      by (auto simp: AddToRepeatedField.simps is_scalar_type_def split: if_splits)
    from view_subs [OF assms(1-3) message(1)] obtain ss where "view m f = Subs ss" .
    from write_subs [OF assms(1,2) this] obtain p D' where
      p: "pb_NewElement R m f = Some p" "keeps R valid view D' p"
      "\<And>new'. keeps R valid view D' new' \<Longrightarrow> written R valid view m f (Subs (ss @ [new'])) (pb_AddMessage R f new' m)"
      by metis
    from assms(3-5) message p(1) MessageSetter_new_keeps [OF p(2)]
    obtain sub where sub: "SetMsg C R D' v p = ret sub" "m' = pb_AddMessage R f sub m"
      by (auto simp: AddToRepeatedField.simps bind_x_ret)
    from holds_x_ret [OF setter_keeps(2) [OF p(2) message(2)] sub(1)] p(3) sub(2) show ?thesis by blast
  qed
qed

lemma AddToMapField_written:
  assumes "keeps R valid view D m" "f \<in> set D" "fd_is_map f" "AddToMapField C R f k v m = ret m'"
  shows "\<exists>c. written R valid view m f c m'"
proof -
  have f: "fd_is_repeated f" "fd_cpp_type f = CPPTYPE_MESSAGE"
    using keeps_descriptor [OF assms(1)] assms(2,3) by (auto simp: descriptor_ok_def)
  from view_subs [OF assms(1,2) f] obtain ss where "view m f = Subs ss" .
  from write_subs [OF assms(1,2) this] obtain p D' where
    p: "pb_NewElement R m f = Some p" "keeps R valid view D' p"
    "\<And>new'. keeps R valid view D' new' \<Longrightarrow> written R valid view m f (Subs (ss @ [new'])) (pb_AddMessage R f new' m)"
    by metis
  from assms(3,4) f p(1) MessageSetter_new_keeps [OF p(2)]
  obtain e e' where e: "SetField C R D' ''key'' k p = ret e" "SetField C R D' ''value'' v e = ret e'"
    "m' = pb_AddMessage R f e' m"
    by (auto simp: AddToMapField.simps bind_x_ret)
  have "keeps R valid view D' e" by (rule holds_x_ret [OF setter_keeps(1) [OF p(2)] e(1)])
  then have "keeps R valid view D' e'" using holds_x_ret [OF setter_keeps(1) e(2)] by blast
  with p(3) e(3) show ?thesis by blast
qed

text \<open>The items of an array, as \<^verbatim>\<open>SetRepeatedField\<close> reads them.\<close>

definition array_items :: "'f lua_conv \<Rightarrow> 'f lua \<Rightarrow> 'f lua list" where
  "array_items C t = map (\<lambda>i. lua_get t (LInt (word_of_nat i))) [1..<lua_len C t + 1]"

text \<open>
  How the content of a field with a scalar type follows from the Lua value: it becomes the value
  converted, and a repeated field is extended by the items of the array converted.
\<close>

definition sets_content :: "'f lua_conv \<Rightarrow> ('m, 'f) protobuf \<Rightarrow> FieldDescriptor \<Rightarrow> 'f lua \<Rightarrow>
    ('m, 'f) content \<Rightarrow> ('m, 'f) content \<Rightarrow> bool" where
  "sets_content C R f v old new \<longleftrightarrow> is_scalar_type (fd_cpp_type f) \<longrightarrow>
     (if fd_is_repeated f
      then \<exists>xs ys. old = Many xs \<and> new = Many (xs @ ys) \<and>
        list_all2 (\<lambda>i y. scalar_argument C R f i = ret y) (array_items C v) ys
      else \<exists>x. scalar_argument C R f v = ret x \<and> new = Single x)"

lemma AddAll_written:
  assumes "keeps R valid view D m" "f \<in> set D" "fd_is_repeated f" "\<not> fd_is_map f"
    and "fold_x (\<lambda>i m. AddToRepeatedField C R f (g i) m) is m = ret m'"
  shows "(\<exists>c. written R valid view m f c m') \<and> (is_scalar_type (fd_cpp_type f) \<longrightarrow> view m f = Many xs \<longrightarrow>
      (\<exists>ys. list_all2 (\<lambda>i y. scalar_argument C R f (g i) = ret y) is ys \<and> view m' f = Many (xs @ ys)))"
  using assms(1,5)
proof (induction "is" arbitrary: m xs)
  case Nil
  then have "written R valid view m f (view m f) m'" by (auto intro: written_refl)
  with Nil show ?case by auto
next
  case (Cons i js)
  from Cons.prems(2) obtain n where n: "AddToRepeatedField C R f (g i) m = ret n"
    "fold_x (\<lambda>i m. AddToRepeatedField C R f (g i) m) js n = ret m'" by (auto simp: bind_x_ret)
  note step = AddToRepeatedField_written [OF Cons.prems(1) assms(2-4) n(1)]
  from step(1) obtain c where c: "written R valid view m f c n" by blast
  then have n': "keeps R valid view D n" by (rule written_keeps [OF Cons.prems(1)])
  note IH = Cons.IH [OF n' n(2)]
  from IH c have "\<exists>c. written R valid view m f c m'" by (blast intro: written_trans)
  moreover have "\<exists>ys. list_all2 (\<lambda>i y. scalar_argument C R f (g i) = ret y) (i # js) ys \<and> view m' f = Many (xs @ ys)"
    if scalar: "is_scalar_type (fd_cpp_type f)" "view m f = Many xs"
  proof -
    from step(2) [OF scalar] obtain x where x: "scalar_argument C R f (g i) = ret x" "view n f = Many (xs @ [x])"
      by blast
    from IH scalar(1) x(2) obtain ys where
      "list_all2 (\<lambda>i y. scalar_argument C R f (g i) = ret y) js ys" "view m' f = Many ((xs @ [x]) @ ys)" by blast
    with x(1) show ?thesis by (intro exI [of _ "x # ys"]) simp
  qed
  ultimately show ?case by blast
qed

lemma SetRepeatedField_written:
  assumes "keeps R valid view D m" "f \<in> set D" "fd_is_repeated f" "SetRepeatedField C R f v m = ret m'"
  shows "(\<exists>c. written R valid view m f c m') \<and> sets_content C R f v (view m f) (view m' f)"
proof (cases "fd_is_map f")
  case True
  then have f: "fd_cpp_type f = CPPTYPE_MESSAGE"
    using keeps_descriptor [OF assms(1)] assms(2) by (auto simp: descriptor_ok_def)
  from True assms(3,4) have "fold_x (\<lambda>(key, val) m. AddToMapField C R f key val m) (lua_entries v) m = ret m'"
    by (auto simp: SetRepeatedField.simps SetRepeatedMapField.simps split: if_splits)
  then have "\<exists>c. written R valid view m f c m'"
  proof (rule fold_x_ret_inv)
    show "\<exists>c. written R valid view m f c m" using written_refl [OF assms(1)] by blast
    fix e n n' assume "\<exists>c. written R valid view m f c n" "(case e of (key, val) \<Rightarrow> AddToMapField C R f key val) n = ret n'"
    then show "\<exists>c. written R valid view m f c n'"
      using AddToMapField_written [OF _ assms(2) True] written_keeps [OF assms(1)]
      by (cases e) (fastforce intro: written_trans)
  qed
  with f show ?thesis by (simp add: sets_content_def is_scalar_type_def)
next
  case False
  with assms(3,4) have fold: "fold_x (\<lambda>i m. AddToRepeatedField C R f (lua_get v (LInt (word_of_nat i))) m)
      [1..<lua_len C v + 1] m = ret m'"
    by (auto simp: SetRepeatedField.simps split: if_splits)
  note added = AddAll_written [OF assms(1-3) False fold]
  have "sets_content C R f v (view m f) (view m' f)"
  proof -
    have ?thesis if s: "is_scalar_type (fd_cpp_type f)"
    proof -
      from view_many [OF assms(1-3) s] obtain xs where "view m f = Many xs" .
      with added [of xs] s assms(3) show ?thesis
        by (auto simp: sets_content_def array_items_def list_all2_map1 simp del: upt_Suc)
    qed
    then show ?thesis by (auto simp: sets_content_def)
  qed
  with added show ?thesis by blast
qed

lemma SetField_written:
  assumes "keeps R valid view D m" "SetField C R D s v m = ret m'"
  shows "\<exists>f \<in> set D. fd_name f = s \<and> (\<exists>c. written R valid view m f c m') \<and> sets_content C R f v (view m f) (view m' f)"
proof -
  from assms(2) obtain f where find: "pb_FindFieldByName R D s = Some f"
    by (auto simp: SetField.simps split: option.splits)
  note f = find_field [OF assms(1) find]
  have "(\<exists>c. written R valid view m f c m') \<and> sets_content C R f v (view m f) (view m' f)"
  proof (cases "fd_is_repeated f")
    case True
    with assms find f show ?thesis by (intro SetRepeatedField_written) (simp_all add: SetField.simps)
  next
    case single: False
    show ?thesis
    proof (cases "is_scalar_type (fd_cpp_type f)")
      case True
      with single find assms(2) obtain x where x: "scalar_argument C R f v = ret x" "SetScalar R f x m = ret m'"
        by (auto simp: SetField.simps is_scalar_type_def bind_x_ret)
      then have "value_type x = fd_cpp_type f" "m' = pb_Set R f x m"
        using holds_x_ret [OF scalar_argument_holds [OF True] x(1)] single by (auto simp: SetScalar_def)
      with write_single [OF assms(1) f(1) single] have w: "written R valid view m f (Single x) m'" by simp
      with x(1) single show ?thesis by (auto simp: sets_content_def dest: written_view)
    next
      case False
      with single assms(2) find have message: "fd_cpp_type f = CPPTYPE_MESSAGE" "LuaRef_isTable v"
        by (auto simp: SetField.simps is_scalar_type_def split: if_splits)
      from view_sub [OF assms(1) f(1) single message(1)] obtain s' where "view m f = Sub s'" .
      from write_sub [OF assms(1) f(1) this] obtain p D' where
        p: "pb_MutableMessage R m f = Some p" "keeps R valid view D' p"
        "\<And>sub'. keeps R valid view D' sub' \<Longrightarrow> written R valid view m f (Sub (Some sub')) (pb_SetMessage R f sub' m)"
        by metis
      from single message assms(2) find p(1) MessageSetter_new_keeps [OF p(2)]
      obtain sub where sub: "SetMsg C R D' v p = ret sub" "m' = pb_SetMessage R f sub m"
        by (auto simp: SetField.simps bind_x_ret)
      from holds_x_ret [OF setter_keeps(2) [OF p(2) message(2)] sub(1)] p(3) sub(2) message
      show ?thesis by (auto simp: sets_content_def is_scalar_type_def)
    qed
  qed
  with f show ?thesis by blast
qed


text \<open>The body of the loop of \<^verbatim>\<open>SetMsg\<close>.\<close>

definition set_entry :: "'f lua_conv \<Rightarrow> ('m, 'f) protobuf \<Rightarrow> Descriptor \<Rightarrow> 'f lua \<times> 'f lua \<Rightarrow> 'm \<Rightarrow> 'm exn" where
  "set_entry C R D e m = (case e of (key, val) \<Rightarrow>
     if LuaRef_type key \<noteq> STRING then ret m
     else bind_x (toValue_string C key) (\<lambda>sKey. SetField C R D sKey val m))"

lemma SetMsg_entries:
  "LuaRef_isTable t \<Longrightarrow> SetMsg C R D t m = fold_x (set_entry C R D) (lua_entries t) m"
  by (auto simp: SetMsg.simps set_entry_def intro!: fold_x_cong)

lemma set_entry_string [simp]: "set_entry C R D (LStr s, v) m = SetField C R D s v m"
  by (simp add: set_entry_def toValue_string_def)

lemma set_entry_other: "(\<nexists>s. k = LStr s) \<Longrightarrow> set_entry C R D (k, v) m = ret m"
  by (cases k) (simp_all add: set_entry_def)

lemma set_entry_cases:
  assumes "keeps R valid view D m" "set_entry C R D (k, v) m = ret m'"
  obtains (skipped) "\<nexists>s. k = LStr s" "m' = m"
    | (field) s g where "k = LStr s" "g \<in> set D" "fd_name g = s" "\<exists>c. written R valid view m g c m'"
        "sets_content C R g v (view m g) (view m' g)"
proof (cases "\<exists>s. k = LStr s")
  case True
  then obtain s where "k = LStr s" by blast
  with SetField_written [OF assms(1), of C s v m'] assms(2) show ?thesis by (auto intro: field)
next
  case False
  with assms(2) show ?thesis by (auto simp: set_entry_other intro: skipped)
qed

lemma set_entry_keeps:
  assumes "keeps R valid view D m" "set_entry C R D (k, v) m = ret m'"
  shows "keeps R valid view D m'"
  using assms by (cases rule: set_entry_cases) (use assms(1) in \<open>auto intro: written_keeps\<close>)

lemma entries_content:
  assumes "keeps R valid view D m" "fold_x (set_entry C R D) es m = ret m'" "distinct (map fst es)"
    and "f \<in> set D" "fd_containing_oneof f = None"
  shows "case map_of es (LStr (fd_name f)) of
      None \<Rightarrow> view m' f = view m f | Some v \<Rightarrow> sets_content C R f v (view m f) (view m' f)"
  using assms(1-3)
proof (induction es arbitrary: m)
  case (Cons e es)
  obtain k v where e: "e = (k, v)" by (cases e)
  from Cons.prems(2) obtain n where n: "set_entry C R D (k, v) m = ret n" "fold_x (set_entry C R D) es n = ret m'"
    by (auto simp: bind_x_ret e)
  have kn: "keeps R valid view D n" by (rule set_entry_keeps [OF Cons.prems(1) n(1)])
  have IH: "case map_of es (LStr (fd_name f)) of
      None \<Rightarrow> view m' f = view n f | Some v \<Rightarrow> sets_content C R f v (view n f) (view m' f)"
    by (rule Cons.IH [OF kn n(2)]) (use Cons.prems(3) in simp)
  from Cons.prems(1) n(1) show ?case
  proof (cases rule: set_entry_cases)
    case skipped
    with IH e show ?thesis by auto
  next
    case (field s g)
    show ?thesis
    proof (cases "g = f")
      case True
      have "k \<notin> fst ` set es" using Cons.prems(3) e by simp
      with field(1,3) True have "map_of es (LStr (fd_name f)) = None" by (simp add: map_of_eq_None_iff)
      with IH field(1,3,5) True e show ?thesis by simp
    next
      case False
      with field(4) assms(5) have "view n f = view m f" by (auto simp: written_def frames_def)
      moreover have "fd_name g \<noteq> fd_name f"
        using False field(2) assms(4) keeps_descriptor [OF Cons.prems(1)]
        by (auto simp: descriptor_ok_def distinct_map inj_on_def)
      ultimately show ?thesis using IH field(1,3) e by (simp split: option.splits)
    qed
  qed
qed simp

end
