(* ===== verification/Pb_Table.thy ===== *)
theory Pb_Table
  imports Pb_Setter
begin

text \<open>
  \<^verbatim>\<open>pb/MsgToTbl.cpp\<close>: reading a protobuf message into a Lua table. The recursion into submessages
  has no bound in the code; here it has fuel, and \<open>ToTbl_returns\<close> shows how much is enough.
\<close>

section \<open>The reader\<close>

text \<open>\<^verbatim>\<open>LuaRefValue\<close> of a scalar, \<^verbatim>\<open>int\<close> for an enum.\<close>

fun push_value :: "'f pb_value \<Rightarrow> 'f lua" where
  "push_value (VInt32 i) = push_int32 i"
| "push_value (VInt64 i) = push_int64 i"
| "push_value (VUInt32 i) = push_uint32 i"
| "push_value (VUInt64 i) = push_uint64 i"
| "push_value (VDouble d) = LNum d"
| "push_value (VFloat d) = LNum d"
| "push_value (VBool b) = LBool b"
| "push_value (VEnum i) = push_int32 i"
| "push_value (VString s) = push_string s"

text \<open>The scalar cases of a switch: the accessor has to fit the field.\<close>

definition push_scalar :: "FieldDescriptor \<Rightarrow> 'f pb_value \<Rightarrow> 'f lua exn" where
  "push_scalar field x =
     assert_o (value_type x = fd_cpp_type field) ''reflection: wrong accessor'' (ret (push_value x))"

text \<open>The constructor checks the reflection. \<open>to_tbl\<close> is \<^verbatim>\<open>MsgToTbl(L, msg).ToTbl()\<close> on a submessage.\<close>

definition MsgToTbl_new :: "('m, 'f) protobuf \<Rightarrow> 'm \<Rightarrow> unit exn" where
  "MsgToTbl_new R msg =
     (if \<not> pb_GetReflection R msg
      then throw (''Message '' @ pb_GetTypeName R msg @ '' has no reflection.'') else ret ())"

definition GetRepeatedFieldElement ::
  "('m, 'f) protobuf \<Rightarrow> ('m \<Rightarrow> 'f lua exn) \<Rightarrow> 'm \<Rightarrow> FieldDescriptor \<Rightarrow> nat \<Rightarrow> 'f lua exn" where
  "GetRepeatedFieldElement R to_tbl m field index =
     assert_o (fd_is_repeated field) ''field.is_repeated()''
    (assert_o (index < pb_FieldSize R m field) ''index < m_pRefl->FieldSize(m_msg, &field)''
      (if fd_cpp_type field = CPPTYPE_MESSAGE then to_tbl (pb_GetRepeatedMessage R m field index)
       else if fd_cpp_type field = CPPTYPE_UNKNOWN
       then throw (''Unknown repeated field type '' @ pb_CppTypeName R (fd_cpp_type field) @ '' of '' @ fd_full_name field)
       else push_scalar field (pb_GetRepeated R m field index)))"

definition GetRepeatedField ::
  "('m, 'f) protobuf \<Rightarrow> ('m \<Rightarrow> 'f lua exn) \<Rightarrow> 'm \<Rightarrow> FieldDescriptor \<Rightarrow> 'f lua exn" where
  "GetRepeatedField R to_tbl m field =
     assert_o (fd_is_repeated field) ''field.is_repeated()''
       (if \<not> fd_is_map field then
          fold_x (\<lambda>index tbl. bind_x (GetRepeatedFieldElement R to_tbl m field index)
              (\<lambda>v. lua_settable tbl (LInt (word_of_nat (index + 1))) v))
            [0..<pb_FieldSize R m field] (LTable [])
        else
          assert_o (fd_cpp_type field = CPPTYPE_MESSAGE) ''field.cpp_type() == CPPTYPE_MESSAGE''
            (fold_x (\<lambda>index tbl. bind_x (to_tbl (pb_GetRepeatedMessage R m field index))
                (\<lambda>entryTbl. lua_settable tbl (lua_get entryTbl (LStr ''key'')) (lua_get entryTbl (LStr ''value''))))
              [0..<pb_FieldSize R m field] (LTable [])))"

definition GetField ::
  "('m, 'f) protobuf \<Rightarrow> ('m \<Rightarrow> 'f lua exn) \<Rightarrow> 'm \<Rightarrow> FieldDescriptor \<Rightarrow> 'f lua exn" where
  "GetField R to_tbl m field =
     (if fd_is_repeated field then GetRepeatedField R to_tbl m field
      else if fd_cpp_type field = CPPTYPE_MESSAGE then
        (if pb_HasField R m field then to_tbl (pb_GetMessage R m field) else ret LNil)
      else if fd_cpp_type field = CPPTYPE_UNKNOWN then throw (unknown_field_type R field)
      else push_scalar field (pb_Get R m field))"

definition set_table_field ::
  "('m, 'f) protobuf \<Rightarrow> ('m \<Rightarrow> 'f lua exn) \<Rightarrow> 'm \<Rightarrow> FieldDescriptor \<Rightarrow> 'f lua \<Rightarrow> 'f lua exn" where
  "set_table_field R to_tbl m field tbl =
     bind_x (GetField R to_tbl m field) (\<lambda>v. lua_settable tbl (LStr (fd_name field)) v)"

definition oneof_set :: "Descriptor \<Rightarrow> nat list" where
  "oneof_set D = remdups (List.map_filter fd_containing_oneof D)"

primrec ToTbl :: "('m, 'f) protobuf \<Rightarrow> nat \<Rightarrow> 'm \<Rightarrow> 'f lua exn" where
  "ToTbl R 0 m = Abort ''out of fuel''"
| "ToTbl R (Suc n) m = bind_x (MsgToTbl_new R m) (\<lambda>_. case pb_GetDescriptor R m of
     None \<Rightarrow> Abort ''pDesc''
   | Some D \<Rightarrow>
       bind_x (fold_x (\<lambda>field tbl.
           case fd_containing_oneof field of
             Some _ \<Rightarrow> ret tbl
           | None \<Rightarrow> set_table_field R (ToTbl R n) m field tbl) D (LTable []))
         (fold_x (\<lambda>oneof tbl.
           case pb_GetOneofFieldDescriptor R m oneof of
             Some field \<Rightarrow> set_table_field R (ToTbl R n) m field tbl
           | None \<Rightarrow> ret tbl) (oneof_set D)))"

section \<open>Reading returns\<close>

lemma push_value_not_nil [simp]: "push_value x \<noteq> LNil"
  by (cases x) (simp_all add: push_int32_def push_int64_def push_uint32_def push_uint64_def push_string_def)

lemma lua_get_empty: "lua_get (LTable []) k = LNil"
  by (simp add: lua_get_def)

text \<open>Writing a list of entries with distinct keys into a table.\<close>

lemma fold_settable:
  assumes "\<And>x. x \<in> set xs \<Longrightarrow> val x = ret (g x)" "distinct (map key xs)" "LNil \<notin> key ` set xs"
  shows "\<exists>t'. fold_x (\<lambda>x tbl. bind_x (val x) (\<lambda>v. lua_settable tbl (key x) v)) xs (LTable t) = ret (LTable t') \<and>
    (\<forall>k. lua_get (LTable t') k = (case map_of (map (\<lambda>x. (key x, g x)) xs) k of
       Some v \<Rightarrow> v | None \<Rightarrow> lua_get (LTable t) k))"
  using assms
proof (induction xs arbitrary: t)
  case (Cons x xs)
  obtain u where u: "lua_set (LTable t) (key x) (g x) = LTable u" using lua_set_table by blast
  from Cons.IH [of u] Cons.prems obtain t' where
    t': "fold_x (\<lambda>x tbl. bind_x (val x) (\<lambda>v. lua_settable tbl (key x) v)) xs (LTable u) = ret (LTable t')"
    "\<And>k. lua_get (LTable t') k = (case map_of (map (\<lambda>x. (key x, g x)) xs) k of
       Some v \<Rightarrow> v | None \<Rightarrow> lua_get (LTable u) k)" by auto
  have "lua_settable (LTable t) (key x) (g x) = ret (LTable u)"
    using Cons.prems(3) u by (auto simp: lua_settable_def)
  moreover have "map_of (map (\<lambda>x. (key x, g x)) xs) (key x) = None"
    using Cons.prems(2) by (auto simp: map_of_eq_None_iff)
  moreover have "lua_get (LTable u) k = (if k = key x then g x else lua_get (LTable t) k)" for k
    using lua_get_set [of t "key x" "g x" k] u by simp
  ultimately show ?case using t' Cons.prems(1) by (auto split: option.splits)
qed simp

lemma fold_settable_returns:
  assumes "\<And>x. x \<in> set xs \<Longrightarrow> \<exists>k v. k \<noteq> LNil \<and> (\<forall>t. f x (LTable t) = lua_settable (LTable t) k v)"
  shows "\<exists>t'. fold_x f xs (LTable t) = ret (LTable t')"
  using assms
proof (induction xs arbitrary: t)
  case (Cons x xs)
  then obtain k v where "k \<noteq> LNil" "f x (LTable t) = lua_settable (LTable t) k v" by (meson list.set_intros(1))
  with Cons show ?case by (auto simp: lua_settable_def)
qed simp

text \<open>\<open>depth_le R view n m\<close>: the messages nested in \<open>m\<close>, itself included, go at most \<open>n\<close> deep.\<close>

primrec depth_le :: "('m, 'f) protobuf \<Rightarrow> ('m, 'f) contents \<Rightarrow> nat \<Rightarrow> 'm \<Rightarrow> bool" where
  "depth_le R view 0 m \<longleftrightarrow> False"
| "depth_le R view (Suc n) m \<longleftrightarrow> (\<forall>D. pb_GetDescriptor R m = Some D \<longrightarrow>
     (\<forall>f \<in> set D. \<forall>s \<in> set (submessages (view m f)). depth_le R view n s))"

text \<open>What \<^verbatim>\<open>ToTbl\<close> yields for a submessage: a table in which a singular scalar field has its value.\<close>

definition table_of :: "('m, 'f) protobuf \<Rightarrow> ('m, 'f) contents \<Rightarrow> 'm \<Rightarrow> 'f lua \<Rightarrow> bool" where
  "table_of R view m t \<longleftrightarrow> LuaRef_isTable t \<and> (\<exists>es. t = LTable es) \<and>
     (\<forall>D f x. pb_GetDescriptor R m = Some D \<and> f \<in> set D \<and> fd_containing_oneof f = None \<and> view m f = Single x \<longrightarrow>
        lua_get t (LStr (fd_name f)) = push_value x)"

definition index_key :: "nat \<Rightarrow> 'f lua" where
  "index_key i = LInt (word_of_nat (i + 1))"

lemma distinct_index_keys: "n < 2 ^ 64 \<Longrightarrow> distinct (map index_key [0..<n])"
proof -
  assume n: "n < 2 ^ 64"
  then have "unat (word_of_nat i :: 64 word) = i" if "i < n" for i
    using that by (simp add: unat_of_nat)
  then have "i = j" if "i < n" "j < n" "(word_of_nat i :: 64 word) = word_of_nat j" for i j
    using that by metis
  then show ?thesis by (auto simp: distinct_map inj_on_def index_key_def)
qed

text \<open>The content a field is read as, submessages aside.\<close>

definition reads_as :: "('m, 'f) content \<Rightarrow> 'f lua \<Rightarrow> bool" where
  "reads_as c v \<longleftrightarrow> (case c of
     Single x \<Rightarrow> v = push_value x
   | Sub s \<Rightarrow> (if s = None then v = LNil else LuaRef_isTable v)
   | Many xs \<Rightarrow> LuaRef_isTable v \<and> (length xs < 2 ^ 64 \<longrightarrow>
       (\<forall>k. lua_get v k = (case map_of (map (\<lambda>i. (index_key i, push_value (xs ! i))) [0..<length xs]) k of
          Some x \<Rightarrow> x | None \<Rightarrow> LNil)))
   | Subs ss \<Rightarrow> LuaRef_isTable v)"

lemma push_scalar_fits: "value_type x = fd_cpp_type f \<Longrightarrow> push_scalar f x = ret (push_value x)"
  by (simp add: push_scalar_def)

lemma GetRepeatedField_scalar:
  assumes "keeps R valid view D m" "f \<in> set D" "view m f = Many xs"
  shows "\<exists>v. GetRepeatedField R rec m f = ret v \<and> reads_as (Many xs :: ('m, 'f) content) v"
proof -
  from keeps_fits [OF assms(1,2)] assms(3)
  have f: "fd_is_repeated f" "\<not> fd_is_map f" "is_scalar_type (fd_cpp_type f)"
    "\<And>i. i < length xs \<Longrightarrow> value_type (xs ! i) = fd_cpp_type f" by auto
  from keeps_field_read [OF assms(1,2)] assms(3)
  have r: "pb_FieldSize R m f = length xs" "\<And>i. i < length xs \<Longrightarrow> pb_GetRepeated R m f i = xs ! i"
    by (simp_all add: field_read_def)
  have e: "GetRepeatedFieldElement R rec m f i = ret (push_value (xs ! i))" if "i < length xs" for i
    using that f r by (auto simp: GetRepeatedFieldElement_def is_scalar_type_def push_scalar_fits)
  let ?body = "\<lambda>i tbl. bind_x (GetRepeatedFieldElement R rec m f i) (\<lambda>v. lua_settable tbl (index_key i) v)"
  have g: "GetRepeatedField R rec m f = fold_x ?body [0..<length xs] (LTable [])"
    using f(1,2) r(1) by (simp add: GetRepeatedField_def index_key_def)
  show ?thesis
  proof (cases "length xs < 2 ^ 64")
    case True
    then have "\<exists>t'. fold_x ?body [0..<length xs] (LTable []) = ret (LTable t') \<and>
        (\<forall>k. lua_get (LTable t') k = (case map_of (map (\<lambda>i. (index_key i, push_value (xs ! i))) [0..<length xs]) k of
           Some v \<Rightarrow> v | None \<Rightarrow> lua_get (LTable []) k))"
      by (intro fold_settable distinct_index_keys) (auto simp: e index_key_def)
    with g True show ?thesis by (auto simp: reads_as_def LuaRef_isTable_def lua_get_empty cong: option.case_cong)
  next
    case False
    have "\<exists>t'. fold_x ?body [0..<length xs] (LTable []) = ret (LTable t')"
    proof (rule fold_settable_returns)
      fix i assume "i \<in> set [0..<length xs]"
      then show "\<exists>k v. k \<noteq> LNil \<and> (\<forall>t. bind_x (GetRepeatedFieldElement R rec m f i)
          (\<lambda>v. lua_settable (LTable t) (index_key i) v) = lua_settable (LTable t) k v)"
        by (intro exI [of _ "index_key i"] exI [of _ "push_value (xs ! i)"]) (simp add: e index_key_def)
    qed
    with g False show ?thesis by (auto simp: reads_as_def LuaRef_isTable_def)
  qed
qed

lemma GetField_returns:
  assumes "keeps R valid view D m" "f \<in> set D"
    and rec: "\<And>s. s \<in> set (submessages (view m f)) \<Longrightarrow> \<exists>t. rec s = ret t \<and> table_of R view s t"
  shows "\<exists>v. GetField R rec m f = ret v \<and> reads_as (view m f) v"
proof -
  note fits = keeps_fits [OF assms(1,2)] and read = keeps_field_read [OF assms(1,2)]
  show ?thesis
  proof (cases "view m f")
    case (Single x)
    with fits read have "\<not> fd_is_repeated f" "value_type x = fd_cpp_type f" "pb_Get R m f = x"
      by (simp_all add: field_read_def)
    moreover from this(2) have "is_scalar_type (fd_cpp_type f)" by (metis value_type_scalar)
    ultimately show ?thesis using Single
      by (simp add: GetField_def push_scalar_fits reads_as_def is_scalar_type_def)
  next
    case (Sub s)
    with fits read have "\<not> fd_is_repeated f" "fd_cpp_type f = CPPTYPE_MESSAGE"
      "pb_HasField R m f = (s \<noteq> None)" "\<And>s'. s = Some s' \<Longrightarrow> pb_GetMessage R m f = s'"
      by (simp_all add: field_read_def)
    with Sub rec show ?thesis
      by (cases s) (auto simp: GetField_def reads_as_def table_of_def)
  next
    case (Many xs)
    with fits GetRepeatedField_scalar [OF assms(1,2) Many] show ?thesis by (simp add: GetField_def)
  next
    case (Subs ss)
    with fits read have f: "fd_is_repeated f" "fd_cpp_type f = CPPTYPE_MESSAGE" "pb_FieldSize R m f = length ss"
      "\<And>i. i < length ss \<Longrightarrow> pb_GetRepeatedMessage R m f i = ss ! i"
      "\<And>s. s \<in> set ss \<Longrightarrow> valid s \<and> (fd_is_map f \<longrightarrow> map_entry_ok R s)"
      by (simp_all add: field_read_def)
    have "\<exists>t'. GetRepeatedField R rec m f = ret (LTable t')"
    proof (cases "fd_is_map f")
      case False
      have "\<exists>t'. fold_x (\<lambda>i tbl. bind_x (GetRepeatedFieldElement R rec m f i)
          (\<lambda>v. lua_settable tbl (LInt (word_of_nat (i + 1))) v)) [0..<length ss] (LTable []) = ret (LTable t')"
      proof (rule fold_settable_returns)
        fix i assume "i \<in> set [0..<length ss]"
        with rec [of "ss ! i"] Subs f obtain u where "GetRepeatedFieldElement R rec m f i = ret u"
          by (auto simp: GetRepeatedFieldElement_def)
        then show "\<exists>k v. k \<noteq> LNil \<and> (\<forall>t. bind_x (GetRepeatedFieldElement R rec m f i)
            (\<lambda>v. lua_settable (LTable t) (LInt (word_of_nat (i + 1))) v) = lua_settable (LTable t) k v)"
          by (intro exI [of _ "LInt (word_of_nat (i + 1))"] exI [of _ u]) simp
      qed
      with f False show ?thesis by (simp add: GetRepeatedField_def)
    next
      case True
      have "\<exists>t'. fold_x (\<lambda>i tbl. bind_x (rec (pb_GetRepeatedMessage R m f i)) (\<lambda>e.
          lua_settable tbl (lua_get e (LStr ''key'')) (lua_get e (LStr ''value'')))) [0..<length ss] (LTable []) = ret (LTable t')"
      proof (rule fold_settable_returns)
        fix i assume "i \<in> set [0..<length ss]"
        then have i: "i < length ss" "ss ! i \<in> set ss" by simp_all
        with rec [of "ss ! i"] Subs obtain e where e: "rec (ss ! i) = ret e" "table_of R view (ss ! i) e" by auto
        from f(5) [OF i(2)] True valid_keeps [OF keepsD(3) [OF assms(1)]] obtain D' where
          D': "keeps R valid view D' (ss ! i)" "map_entry_ok R (ss ! i)" by blast
        then obtain k where k: "k \<in> set D'" "fd_name k = ''key''" "\<not> fd_is_repeated k"
          "is_scalar_type (fd_cpp_type k)" "fd_containing_oneof k = None"
          by (auto simp: map_entry_ok_def keeps_def)
        from view_single [OF D'(1) k(1,3,4)] obtain x where "view (ss ! i) k = Single x" .
        with e(2) k D'(1) have "lua_get e (LStr ''key'') = push_value x"
          unfolding table_of_def keeps_def by metis
        with e(1) f(4) i(1) show "\<exists>k v. k \<noteq> LNil \<and> (\<forall>t. bind_x (rec (pb_GetRepeatedMessage R m f i)) (\<lambda>e.
            lua_settable (LTable t) (lua_get e (LStr ''key'')) (lua_get e (LStr ''value''))) = lua_settable (LTable t) k v)"
          by (intro exI [of _ "push_value x"] exI [of _ "lua_get e (LStr ''value'')"]) simp
      qed
      with f True show ?thesis by (simp add: GetRepeatedField_def)
    qed
    with f(1) Subs show ?thesis by (auto simp: GetField_def reads_as_def LuaRef_isTable_def)
  qed
qed

lemma fold_x_filter:
  "fold_x (\<lambda>x a. if P x then f x a else ret a) xs = fold_x f (filter P xs)"
proof (induction xs)
  case (Cons x xs)
  show ?case by (rule ext) (simp add: Cons.IH)
qed (rule ext, simp)

lemma fold_x_map_filter:
  "fold_x (\<lambda>x a. case h x of Some y \<Rightarrow> f y a | None \<Rightarrow> ret a) xs = fold_x f (List.map_filter h xs)"
proof (induction xs)
  case (Cons x xs)
  show ?case by (rule ext) (cases "h x"; simp add: List.map_filter_simps Cons.IH)
qed (rule ext, simp add: List.map_filter_simps)

text \<open>The fields that \<^verbatim>\<open>ToTbl\<close> puts into its table, in this order.\<close>

definition shown :: "('m, 'f) protobuf \<Rightarrow> 'm \<Rightarrow> Descriptor \<Rightarrow> Descriptor" where
  "shown R m D = filter (\<lambda>f. fd_containing_oneof f = None) D @
     List.map_filter (pb_GetOneofFieldDescriptor R m) (oneof_set D)"

lemma ToTbl_shown:
  assumes "pb_GetReflection R m" "pb_GetDescriptor R m = Some D"
  shows "ToTbl R (Suc n) m = fold_x (set_table_field R (ToTbl R n) m) (shown R m D) (LTable [])"
proof -
  have "(\<lambda>field tbl. case fd_containing_oneof field of Some _ \<Rightarrow> ret tbl
      | None \<Rightarrow> set_table_field R (ToTbl R n) m field tbl) =
    (\<lambda>f tbl. if fd_containing_oneof f = None then set_table_field R (ToTbl R n) m f tbl else ret tbl)"
    by (auto simp: fun_eq_iff split: option.splits)
  then show ?thesis using assms
    by (simp add: MsgToTbl_new_def shown_def fold_x_append fold_x_filter fold_x_map_filter)
qed

lemma in_shown:
  assumes "keeps R valid view D m" "f \<in> set (shown R m D)"
  shows "f \<in> set D" "\<forall>n. fd_containing_oneof f = Some n \<longrightarrow> pb_GetOneofFieldDescriptor R m n = Some f"
  using assms keeps_read(1) [OF assms(1)]
  by (auto simp: shown_def descriptor_read_def List.map_filter_def)

lemma distinct_shown:
  assumes "keeps R valid view D m"
  shows "distinct (map fd_name (shown R m D))"
proof -
  let ?G = "pb_GetOneofFieldDescriptor R m"
  have names: "distinct (map fd_name D)" using keeps_descriptor [OF assms] by (simp add: descriptor_ok_def)
  have G: "g \<in> set D \<and> fd_containing_oneof g = Some n" if "?G n = Some g" for n g
    using keeps_read(1) [OF assms] that by (auto simp: descriptor_read_def)
  have "distinct (List.map_filter ?G ns)" if "distinct ns" for ns
    using that
  proof (induction ns)
    case (Cons n ns)
    have "g \<notin> set (List.map_filter ?G ns)" if g: "?G n = Some g" for g
    proof
      assume "g \<in> set (List.map_filter ?G ns)"
      then obtain n' where "n' \<in> set ns" "?G n' = Some g" by (auto simp: List.map_filter_def)
      with G [OF g] G [of n' g] Cons.prems show False by auto
    qed
    with Cons show ?case by (simp add: List.map_filter_simps split: option.splits)
  qed (simp add: List.map_filter_simps)
  moreover have "distinct D" using names by (simp add: distinct_map)
  ultimately have d: "distinct (shown R m D)"
    using G by (auto simp: shown_def oneof_set_def List.map_filter_def)
  have "inj_on fd_name (set (shown R m D))"
    by (rule inj_on_subset [of _ "set D"]) (use names in_shown(1) [OF assms] in \<open>auto simp: distinct_map\<close>)
  with d show ?thesis by (simp add: distinct_map)
qed

lemma ToTbl_fields:
  fixes R :: "('m, 'f) protobuf"
  assumes "keeps R valid view D m" "depth_le R view n m"
  shows "\<exists>es. ToTbl R n m = ret (LTable es) \<and>
    (\<forall>f \<in> set (shown R m D). reads_as (view m f) (lua_get (LTable es) (LStr (fd_name f)))) \<and>
    (\<forall>k. (\<forall>f \<in> set (shown R m D). k \<noteq> LStr (fd_name f)) \<longrightarrow> lua_get (LTable es) k = LNil)"
  using assms
proof (induction n arbitrary: m D)
  case (Suc n)
  have sub: "\<exists>t. ToTbl R n s = ret t \<and> table_of R view s t" if f: "f \<in> set D" "s \<in> set (submessages (view m f))" for f s
  proof -
    from keeps_field_read [OF Suc.prems(1) f(1)] f(2) have "valid s" by (simp add: field_read_def)
    with valid_keeps [OF keepsD(3) [OF Suc.prems(1)]] obtain D' where k: "keeps R valid view D' s" by blast
    have "depth_le R view n s" using Suc.prems f by (auto simp: keeps_def)
    from Suc.IH [OF k this] obtain es where es: "ToTbl R n s = ret (LTable es)"
      "\<forall>f \<in> set (shown R s D'). reads_as (view s f) (lua_get (LTable es) (LStr (fd_name f)))" by blast
    have "g \<in> set (shown R s D')" if "g \<in> set D'" "fd_containing_oneof g = None" for g
      using that by (simp add: shown_def)
    with es(2) k have "table_of R view s (LTable es)"
      by (fastforce simp: table_of_def keeps_def LuaRef_isTable_def reads_as_def)
    with es(1) show ?thesis by blast
  qed
  define g where "g f = (SOME v. GetField R (ToTbl R n) m f = ret v \<and> reads_as (view m f) v)" for f
  have g: "GetField R (ToTbl R n) m f = ret (g f) \<and> reads_as (view m f) (g f)" if "f \<in> set (shown R m D)" for f
    unfolding g_def
    by (rule someI_ex [OF GetField_returns [OF Suc.prems(1)]])
      (use in_shown(1) [OF Suc.prems(1) that] sub in auto)
  have inj: "distinct (map (\<lambda>f. LStr (fd_name f) :: 'f lua) (shown R m D))"
    using distinct_shown [OF Suc.prems(1)] by (simp add: distinct_map inj_on_def)
  have "\<exists>es. fold_x (\<lambda>f tbl. bind_x (GetField R (ToTbl R n) m f) (\<lambda>v. lua_settable tbl (LStr (fd_name f)) v))
      (shown R m D) (LTable []) = ret (LTable es) \<and>
    (\<forall>k. lua_get (LTable es) k = (case map_of (map (\<lambda>f. (LStr (fd_name f), g f)) (shown R m D)) k of
       Some v \<Rightarrow> v | None \<Rightarrow> lua_get (LTable []) k))"
    by (rule fold_settable [OF _ inj]) (use g in auto)
  then obtain es where es: "fold_x (set_table_field R (ToTbl R n) m) (shown R m D) (LTable []) = ret (LTable es)"
    "\<And>k. lua_get (LTable es) k = (case map_of (map (\<lambda>f. (LStr (fd_name f), g f)) (shown R m D)) k of
       Some v \<Rightarrow> v | None \<Rightarrow> LNil)"
    by (auto simp: set_table_field_def [abs_def] lua_get_empty cong: option.case_cong)
  have "lua_get (LTable es) (LStr (fd_name f)) = g f" if "f \<in> set (shown R m D)" for f
  proof -
    have "map_of (map (\<lambda>f. (LStr (fd_name f) :: 'f lua, g f)) (shown R m D)) (LStr (fd_name f)) = Some (g f)"
    proof (rule map_of_is_SomeI)
      show "distinct (map fst (map (\<lambda>f. (LStr (fd_name f) :: 'f lua, g f)) (shown R m D)))"
        using inj by (simp add: comp_def)
      show "(LStr (fd_name f), g f) \<in> set (map (\<lambda>f. (LStr (fd_name f) :: 'f lua, g f)) (shown R m D))" using that by auto
    qed
    with es(2) show ?thesis by simp
  qed
  moreover have "lua_get (LTable es) k = LNil" if "\<forall>f \<in> set (shown R m D). k \<noteq> LStr (fd_name f)" for k
    using es(2) [of k] that by (auto split: option.splits dest!: map_of_SomeD)
  moreover have "ToTbl R (Suc n) m = ret (LTable es)"
    using es(1) ToTbl_shown [OF keeps_read(2) [OF Suc.prems(1)] keepsD(2) [OF Suc.prems(1)]] by simp
  ultimately show ?case using g by (auto intro!: exI [of _ es])
qed simp

end
