(* ===== verification/Pb_Dynamic.thy ===== *)
theory Pb_Dynamic
  imports Pb_Reflection "HOL-Library.Countable"
begin

text \<open>
  Dynamic messages after protobuf's documentation, to apply the properties of the converters to:
  a message is the number of its type and the contents of the fields that have been set. Floats are
  integers here. \<open>reflection_ok_dyn\<close> shows that what the converters rely on can be had for every
  well-formed schema.
\<close>

datatype dyn = Dyn (d_kind: nat) (d_fields: "(FieldDescriptor \<times> (dyn, int) content) list")

text \<open>A schema gives each type its fields, and each field the type of its submessages.\<close>

type_synonym schema = "nat \<Rightarrow> (FieldDescriptor \<times> nat) list"

definition d_descriptor :: "schema \<Rightarrow> nat \<Rightarrow> Descriptor" where
  "d_descriptor schema k = map fst (schema k)"

fun default_value :: "CppType \<Rightarrow> int pb_value" where
  "default_value CPPTYPE_INT32 = VInt32 0"
| "default_value CPPTYPE_INT64 = VInt64 0"
| "default_value CPPTYPE_UINT32 = VUInt32 0"
| "default_value CPPTYPE_UINT64 = VUInt64 0"
| "default_value CPPTYPE_DOUBLE = VDouble 0"
| "default_value CPPTYPE_FLOAT = VFloat 0"
| "default_value CPPTYPE_BOOL = VBool False"
| "default_value CPPTYPE_ENUM = VEnum 0"
| "default_value t = VString []"

definition default_content :: "FieldDescriptor \<Rightarrow> (dyn, int) content" where
  "default_content f =
     (if fd_is_repeated f then (if fd_cpp_type f = CPPTYPE_MESSAGE then Subs [] else Many [])
      else if fd_cpp_type f = CPPTYPE_MESSAGE then Sub None else Single (default_value (fd_cpp_type f)))"

definition d_view :: "dyn \<Rightarrow> FieldDescriptor \<Rightarrow> (dyn, int) content" where
  "d_view m f = (case map_of (d_fields m) f of Some c \<Rightarrow> c | None \<Rightarrow> default_content f)"

definition d_put :: "FieldDescriptor \<Rightarrow> (dyn, int) content \<Rightarrow> dyn \<Rightarrow> dyn" where
  "d_put f c m = Dyn (d_kind m) ((f, c) # filter (\<lambda>(g, _). g \<noteq> f \<and>
     (fd_containing_oneof g = None \<or> fd_containing_oneof g \<noteq> fd_containing_oneof f)) (d_fields m))"

definition d_new :: "schema \<Rightarrow> dyn \<Rightarrow> FieldDescriptor \<Rightarrow> dyn" where
  "d_new schema m f = Dyn (case map_of (schema (d_kind m)) f of Some k \<Rightarrow> k | None \<Rightarrow> 0) []"

definition dyn_protobuf :: "schema \<Rightarrow> (FieldDescriptor \<Rightarrow> string \<Rightarrow> 32 word option) \<Rightarrow> (dyn \<Rightarrow> string) \<Rightarrow>
    (string \<Rightarrow> dyn \<Rightarrow> dyn option) \<Rightarrow> (dyn, int) protobuf" where
  "dyn_protobuf schema enum serialize parse =
     \<lparr>pb_GetDescriptor = (\<lambda>m. Some (d_descriptor schema (d_kind m))), pb_GetReflection = (\<lambda>m. True),
      pb_GetTypeName = (\<lambda>m. ''Dyn''),
      pb_FindFieldByName = (\<lambda>D s. List.find (\<lambda>f. fd_name f = s) D), pb_FindValueByName = enum,
      pb_CppTypeName = (\<lambda>t. ''unknown''),
      pb_Get = (\<lambda>m f. case d_view m f of Single x \<Rightarrow> x | _ \<Rightarrow> VBool False),
      pb_Set = (\<lambda>f x. d_put f (Single x)),
      pb_FieldSize = (\<lambda>m f. case d_view m f of Many xs \<Rightarrow> length xs | Subs ss \<Rightarrow> length ss | _ \<Rightarrow> 0),
      pb_GetRepeated = (\<lambda>m f i. case d_view m f of Many xs \<Rightarrow> xs ! i | _ \<Rightarrow> VBool False),
      pb_Add = (\<lambda>f x m. d_put f (case d_view m f of Many xs \<Rightarrow> Many (xs @ [x]) | c \<Rightarrow> c) m),
      pb_HasField = (\<lambda>m f. case d_view m f of Sub s \<Rightarrow> s \<noteq> None | _ \<Rightarrow> map_of (d_fields m) f \<noteq> None),
      pb_GetMessage = (\<lambda>m f. case d_view m f of Sub (Some s) \<Rightarrow> s | _ \<Rightarrow> d_new schema m f),
      pb_MutableMessage = (\<lambda>m f. Some (case d_view m f of Sub (Some s) \<Rightarrow> s | _ \<Rightarrow> d_new schema m f)),
      pb_SetMessage = (\<lambda>f s. d_put f (Sub (Some s))),
      pb_GetRepeatedMessage = (\<lambda>m f i. case d_view m f of Subs ss \<Rightarrow> ss ! i | _ \<Rightarrow> m),
      pb_NewElement = (\<lambda>m f. Some (d_new schema m f)),
      pb_AddMessage = (\<lambda>f s m. d_put f (case d_view m f of Subs ss \<Rightarrow> Subs (ss @ [s]) | c \<Rightarrow> c) m),
      pb_GetOneofFieldDescriptor = (\<lambda>m n. List.find (\<lambda>f. fd_containing_oneof f = Some n \<and>
         map_of (d_fields m) f \<noteq> None) (d_descriptor schema (d_kind m))),
      pb_SerializeAsString = serialize, pb_ParseFromString = parse\<rparr>"

definition entry_type_ok :: "Descriptor \<Rightarrow> bool" where
  "entry_type_ok D \<longleftrightarrow> (\<exists>k \<in> set D. \<exists>v \<in> set D. fd_name k = ''key'' \<and> fd_name v = ''value'' \<and>
     \<not> fd_is_repeated k \<and> is_scalar_type (fd_cpp_type k) \<and> fd_containing_oneof k = None \<and> \<not> fd_is_repeated v)"

definition schema_ok :: "schema \<Rightarrow> bool" where
  "schema_ok schema \<longleftrightarrow> (\<forall>k. distinct (map fd_name (d_descriptor schema k)) \<and>
     (\<forall>(f, sub) \<in> set (schema k). fd_cpp_type f \<noteq> CPPTYPE_UNKNOWN \<and>
        (fd_containing_oneof f \<noteq> None \<longrightarrow> \<not> fd_is_repeated f) \<and>
        (fd_is_map f \<longrightarrow> fd_is_repeated f \<and> fd_cpp_type f = CPPTYPE_MESSAGE \<and>
           entry_type_ok (d_descriptor schema sub))))"

inductive d_valid :: "schema \<Rightarrow> dyn \<Rightarrow> bool" for schema where
  "(\<forall>f c. (f, c) \<in> set fs \<longrightarrow> (\<exists>sub. (f, sub) \<in> set (schema k) \<and> content_fits f c \<and>
     (\<forall>s \<in> set (submessages c). d_valid schema s \<and>
        d_descriptor schema (d_kind s) = d_descriptor schema sub))) \<Longrightarrow> d_valid schema (Dyn k fs)"

inductive_simps d_valid_Dyn: "d_valid schema (Dyn k fs)"

lemma d_valid_empty [simp]: "d_valid schema (Dyn k [])"
  by (simp add: d_valid_Dyn)

lemma default_fits: "fd_cpp_type f \<noteq> CPPTYPE_UNKNOWN \<Longrightarrow> \<not> fd_is_map f \<or> fd_cpp_type f = CPPTYPE_MESSAGE \<Longrightarrow>
   content_fits f (default_content f)"
  by (cases "fd_cpp_type f") (simp_all add: default_content_def is_scalar_type_def)

lemma default_submessages [simp]: "submessages (default_content f) = []"
  by (simp add: default_content_def)

lemma d_distinct: "distinct (map fd_name (d_descriptor schema k)) \<Longrightarrow> distinct (map fst (schema k))"
  unfolding d_descriptor_def by (drule distinct_map [THEN iffD1]) (erule conjunct1)

lemma d_view_content:
  assumes "schema_ok schema" "d_valid schema m" "(f, sub) \<in> set (schema (d_kind m))"
  shows "content_fits f (d_view m f)"
    and "s \<in> set (submessages (d_view m f)) \<Longrightarrow>
      d_valid schema s \<and> d_descriptor schema (d_kind s) = d_descriptor schema sub"
proof -
  obtain k fs where m: "m = Dyn k fs" by (cases m)
  from assms(1,3) have ok: "distinct (map fd_name (d_descriptor schema k))" "fd_cpp_type f \<noteq> CPPTYPE_UNKNOWN"
    "fd_is_map f \<longrightarrow> fd_cpp_type f = CPPTYPE_MESSAGE"
    using m by (fastforce simp: schema_ok_def)+
  have unique: "sub' = sub" if "(f, sub') \<in> set (schema k)" for sub'
  proof -
    from ok(1) have "distinct (map fst (schema k))" by (rule d_distinct)
    with that assms(3) m show ?thesis by (metis dyn.sel(1) eq_key_imp_eq_value)
  qed
  have "content_fits f (d_view m f) \<and> (\<forall>s \<in> set (submessages (d_view m f)).
      d_valid schema s \<and> d_descriptor schema (d_kind s) = d_descriptor schema sub)"
  proof (cases "map_of fs f")
    case None
    with ok m default_fits [of f] show ?thesis by (auto simp: d_view_def)
  next
    case (Some c)
    with assms(2) m have "\<exists>sub. (f, sub) \<in> set (schema k) \<and> content_fits f c \<and>
        (\<forall>s \<in> set (submessages c). d_valid schema s \<and> d_descriptor schema (d_kind s) = d_descriptor schema sub)"
      by (auto simp: d_valid_Dyn dest: map_of_SomeD)
    with unique Some m show ?thesis by (auto simp: d_view_def)
  qed
  then show "content_fits f (d_view m f)" and "s \<in> set (submessages (d_view m f)) \<Longrightarrow>
      d_valid schema s \<and> d_descriptor schema (d_kind s) = d_descriptor schema sub" by auto
qed

lemma d_put_valid:
  assumes "d_valid schema m" "(f, sub) \<in> set (schema (d_kind m))" "content_fits f c"
    "\<forall>s \<in> set (submessages c). d_valid schema s \<and> d_descriptor schema (d_kind s) = d_descriptor schema sub"
  shows "d_valid schema (d_put f c m)"
  using assms by (cases m) (auto simp: d_put_def d_valid_Dyn)

lemma d_put_kind [simp]: "d_kind (d_put f c m) = d_kind m" by (simp add: d_put_def)

lemma map_of_filter_key: "map_of (filter (\<lambda>(k, _). P k) xs) k = (if P k then map_of xs k else None)"
  by (induction xs) auto

lemma d_put_frames: "frames f c (d_view m) (d_view (d_put f c m))"
  by (auto simp: frames_def d_view_def d_put_def map_of_filter_key split: option.splits)

lemma d_new_valid [simp]: "d_valid schema (d_new schema m f)"
  by (simp add: d_new_def)

lemma d_new_kind:
  assumes "schema_ok schema" "(f, sub) \<in> set (schema (d_kind m))"
  shows "d_kind (d_new schema m f) = sub"
proof -
  from assms(1) have "distinct (map fst (schema (d_kind m)))"
    unfolding schema_ok_def by (blast intro: d_distinct)
  with assms(2) show ?thesis by (simp add: d_new_def)
qed

lemma reflection_ok_dyn:
  assumes ok: "schema_ok schema"
  shows "reflection_ok (dyn_protobuf schema enum ser parse) (d_valid schema) d_view"
proof -
  let ?R = "dyn_protobuf schema enum ser parse" and ?valid = "d_valid schema"
  have descr [simp]: "pb_GetDescriptor ?R m = Some (d_descriptor schema (d_kind m))" for m
    by (simp add: dyn_protobuf_def)
  have subtype: "\<exists>sub. (f, sub) \<in> set (schema k)" if "f \<in> set (d_descriptor schema k)" for f k
    using that by (auto simp: d_descriptor_def)
  have field: "fd_cpp_type f \<noteq> CPPTYPE_UNKNOWN" "fd_containing_oneof f \<noteq> None \<longrightarrow> \<not> fd_is_repeated f"
    "fd_is_map f \<longrightarrow> fd_is_repeated f \<and> fd_cpp_type f = CPPTYPE_MESSAGE \<and> entry_type_ok (d_descriptor schema sub)"
    if "(f, sub) \<in> set (schema k)" for f sub k
    using ok that unfolding schema_ok_def by (metis (mono_tags, lifting) case_prodD)+
  have entry: "map_entry_ok ?R s" if "(f, sub) \<in> set (schema k)" "fd_is_map f"
    "d_descriptor schema (d_kind s) = d_descriptor schema sub" for f sub k s
    using field(3) [OF that(1)] that(2,3) by (simp add: map_entry_ok_def entry_type_ok_def)
  have "reads_ok ?R ?valid d_view"
    unfolding reads_ok_def
  proof (intro allI impI)
    fix m assume m: "?valid m"
    let ?D = "d_descriptor schema (d_kind m)"
    have "descriptor_ok ?R ?D"
      using ok field unfolding descriptor_ok_def
      by (auto simp: dyn_protobuf_def schema_ok_def dest!: subtype)
    moreover have "field_read ?R ?valid d_view m f" if "f \<in> set ?D" for f
    proof -
      from subtype [OF that] obtain sub where sub: "(f, sub) \<in> set (schema (d_kind m))" by blast
      note c = d_view_content [OF ok m sub]
      have "content_fits f (d_view m f) \<and> (\<forall>s \<in> set (submessages (d_view m f)).
          ?valid s \<and> (fd_is_map f \<longrightarrow> map_entry_ok ?R s))"
        using c entry [OF sub] by blast
      then show ?thesis unfolding field_read_def
        by (auto simp: dyn_protobuf_def split: content.split)
    qed
    moreover have "g \<in> set ?D \<and> fd_containing_oneof g = Some n" if "pb_GetOneofFieldDescriptor ?R m n = Some g" for n g
      using that by (auto simp: dyn_protobuf_def find_Some_iff)
    ultimately have "descriptor_read ?R ?valid d_view m ?D" by (simp add: descriptor_read_def)
    moreover have "pb_GetReflection ?R m" by (simp add: dyn_protobuf_def)
    ultimately show "pb_GetReflection ?R m \<and> (\<exists>D. pb_GetDescriptor ?R m = Some D \<and> descriptor_read ?R ?valid d_view m D)"
      by simp
  qed
  moreover have "writes_ok ?R ?valid d_view"
    unfolding writes_ok_def
  proof (intro allI impI)
    fix m D f assume "?valid m \<and> pb_GetDescriptor ?R m = Some D \<and> f \<in> set D"
    then have m: "?valid m" and "f \<in> set (d_descriptor schema (d_kind m))" by auto
    with subtype obtain sub where sub: "(f, sub) \<in> set (schema (d_kind m))" by blast
    note c = d_view_content [OF ok m sub]
    have put: "written ?R ?valid d_view m f c (d_put f c m)" if "content_fits f c"
      "\<forall>s \<in> set (submessages c). ?valid s \<and> d_descriptor schema (d_kind s) = d_descriptor schema sub" for c
      using d_put_valid [OF m sub that] d_put_frames by (simp add: written_def same_message_def)
    have "written ?R ?valid d_view m f (Single x) (pb_Set ?R f x m)" if "content_fits f (Single x :: (dyn, int) content)" for x
      using put [OF that] by (simp add: dyn_protobuf_def)
    moreover have "written ?R ?valid d_view m f (Many (xs @ [x])) (pb_Add ?R f x m)"
      if "d_view m f = Many xs" "value_type x = fd_cpp_type f" for x xs
      using put [of "Many (xs @ [x])"] c(1) that by (simp add: dyn_protobuf_def)
    moreover have "\<exists>p. pb_MutableMessage ?R m f = Some p \<and> ?valid p \<and> (\<forall>s'. s = Some s' \<longrightarrow> p = s') \<and>
        (\<forall>s'. same_message ?R ?valid p s' \<longrightarrow> written ?R ?valid d_view m f (Sub (Some s')) (pb_SetMessage ?R f s' m))"
      if "d_view m f = Sub s" for s
    proof -
      let ?p = "case s of Some s' \<Rightarrow> s' | None \<Rightarrow> d_new schema m f"
      have p: "pb_MutableMessage ?R m f = Some ?p" using that by (simp add: dyn_protobuf_def split: option.split)
      have "?valid ?p \<and> d_descriptor schema (d_kind ?p) = d_descriptor schema sub"
        using c(2) that d_new_kind [OF ok sub] by (cases s) auto
      moreover have "content_fits f (Sub (Some s') :: (dyn, int) content)" for s' using c(1) that by simp
      ultimately show ?thesis using p put
        by (intro exI [of _ ?p]) (auto simp: same_message_def dyn_protobuf_def)
    qed
    moreover have "\<exists>p. pb_NewElement ?R m f = Some p \<and> ?valid p \<and> (fd_is_map f \<longrightarrow> map_entry_ok ?R p) \<and>
        (\<forall>s'. same_message ?R ?valid p s' \<longrightarrow> written ?R ?valid d_view m f (Subs (ss @ [s'])) (pb_AddMessage ?R f s' m))"
      if ss: "d_view m f = Subs ss" for ss
    proof -
      have d: "d_kind (d_new schema m f) = sub" by (rule d_new_kind [OF ok sub])
      have "written ?R ?valid d_view m f (Subs (ss @ [s'])) (pb_AddMessage ?R f s' m)"
        if "same_message ?R ?valid (d_new schema m f) s'" for s'
        using put [of "Subs (ss @ [s'])"] c ss that d by (auto simp: dyn_protobuf_def same_message_def)
      moreover have "pb_NewElement ?R m f = Some (d_new schema m f)" by (simp add: dyn_protobuf_def)
      ultimately show ?thesis using entry [OF sub, of "d_new schema m f"] d by auto
    qed
    ultimately show "field_write ?R ?valid d_view m f" unfolding field_write_def by blast
  qed
  ultimately show ?thesis by (simp add: reflection_ok_def)
qed

section \<open>A wire format\<close>

text \<open>
  Any injection of messages into strings will do: the number of a message, written as a string of that length.
\<close>

instance CppType :: countable by countable_datatype

instance FieldDescriptor_ext :: (countable) countable
  by (rule countable_classI [of "\<lambda>r. to_nat (fd_name r, fd_full_name r, fd_is_repeated r, fd_is_map r,
        fd_cpp_type r, fd_containing_oneof r, FieldDescriptor.more r)"]) simp

instance pb_value :: (countable) countable by countable_datatype

instance content :: (countable, countable) countable by countable_datatype

instance dyn :: countable by countable_datatype

definition d_serialize :: "dyn \<Rightarrow> string" where
  "d_serialize m = replicate (Suc (to_nat m)) (CHR ''x'')"

definition d_parse :: "schema \<Rightarrow> string \<Rightarrow> dyn \<Rightarrow> dyn option" where
  "d_parse schema s fresh = (let m = from_nat (length s - 1) in
     if d_valid schema m \<and> d_descriptor schema (d_kind m) = d_descriptor schema (d_kind fresh) then Some m else None)"

lemma d_parse_serialize:
  "d_valid schema m \<Longrightarrow> d_descriptor schema (d_kind m) = d_descriptor schema (d_kind fresh) \<Longrightarrow>
     d_parse schema (d_serialize m) fresh = Some m"
  by (simp add: d_parse_def d_serialize_def)

section \<open>A schema with every kind of field\<close>

definition field :: "string \<Rightarrow> CppType \<Rightarrow> FieldDescriptor" where
  "field name type = \<lparr>fd_name = name, fd_full_name = ''demo.Person.'' @ name, fd_is_repeated = False,
     fd_is_map = False, fd_cpp_type = type, fd_containing_oneof = None\<rparr>"

definition demo_schema :: schema where
  "demo_schema k =
     (if k = 0 then
        [(field ''id'' CPPTYPE_INT32, 0), (field ''name'' CPPTYPE_STRING, 0), (field ''age'' CPPTYPE_UINT32, 0),
         (field ''colour'' CPPTYPE_ENUM, 0), ((field ''scores'' CPPTYPE_INT64)\<lparr>fd_is_repeated := True\<rparr>, 0),
         (field ''friend'' CPPTYPE_MESSAGE, 0),
         ((field ''attrs'' CPPTYPE_MESSAGE)\<lparr>fd_is_repeated := True, fd_is_map := True\<rparr>, 1),
         ((field ''mail'' CPPTYPE_STRING)\<lparr>fd_containing_oneof := Some 0\<rparr>, 0),
         ((field ''phone'' CPPTYPE_STRING)\<lparr>fd_containing_oneof := Some 0\<rparr>, 0)]
      else if k = 1 then [(field ''key'' CPPTYPE_STRING, 0), (field ''value'' CPPTYPE_INT32, 0)]
      else [])"

lemma demo_schema_ok [simp]: "schema_ok demo_schema"
  unfolding schema_ok_def
  by (intro allI) (simp add: d_descriptor_def demo_schema_def field_def entry_type_ok_def is_scalar_type_def)

definition demo_pb :: "(dyn, int) protobuf" where
  "demo_pb = dyn_protobuf demo_schema (\<lambda>f s. if s = ''RED'' then Some 1 else None) d_serialize (d_parse demo_schema)"

lemma demo_pb_ok: "reflection_ok demo_pb (d_valid demo_schema) d_view"
  unfolding demo_pb_def by (rule reflection_ok_dyn) simp

end
