(* ===== verification/Pb_Intf.thy ===== *)
theory Pb_Intf
  imports Pb_Table Pb_Dynamic
begin

text \<open>
  \<^verbatim>\<open>pb/LuaPbIntfImpl.h, LuaPbIntfImpl.cpp, BindPb.cpp\<close>: the module that Lua code calls to import
  \<^verbatim>\<open>.proto\<close> files and to convert between tables and the wire format. The importer with its
  descriptor pool and the message factory are the record \<open>I\<close>; the pool has type \<open>'p\<close>.
\<close>

section \<open>The importer\<close>

text \<open>\<^verbatim>\<open>Import\<close> may report errors to the collector before it yields a descriptor or fails.\<close>

type_synonym import_error = "string \<times> int \<times> int \<times> string"

record MethodDescriptor =
  mt_input_type :: string
  mt_output_type :: string
  mt_client_streaming :: bool
  mt_server_streaming :: bool

record ('p, 'd, 'svc, 'm) importer =
  im_empty_pool :: 'p
  im_Import :: "(string \<times> string) list \<Rightarrow> string \<Rightarrow> 'p \<Rightarrow> bool \<times> import_error list \<times> 'p"
  im_FindMessageTypeByName :: "'p \<Rightarrow> string \<Rightarrow> 'd option"
  im_GetPrototype_New :: "'d \<Rightarrow> 'm option"
  im_FindServiceByName :: "'p \<Rightarrow> string \<Rightarrow> 'svc option"
  im_FindMethodByName :: "'svc \<Rightarrow> string \<Rightarrow> MethodDescriptor option"
  im_CopyTo :: "'svc \<Rightarrow> 'm"

section \<open>The converter object\<close>

text \<open>\<^verbatim>\<open>m_sError\<close> of the collector, the mappings of the source tree, and the importer's pool.\<close>

record 'p LuaPbIntfImpl =
  pb_error :: string
  pb_mappings :: "(string \<times> string) list"
  pb_pool :: 'p

definition ErrorCollector_Clear :: "'p LuaPbIntfImpl \<Rightarrow> 'p LuaPbIntfImpl" where
  "ErrorCollector_Clear s = s\<lparr>pb_error := []\<rparr>"

definition ErrorCollector_AddError :: "import_error \<Rightarrow> 'p LuaPbIntfImpl \<Rightarrow> 'p LuaPbIntfImpl" where
  "ErrorCollector_AddError e s = (case e of (filename, line, column, message) \<Rightarrow>
     s\<lparr>pb_error := filename @ '':'' @ ostream_int line @ '': '' @ message\<rparr>)"

definition MapPath :: "string \<Rightarrow> string \<Rightarrow> 'p LuaPbIntfImpl \<Rightarrow> 'p LuaPbIntfImpl" where
  "MapPath sVirtualPath sDiskPath s = s\<lparr>pb_mappings := pb_mappings s @ [(sVirtualPath, sDiskPath)]\<rparr>"

definition AddProtoPath :: "string \<Rightarrow> 'p LuaPbIntfImpl \<Rightarrow> 'p LuaPbIntfImpl" where
  "AddProtoPath sProtoPath s = MapPath '''' sProtoPath s"

definition LuaPbIntfImpl_new :: "('p, 'd, 'svc, 'm) importer \<Rightarrow> 'p LuaPbIntfImpl" where
  "LuaPbIntfImpl_new I = AddProtoPath '''' \<lparr>pb_error = [], pb_mappings = [], pb_pool = im_empty_pool I\<rparr>"

text \<open>An exception leaves the state as it has become so far.\<close>

definition ImportProtoFile ::
  "('p, 'd, 'svc, 'm) importer \<Rightarrow> string \<Rightarrow> 'p LuaPbIntfImpl \<Rightarrow> unit exn \<times> 'p LuaPbIntfImpl" where
  "ImportProtoFile I sProtoFile s =
     (let s = ErrorCollector_Clear s;
          (found, errors, pool) = im_Import I (pb_mappings s) sProtoFile (pb_pool s);
          s = fold ErrorCollector_AddError errors (s\<lparr>pb_pool := pool\<rparr>)
      in if found then (ret (), s) else (throw (''Failed to import: '' @ pb_error s), s))"

definition MakeSharedMessage ::
  "('p, 'd, 'svc, 'm) importer \<Rightarrow> 'p LuaPbIntfImpl \<Rightarrow> string \<Rightarrow> 'm exn" where
  "MakeSharedMessage I s sTypeName = (case im_FindMessageTypeByName I (pb_pool s) sTypeName of
     None \<Rightarrow> throw (''No message type: '' @ sTypeName)
   | Some pDesc \<Rightarrow> (case im_GetPrototype_New I pDesc of
       None \<Rightarrow> throw (''No prototype for '' @ sTypeName)
     | Some pMsg \<Rightarrow> ret pMsg))"

definition Encode :: "'f lua_conv \<Rightarrow> ('m, 'f) protobuf \<Rightarrow> ('p, 'd, 'svc, 'm) importer \<Rightarrow> 'p LuaPbIntfImpl \<Rightarrow>
    string \<Rightarrow> 'f lua \<Rightarrow> string exn" where
  "Encode C R I s sMsgTypeName luaTable =
     bind_x (LuaRef_checkTable luaTable) (\<lambda>_.
     bind_x (MakeSharedMessage I s sMsgTypeName) (\<lambda>pMsg.
     bind_x (MessageSetter_new R pMsg) (\<lambda>pDesc.
     bind_x (SetMsg C R pDesc luaTable pMsg) (\<lambda>pMsg.
       ret (pb_SerializeAsString R pMsg)))))"

definition Decode :: "('m, 'f) protobuf \<Rightarrow> ('p, 'd, 'svc, 'm) importer \<Rightarrow> nat \<Rightarrow> 'p LuaPbIntfImpl \<Rightarrow>
    string \<Rightarrow> string \<Rightarrow> 'f lua exn" where
  "Decode R I fuel s sMsgTypeName sData =
     bind_x (MakeSharedMessage I s sMsgTypeName) (\<lambda>pMsg.
       case pb_ParseFromString R sData pMsg of
         Some pMsg \<Rightarrow> ToTbl R fuel pMsg
       | None \<Rightarrow> ret LNil)"

definition GetServiceDescriptor ::
  "('p, 'd, 'svc, 'm) importer \<Rightarrow> 'p LuaPbIntfImpl \<Rightarrow> string \<Rightarrow> 'svc option" where
  "GetServiceDescriptor I s sServiceName = im_FindServiceByName I (pb_pool s) sServiceName"

definition GetServiceDescriptorTbl :: "('m, 'f) protobuf \<Rightarrow> ('p, 'd, 'svc, 'm) importer \<Rightarrow> nat \<Rightarrow>
    'p LuaPbIntfImpl \<Rightarrow> string \<Rightarrow> 'f lua exn" where
  "GetServiceDescriptorTbl R I fuel s sServiceName = (case GetServiceDescriptor I s sServiceName of
     None \<Rightarrow> throw (''No such service: '' @ sServiceName)
   | Some pDesc \<Rightarrow> ToTbl R fuel (im_CopyTo I pDesc))"

definition FindRpcMethod ::
  "('p, 'd, 'svc, 'm) importer \<Rightarrow> 'p LuaPbIntfImpl \<Rightarrow> string \<Rightarrow> string \<Rightarrow> MethodDescriptor exn" where
  "FindRpcMethod I s sServiceName sMethodName = (case GetServiceDescriptor I s sServiceName of
     None \<Rightarrow> throw (''No such service: '' @ sServiceName)
   | Some pDesc \<Rightarrow> (case im_FindMethodByName I pDesc sMethodName of
       Some pMethod \<Rightarrow> ret pMethod
     | None \<Rightarrow> throw (''No such method: '' @ sServiceName @ ''.'' @ sMethodName)))"

definition GetRpcInputName :: "('p, 'd, 'svc, 'm) importer \<Rightarrow> 'p LuaPbIntfImpl \<Rightarrow> string \<Rightarrow> string \<Rightarrow> string exn" where
  "GetRpcInputName I s sv mt = bind_x (FindRpcMethod I s sv mt) (\<lambda>d. ret (mt_input_type d))"

definition GetRpcOutputName :: "('p, 'd, 'svc, 'm) importer \<Rightarrow> 'p LuaPbIntfImpl \<Rightarrow> string \<Rightarrow> string \<Rightarrow> string exn" where
  "GetRpcOutputName I s sv mt = bind_x (FindRpcMethod I s sv mt) (\<lambda>d. ret (mt_output_type d))"

definition IsRpcClientStreaming :: "('p, 'd, 'svc, 'm) importer \<Rightarrow> 'p LuaPbIntfImpl \<Rightarrow> string \<Rightarrow> string \<Rightarrow> bool exn" where
  "IsRpcClientStreaming I s sv mt = bind_x (FindRpcMethod I s sv mt) (\<lambda>d. ret (mt_client_streaming d))"

definition IsRpcServerStreaming :: "('p, 'd, 'svc, 'm) importer \<Rightarrow> 'p LuaPbIntfImpl \<Rightarrow> string \<Rightarrow> string \<Rightarrow> bool exn" where
  "IsRpcServerStreaming I s sv mt = bind_x (FindRpcMethod I s sv mt) (\<lambda>d. ret (mt_server_streaming d))"

section \<open>The Lua module\<close>

text \<open>
  \<^verbatim>\<open>BindPb\<close>: the functions of the module by name, on the one instance. A missing argument is nil;
  arguments are converted first, surplus ones ignored. \<open>None\<close> is a name the module does not have.
\<close>

fun arg :: "nat \<Rightarrow> 'f lua list \<Rightarrow> 'f lua" where
  "arg i args = (if i < length args then args ! i else LNil)"

definition string_args1 :: "'f lua_conv \<Rightarrow> 'f lua list \<Rightarrow> (string \<Rightarrow> 'a exn) \<Rightarrow> 'a exn" where
  "string_args1 C args k = bind_x (toValue_string C (arg 0 args)) k"

definition string_args2 :: "'f lua_conv \<Rightarrow> 'f lua list \<Rightarrow> (string \<Rightarrow> string \<Rightarrow> 'a exn) \<Rightarrow> 'a exn" where
  "string_args2 C args k =
     bind_x (toValue_string C (arg 0 args)) (\<lambda>a. bind_x (toValue_string C (arg 1 args)) (k a))"

definition BindPb :: "'f lua_conv \<Rightarrow> ('m, 'f) protobuf \<Rightarrow> ('p, 'd, 'svc, 'm) importer \<Rightarrow> nat \<Rightarrow> string \<Rightarrow>
    'f lua list \<Rightarrow> 'p LuaPbIntfImpl \<Rightarrow> ('f lua \<times> 'p LuaPbIntfImpl) exn option" where
  "BindPb C R I fuel name args s =
     (if name = ''add_proto_path'' then Some (string_args1 C args (\<lambda>p. ret (LNil, AddProtoPath p s)))
      else if name = ''map_path'' then Some (string_args2 C args (\<lambda>v d. ret (LNil, MapPath v d s)))
      else if name = ''import_proto_file'' then
        Some (string_args1 C args (\<lambda>f. case ImportProtoFile I f s of (r, s) \<Rightarrow> bind_x r (\<lambda>_. ret (LNil, s))))
      else if name = ''encode'' then
        Some (string_args1 C args (\<lambda>t. bind_x (Encode C R I s t (arg 1 args)) (\<lambda>d. ret (push_string d, s))))
      else if name = ''decode'' then
        Some (string_args2 C args (\<lambda>t d. bind_x (Decode R I fuel s t d) (\<lambda>v. ret (v, s))))
      else if name = ''get_service_descriptor'' then
        Some (string_args1 C args (\<lambda>n. bind_x (GetServiceDescriptorTbl R I fuel s n) (\<lambda>v. ret (v, s))))
      else if name = ''get_rpc_input_name'' then
        Some (string_args2 C args (\<lambda>sv mt. bind_x (GetRpcInputName I s sv mt) (\<lambda>n. ret (push_string n, s))))
      else if name = ''get_rpc_output_name'' then
        Some (string_args2 C args (\<lambda>sv mt. bind_x (GetRpcOutputName I s sv mt) (\<lambda>n. ret (push_string n, s))))
      else if name = ''is_rpc_client_streaming'' then
        Some (string_args2 C args (\<lambda>sv mt. bind_x (IsRpcClientStreaming I s sv mt) (\<lambda>b. ret (LBool b, s))))
      else if name = ''is_rpc_server_streaming'' then
        Some (string_args2 C args (\<lambda>sv mt. bind_x (IsRpcServerStreaming I s sv mt) (\<lambda>b. ret (LBool b, s))))
      else None)"

section \<open>What is relied on\<close>

text \<open>
  A message that the factory makes is valid. What the parser makes of any string, when it accepts it, is a valid message
  of the type asked for (\<open>parse_ok\<close>). \<open>wire_ok\<close> is the documented use of the wire format, with its limits:
  when the serialised form of a message is accepted again, the fields with integers, booleans, enumeration values and
  strings are as they were. Nothing is said when the parser refuses the string, as it does for strings that are not UTF-8
  and for messages that are nested too deep, nor when a serialisation has failed, which yields the empty string, nor
  of floating-point fields, where protobuf releases differ on the sign of zero. The values of a field of an enumeration
  type are open, as in proto3.
\<close>

definition importer_ok ::
  "('m, 'f) protobuf \<Rightarrow> ('p, 'd, 'svc, 'm) importer \<Rightarrow> ('m \<Rightarrow> bool) \<Rightarrow> 'p LuaPbIntfImpl \<Rightarrow> bool" where
  "importer_ok R I valid s \<longleftrightarrow>
     (\<forall>n d m. im_FindMessageTypeByName I (pb_pool s) n = Some d \<and> im_GetPrototype_New I d = Some m \<longrightarrow> valid m) \<and>
     (\<forall>n svc. im_FindServiceByName I (pb_pool s) n = Some svc \<longrightarrow> valid (im_CopyTo I svc))"

definition parse_ok :: "('m, 'f) protobuf \<Rightarrow> ('m \<Rightarrow> bool) \<Rightarrow> bool" where
  "parse_ok R valid \<longleftrightarrow>
     (\<forall>s m fresh. valid fresh \<and> pb_ParseFromString R s fresh = Some m \<longrightarrow>
        valid m \<and> pb_GetDescriptor R m = pb_GetDescriptor R fresh)"

definition wire_type :: "CppType \<Rightarrow> bool" where
  "wire_type t \<longleftrightarrow> is_scalar_type t \<and> t \<noteq> CPPTYPE_FLOAT \<and> t \<noteq> CPPTYPE_DOUBLE"

definition wire_ok :: "('m, 'f) protobuf \<Rightarrow> ('m \<Rightarrow> bool) \<Rightarrow> ('m, 'f) contents \<Rightarrow> bool" where
  "wire_ok R valid view \<longleftrightarrow>
     (\<forall>m fresh m' D f. valid m \<and> valid fresh \<and> pb_GetDescriptor R m = Some D \<and> pb_GetDescriptor R fresh = Some D \<and>
        pb_SerializeAsString R m \<noteq> '''' \<and> pb_ParseFromString R (pb_SerializeAsString R m) fresh = Some m' \<and>
        f \<in> set D \<and> fd_containing_oneof f = None \<and> wire_type (fd_cpp_type f) \<longrightarrow>
        view m' f = view m f)"

lemma made_keeps:
  assumes "reflection_ok R valid view" "importer_ok R I valid s" "MakeSharedMessage I s n = ret m"
  shows "\<exists>D. keeps R valid view D m"
proof -
  have "valid m" using assms(2,3) by (auto simp: importer_ok_def MakeSharedMessage_def split: option.splits)
  with assms(1) show ?thesis by (rule valid_keeps)
qed

lemma MakeSharedMessage_holds: "holds_x (\<lambda>m. MakeSharedMessage I s n = ret m) (\<lambda>_. True) (MakeSharedMessage I s n)"
  by (auto simp: MakeSharedMessage_def split: option.splits)

lemma Encode_ret:
  assumes "reflection_ok R valid view" "importer_ok R I valid s" "Encode C R I s n t = ret bytes"
  obtains m D m' where "LuaRef_isTable t" "MakeSharedMessage I s n = ret m" "keeps R valid view D m"
    "SetMsg C R D t m = ret m'" "keeps R valid view D m'" "bytes = pb_SerializeAsString R m'"
proof -
  from assms(3) obtain m D m' where e: "LuaRef_isTable t" "MakeSharedMessage I s n = ret m"
    "MessageSetter_new R m = ret D" "SetMsg C R D t m = ret m'" "bytes = pb_SerializeAsString R m'"
    by (auto simp: Encode_def bind_x_ret LuaRef_checkTable_def LuaRef_isTable_def split: if_splits)
  from made_keeps [OF assms(1,2) e(2)] obtain D' where k: "keeps R valid view D' m" by blast
  with MessageSetter_new_keeps [OF k] e(3) have "D' = D" by simp
  with that e k holds_x_ret [OF setter_keeps(2) [OF k e(1)]] show ?thesis by blast
qed

section \<open>Decoding\<close>

lemma depth_le_mono: "depth_le R view n m \<Longrightarrow> n \<le> n' \<Longrightarrow> depth_le R view n' m"
proof (induction n arbitrary: m n')
  case (Suc n)
  then show ?case by (cases n') auto
qed simp

text \<open>A message is nested finitely deep.\<close>

definition finitely_nested :: "('m, 'f) protobuf \<Rightarrow> ('m \<Rightarrow> bool) \<Rightarrow> ('m, 'f) contents \<Rightarrow> bool" where
  "finitely_nested R valid view \<longleftrightarrow> (\<forall>m. valid m \<longrightarrow> (\<exists>n. depth_le R view n m))"

lemma ToTbl_enough_fuel:
  assumes "keeps R valid view D m" "finitely_nested R valid view"
  shows "\<exists>n0. \<forall>n \<ge> n0. \<exists>es. ToTbl R n m = ret (LTable es) \<and>
    (\<forall>f \<in> set (shown R m D). reads_as (view m f) (lua_get (LTable es) (LStr (fd_name f)))) \<and>
    (\<forall>k. (\<forall>f \<in> set (shown R m D). k \<noteq> LStr (fd_name f)) \<longrightarrow> lua_get (LTable es) k = LNil)"
proof -
  from assms(2) keepsD(1) [OF assms(1)] obtain n0 where "depth_le R view n0 m"
    by (auto simp: finitely_nested_def)
  then have "depth_le R view n m" if "n0 \<le> n" for n using that by (rule depth_le_mono)
  then show ?thesis using ToTbl_fields [OF assms(1)] by blast
qed

lemma Decode_enough_fuel:
  assumes "reflection_ok R valid view" "importer_ok R I valid s" "parse_ok R valid" "finitely_nested R valid view"
    and "MakeSharedMessage I s n = ret m" "pb_ParseFromString R bytes m = Some m'" "pb_GetDescriptor R m = Some D"
  shows "\<exists>n0. \<forall>fuel \<ge> n0. \<exists>es. Decode R I fuel s n bytes = ret (LTable es) \<and>
    (\<forall>f \<in> set (shown R m' D). reads_as (view m' f) (lua_get (LTable es) (LStr (fd_name f))))"
proof -
  from made_keeps [OF assms(1,2,5)] obtain D' where "keeps R valid view D' m" by blast
  with assms(3,6,7) have "keeps R valid view D m'" by (auto simp: keeps_def parse_ok_def)
  from ToTbl_enough_fuel [OF this assms(4)] assms(5,6) show ?thesis by (simp add: Decode_def) blast
qed

text \<open>The message that \<^verbatim>\<open>Encode\<close> serialises, and what it holds.\<close>

lemma Encode_message:
  assumes "reflection_ok R valid view" "importer_ok R I valid s" "Encode C R I s n t = ret bytes"
    and "MakeSharedMessage I s n = ret fresh" "distinct (map fst (lua_entries t))"
  obtains m D where "bytes = pb_SerializeAsString R m" "keeps R valid view D fresh" "keeps R valid view D m"
    "\<forall>f \<in> set D. fd_containing_oneof f = None \<longrightarrow> (case map_of (lua_entries t) (LStr (fd_name f)) of
      None \<Rightarrow> view m f = view fresh f | Some v \<Rightarrow> sets_content C R f v (view fresh f) (view m f))"
proof -
  from Encode_ret [OF assms(1-3)] obtain m0 D m where e: "LuaRef_isTable t"
    "MakeSharedMessage I s n = ret m0" "keeps R valid view D m0" "SetMsg C R D t m0 = ret m"
    "keeps R valid view D m" "bytes = pb_SerializeAsString R m" .
  with assms(4) have m0: "m0 = fresh" by simp
  from e(4) e(1) have fold: "fold_x (set_entry C R D) (lua_entries t) fresh = ret m"
    by (simp add: SetMsg_entries m0)
  show ?thesis
    by (rule that [OF e(6) _ e(5)]) (use e(3) m0 entries_content [OF _ fold assms(5)] in blast)+
qed

lemma encode_decode_one:
  assumes "reflection_ok R valid view" "importer_ok R I valid s" "parse_ok R valid" "wire_ok R valid view"
    and "finitely_nested R valid view"
    and "Encode C R I s n t = ret bytes" "MakeSharedMessage I s n = ret m" "pb_GetDescriptor R m = Some D"
    and "distinct (map fst (lua_entries t))" "bytes \<noteq> ''''" "pb_ParseFromString R bytes m = Some m'"
    and "f \<in> set D" "fd_containing_oneof f = None" "wire_type (fd_cpp_type f)"
    and "\<And>c w. reads_as c w \<Longrightarrow> case map_of (lua_entries t) (LStr (fd_name f)) of
        None \<Rightarrow> c = view m f | Some v \<Rightarrow> sets_content C R f v (view m f) c \<Longrightarrow> P w"
  shows "\<exists>n0. \<forall>fuel \<ge> n0. \<exists>es. Decode R I fuel s n bytes = ret (LTable es) \<and> P (lua_get (LTable es) (LStr (fd_name f)))"
proof -
  from Encode_message [OF assms(1,2,6,7,9)] obtain m1 D' where e: "bytes = pb_SerializeAsString R m1"
    "keeps R valid view D' m" "keeps R valid view D' m1"
    "\<forall>f \<in> set D'. fd_containing_oneof f = None \<longrightarrow> (case map_of (lua_entries t) (LStr (fd_name f)) of
      None \<Rightarrow> view m1 f = view m f | Some v \<Rightarrow> sets_content C R f v (view m f) (view m1 f))" .
  from e(2) assms(8) have D: "D' = D" by (simp add: keeps_def)
  from e(2,3) have "valid m1" "valid m" "pb_GetDescriptor R m1 = Some D" by (simp_all add: keeps_def D)
  with assms(4,8,10,11,12-14) e(1) have same: "view m' f = view m1 f" unfolding wire_ok_def by blast
  have shown: "f \<in> set (shown R m' D)" using assms(12,13) by (simp add: shown_def)
  from Decode_enough_fuel [OF assms(1-3,5,7,11,8)] obtain n0 where
    n0: "\<And>fuel. n0 \<le> fuel \<Longrightarrow> \<exists>es. Decode R I fuel s n bytes = ret (LTable es) \<and>
      (\<forall>f \<in> set (shown R m' D). reads_as (view m' f) (lua_get (LTable es) (LStr (fd_name f))))" by blast
  show ?thesis
  proof (intro exI [of _ n0] allI impI)
    fix fuel assume "n0 \<le> fuel"
    from n0 [OF this] shown obtain es where es: "Decode R I fuel s n bytes = ret (LTable es)"
      "reads_as (view m1 f) (lua_get (LTable es) (LStr (fd_name f)))" using same by fastforce
    from assms(15) [OF es(2) e(4) [unfolded D, rule_format, OF assms(12,13)]] es(1)
    show "\<exists>es. Decode R I fuel s n bytes = ret (LTable es) \<and> P (lua_get (LTable es) (LStr (fd_name f)))" by blast
  qed
qed

section \<open>Single values\<close>

text \<open>What the setter makes of the value that the reader pushed.\<close>

lemma ucast_scast_32 [simp]: "ucast (scast (i :: 32 word) :: 64 word) = i"
  by (rule bit_word_eqI) (simp add: bit_unsigned_iff bit_signed_iff)

lemma ucast_ucast_32 [simp]: "ucast (ucast (i :: 32 word) :: 64 word) = i"
  by (rule bit_word_eqI) (simp add: bit_unsigned_iff)

lemma scalar_argument_push:
  assumes "value_type x = fd_cpp_type f" "case x of VFloat d \<Rightarrow> to_float C d = d | _ \<Rightarrow> True"
  shows "scalar_argument C R f (push_value x) = ret x"
proof -
  note t = assms(1) [symmetric]
  show ?thesis
    using assms(2)
    by (cases x) (simp_all add: scalar_argument_def t push_int32_def push_int64_def push_uint32_def push_uint64_def
        push_string_def toValue_int32_def toValue_int64_def toValue_uint32_def toValue_uint64_def
        toValue_double_def toValue_float_def toValue_bool_def toValue_string_def GetEnumValue_def)
qed

text \<open>The integers that a field can hold, and the one that it holds.\<close>

definition field_range :: "CppType \<Rightarrow> int set" where
  "field_range t =
     (if t = CPPTYPE_INT32 \<or> t = CPPTYPE_ENUM then {- (2 ^ 31) ..< 2 ^ 31}
      else if t = CPPTYPE_UINT32 then {0 ..< 2 ^ 32}
      else if t = CPPTYPE_UINT64 then {0 ..< 2 ^ 64}
      else {- (2 ^ 63) ..< 2 ^ 63})"

fun integer_of :: "'f pb_value \<Rightarrow> int" where
  "integer_of (VInt32 i) = sint i"
| "integer_of (VInt64 i) = sint i"
| "integer_of (VUInt32 i) = uint i"
| "integer_of (VUInt64 i) = uint i"
| "integer_of (VEnum i) = sint i"
| "integer_of (VBool b) = of_bool b"
| "integer_of _ = 0"

definition is_integer_type :: "CppType \<Rightarrow> bool" where
  "is_integer_type t \<longleftrightarrow> t \<in> {CPPTYPE_INT32, CPPTYPE_INT64, CPPTYPE_UINT32, CPPTYPE_UINT64, CPPTYPE_ENUM}"

lemma stb_31_63: "(take_bit 64 (signed_take_bit 31 (take_bit 64 i)) = take_bit 64 i) =
         (signed_take_bit 31 i = signed_take_bit 63 (i :: int))"
proof -
  have "signed_take_bit 31 (take_bit 64 i) = signed_take_bit 31 i"
    by (simp add: signed_take_bit_take_bit)
  moreover have "(take_bit 64 (signed_take_bit 31 i) = take_bit 64 i) = (signed_take_bit 63 (signed_take_bit 31 i) = signed_take_bit 63 i)"
    by (simp add: signed_take_bit_eq_iff_take_bit_eq del: signed_take_bit_signed_take_bit)
  ultimately show ?thesis by simp
qed
lemma tb_32_64: "(take_bit 32 i = take_bit 64 i) = (take_bit 32 (signed_take_bit 63 i) = signed_take_bit 63 (i :: int))"
proof -
  have a: "take_bit 32 (signed_take_bit 63 i) = take_bit 32 i" by (simp add: take_bit_signed_take_bit)
  have "signed_take_bit 63 (take_bit 32 i) = take_bit 32 i" by (rule bit_eqI) (auto simp: bit_signed_take_bit_iff bit_take_bit_iff min_def)
  then have "(take_bit 32 i = signed_take_bit 63 i) = (signed_take_bit 63 (take_bit 32 i) = signed_take_bit 63 i)" by simp
  also have "\<dots> = (take_bit 64 (take_bit 32 i) = take_bit 64 i)"
    by (simp add: signed_take_bit_eq_iff_take_bit_eq del: take_bit_take_bit)
  finally show ?thesis by (simp add: a)
qed

lemma scast_ucast_32_exact: "scast (ucast (i :: 64 word) :: 32 word) = i \<longleftrightarrow> sint i \<in> {- (2 ^ 31) ..< 2 ^ 31}"
proof -
  have "scast (ucast i :: 32 word) = i \<longleftrightarrow> signed_take_bit 31 (sint i) = sint i"
    by transfer (simp add: stb_31_63)
  then show ?thesis by (simp add: signed_take_bit_int_eq_self_iff)
qed

lemma ucast_ucast_32_exact: "ucast (ucast (i :: 64 word) :: 32 word) = i \<longleftrightarrow> sint i \<in> {0 ..< 2 ^ 32}"
proof -
  have "ucast (ucast i :: 32 word) = i \<longleftrightarrow> take_bit 32 (sint i) = sint i"
    by transfer (simp add: tb_32_64)
  then show ?thesis by (simp add: take_bit_int_eq_self_iff)
qed

lemma sint_ucast_32: "sint (ucast (i :: 64 word) :: 32 word) = sint i \<longleftrightarrow> sint i \<in> {- (2 ^ 31) ..< 2 ^ 31}"
proof -
  have "sint (ucast i :: 32 word) = sint i \<longleftrightarrow> (scast (ucast i :: 32 word) :: 64 word) = i"
  proof
    assume "sint (ucast i :: 32 word) = sint i"
    then have "word_of_int (sint (ucast i :: 32 word)) = (word_of_int (sint i) :: 64 word)" by simp
    then show "(scast (ucast i :: 32 word) :: 64 word) = i" by simp
  next
    assume "(scast (ucast i :: 32 word) :: 64 word) = i"
    then have "sint i = sint (scast (ucast i :: 32 word) :: 64 word)" by simp
    then show "sint (ucast i :: 32 word) = sint i" by (simp add: sint_up_scast is_up)
  qed
  with scast_ucast_32_exact [of i] show ?thesis by simp
qed

lemma uint_ucast_32: "uint (ucast (i :: 64 word) :: 32 word) = sint i \<longleftrightarrow> sint i \<in> {0 ..< 2 ^ 32}"
proof -
  have "uint (ucast i :: 32 word) = sint i \<longleftrightarrow> take_bit 32 (sint i) = sint i"
    by transfer (simp add: take_bit_signed_take_bit)
  then show ?thesis by (simp add: take_bit_int_eq_self_iff)
qed

lemma uint_sint_64: "uint (i :: 64 word) = sint i \<longleftrightarrow> 0 \<le> sint i"
proof
  assume "uint i = sint i"
  then show "0 \<le> sint i" by (metis uint_nonnegative)
next
  assume "0 \<le> sint i"
  moreover have "sint i < 2 ^ 63" using sint_less [of i] by simp
  ultimately show "uint i = sint i" by (simp add: uint_sint take_bit_int_eq_self)
qed

lemma stored_integer:
  assumes "scalar_argument C R f (LInt i) = ret x" and "is_integer_type (fd_cpp_type f)"
  shows "(integer_of x = sint i \<longleftrightarrow> sint i \<in> field_range (fd_cpp_type f)) \<and>
    (push_value x = LInt i \<longleftrightarrow> sint i \<in> field_range (fd_cpp_type f) \<or> fd_cpp_type f = CPPTYPE_UINT64)"
proof -
  have "sint i \<in> {- (2 ^ 63) ..< 2 ^ 63}" using sint_greater_eq [of i] sint_less [of i] by simp
  then show ?thesis using assms
    by (auto simp: is_integer_type_def scalar_argument_def toValue_int32_def toValue_int64_def toValue_uint32_def
        toValue_uint64_def GetEnumValue_def push_int32_def push_int64_def push_uint32_def push_uint64_def field_range_def
        scast_ucast_32_exact ucast_ucast_32_exact sint_ucast_32 uint_ucast_32 uint_sint_64)
qed

section \<open>Applying the properties\<close>

lemma submessages_set: "set (submessages c) = set1_content c"
  by (cases c) (auto simp: option.set_sel split: option.splits)

lemma common_bound:
  "(\<forall>x \<in> set xs. \<exists>n. P n x) \<Longrightarrow> (\<And>n n' x. P n x \<Longrightarrow> n \<le> n' \<Longrightarrow> P n' x) \<Longrightarrow> \<exists>n :: nat. \<forall>x \<in> set xs. P n x"
proof (induction xs)
  case (Cons x xs)
  then obtain n1 n2 where "P n1 x" "\<forall>y \<in> set xs. P n2 y" by auto
  with Cons.prems(2) show ?case by (intro exI [of _ "max n1 n2"]) (auto intro: max.cobounded1 max.cobounded2)
qed simp

lemma d_nested: "\<exists>n. depth_le R d_view n m"
proof (induction m)
  case (Dyn k fs)
  let ?subs = "concat (map (\<lambda>(f, c). submessages c) fs)"
  have "\<forall>s \<in> set ?subs. \<exists>n. depth_le R d_view n s"
    using Dyn by (fastforce simp: submessages_set)
  then obtain n where n: "\<forall>s \<in> set ?subs. depth_le R d_view n s"
    using common_bound [of ?subs "depth_le R d_view"] depth_le_mono by metis
  have "depth_le R d_view n s" if "s \<in> set (submessages (d_view (Dyn k fs) f))" for s f
  proof (cases "map_of fs f")
    case None
    with that show ?thesis by (simp add: d_view_def)
  next
    case (Some c)
    with that n map_of_SomeD [OF Some] show ?thesis by (auto simp: d_view_def)
  qed
  then show ?case by (intro exI [of _ "Suc n"]) simp
qed

lemma demo_nested: "finitely_nested R valid d_view"
  by (simp add: finitely_nested_def d_nested)

text \<open>A converter that knows \<^verbatim>\<open>demo.Person\<close>, and Lua's conversions on integers.\<close>

definition demo_importer :: "(unit, nat, MethodDescriptor, dyn) importer" where
  "demo_importer =
     \<lparr>im_empty_pool = (), im_Import = (\<lambda>maps file p. (file = ''person.proto'', [(file, -1, 0, ''File not found.'')], p)),
      im_FindMessageTypeByName = (\<lambda>p n. if n = ''demo.Person'' then Some 0 else None),
      im_GetPrototype_New = (\<lambda>d. Some (Dyn d [])), im_FindServiceByName = (\<lambda>p n. None),
      im_FindMethodByName = (\<lambda>sv n. Some sv), im_CopyTo = (\<lambda>sv. Dyn 0 [])\<rparr>"

definition demo_pbi :: "unit LuaPbIntfImpl" where
  "demo_pbi = LuaPbIntfImpl_new demo_importer"

definition demo_conv :: "int lua_conv" where
  "demo_conv = \<lparr>num_to_int = (\<lambda>f. Some (word_of_int f)), str_to_int = (\<lambda>s. if s = ''12'' then Some 12 else None),
     int_to_num = sint, str_to_num = (\<lambda>s. None), int_to_str = (\<lambda>i. ostream_int (sint i)),
     num_to_str = ostream_int, to_float = (\<lambda>f. f),
     lua_border = (\<lambda>t. length (takeWhile (\<lambda>i. map_of t (LInt (word_of_nat i)) \<noteq> None) [1..<length t + 1]))\<rparr>"

lemma demo_importer_ok: "importer_ok demo_pb demo_importer (d_valid demo_schema) demo_pbi"
  by (auto simp: importer_ok_def demo_importer_def split: if_splits)

lemma d_parse_Some:
  "d_parse schema s fresh = Some m \<Longrightarrow>
     d_valid schema m \<and> d_descriptor schema (d_kind m) = d_descriptor schema (d_kind fresh)"
  by (auto simp: d_parse_def Let_def split: if_splits)

lemma demo_parse_ok: "parse_ok demo_pb (d_valid demo_schema)"
  unfolding parse_ok_def demo_pb_def dyn_protobuf_def by (auto dest: d_parse_Some)

lemma demo_wire_ok: "wire_ok demo_pb (d_valid demo_schema) d_view"
  unfolding wire_ok_def demo_pb_def dyn_protobuf_def by (auto simp: d_parse_serialize)

definition demo_person :: "int lua" where
  "demo_person = LTable [(LStr ''id'', LInt 7), (LStr ''name'', LStr ''Ada''), (LStr ''colour'', LStr ''RED''),
     (LStr ''age'', LInt (-1)), (LStr ''scores'', LTable [(LInt 1, LInt 5), (LInt 2, LInt 6)]),
     (LStr ''friend'', LTable [(LStr ''name'', LStr ''Bob'')]),
     (LStr ''attrs'', LTable [(LStr ''x'', LInt 1)]), (LStr ''mail'', LStr ''a@b''), (LInt 1, LBool True)]"

section \<open>Properties\<close>

text \<open>
  C30: Whatever table it is given, \<^verbatim>\<open>Encode\<close> ends with a string or with an exception: no assertion of
  the setter fails and no reflection accessor is applied to a field it does not fit. Tables are finite trees here: a
  table that contains itself, with a message type that does too, is outside the model, and the setter recurses on it
  without end (\<^verbatim>\<open>MessageSetter.cpp:86\<close>).
\<close>
theorem pb_encode_never_aborts:
  assumes "reflection_ok R valid view" "importer_ok R I valid s"
  shows "holds_x (\<lambda>_. True) (\<lambda>_. True) (Encode C R I s n t)"
proof -
  have set: "holds_x (\<lambda>_. True) (\<lambda>_. True) (bind_x (MessageSetter_new R m) (\<lambda>D.
      bind_x (SetMsg C R D t m) (\<lambda>m'. ret (pb_SerializeAsString R m'))))"
    if "MakeSharedMessage I s n = ret m" "LuaRef_isTable t" for m
  proof -
    from made_keeps [OF assms that(1)] obtain D where k: "keeps R valid view D m" by blast
    with setter_keeps(2) [OF k that(2), of C] show ?thesis
      by (auto simp: MessageSetter_new_keeps [OF k] holds_x_bind elim: holds_x_mono)
  qed
  show ?thesis
  proof (cases "LuaRef_isTable t")
    case True
    then have "Encode C R I s n t = bind_x (MakeSharedMessage I s n) (\<lambda>m. bind_x (MessageSetter_new R m) (\<lambda>D.
      bind_x (SetMsg C R D t m) (\<lambda>m'. ret (pb_SerializeAsString R m'))))"
      by (simp add: Encode_def LuaRef_checkTable_def LuaRef_isTable_def)
    moreover have "holds_x (\<lambda>_. True) (\<lambda>_. True) \<dots>"
      by (rule holds_x_bindI [OF MakeSharedMessage_holds]) (rule set [OF _ True])
    ultimately show ?thesis by simp
  qed (simp add: Encode_def LuaRef_checkTable_def LuaRef_isTable_def)
qed

theorem pb_encode_never_aborts_witness:
  "holds_x (\<lambda>_. True) (\<lambda>_. True) (Encode demo_conv demo_pb demo_importer demo_pbi ''demo.Person'' demo_person)"
  by (rule pb_encode_never_aborts [OF demo_pb_ok demo_importer_ok])

text \<open>
  C31: \<^verbatim>\<open>Encode\<close> never drops a named entry: if it returns, every string key of the table is the name of
  a field of the message type.
\<close>
theorem pb_encode_rejects_unknown:
  assumes "reflection_ok R valid view" "importer_ok R I valid s" "Encode C R I s n t = ret bytes"
    and "MakeSharedMessage I s n = ret m" "pb_GetDescriptor R m = Some D" "(LStr k, v) \<in> set (lua_entries t)"
  shows "k \<in> fd_name ` set D"
proof -
  from Encode_ret [OF assms(1-3)] obtain m0 D' m' where e: "LuaRef_isTable t"
    "MakeSharedMessage I s n = ret m0" "keeps R valid view D' m0" "SetMsg C R D' t m0 = ret m'" by metis
  with assms(4,5) have "keeps R valid view D m" "fold_x (set_entry C R D) (lua_entries t) m = ret m'"
    by (auto simp: keeps_def SetMsg_entries)
  from fold_x_ret_in [where I = "keeps R valid view D", OF this(2,1) assms(6)]
  obtain c d where c: "keeps R valid view D c" "set_entry C R D (LStr k, v) c = ret d"
    by (metis set_entry_keeps surj_pair)
  then have "SetField C R D k v c = ret d" by simp
  from SetField_written [OF c(1) this] show ?thesis by blast
qed

theorem pb_encode_rejects_unknown_witness:
  "\<nexists>bytes. Encode demo_conv demo_pb demo_importer demo_pbi ''demo.Person'' (LTable [(LStr ''nmae'', LStr ''Ada'')]) = ret bytes"
proof
  assume "\<exists>bytes. Encode demo_conv demo_pb demo_importer demo_pbi ''demo.Person'' (LTable [(LStr ''nmae'', LStr ''Ada'')]) = ret bytes"
  then obtain bytes where e: "Encode demo_conv demo_pb demo_importer demo_pbi ''demo.Person''
      (LTable [(LStr ''nmae'', LStr ''Ada'')]) = ret bytes" by blast
  have m: "MakeSharedMessage demo_importer demo_pbi ''demo.Person'' = ret (Dyn 0 [])"
    by (simp add: MakeSharedMessage_def demo_importer_def)
  have d: "pb_GetDescriptor demo_pb (Dyn 0 []) = Some (d_descriptor demo_schema 0)"
    by (simp add: demo_pb_def dyn_protobuf_def)
  from pb_encode_rejects_unknown [OF demo_pb_ok demo_importer_ok e m d, of "''nmae''" "LStr ''Ada''"]
  have "''nmae'' \<in> fd_name ` set (d_descriptor demo_schema 0)" by simp
  then show False by (simp add: d_descriptor_def demo_schema_def field_def)
qed

text \<open>
  C32: What goes out comes back. Take a field outside a oneof that holds one integer, boolean, enumeration value or
  string, and a string that \<^verbatim>\<open>Encode\<close> produced. If protobuf refuses to parse it, \<^verbatim>\<open>Decode\<close> yields nil. Otherwise, with enough
  fuel, it yields a table whose entry for the field is the value that was written converted to the field's
  type, or the default of the message type if the table had no such entry.
\<close>
theorem pb_round_trip:
  assumes "reflection_ok R valid view" "importer_ok R I valid s" "parse_ok R valid" "wire_ok R valid view"
    and "finitely_nested R valid view"
    and "Encode C R I s n t = ret bytes" "MakeSharedMessage I s n = ret m" "pb_GetDescriptor R m = Some D"
    and "distinct (map fst (lua_entries t))" "bytes \<noteq> ''''"
    and "f \<in> set D" "fd_containing_oneof f = None" "\<not> fd_is_repeated f" "wire_type (fd_cpp_type f)"
  shows "case pb_ParseFromString R bytes m of
      None \<Rightarrow> \<forall>fuel. Decode R I fuel s n bytes = ret LNil
    | Some m' \<Rightarrow> \<exists>n0. \<forall>fuel \<ge> n0. \<exists>es. Decode R I fuel s n bytes = ret (LTable es) \<and>
        (case map_of (lua_entries t) (LStr (fd_name f)) of
           None \<Rightarrow> lua_get (LTable es) (LStr (fd_name f)) = push_value (pb_Get R m f)
         | Some v \<Rightarrow> \<exists>x. scalar_argument C R f v = ret x \<and> lua_get (LTable es) (LStr (fd_name f)) = push_value x)"
proof (cases "pb_ParseFromString R bytes m")
  case None
  with assms(7) show ?thesis by (simp add: Decode_def)
next
  case (Some m')
  have scalar: "is_scalar_type (fd_cpp_type f)" using assms(14) by (simp add: wire_type_def)
  from made_keeps [OF assms(1,2,7)] assms(8) have k: "keeps R valid view D m" by (auto simp: keeps_def)
  from view_single [OF k assms(11,13) scalar] obtain x0 where "view m f = Single x0" .
  with keeps_field_read [OF k assms(11)] have x0: "view m f = Single (pb_Get R m f)" by (simp add: field_read_def)
  have step: "case map_of (lua_entries t) (LStr (fd_name f)) of None \<Rightarrow> w = push_value (pb_Get R m f)
      | Some v \<Rightarrow> \<exists>x. scalar_argument C R f v = ret x \<and> w = push_value x"
    if "reads_as c w" "case map_of (lua_entries t) (LStr (fd_name f)) of
      None \<Rightarrow> c = view m f | Some v \<Rightarrow> sets_content C R f v (view m f) c" for c w
    using that x0 assms(13) scalar by (auto simp: reads_as_def sets_content_def split: option.splits)
  show ?thesis using encode_decode_one [OF assms(1-10) Some assms(11,12,14) step] Some by simp
qed

lemma demo_made: "MakeSharedMessage demo_importer demo_pbi ''demo.Person'' = ret (Dyn 0 [])"
  by (simp add: MakeSharedMessage_def demo_importer_def)

lemma demo_descriptor: "pb_GetDescriptor demo_pb (Dyn 0 []) = Some (d_descriptor demo_schema 0)"
  by (simp add: demo_pb_def dyn_protobuf_def)

lemma demo_encode:
  assumes "case SetMsg demo_conv demo_pb (d_descriptor demo_schema 0) t (Dyn 0 []) of
      Done (Returned m) \<Rightarrow> True | _ \<Rightarrow> False" "LuaRef_isTable t"
  shows "\<exists>bytes. Encode demo_conv demo_pb demo_importer demo_pbi ''demo.Person'' t = ret bytes \<and> bytes \<noteq> '''' \<and>
    pb_ParseFromString demo_pb bytes (Dyn 0 []) \<noteq> None"
proof -
  from assms(1) obtain m where m: "SetMsg demo_conv demo_pb (d_descriptor demo_schema 0) t (Dyn 0 []) = ret m"
    by (auto simp: ret_def split: outcome.splits excepting.splits)
  moreover have "MessageSetter_new demo_pb (Dyn 0 []) = ret (d_descriptor demo_schema 0)"
    by (simp add: MessageSetter_new_def demo_pb_def dyn_protobuf_def)
  ultimately have e: "Encode demo_conv demo_pb demo_importer demo_pbi ''demo.Person'' t = ret (pb_SerializeAsString demo_pb m)"
    using assms(2) by (simp add: Encode_def demo_made LuaRef_checkTable_def LuaRef_isTable_def)
  from Encode_ret [OF demo_pb_ok demo_importer_ok e] obtain D m0 m1 where k: "keeps demo_pb (d_valid demo_schema) d_view D m0"
    "MakeSharedMessage demo_importer demo_pbi ''demo.Person'' = ret m0" "SetMsg demo_conv demo_pb D t m0 = ret m1"
    "keeps demo_pb (d_valid demo_schema) d_view D m1" by metis
  then have m0: "m0 = Dyn 0 []" by (simp add: demo_made)
  with k(1) have D: "D = d_descriptor demo_schema 0" by (simp add: keeps_def demo_descriptor)
  with k(3) m m0 have "m1 = m" by simp
  with k(4) D have "d_valid demo_schema m" "d_descriptor demo_schema (d_kind m) = d_descriptor demo_schema 0"
    by (auto simp: keeps_def demo_pb_def dyn_protobuf_def)
  then have "d_parse demo_schema (d_serialize m) (Dyn 0 []) = Some m" by (intro d_parse_serialize) simp_all
  with e show ?thesis by (simp add: demo_pb_def dyn_protobuf_def d_serialize_def)
qed

lemma demo_person_encodes:
  "\<exists>bytes. Encode demo_conv demo_pb demo_importer demo_pbi ''demo.Person'' demo_person = ret bytes \<and> bytes \<noteq> '''' \<and>
    pb_ParseFromString demo_pb bytes (Dyn 0 []) \<noteq> None"
proof (rule demo_encode)
  show "case SetMsg demo_conv demo_pb (d_descriptor demo_schema 0) demo_person (Dyn 0 []) of
      Done (Returned m) \<Rightarrow> True | _ \<Rightarrow> False" by code_simp
qed (simp add: demo_person_def LuaRef_isTable_def)

text \<open>The unsigned field \<^verbatim>\<open>age\<close> was given -1, and comes back as the largest value it can hold.\<close>

theorem pb_round_trip_witness:
  "\<exists>bytes n0. \<forall>fuel \<ge> n0. \<exists>es. Decode demo_pb demo_importer fuel demo_pbi ''demo.Person'' bytes = ret (LTable es) \<and>
     lua_get (LTable es) (LStr ''age'') = LInt 4294967295"
proof -
  from demo_person_encodes obtain bytes m' where
    e: "Encode demo_conv demo_pb demo_importer demo_pbi ''demo.Person'' demo_person = ret bytes" "bytes \<noteq> ''''"
    and p: "pb_ParseFromString demo_pb bytes (Dyn 0 []) = Some m'" by blast
  let ?f = "field ''age'' CPPTYPE_UINT32"
  have f: "distinct (map fst (lua_entries demo_person))" "?f \<in> set (d_descriptor demo_schema 0)"
    "fd_containing_oneof ?f = None" "\<not> fd_is_repeated ?f" "wire_type (fd_cpp_type ?f)"
    by (simp_all add: demo_person_def d_descriptor_def demo_schema_def field_def is_scalar_type_def wire_type_def)
  have v: "map_of (lua_entries demo_person) (LStr ''age'') = Some (LInt (-1))" by (simp add: demo_person_def)
  have x: "scalar_argument demo_conv demo_pb ?f (LInt (-1)) = ret (VUInt32 4294967295)"
  proof -
    have "ucast (- 1 :: 64 word) = (4294967295 :: 32 word)" by code_simp
    then show ?thesis by (simp add: scalar_argument_def field_def toValue_uint32_def)
  qed
  have "push_value (VUInt32 4294967295 :: int pb_value) = LInt 4294967295" by (simp add: push_uint32_def)
  with pb_round_trip [OF demo_pb_ok demo_importer_ok demo_parse_ok demo_wire_ok demo_nested e(1) demo_made demo_descriptor
      f(1) e(2) f(2-5)] v x p
  show ?thesis by (intro exI [of _ bytes]) (simp add: field_def)
qed

text \<open>
  The items of an array come back, in order: for a repeated scalar field that is empty in a new message,
  the decoded entry is a table with exactly the items up to the table's length, each converted to the field's type.
\<close>
theorem pb_array_round_trip:
  fixes R :: "('m, 'f) protobuf" and C :: "'f lua_conv"
  assumes "reflection_ok R valid view" "importer_ok R I valid s" "parse_ok R valid" "wire_ok R valid view"
    and "finitely_nested R valid view"
    and "Encode C R I s n t = ret bytes" "MakeSharedMessage I s n = ret m" "pb_GetDescriptor R m = Some D"
    and "distinct (map fst (lua_entries t))" "bytes \<noteq> ''''" "pb_ParseFromString R bytes m = Some m'"
    and "f \<in> set D" "fd_is_repeated f" "wire_type (fd_cpp_type f)" "pb_FieldSize R m f = 0"
    and "map_of (lua_entries t) (LStr (fd_name f)) = Some v"
  shows "\<exists>n0. \<forall>fuel \<ge> n0. \<exists>es. Decode R I fuel s n bytes = ret (LTable es) \<and>
    (\<exists>ys. list_all2 (\<lambda>i y. scalar_argument C R f i = ret y) (array_items C v) ys \<and>
      reads_as (Many ys :: ('m, 'f) content) (lua_get (LTable es) (LStr (fd_name f))))"
proof -
  have scalar: "is_scalar_type (fd_cpp_type f)" using assms(14) by (simp add: wire_type_def)
  from made_keeps [OF assms(1,2,7)] assms(8) have k: "keeps R valid view D m" by (auto simp: keeps_def)
  from keeps_descriptor [OF k] assms(12,13) have o: "fd_containing_oneof f = None" by (auto simp: descriptor_ok_def)
  from view_many [OF k assms(12,13) scalar] obtain xs where "view m f = Many xs" .
  with keeps_field_read [OF k assms(12)] assms(15) have x0: "view m f = Many []" by (simp add: field_read_def)
  have step: "\<exists>ys. list_all2 (\<lambda>i y. scalar_argument C R f i = ret y) (array_items C v) ys \<and>
      reads_as (Many ys :: ('m, 'f) content) w"
    if "reads_as c w" "case map_of (lua_entries t) (LStr (fd_name f)) of
      None \<Rightarrow> c = view m f | Some v \<Rightarrow> sets_content C R f v (view m f) c" for c :: "('m, 'f) content" and w
    using that x0 assms(13,16) scalar by (auto simp: sets_content_def)
  show ?thesis by (rule encode_decode_one [OF assms(1-12) o assms(14)]) (rule step)
qed

theorem pb_array_round_trip_witness:
  "\<exists>bytes n0. \<forall>fuel \<ge> n0. \<exists>es. Decode demo_pb demo_importer fuel demo_pbi ''demo.Person'' bytes = ret (LTable es) \<and>
     lua_get (lua_get (LTable es) (LStr ''scores'')) (LInt 1) = LInt 5 \<and>
     lua_get (lua_get (LTable es) (LStr ''scores'')) (LInt 2) = LInt 6 \<and>
     lua_get (lua_get (LTable es) (LStr ''scores'')) (LInt 3) = LNil"
proof -
  from demo_person_encodes obtain bytes m' where
    e: "Encode demo_conv demo_pb demo_importer demo_pbi ''demo.Person'' demo_person = ret bytes" "bytes \<noteq> ''''"
    and p: "pb_ParseFromString demo_pb bytes (Dyn 0 []) = Some m'" by blast
  let ?f = "(field ''scores'' CPPTYPE_INT64)\<lparr>fd_is_repeated := True\<rparr>"
  let ?v = "LTable [(LInt 1, LInt 5), (LInt 2, LInt 6)] :: int lua"
  have f: "distinct (map fst (lua_entries demo_person))" "?f \<in> set (d_descriptor demo_schema 0)"
    "fd_is_repeated ?f" "wire_type (fd_cpp_type ?f)" "pb_FieldSize demo_pb (Dyn 0 []) ?f = 0"
    "map_of (lua_entries demo_person) (LStr (fd_name ?f)) = Some ?v"
    by (simp_all add: demo_person_def d_descriptor_def demo_schema_def field_def is_scalar_type_def wire_type_def demo_pb_def
        dyn_protobuf_def d_view_def default_content_def)
  have items: "array_items demo_conv ?v = [LInt 5, LInt 6]" by code_simp
  have read: "lua_get w (LInt 1) = LInt 5 \<and> lua_get w (LInt 2) = LInt 6 \<and> lua_get w (LInt 3) = LNil"
    if "list_all2 (\<lambda>i y. scalar_argument demo_conv demo_pb ?f i = ret y) (array_items demo_conv ?v) ys"
      "reads_as (Many ys :: (dyn, int) content) w" for ys w
  proof -
    from that(1) have "ys = [VInt64 5, VInt64 6]"
      by (auto simp: items list_all2_Cons1 scalar_argument_def field_def toValue_int64_def)
    with that(2) show ?thesis by (simp add: reads_as_def index_key_def push_int64_def)
  qed
  from pb_array_round_trip [OF demo_pb_ok demo_importer_ok demo_parse_ok demo_wire_ok demo_nested e(1) demo_made demo_descriptor f(1) e(2) p f(2-6)] read
  show ?thesis by (intro exI [of _ bytes]) (fastforce simp: field_def)
qed

text \<open>
  C33: An integer that a script writes into an integer field reaches the message unchanged exactly if the field can hold it:
  in the message that \<^verbatim>\<open>Encode\<close> serialises the field holds that integer if and only if it lies in the range of the
  field's type, 0 to 2^64 - 1 for \<^verbatim>\<open>uint64\<close>; otherwise \<^verbatim>\<open>static_cast\<close> has cut off bits without an error. The Lua
  value that the field is read as is the integer written in the same cases, and also for a negative integer in a
  \<^verbatim>\<open>uint64\<close> field, since Lua's integers are signed.
\<close>
theorem pb_integer_exact:
  assumes "reflection_ok R valid view" "importer_ok R I valid s" "Encode C R I s n t = ret bytes"
    and "MakeSharedMessage I s n = ret fresh" "pb_GetDescriptor R fresh = Some D" "distinct (map fst (lua_entries t))"
    and "f \<in> set D" "fd_containing_oneof f = None" "\<not> fd_is_repeated f" "is_integer_type (fd_cpp_type f)"
    and "map_of (lua_entries t) (LStr (fd_name f)) = Some (LInt i)"
  shows "\<exists>m. bytes = pb_SerializeAsString R m \<and>
    (integer_of (pb_Get R m f) = sint i \<longleftrightarrow> sint i \<in> field_range (fd_cpp_type f)) \<and>
    (push_value (pb_Get R m f) = LInt i \<longleftrightarrow> sint i \<in> field_range (fd_cpp_type f) \<or> fd_cpp_type f = CPPTYPE_UINT64)"
proof -
  from Encode_message [OF assms(1-4,6)] obtain m D' where m: "bytes = pb_SerializeAsString R m"
    "keeps R valid view D' fresh" "keeps R valid view D' m"
    "\<forall>f \<in> set D'. fd_containing_oneof f = None \<longrightarrow> (case map_of (lua_entries t) (LStr (fd_name f)) of
      None \<Rightarrow> view m f = view fresh f | Some v \<Rightarrow> sets_content C R f v (view fresh f) (view m f))" .
  from m(2) assms(5) have D: "D' = D" by (simp add: keeps_def)
  have "is_scalar_type (fd_cpp_type f)" using assms(10) by (auto simp: is_integer_type_def is_scalar_type_def)
  moreover have "sets_content C R f (LInt i) (view fresh f) (view m f)"
    using m(4) [unfolded D, rule_format, OF assms(7,8)] assms(11) by simp
  ultimately obtain x where x: "scalar_argument C R f (LInt i) = ret x" "view m f = Single x"
    using assms(9) by (auto simp: sets_content_def)
  from keeps_field_read [OF m(3) [unfolded D] assms(7)] x(2) have get: "pb_Get R m f = x" by (simp add: field_read_def)
  have "(integer_of x = sint i \<longleftrightarrow> sint i \<in> field_range (fd_cpp_type f)) \<and>
    (push_value x = LInt i \<longleftrightarrow> sint i \<in> field_range (fd_cpp_type f) \<or> fd_cpp_type f = CPPTYPE_UINT64)"
    using x(1) assms(10) by (rule stored_integer)
  with m(1) get show ?thesis by blast
qed

theorem pb_integer_exact_witness:
  "\<exists>bytes m. Encode demo_conv demo_pb demo_importer demo_pbi ''demo.Person'' demo_person = ret bytes \<and>
     bytes = pb_SerializeAsString demo_pb m \<and> integer_of (pb_Get demo_pb m (field ''age'' CPPTYPE_UINT32)) \<noteq> -1 \<and>
     push_value (pb_Get demo_pb m (field ''age'' CPPTYPE_UINT32)) \<noteq> LInt (-1)"
proof -
  from demo_person_encodes obtain bytes where
    e: "Encode demo_conv demo_pb demo_importer demo_pbi ''demo.Person'' demo_person = ret bytes" by blast
  let ?f = "field ''age'' CPPTYPE_UINT32"
  have f: "distinct (map fst (lua_entries demo_person))" "?f \<in> set (d_descriptor demo_schema 0)"
    "fd_containing_oneof ?f = None" "\<not> fd_is_repeated ?f" "is_integer_type (fd_cpp_type ?f)"
    "map_of (lua_entries demo_person) (LStr (fd_name ?f)) = Some (LInt (-1))"
    by (simp_all add: demo_person_def d_descriptor_def demo_schema_def field_def is_integer_type_def)
  have r: "sint (- 1 :: 64 word) \<notin> field_range (fd_cpp_type ?f)" "fd_cpp_type ?f \<noteq> CPPTYPE_UINT64"
    by (simp_all add: field_range_def field_def)
  from pb_integer_exact [OF demo_pb_ok demo_importer_ok e demo_made demo_descriptor f] r e show ?thesis by auto
qed

text \<open>
  The other way round nothing is lost: whatever value a scalar field holds, the Lua value it is
  read as is written back as the same value, for all nine types (a float being representable as such).
\<close>
theorem pb_values_survive_lua:
  assumes "value_type x = fd_cpp_type f" "case x of VFloat d \<Rightarrow> to_float C d = d | _ \<Rightarrow> True"
  shows "bind_x (push_scalar f x) (scalar_argument C R f) = ret x"
  using scalar_argument_push [OF assms] by (simp add: push_scalar_fits assms(1))

theorem pb_values_survive_lua_witness:
  "bind_x (push_scalar (field ''age'' CPPTYPE_UINT32) (VUInt32 4294967295))
     (scalar_argument demo_conv demo_pb (field ''age'' CPPTYPE_UINT32)) = ret (VUInt32 4294967295)"
  by (rule pb_values_survive_lua) (simp_all add: field_def)

text \<open>
  C34: Decoding ends: with enough fuel \<^verbatim>\<open>Decode\<close> yields nil, exactly if the string does not parse, or a
  table; it neither aborts nor throws once the message type is known.
\<close>
theorem pb_decode_returns:
  assumes "reflection_ok R valid view" "importer_ok R I valid s" "parse_ok R valid" "finitely_nested R valid view"
    and "MakeSharedMessage I s n = ret m"
  shows "\<exists>n0. \<forall>fuel \<ge> n0. \<exists>v. Decode R I fuel s n bytes = ret v \<and>
    (if pb_ParseFromString R bytes m = None then v = LNil else LuaRef_isTable v)"
proof (cases "pb_ParseFromString R bytes m")
  case None
  with assms(5) show ?thesis by (simp add: Decode_def)
next
  case (Some m')
  from made_keeps [OF assms(1,2,5)] obtain D where "pb_GetDescriptor R m = Some D" by (auto simp: keeps_def)
  from Decode_enough_fuel [OF assms(1-5) Some this] show ?thesis
    using Some by (fastforce simp: LuaRef_isTable_def)
qed

theorem pb_decode_returns_witness:
  "\<exists>n0. \<forall>fuel \<ge> n0. \<exists>v. Decode demo_pb demo_importer fuel demo_pbi ''demo.Person'' ''xx'' = ret v \<and>
    (if pb_ParseFromString demo_pb ''xx'' (Dyn 0 []) = None then v = LNil else LuaRef_isTable v)"
  by (rule pb_decode_returns [OF demo_pb_ok demo_importer_ok demo_parse_ok demo_nested demo_made])



end
