(* ===== verification/Binary64.thy ===== *)
theory Binary64
  imports Prelude
begin

text \<open>
  The arithmetic of \<^verbatim>\<open>double\<close>, the IEEE 754 format binary64, as far as the sources compute with it: conversion of
  integers, products, the order, and \<^verbatim>\<open>static_cast<int64_t>\<close>. A finite number is a significand and an
  exponent, \<open>Finite m e\<close> for \<open>m * 2 ^ e\<close>; several pairs may stand for one number. Results are
  rounded to 53 bits, ties to even. Factors below one in size are not multiplied here, so that no product
  falls under the smallest exponent.
\<close>

section \<open>Numbers and rounding\<close>

datatype binary64 = NaN | Infinite bool | Finite int int

fun bits :: "nat \<Rightarrow> nat" where
  "bits n = (if n = 0 then 0 else Suc (bits (n div 2)))"

declare bits.simps [simp del]

lemma bits_0 [simp]: "bits 0 = 0"
  by (simp add: bits.simps)

lemma bits_numeral [simp]: "bits (numeral n) = Suc (bits (numeral n div 2))" "bits 1 = 1" "bits (Suc 0) = 1"
  by (simp_all add: bits.simps [of "numeral n"] bits.simps [of "Suc 0"])

definition round_half_even :: "nat \<Rightarrow> nat \<Rightarrow> nat" where
  "round_half_even n k =
     (let q = n div 2 ^ k; r = n mod 2 ^ k
      in if 2 * r < 2 ^ k \<or> (2 * r = 2 ^ k \<and> even q) then q else q + 1)"

definition to_binary64 :: "int \<Rightarrow> int \<Rightarrow> binary64" where
  "to_binary64 m e =
     (let a = nat \<bar>m\<bar>; k = bits a - 53; q = round_half_even a k
      in if q \<noteq> 0 \<and> 1024 < int (bits q) + int k + e then Infinite (m < 0) else Finite (sgn m * int q) (e + int k))"

fun less64 :: "binary64 \<Rightarrow> binary64 \<Rightarrow> bool" where
  "less64 NaN y = False"
| "less64 x NaN = False"
| "less64 (Infinite s) (Infinite t) = (s \<and> \<not> t)"
| "less64 (Infinite s) (Finite n f) = s"
| "less64 (Finite m e) (Infinite t) = (\<not> t)"
| "less64 (Finite m e) (Finite n f) =
     (let g = min e f in m * 2 ^ nat (e - g) < n * 2 ^ nat (f - g))"

fun times64 :: "binary64 \<Rightarrow> binary64 \<Rightarrow> binary64" where
  "times64 NaN y = NaN"
| "times64 x NaN = NaN"
| "times64 (Infinite s) (Infinite t) = Infinite (s \<noteq> t)"
| "times64 (Infinite s) (Finite n f) = (if n = 0 then NaN else Infinite (s \<noteq> (n < 0)))"
| "times64 (Finite m e) (Infinite t) = (if m = 0 then NaN else Infinite ((m < 0) \<noteq> t))"
| "times64 (Finite m e) (Finite n f) = to_binary64 (m * n) (e + f)"

text \<open>The cast drops the fraction; out of the range of the type it is undefined.\<close>

definition truncate64 :: "int \<Rightarrow> int \<Rightarrow> int" where
  "truncate64 m e = (if 0 \<le> e then m * 2 ^ nat e else sgn m * (\<bar>m\<bar> div 2 ^ nat (- e)))"

fun int64_of :: "binary64 \<Rightarrow> int outcome" where
  "int64_of (Finite m e) =
     assert_o (- (2 ^ 63) \<le> truncate64 m e \<and> truncate64 m e < 2 ^ 63) ''static_cast<int64_t>'' (Done (truncate64 m e))"
| "int64_of x = Abort ''static_cast<int64_t>''"

text \<open>The numbers of the format.\<close>

fun binary64_ok :: "binary64 \<Rightarrow> bool" where
  "binary64_ok (Finite m e) \<longleftrightarrow> \<bar>m\<bar> < 2 ^ 53 \<and> - 1074 \<le> e \<and> e \<le> 971"
| "binary64_ok x \<longleftrightarrow> True"

section \<open>Bounds on rounding\<close>

lemma bits_bounds: "n < 2 ^ bits n" "n \<noteq> 0 \<Longrightarrow> 2 ^ (bits n - 1) \<le> n"
proof (induction n rule: bits.induct)
  case (1 n)
  {
    case 1
    show ?case
    proof (cases "n = 0")
      case False
      with \<open>n \<noteq> 0 \<Longrightarrow> n div 2 < 2 ^ bits (n div 2)\<close> have "n div 2 < 2 ^ bits (n div 2)" by simp
      then have "n < 2 * 2 ^ bits (n div 2)" by linarith
      with False show ?thesis by (simp add: bits.simps [of n])
    qed simp
  next
    case 2
    show ?case
    proof (cases "n div 2 = 0")
      case True
      with 2 show ?thesis by (simp add: bits.simps [of n] bits.simps [of 0])
    next
      case False
      then have "bits (n div 2) = Suc (bits (n div 2) - 1)" by (simp add: bits.simps [of "n div 2"])
      with 1(2) [OF 2 False] have "2 ^ bits (n div 2) \<le> 2 * (n div 2)"
        by (metis mult_le_mono2 power_Suc)
      also have "\<dots> \<le> n" by simp
      finally show ?thesis using 2 by (simp add: bits.simps [of n])
    qed
  }
qed

lemma bits_le: "n < 2 ^ k \<Longrightarrow> bits n \<le> k"
proof (rule ccontr)
  assume n: "n < 2 ^ k" "\<not> bits n \<le> k"
  then have "n \<noteq> 0" "k \<le> bits n - 1" by (auto intro: gr0I)
  then have "(2::nat) ^ k \<le> 2 ^ (bits n - 1)" by (intro power_increasing) auto
  with bits_bounds(2) [OF \<open>n \<noteq> 0\<close>] n(1) show False by linarith
qed

lemma round_half_even_bounds:
  "2 * round_half_even n k * 2 ^ k \<le> 2 * n + 2 ^ k" "2 * n \<le> 2 * round_half_even n k * 2 ^ k + 2 ^ k"
proof -
  define p q r where "p = (2::nat) ^ k" and "q = n div p" and "r = n mod p"
  have n: "n = q * p + r" by (simp only: q_def r_def div_mult_mod_eq)
  have "r < p" by (simp add: p_def r_def)
  have "round_half_even n k = q \<and> 2 * r \<le> p \<or> round_half_even n k = q + 1 \<and> p \<le> 2 * r"
    by (auto simp: round_half_even_def Let_def p_def q_def r_def)
  with n \<open>r < p\<close> have "2 * round_half_even n k * p \<le> 2 * n + p \<and> 2 * n \<le> 2 * round_half_even n k * p + p"
    by (auto simp: algebra_simps)
  then show "2 * round_half_even n k * 2 ^ k \<le> 2 * n + 2 ^ k" "2 * n \<le> 2 * round_half_even n k * 2 ^ k + 2 ^ k"
    by (simp_all add: p_def)
qed

text \<open>Rounding to 53 bits is off by at most one part in \<open>2 ^ 53\<close>.\<close>

lemma rounded_bounds:
  fixes a :: nat
  defines "k \<equiv> bits a - 53"
  defines "x \<equiv> round_half_even a k * 2 ^ k"
  shows "2 ^ 53 * x \<le> a * (2 ^ 53 + 1)" "a * (2 ^ 53 - 1) \<le> 2 ^ 53 * x"
proof -
  have "2 ^ 53 * 2 ^ k \<le> 2 * a" if "k \<noteq> 0"
  proof -
    have "bits a - 1 = 52 + k" "a \<noteq> 0" using that by (auto simp: k_def intro: gr0I)
    with bits_bounds(2) [of a] have "2 ^ 52 * 2 ^ k \<le> a" by (simp add: power_add)
    then show ?thesis by simp
  qed
  moreover have "x = a" if "k = 0"
    using that by (simp add: x_def round_half_even_def)
  moreover note round_half_even_bounds [of a k]
  ultimately show "2 ^ 53 * x \<le> a * (2 ^ 53 + 1)" "a * (2 ^ 53 - 1) \<le> 2 ^ 53 * x"
    by (cases "k = 0"; simp add: x_def algebra_simps)+
qed

lemma to_binary64_exact: "\<bar>m\<bar> < 2 ^ 53 \<Longrightarrow> e \<le> 971 \<Longrightarrow> to_binary64 m e = Finite m e"
proof -
  assume "\<bar>m\<bar> < 2 ^ 53" "e \<le> 971"
  then have b: "bits (nat \<bar>m\<bar>) \<le> 53" by (intro bits_le) (simp add: nat_less_iff)
  have "round_half_even (nat \<bar>m\<bar>) 0 = nat \<bar>m\<bar>" by (simp add: round_half_even_def)
  with b \<open>e \<le> 971\<close> show ?thesis by (simp add: to_binary64_def Let_def sgn_if)
qed

section \<open>Casts of rounded numbers\<close>

lemma cast_rounded:
  fixes a :: nat
  defines "k \<equiv> bits a - 53"
  defines "q \<equiv> round_half_even a k"
  shows "0 \<le> e \<Longrightarrow> q * 2 ^ k * 2 ^ nat e < 2 ^ 63 \<Longrightarrow>
      int64_of (to_binary64 (int a) e) = Done (int (q * 2 ^ k * 2 ^ nat e))"
    and "e < 0 \<Longrightarrow> q * 2 ^ k < 2 ^ 63 \<Longrightarrow>
      \<exists>t. int64_of (to_binary64 (int a) e) = Done (int t) \<and> t \<le> q * 2 ^ k"
proof -
  have fits: "bits q + k + n \<le> 1024" if "q * 2 ^ k * 2 ^ n < 2 ^ 63" "q \<noteq> 0" for n
  proof -
    have "2 ^ (bits q - 1) * 2 ^ k * 2 ^ n \<le> q * 2 ^ k * 2 ^ n"
      using bits_bounds(2) [OF that(2)] by simp
    from this that(1) have "2 ^ (bits q - 1) * 2 ^ k * 2 ^ n < (2::nat) ^ 63" by (rule le_less_trans)
    then have "(2::nat) ^ (bits q - 1 + k + n) < 2 ^ 63" by (simp only: power_add)
    then have "bits q - 1 + k + n < 63" by (rule power_less_imp_less_exp [rotated]) simp
    then show ?thesis by simp
  qed
  have sgn: "sgn (int a) * int q = int q"
    by (cases "a = 0") (simp_all add: q_def k_def round_half_even_def)
  have rounded: "to_binary64 (int a) e = Finite (int q) (e + int k)" if "q \<noteq> 0 \<Longrightarrow> int (bits q) + int k + e \<le> 1024"
    using that sgn by (auto simp: to_binary64_def Let_def k_def [symmetric] q_def [symmetric])
  show "int64_of (to_binary64 (int a) e) = Done (int (q * 2 ^ k * 2 ^ nat e))"
    if "0 \<le> e" "q * 2 ^ k * 2 ^ nat e < 2 ^ 63"
  proof -
    have "int (bits q) + int k + e \<le> 1024" if "q \<noteq> 0"
      using fits [OF \<open>q * 2 ^ k * 2 ^ nat e < 2 ^ 63\<close> that] \<open>0 \<le> e\<close> by linarith
    note rounded [OF this]
    moreover have "truncate64 (int q) (e + int k) = int (q * 2 ^ k * 2 ^ nat e)"
      using \<open>0 \<le> e\<close> by (simp add: truncate64_def nat_add_distrib power_add mult_ac)
    moreover have "int (q * 2 ^ k * 2 ^ nat e) < 2 ^ 63"
      using that(2) by (metis of_nat_less_numeral_power_cancel_iff)
    ultimately show ?thesis by (simp del: of_nat_mult)
  qed
  show "\<exists>t. int64_of (to_binary64 (int a) e) = Done (int t) \<and> t \<le> q * 2 ^ k"
    if "e < 0" "q * 2 ^ k < 2 ^ 63"
  proof -
    have "int (bits q) + int k + e \<le> 1024" if "q \<noteq> 0"
      using fits [of 0, OF _ that] \<open>q * 2 ^ k < 2 ^ 63\<close> \<open>e < 0\<close> by simp
    note v = rounded [OF this]
    have "\<exists>t. truncate64 (int q) (e + int k) = int t \<and> t \<le> q * 2 ^ k"
    proof (cases "0 \<le> e + int k")
      case True
      have "q * 2 ^ nat (e + int k) \<le> q * 2 ^ k"
        using \<open>e < 0\<close> by (intro mult_le_mono2 power_increasing) auto
      with True show ?thesis by (intro exI [of _ "q * 2 ^ nat (e + int k)"]) (simp add: truncate64_def)
    next
      case False
      have "q div 2 ^ nat (- e - int k) \<le> q" "q \<le> q * 2 ^ k" by simp_all
      then have "q div 2 ^ nat (- e - int k) \<le> q * 2 ^ k" by (rule order_trans)
      with False show ?thesis
        by (intro exI [of _ "q div 2 ^ nat (- (e + int k))"])
          (auto simp: truncate64_def sgn_if zdiv_int)
    qed
    then obtain t where t: "truncate64 (int q) (e + int k) = int t" "t \<le> q * 2 ^ k" by blast
    with that(2) have "t < 2 ^ 63" by linarith
    then have "int t < 2 ^ 63" by (metis of_nat_less_numeral_power_cancel_iff)
    with v t show ?thesis by simp
  qed
qed

text \<open>
  A factor \<open>c\<close> of a thousand, say: the product of a finite number below \<open>b\<close> in size with \<open>c\<close> can be cast.
\<close>

lemma cast_product:
  fixes a c b :: nat
  assumes "a < 2 ^ 53" "0 \<le> e \<Longrightarrow> a * 2 ^ nat e \<le> b"
    and "b * c * (2 ^ 53 + 1) < 2 ^ 53 * 2 ^ 63" "c * (2 ^ 53 + 1) < 2 ^ 63"
  shows "\<exists>t. int64_of (to_binary64 (int (a * c)) e) = Done (int t) \<and> 2 ^ 53 * t \<le> max b (2 ^ 53) * c * (2 ^ 53 + 1)"
proof -
  define k x where "k = bits (a * c) - 53" and "x = round_half_even (a * c) k * 2 ^ k"
  have x: "2 ^ 53 * x \<le> a * c * (2 ^ 53 + 1)"
    using rounded_bounds(1) [of "a * c"] by (simp add: x_def k_def)
  show ?thesis
  proof (cases "0 \<le> e")
    case True
    have "2 ^ 53 * (x * 2 ^ nat e) \<le> a * c * (2 ^ 53 + 1) * 2 ^ nat e"
      using mult_le_mono1 [OF x] by (simp only: mult.assoc)
    also have "\<dots> = a * 2 ^ nat e * (c * (2 ^ 53 + 1))" by (simp only: mult_ac)
    also have "\<dots> \<le> b * (c * (2 ^ 53 + 1))" using assms(2) [OF True] by (rule mult_le_mono1)
    finally have le: "2 ^ 53 * (x * 2 ^ nat e) \<le> b * c * (2 ^ 53 + 1)" by (simp only: mult.assoc)
    from this assms(3) have "2 ^ 53 * (x * 2 ^ nat e) < 2 ^ 53 * 2 ^ 63" by (rule le_less_trans)
    then have "x * 2 ^ nat e < 2 ^ 63" by (simp only: nat_mult_less_cancel1 zero_less_power)
    then have "int64_of (to_binary64 (int (a * c)) e) = Done (int (x * 2 ^ nat e))"
      using cast_rounded(1) [OF True, of "a * c"] by (simp only: x_def k_def)
    moreover have "b * c * (2 ^ 53 + 1) \<le> max b (2 ^ 53) * c * (2 ^ 53 + 1)" by (intro mult_le_mono1) simp
    ultimately show ?thesis using le by (intro exI [of _ "x * 2 ^ nat e"]) linarith
  next
    case False
    have "a * c * (2 ^ 53 + 1) \<le> 2 ^ 53 * (c * (2 ^ 53 + 1))"
      using assms(1) unfolding mult.assoc by (intro mult_le_mono1) simp
    with x have le: "2 ^ 53 * x \<le> 2 ^ 53 * (c * (2 ^ 53 + 1))" by (rule order_trans)
    then have "x \<le> c * (2 ^ 53 + 1)" by (simp only: nat_mult_le_cancel1 zero_less_power)
    with assms(4) have "x < 2 ^ 63" by (rule le_less_trans [rotated])
    then obtain t where t: "int64_of (to_binary64 (int (a * c)) e) = Done (int t)" "t \<le> x"
      using cast_rounded(2) [of e "a * c"] False by (auto simp: x_def k_def)
    have "2 ^ 53 * t \<le> 2 ^ 53 * (c * (2 ^ 53 + 1))" using t(2) le by (meson mult_le_mono2 order_trans)
    also have "\<dots> \<le> max b (2 ^ 53) * (c * (2 ^ 53 + 1))" by (intro mult_le_mono1) simp
    finally show ?thesis using t(1) by (intro exI [of _ t]) (simp only: mult.assoc simp_thms)
  qed
qed

lemma cast_negative_out_of_range:
  fixes a c b :: nat
  assumes "0 \<le> e" "b \<le> a * 2 ^ nat e" "2 ^ 53 * 2 ^ 63 < b * c * (2 ^ 53 - 1)"
  shows "int64_of (to_binary64 (- int (a * c)) e) = Abort ''static_cast<int64_t>''"
proof -
  define k q where "k = bits (a * c) - 53" and "q = round_half_even (a * c) k"
  have "a * c * (2 ^ 53 - 1) \<le> 2 ^ 53 * (q * 2 ^ k)"
    using rounded_bounds(2) [of "a * c"] by (simp only: q_def k_def)
  from mult_le_mono1 [OF this, of "2 ^ nat e"]
  have "a * 2 ^ nat e * (c * (2 ^ 53 - 1)) \<le> 2 ^ 53 * (q * 2 ^ (k + nat e))"
    by (simp only: power_add mult_ac)
  moreover have "b * (c * (2 ^ 53 - 1)) \<le> a * 2 ^ nat e * (c * (2 ^ 53 - 1))"
    using assms(2) by (rule mult_le_mono1)
  ultimately have "2 ^ 53 * 2 ^ 63 < 2 ^ 53 * (q * 2 ^ (k + nat e))"
    using assms(3) by (simp only: mult.assoc)
  then have big: "2 ^ 63 < q * 2 ^ (k + nat e)" by (simp only: nat_mult_less_cancel1 zero_less_power)
  have "a * c \<noteq> 0" using assms by (auto intro: gr0I)
  then have "to_binary64 (- int (a * c)) e = Infinite True \<or>
      to_binary64 (- int (a * c)) e = Finite (- int q) (e + int k)"
    by (auto simp: to_binary64_def Let_def k_def [symmetric] q_def [symmetric] sgn_if nat_mult_distrib simp del: of_nat_mult)
  moreover have "truncate64 (- int q) (e + int k) = - int (q * 2 ^ (k + nat e))"
    using assms(1) by (simp add: truncate64_def nat_add_distrib power_add mult_ac)
  moreover have "int (2 ^ 63) < int (q * 2 ^ (k + nat e))" using big by (simp only: of_nat_less_iff)
  ultimately show ?thesis by (auto simp: assert_o_def simp del: of_nat_mult)
qed

end
