(* ===== verification/Lua_Machine.thy ===== *)
theory Lua_Machine
  imports Lua_Values Binary64
begin

text \<open>
  The Lua machine that the adapters and bindings call into. It is the record \<open>V\<close>: a reference has type
  \<open>'r\<close>, the state of the machine type \<open>'v\<close>; \<open>vm_dispatch\<close> is the call \<^verbatim>\<open>obj:method(args)\<close> and \<open>vm_call\<close> the call
  \<^verbatim>\<open>f(args)\<close>, which may raise an error. An exception that leaves an adapter through the virtual functions and
  callbacks of \<^verbatim>\<open>core\<close> also leaves the event loop; at this border it is an \<open>Abort\<close> that carries the message.
\<close>

datatype lua_arg = ArgNil | ArgBool bool | ArgStr string | ArgInt int | ArgWriter nat | ArgReplier nat

record ('r, 'v) lua_vm =
  vm_none :: 'r
  vm_type :: "'r \<Rightarrow> LuaTypeID"
  vm_string :: "'r \<Rightarrow> string exn"
  vm_double :: "'r \<Rightarrow> binary64 exn"
  vm_integer :: "'r \<Rightarrow> 64 word exn"
  vm_bool :: "'r \<Rightarrow> bool"
  vm_get :: "'r \<Rightarrow> string \<Rightarrow> 'v \<Rightarrow> 'r"
  vm_len :: "'r \<Rightarrow> 'v \<Rightarrow> nat"
  vm_index :: "'r \<Rightarrow> int \<Rightarrow> 'v \<Rightarrow> 'r"
  vm_dispatch :: "'r \<Rightarrow> string \<Rightarrow> lua_arg list \<Rightarrow> 'v \<Rightarrow> 'r excepting \<times> 'v"
  vm_call :: "'r \<Rightarrow> lua_arg list \<Rightarrow> 'v \<Rightarrow> 'r excepting \<times> 'v"

text \<open>A missing argument is the invalid reference \<^verbatim>\<open>LuaRef()\<close>.\<close>

definition vm_arg :: "('r, 'v) lua_vm \<Rightarrow> nat \<Rightarrow> 'r list \<Rightarrow> 'r" where
  "vm_arg V i args = (if i < length args then args ! i else vm_none V)"

definition vm_checkTable :: "('r, 'v) lua_vm \<Rightarrow> 'r \<Rightarrow> unit exn" where
  "vm_checkTable V r = (if vm_type V r = TABLE then ret () else throw ''table expected'')"

definition vm_checkFunction :: "('r, 'v) lua_vm \<Rightarrow> 'r \<Rightarrow> unit exn" where
  "vm_checkFunction V r = (if vm_type V r = FUNCTION then ret () else throw ''function expected'')"

text \<open>\<^verbatim>\<open>operator bool\<close> of a reference.\<close>

definition vm_true :: "('r, 'v) lua_vm \<Rightarrow> 'r \<Rightarrow> bool" where
  "vm_true V r \<longleftrightarrow> vm_type V r \<noteq> NIL \<and> vm_type V r \<noteq> NONE"

text \<open>A dispatch whose exception leaves the adapter.\<close>

definition dispatch ::
  "('r, 'v) lua_vm \<Rightarrow> 'r \<Rightarrow> string \<Rightarrow> lua_arg list \<Rightarrow> 'v \<Rightarrow> ('r \<times> 'v) outcome" where
  "dispatch V obj func args v = (case vm_dispatch V obj func args v of
     (Returned r, v') \<Rightarrow> Done (r, v')
   | (Thrown msg, v') \<Rightarrow> Abort (''LuaException: '' @ msg))"

text \<open>Likewise the call of a function.\<close>

definition call_lua ::
  "('r, 'v) lua_vm \<Rightarrow> 'r \<Rightarrow> lua_arg list \<Rightarrow> 'v \<Rightarrow> ('r \<times> 'v) outcome" where
  "call_lua V f args v = (case vm_call V f args v of
     (Returned r, v') \<Rightarrow> Done (r, v')
   | (Thrown msg, v') \<Rightarrow> Abort (''LuaException: '' @ msg))"

definition uncaught :: "'a exn \<Rightarrow> 'a outcome" where
  "uncaught m = bind_o m (\<lambda>r. case r of Returned x \<Rightarrow> Done x | Thrown msg \<Rightarrow> Abort (''LuaException: '' @ msg))"

end
