(* ===== verification/Lua_Service.thy ===== *)
theory Lua_Service
  imports Server_Core Server_Reader Lua_Machine
begin

text \<open>
  \<^verbatim>\<open>lua/server/impl/Service.cpp, ServerReader.cpp\<close>: the adapters that present a service written in
  Lua as a \<^verbatim>\<open>core::Service\<close>, and the reader objects its methods return as \<^verbatim>\<open>core::ServerReader\<close>.

  The Lua machine is that of \<open>Lua_Machine\<close>. \<open>la_streams\<close> has the streams that were started.
\<close>

section \<open>The reader adapter\<close>

text \<open>The constructor's \<^verbatim>\<open>assert(luaReader)\<close>: the reference is not nil.\<close>

definition impl_ServerReader_new :: "('r, 'v) lua_vm \<Rightarrow> 'r \<Rightarrow> 'r outcome" where
  "impl_ServerReader_new V luaReader =
     assert_o (vm_type V luaReader \<noteq> NIL \<and> vm_type V luaReader \<noteq> NONE) ''luaReader'' (Done luaReader)"

definition impl_OnMsgStr :: "('r, 'v) lua_vm \<Rightarrow> 'r \<Rightarrow> string \<Rightarrow> 'v \<Rightarrow> (Status \<times> 'v) outcome" where
  "impl_OnMsgStr V m_pLuaReader msg_str v =
     bind_o (dispatch V m_pLuaReader ''on_msg_str'' [ArgStr msg_str] v) (\<lambda>(luaErrStr, v).
       if vm_type V luaErrStr = NIL \<or> vm_type V luaErrStr = NONE then Done (Status_OK, v)
       else assert_o (STRING = vm_type V luaErrStr) ''STRING == luaErrStr.type()''
         (bind_o (uncaught (vm_string V luaErrStr)) (\<lambda>err. Done (Status_InternalError err, v))))"

definition impl_OnError :: "('r, 'v) lua_vm \<Rightarrow> 'r \<Rightarrow> Status \<Rightarrow> 'v \<Rightarrow> 'v outcome" where
  "impl_OnError V m_pLuaReader status v =
     bind_o (dispatch V m_pLuaReader ''on_error'' [ArgStr (GetDetails status), ArgInt (GetCode status)] v)
       (\<lambda>(r, v). Done v)"

definition impl_OnEnd :: "('r, 'v) lua_vm \<Rightarrow> 'r \<Rightarrow> 'v \<Rightarrow> 'v outcome" where
  "impl_OnEnd V m_pLuaReader v = bind_o (dispatch V m_pLuaReader ''on_end'' [] v) (\<lambda>(r, v). Done v)"

definition impl_ServerReader :: "('r, 'v) lua_vm \<Rightarrow> 'r \<Rightarrow> 'v ServerReader" where
  "impl_ServerReader V r =
     \<lparr>OnMsgStr = impl_OnMsgStr V r, OnError = impl_OnError V r, OnEnd = impl_OnEnd V r\<rparr>"

section \<open>The service adapter\<close>

record MethodInfo =
  sRequestName :: string
  IsClientStreaming :: bool
  IsServerStreaming :: bool

record 'r impl_Service =
  m_pLuaService :: 'r
  m_sFullName :: string
  m_vMethods :: "MethodInfo list"

definition InitMethod :: "('r, 'v) lua_vm \<Rightarrow> 'v \<Rightarrow> nat \<Rightarrow> 'r \<Rightarrow> 'r impl_Service \<Rightarrow> 'r impl_Service exn" where
  "InitMethod V v iMthdIdx luaMethod s =
     assert_o (vm_type V luaMethod = TABLE) ''luaMethod.isTable()''
       (bind_x (vm_string V (vm_get V luaMethod ''name'' v)) (\<lambda>sName.
          ret (s\<lparr>m_vMethods := (m_vMethods s)[iMthdIdx :=
            \<lparr>sRequestName = ''/'' @ m_sFullName s @ ''/'' @ sName,
             IsClientStreaming = vm_bool V (vm_get V luaMethod ''client_streaming'' v),
             IsServerStreaming = vm_bool V (vm_get V luaMethod ''server_streaming'' v)\<rparr>]\<rparr>)))"

definition no_method :: MethodInfo where
  "no_method = \<lparr>sRequestName = [], IsClientStreaming = False, IsServerStreaming = False\<rparr>"

definition InitMethods :: "('r, 'v) lua_vm \<Rightarrow> 'r impl_Service \<Rightarrow> 'v \<Rightarrow> ('r impl_Service \<times> 'v) exn" where
  "InitMethods V s v =
     assert_o (m_vMethods s = []) ''m_vMethods.empty()''
       (case vm_dispatch V (m_pLuaService s) ''get_descriptor'' [] v of
          (Thrown msg, v) \<Rightarrow> throw msg
        | (Returned luaSvcDesc, v) \<Rightarrow>
            bind_x (vm_checkTable V luaSvcDesc) (\<lambda>_.
              let luaMethods = vm_get V luaSvcDesc ''method'' v in
              bind_x (vm_checkTable V luaMethods) (\<lambda>_.
                let len = vm_len V luaMethods v;
                    s = s\<lparr>m_vMethods := replicate len no_method\<rparr> in
                bind_x (fold_x (\<lambda>i s. let luaMethod = vm_index V luaMethods (int i + 1) v in
                    bind_x (vm_checkTable V luaMethod) (\<lambda>_. InitMethod V v i luaMethod s)) [0..<len] s)
                  (\<lambda>s. ret (s, v)))))"

definition impl_Service_new :: "('r, 'v) lua_vm \<Rightarrow> 'r \<Rightarrow> 'v \<Rightarrow> ('r impl_Service \<times> 'v) exn" where
  "impl_Service_new V luaService v =
     bind_x (vm_checkTable V luaService) (\<lambda>_. case vm_dispatch V luaService ''get_full_name'' [] v of
       (Thrown msg, v) \<Rightarrow> throw msg
     | (Returned r, v) \<Rightarrow> bind_x (vm_string V r) (\<lambda>m_sFullName.
         InitMethods V \<lparr>m_pLuaService = luaService, m_sFullName = m_sFullName, m_vMethods = []\<rparr> v))"

definition impl_GetFullName :: "'r impl_Service \<Rightarrow> string" where
  "impl_GetFullName s = m_sFullName s"

definition impl_GetMethodCount :: "'r impl_Service \<Rightarrow> nat" where
  "impl_GetMethodCount s = length (m_vMethods s)"

definition impl_IsMethodClientStreaming :: "'r impl_Service \<Rightarrow> nat \<Rightarrow> bool outcome" where
  "impl_IsMethodClientStreaming s iMthdIdx =
     assert_o (iMthdIdx < impl_GetMethodCount s) ''iMthdIdx < GetMethodCount()''
       (Done (IsClientStreaming (m_vMethods s ! iMthdIdx)))"

definition impl_GetMethodName :: "'r impl_Service \<Rightarrow> nat \<Rightarrow> string outcome" where
  "impl_GetMethodName s iMthdIdx =
     assert_o (iMthdIdx < impl_GetMethodCount s) ''iMthdIdx < GetMethodCount()''
       (Done (sRequestName (m_vMethods s ! iMthdIdx)))"

text \<open>\<^verbatim>\<open>TrimLeadingDot\<close> is in the file but not called.\<close>

definition TrimLeadingDot :: "string \<Rightarrow> string" where
  "TrimLeadingDot s = (if s = [] then s else if CHR ''.'' \<noteq> hd s then s else tl s)"

text \<open>
  \<^verbatim>\<open>BufToSlice\<close> does not look at the result of \<^verbatim>\<open>grpc_byte_buffer_reader_init\<close>: it reads on with a reader
  that was never set up.
\<close>

definition BufToSlice :: "'buf grpc_lib \<Rightarrow> 'buf \<Rightarrow> string outcome" where
  "BufToSlice G buf = (case grpc_byte_buffer_reader_readall G buf of
     Some req_slice \<Rightarrow> Done req_slice | None \<Rightarrow> Abort ''use of an uninitialised grpc_byte_buffer_reader'')"

text \<open>The state of the application: the Lua machine and the streams that have been started.\<close>

record ('r, 'v, 'buf) lua_app =
  la_vm :: 'v
  la_streams :: "(nat \<times> 'r \<times> (unit, 'buf) Call \<times> reader_call list) list"

definition CallClientStreamingMethod :: "('r, 'v) lua_vm \<Rightarrow> 'buf grpc_lib \<Rightarrow> 'r impl_Service \<Rightarrow> nat \<Rightarrow> nat \<Rightarrow>
    ('r, 'v, 'buf) lua_app \<Rightarrow> ('r, 'v, 'buf) lua_app outcome" where
  "CallClientStreamingMethod V G s iMthdIdx pCall a =
     assert_o (iMthdIdx < impl_GetMethodCount s) ''iMthdIdx < GetMethodCount()''
       (let mi = m_vMethods s ! iMthdIdx in
        if \<not> IsClientStreaming mi then Done a
        else assert_o (vm_type V (m_pLuaService s) = TABLE) ''m_pLuaService->isTable()''
          (bind_o
             (if IsServerStreaming mi
              then dispatch V (m_pLuaService s) ''call_bidi_streaming_method''
                     [ArgInt (int iMthdIdx + 1), ArgWriter pCall] (la_vm a)
              else dispatch V (m_pLuaService s) ''call_c2s_streaming_method''
                     [ArgInt (int iMthdIdx + 1), ArgReplier pCall] (la_vm a))
             (\<lambda>(luaReader, v).
                bind_o (impl_ServerReader_new V luaReader) (\<lambda>r.
                bind_o (ServerReader_Start G (impl_ServerReader V r) (Some Call_fresh)
                          \<lparr>sr_call = Call_fresh, sr_handler = v, sr_started = False, sr_log = []\<rparr>)
                  (\<lambda>rd. Done (a\<lparr>la_vm := sr_handler rd,
                     la_streams := la_streams a @ [(pCall, r, sr_call rd, sr_log rd)]\<rparr>))))))"

definition CallNonClientStreamingMethod :: "('r, 'v) lua_vm \<Rightarrow> 'r impl_Service \<Rightarrow> nat \<Rightarrow> string \<Rightarrow> nat \<Rightarrow>
    ('r, 'v, 'buf) lua_app \<Rightarrow> ('r, 'v, 'buf) lua_app outcome" where
  "CallNonClientStreamingMethod V s iMthdIdx strReq pCall a =
     assert_o (iMthdIdx < impl_GetMethodCount s) ''iMthdIdx < GetMethodCount()''
       (let mi = m_vMethods s ! iMthdIdx in
        if IsClientStreaming mi then Done a
        else assert_o (vm_type V (m_pLuaService s) = TABLE) ''m_pLuaService->isTable()''
          (if IsServerStreaming mi
           then bind_o (dispatch V (m_pLuaService s) ''call_s2c_streaming_method''
                  [ArgInt (int iMthdIdx + 1), ArgStr strReq, ArgWriter pCall] (la_vm a)) (\<lambda>(r, v). Done (a\<lparr>la_vm := v\<rparr>))
           else bind_o (dispatch V (m_pLuaService s) ''call_simple_method''
                  [ArgInt (int iMthdIdx + 1), ArgStr strReq, ArgReplier pCall] (la_vm a)) (\<lambda>(r, v). Done (a\<lparr>la_vm := v\<rparr>))))"

definition impl_CallMethod :: "('r, 'v) lua_vm \<Rightarrow> 'buf grpc_lib \<Rightarrow> 'r impl_Service \<Rightarrow> nat \<Rightarrow> 'buf option \<Rightarrow> nat \<Rightarrow>
    ('r, 'v, 'buf) lua_app \<Rightarrow> ('r, 'v, 'buf) lua_app outcome" where
  "impl_CallMethod V G s iMthdIdx pReqBuf pCall a =
     assert_o (iMthdIdx < impl_GetMethodCount s) ''iMthdIdx < GetMethodCount()''
       (case pReqBuf of
          None \<Rightarrow> CallClientStreamingMethod V G s iMthdIdx pCall a
        | Some buf \<Rightarrow> bind_o (BufToSlice G buf) (\<lambda>strReq.
            CallNonClientStreamingMethod V s iMthdIdx strReq pCall a))"

definition lua_service :: "('r, 'v) lua_vm \<Rightarrow> 'buf grpc_lib \<Rightarrow> 'r impl_Service \<Rightarrow>
    ('buf, ('r, 'v, 'buf) lua_app) Service" where
  "lua_service V G s =
     \<lparr>svc_GetFullName = impl_GetFullName s, svc_GetMethodCount = impl_GetMethodCount s,
      svc_IsMethodClientStreaming = impl_IsMethodClientStreaming s, svc_GetMethodName = impl_GetMethodName s,
      svc_CallMethod = impl_CallMethod V G s\<rparr>"

section \<open>Readers whose scripts behave\<close>

text \<open>
  What the adapter relies on: the three methods return, and \<open>on_msg_str\<close> returns nil or a string.
\<close>

locale lua_reader =
  fixes V :: "('r, 'v) lua_vm"
    and r :: 'r
    and vinv :: "'v \<Rightarrow> bool"
  assumes on_msg_str: "vinv v \<Longrightarrow> \<exists>e v'. vm_dispatch V r ''on_msg_str'' [ArgStr msg] v = (Returned e, v') \<and> vinv v' \<and>
      (vm_type V e = NIL \<or> vm_type V e = STRING \<and> (\<exists>err. vm_string V e = ret err))"
    and on_error: "vinv v \<Longrightarrow> \<exists>e v'. vm_dispatch V r ''on_error'' [ArgStr details, ArgInt code] v = (Returned e, v') \<and> vinv v'"
    and on_end: "vinv v \<Longrightarrow> \<exists>e v'. vm_dispatch V r ''on_end'' [] v = (Returned e, v') \<and> vinv v'"
begin

lemma OnMsgStr_holds: "vinv v \<Longrightarrow> holds (\<lambda>(status, v'). vinv v') (impl_OnMsgStr V r msg v)"
  using on_msg_str [of v msg] by (auto simp: impl_OnMsgStr_def dispatch_def uncaught_def ret_def)

lemma OnError_holds: "vinv v \<Longrightarrow> holds vinv (impl_OnError V r status v)"
  using on_error [of v "GetDetails status" "GetCode status"]
  by (auto simp: impl_OnError_def dispatch_def)

lemma OnEnd_holds: "vinv v \<Longrightarrow> holds vinv (impl_OnEnd V r v)"
  using on_end [of v] by (auto simp: impl_OnEnd_def dispatch_def)

sublocale handler: reader_handler "impl_ServerReader V r" vinv
  by unfold_locales (auto simp: impl_ServerReader_def OnMsgStr_holds OnError_holds OnEnd_holds)

lemma is_handler: "reader_handler (impl_ServerReader V r) vinv"
  by (rule handler.reader_handler_axioms)

end

section \<open>Services whose scripts behave\<close>

text \<open>
  The four methods that the service adapter calls return; those for a stream of requests return a reader
  that behaves. The buffers of requests can be read.
\<close>

locale lua_service_env =
  fixes V :: "('r, 'v) lua_vm"
    and G :: "'buf grpc_lib"
    and s :: "'r impl_Service"
    and vinv :: "'v \<Rightarrow> bool"
  assumes is_table: "vm_type V (m_pLuaService s) = TABLE"
    and simple: "vinv v \<Longrightarrow> \<exists>e v'. vm_dispatch V (m_pLuaService s) ''call_simple_method'' [ArgInt i, ArgStr req, ArgReplier c] v
        = (Returned e, v') \<and> vinv v'"
    and s2c: "vinv v \<Longrightarrow> \<exists>e v'. vm_dispatch V (m_pLuaService s) ''call_s2c_streaming_method'' [ArgInt i, ArgStr req, ArgWriter c] v
        = (Returned e, v') \<and> vinv v'"
    and c2s: "vinv v \<Longrightarrow> \<exists>r v'. vm_dispatch V (m_pLuaService s) ''call_c2s_streaming_method'' [ArgInt i, ArgReplier c] v
        = (Returned r, v') \<and> vinv v' \<and> vm_type V r \<noteq> NIL \<and> vm_type V r \<noteq> NONE \<and> lua_reader V r vinv"
    and bidi: "vinv v \<Longrightarrow> \<exists>r v'. vm_dispatch V (m_pLuaService s) ''call_bidi_streaming_method'' [ArgInt i, ArgWriter c] v
        = (Returned r, v') \<and> vinv v' \<and> vm_type V r \<noteq> NIL \<and> vm_type V r \<noteq> NONE \<and> lua_reader V r vinv"
    and readable: "grpc_byte_buffer_reader_readall G buf \<noteq> None"
begin

lemma start_stream_holds:
  assumes "lua_reader V r vinv" "vinv v"
  shows "holds (\<lambda>rd. vinv (sr_handler rd)) (ServerReader_Start G (impl_ServerReader V r) (Some Call_fresh)
    \<lparr>sr_call = Call_fresh, sr_handler = v, sr_started = False, sr_log = []\<rparr>)"
proof -
  let ?rd = "\<lparr>sr_call = Call_fresh, sr_handler = v, sr_started = False, sr_log = []\<rparr> :: ('buf, 'v) ServerReading"
  have h: "reader_handler (impl_ServerReader V r) vinv" by (rule lua_reader.is_handler [OF assms(1)])
  have "reader_handler.sr_ok vinv [] ?rd"
    using assms(2) by (simp add: reader_handler.sr_ok_def [OF h])
  from reader_handler.Start_holds [OF h this, of G] show ?thesis
    by (auto elim!: holds_mono simp: reader_handler.sr_ok_def [OF h])
qed

lemma CallClientStreamingMethod_holds:
  assumes "i < length (m_vMethods s)" "vinv (la_vm a)"
  shows "holds (\<lambda>a'. vinv (la_vm a')) (CallClientStreamingMethod V G s i c a)"
proof -
  obtain r v where r: "(if IsServerStreaming (m_vMethods s ! i)
      then dispatch V (m_pLuaService s) ''call_bidi_streaming_method'' [ArgInt (int i + 1), ArgWriter c] (la_vm a)
      else dispatch V (m_pLuaService s) ''call_c2s_streaming_method'' [ArgInt (int i + 1), ArgReplier c] (la_vm a)) = Done (r, v)"
    "vinv v" "vm_type V r \<noteq> NIL" "vm_type V r \<noteq> NONE" "lua_reader V r vinv"
    using bidi [OF assms(2), of "int i + 1" c] c2s [OF assms(2), of "int i + 1" c]
    by (cases "IsServerStreaming (m_vMethods s ! i)") (auto simp: dispatch_def)
  from start_stream_holds [OF r(5,2)] assms r(1,3,4) show ?thesis
    by (auto simp: CallClientStreamingMethod_def Let_def impl_GetMethodCount_def is_table impl_ServerReader_new_def
        elim!: holds_mono)
qed

lemma CallNonClientStreamingMethod_holds:
  assumes "i < length (m_vMethods s)" "vinv (la_vm a)"
  shows "holds (\<lambda>a'. vinv (la_vm a')) (CallNonClientStreamingMethod V s i req c a)"
  using s2c [OF assms(2), of "int i + 1" req c] simple [OF assms(2), of "int i + 1" req c] assms
  by (auto simp: CallNonClientStreamingMethod_def Let_def impl_GetMethodCount_def is_table dispatch_def)

sublocale contract: service_contract "lua_service V G s" "\<lambda>a. vinv (la_vm a)"
proof (unfold_locales, goal_cases)
  case (1 i)
  then show ?case by (simp add: lua_service_def impl_IsMethodClientStreaming_def)
next
  case (2 i)
  then show ?case by (simp add: lua_service_def impl_GetMethodName_def)
next
  case (3 i a payload call)
  then have i: "i < length (m_vMethods s)" by (simp add: lua_service_def impl_GetMethodCount_def)
  show ?case
  proof (cases payload)
    case None
    with CallClientStreamingMethod_holds [OF i 3(2), of call] i show ?thesis
      by (simp add: lua_service_def impl_CallMethod_def impl_GetMethodCount_def)
  next
    case (Some buf)
    from readable [of buf] obtain req where "grpc_byte_buffer_reader_readall G buf = Some req" by blast
    with Some CallNonClientStreamingMethod_holds [OF i 3(2), of req call] i show ?thesis
      by (simp add: lua_service_def impl_CallMethod_def impl_GetMethodCount_def BufToSlice_def)
  qed
qed

lemma is_contract: "service_contract (lua_service V G s) (\<lambda>a. vinv (la_vm a))"
  by (rule contract.service_contract_axioms)

end

section \<open>What the constructor reads\<close>

text \<open>The entry of method \<open>i\<close>, as \<^verbatim>\<open>InitMethod\<close> reads it.\<close>

definition method_read :: "('r, 'v) lua_vm \<Rightarrow> 'v \<Rightarrow> 'r \<Rightarrow> string \<Rightarrow> nat \<Rightarrow> MethodInfo \<Rightarrow> bool" where
  "method_read V v methods full i mi \<longleftrightarrow> (let m = vm_index V methods (int i + 1) v in
     \<exists>name. vm_string V (vm_get V m ''name'' v) = ret name \<and>
       mi = \<lparr>sRequestName = ''/'' @ full @ ''/'' @ name,
             IsClientStreaming = vm_bool V (vm_get V m ''client_streaming'' v),
             IsServerStreaming = vm_bool V (vm_get V m ''server_streaming'' v)\<rparr>)"

lemma methods_loop:
  assumes "fold_x (\<lambda>i s. let luaMethod = vm_index V methods (int i + 1) v in
      bind_x (vm_checkTable V luaMethod) (\<lambda>_. InitMethod V v i luaMethod s)) [0..<n] s0 = ret s"
    and "n \<le> length (m_vMethods s0)"
  shows "m_pLuaService s = m_pLuaService s0 \<and> m_sFullName s = m_sFullName s0 \<and>
    length (m_vMethods s) = length (m_vMethods s0) \<and>
    (\<forall>i < n. method_read V v methods (m_sFullName s0) i (m_vMethods s ! i))"
  using assms
proof (induction n arbitrary: s)
  case (Suc n)
  from Suc.prems(1) obtain s1 where s1: "fold_x (\<lambda>i s. let luaMethod = vm_index V methods (int i + 1) v in
      bind_x (vm_checkTable V luaMethod) (\<lambda>_. InitMethod V v i luaMethod s)) [0..<n] s0 = ret s1"
    "InitMethod V v n (vm_index V methods (int n + 1) v) s1 = ret s"
    by (auto simp: fold_x_append bind_x_ret Let_def)
  from Suc.IH [OF s1(1)] Suc.prems(2) have IH: "m_pLuaService s1 = m_pLuaService s0"
    "m_sFullName s1 = m_sFullName s0" "length (m_vMethods s1) = length (m_vMethods s0)"
    "\<And>i. i < n \<Longrightarrow> method_read V v methods (m_sFullName s0) i (m_vMethods s1 ! i)" by auto
  from s1(2) obtain mi where mi: "method_read V v methods (m_sFullName s1) n mi"
    "s = s1\<lparr>m_vMethods := (m_vMethods s1)[n := mi]\<rparr>"
    by (auto simp: InitMethod_def bind_x_ret method_read_def Let_def assert_o_def split: if_splits)
  from mi IH Suc.prems(2) show ?case by (auto simp: nth_list_update less_Suc_eq)
qed simp

section \<open>A Lua service to apply the properties to\<close>

datatype dref = RNil | RService | RStr string | RDesc | RMethods | RMethod nat | RBool bool | RReader int

type_synonym demo_vm_state = "(dref \<times> string \<times> lua_arg list) list"

text \<open>Method 1 is unary, 2 streams replies, 3 requests, 4 both. A reader refuses the message \<^verbatim>\<open>bad\<close>.\<close>

fun demo_result :: "dref \<Rightarrow> string \<Rightarrow> lua_arg list \<Rightarrow> dref" where
  "demo_result RService func args =
     (if func = ''get_full_name'' then RStr ''demo.Echo'' else if func = ''get_descriptor'' then RDesc
      else if func = ''call_c2s_streaming_method'' \<or> func = ''call_bidi_streaming_method'' then
        (case args of ArgInt i # _ \<Rightarrow> RReader i | _ \<Rightarrow> RNil)
      else RNil)"
| "demo_result (RReader i) func args =
     (if func = ''on_msg_str'' \<and> args = [ArgStr ''bad''] then RStr ''refused'' else RNil)"
| "demo_result r func args = RNil"

fun demo_type :: "dref \<Rightarrow> LuaTypeID" where
  "demo_type RNil = NIL" | "demo_type (RStr s) = STRING" | "demo_type (RBool b) = BOOLEAN"
| "demo_type r = TABLE"

definition demo_vm :: "(dref, demo_vm_state) lua_vm" where
  "demo_vm = \<lparr>vm_none = RNil, vm_type = demo_type,
     vm_string = (\<lambda>r. case r of RStr s \<Rightarrow> ret s | _ \<Rightarrow> throw ''string expected''),
     vm_double = (\<lambda>r. throw ''number expected''), vm_integer = (\<lambda>r. throw ''number expected''),
     vm_bool = (\<lambda>r. case r of RBool b \<Rightarrow> b | RNil \<Rightarrow> False | _ \<Rightarrow> True),
     vm_get = (\<lambda>r k v. case r of
        RDesc \<Rightarrow> if k = ''method'' then RMethods else RNil
      | RMethod i \<Rightarrow> if k = ''name'' then RStr (''M'' @ [char_of (48 + i)])
          else if k = ''client_streaming'' then RBool (i \<ge> 3) else RBool (i = 2 \<or> i = 4)
      | _ \<Rightarrow> RNil),
     vm_len = (\<lambda>r v. case r of RMethods \<Rightarrow> 4 | _ \<Rightarrow> 0),
     vm_index = (\<lambda>r i v. case r of RMethods \<Rightarrow> RMethod (nat i) | _ \<Rightarrow> RNil),
     vm_dispatch = (\<lambda>r func args v. (Returned (demo_result r func args), v @ [(r, func, args)])),
     vm_call = (\<lambda>r args v. (Thrown ''attempt to call a table value'', v))\<rparr>"

definition demo_impl :: "dref impl_Service" where
  "demo_impl = \<lparr>m_pLuaService = RService, m_sFullName = ''demo.Echo'', m_vMethods =
     [\<lparr>sRequestName = ''/demo.Echo/M1'', IsClientStreaming = False, IsServerStreaming = False\<rparr>,
      \<lparr>sRequestName = ''/demo.Echo/M2'', IsClientStreaming = False, IsServerStreaming = True\<rparr>,
      \<lparr>sRequestName = ''/demo.Echo/M3'', IsClientStreaming = True, IsServerStreaming = False\<rparr>,
      \<lparr>sRequestName = ''/demo.Echo/M4'', IsClientStreaming = True, IsServerStreaming = True\<rparr>]\<rparr>"

lemma demo_reader: "lua_reader demo_vm (RReader i) (\<lambda>_. True)"
  by unfold_locales (simp_all add: demo_vm_def ret_def)

interpretation demo_lua_reader: lua_reader demo_vm "RReader i" "\<lambda>_. True" for i
  by (rule demo_reader)

interpretation demo_lua_env: lua_service_env demo_vm "demo_lib n" demo_impl "\<lambda>_. True" for n
proof (unfold_locales, goal_cases)
  case (6 buf)
  then show ?case by (simp add: demo_lib_def)
qed (simp_all add: demo_vm_def demo_impl_def demo_reader [unfolded demo_vm_def])

section \<open>Properties\<close>

text \<open>
  The service adapter has exactly the methods its Lua table describes, in their order: the
  request name of a method is made of the service's full name and the method's name, and the streaming flags are
  those of the descriptor.
\<close>
theorem ls_methods_from_descriptor:
  assumes "impl_Service_new V obj v = ret (s, v2)"
  shows "\<exists>fr v1 d. vm_dispatch V obj ''get_full_name'' [] v = (Returned fr, v1) \<and>
    vm_string V fr = ret (impl_GetFullName s) \<and>
    vm_dispatch V obj ''get_descriptor'' [] v1 = (Returned d, v2) \<and>
    (let ms = vm_get V d ''method'' v2 in impl_GetMethodCount s = vm_len V ms v2 \<and>
      (\<forall>i < impl_GetMethodCount s. let m = vm_index V ms (int i + 1) v2 in
         \<exists>name. vm_string V (vm_get V m ''name'' v2) = ret name \<and>
           impl_GetMethodName s i = Done (''/'' @ impl_GetFullName s @ ''/'' @ name) \<and>
           impl_IsMethodClientStreaming s i = Done (vm_bool V (vm_get V m ''client_streaming'' v2))))"
proof -
  from assms obtain fr v1 full where f: "vm_dispatch V obj ''get_full_name'' [] v = (Returned fr, v1)"
    "vm_string V fr = ret full"
    "InitMethods V \<lparr>m_pLuaService = obj, m_sFullName = full, m_vMethods = []\<rparr> v1 = ret (s, v2)"
    by (auto simp: impl_Service_new_def bind_x_ret split: prod.splits excepting.splits)
  let ?s0 = "\<lparr>m_pLuaService = obj, m_sFullName = full, m_vMethods = []\<rparr>"
  from f(3) obtain d where d: "vm_dispatch V obj ''get_descriptor'' [] v1 = (Returned d, v2)"
    "fold_x (\<lambda>i s. let luaMethod = vm_index V (vm_get V d ''method'' v2) (int i + 1) v2 in
        bind_x (vm_checkTable V luaMethod) (\<lambda>_. InitMethod V v2 i luaMethod s))
      [0..<vm_len V (vm_get V d ''method'' v2) v2]
      (?s0\<lparr>m_vMethods := replicate (vm_len V (vm_get V d ''method'' v2) v2) no_method\<rparr>) = ret s"
    by (auto simp: InitMethods_def bind_x_ret Let_def split: prod.splits excepting.splits)
  from methods_loop [OF d(2)] have s: "m_sFullName s = full" "length (m_vMethods s) = vm_len V (vm_get V d ''method'' v2) v2"
    "\<And>i. i < vm_len V (vm_get V d ''method'' v2) v2 \<Longrightarrow> method_read V v2 (vm_get V d ''method'' v2) full i (m_vMethods s ! i)"
    by simp_all
  have "\<exists>name. vm_string V (vm_get V (vm_index V (vm_get V d ''method'' v2) (int i + 1) v2) ''name'' v2) = ret name \<and>
      impl_GetMethodName s i = Done (''/'' @ full @ ''/'' @ name) \<and> impl_IsMethodClientStreaming s i =
        Done (vm_bool V (vm_get V (vm_index V (vm_get V d ''method'' v2) (int i + 1) v2) ''client_streaming'' v2))"
    if "i < impl_GetMethodCount s" for i
    using s(3) [of i] s(2) that
    by (auto simp: method_read_def Let_def impl_GetMethodCount_def impl_GetMethodName_def impl_IsMethodClientStreaming_def)
  with f(1,2) d(1) s(1,2) show ?thesis
    by (auto simp: impl_GetFullName_def impl_GetMethodCount_def Let_def intro!: exI [of _ fr] exI [of _ d])
qed

theorem ls_methods_from_descriptor_witness:
  "impl_GetMethodName demo_impl 1 = Done ''/demo.Echo/M2''"
proof -
  have "impl_Service_new demo_vm RService [] =
      ret (demo_impl, [(RService, ''get_full_name'', []), (RService, ''get_descriptor'', [])])" by code_simp
  from ls_methods_from_descriptor [OF this] show ?thesis
    by (auto simp: demo_vm_def demo_impl_def impl_GetMethodCount_def impl_GetFullName_def Let_def
        impl_GetMethodName_def)
qed

text \<open>
  C35: A call reaches Lua exactly once: with a readable request the simple or the reply-streaming method
  is called with the method's number from 1, the request and the writer or replier of the call; a call that streams
  requests calls the other two, and a reader is started on the object returned.
\<close>
theorem ls_call_dispatch:
  assumes "lua_service_env V G s vinv" "i < impl_GetMethodCount s" "vinv (la_vm a)"
    and "impl_IsMethodClientStreaming s i = Done (payload = None)"
  shows "case payload of
      Some buf \<Rightarrow> \<exists>req e v'. grpc_byte_buffer_reader_readall G buf = Some req \<and>
        vm_dispatch V (m_pLuaService s)
          (if IsServerStreaming (m_vMethods s ! i) then ''call_s2c_streaming_method'' else ''call_simple_method'')
          [ArgInt (int i + 1), ArgStr req, if IsServerStreaming (m_vMethods s ! i) then ArgWriter c else ArgReplier c]
          (la_vm a) = (Returned e, v') \<and>
        impl_CallMethod V G s i payload c a = Done (a\<lparr>la_vm := v'\<rparr>)
    | None \<Rightarrow> \<exists>r v' rd. vm_dispatch V (m_pLuaService s)
          (if IsServerStreaming (m_vMethods s ! i) then ''call_bidi_streaming_method'' else ''call_c2s_streaming_method'')
          [ArgInt (int i + 1), if IsServerStreaming (m_vMethods s ! i) then ArgWriter c else ArgReplier c]
          (la_vm a) = (Returned r, v') \<and>
        ServerReader_Start G (impl_ServerReader V r) (Some Call_fresh)
          \<lparr>sr_call = Call_fresh, sr_handler = v', sr_started = False, sr_log = []\<rparr> = Done rd \<and>
        impl_CallMethod V G s i payload c a =
          Done (a\<lparr>la_vm := sr_handler rd, la_streams := la_streams a @ [(c, r, sr_call rd, sr_log rd)]\<rparr>)"
proof (cases payload)
  case None
  note env = lua_service_env.bidi [OF assms(1,3)] lua_service_env.c2s [OF assms(1,3)]
  from env [of "int i + 1" c] obtain r v' where r: "vm_dispatch V (m_pLuaService s)
      (if IsServerStreaming (m_vMethods s ! i) then ''call_bidi_streaming_method'' else ''call_c2s_streaming_method'')
      [ArgInt (int i + 1), if IsServerStreaming (m_vMethods s ! i) then ArgWriter c else ArgReplier c]
      (la_vm a) = (Returned r, v')" "vinv v'" "vm_type V r \<noteq> NIL" "vm_type V r \<noteq> NONE" "lua_reader V r vinv"
    by (cases "IsServerStreaming (m_vMethods s ! i)") auto
  from lua_service_env.start_stream_holds [OF assms(1) r(5,2)] obtain rd where
    rd: "ServerReader_Start G (impl_ServerReader V r) (Some Call_fresh)
      \<lparr>sr_call = Call_fresh, sr_handler = v', sr_started = False, sr_log = []\<rparr> = Done rd" by (auto simp: holds_iff)
  have "IsClientStreaming (m_vMethods s ! i)"
    using assms(2,4) None by (simp add: impl_IsMethodClientStreaming_def)
  with r rd assms(2) None lua_service_env.is_table [OF assms(1)] have
    "impl_CallMethod V G s i payload c a =
       Done (a\<lparr>la_vm := sr_handler rd, la_streams := la_streams a @ [(c, r, sr_call rd, sr_log rd)]\<rparr>)"
    by (cases "IsServerStreaming (m_vMethods s ! i)")
      (simp_all add: impl_CallMethod_def CallClientStreamingMethod_def dispatch_def impl_ServerReader_new_def)
  with r(1) rd None show ?thesis by auto
next
  case (Some buf)
  from lua_service_env.readable [OF assms(1), of buf] obtain req where
    req: "grpc_byte_buffer_reader_readall G buf = Some req" by blast
  note env = lua_service_env.s2c [OF assms(1,3)] lua_service_env.simple [OF assms(1,3)]
  from env [of "int i + 1" req c] obtain e v' where e: "vm_dispatch V (m_pLuaService s)
      (if IsServerStreaming (m_vMethods s ! i) then ''call_s2c_streaming_method'' else ''call_simple_method'')
      [ArgInt (int i + 1), ArgStr req, if IsServerStreaming (m_vMethods s ! i) then ArgWriter c else ArgReplier c]
      (la_vm a) = (Returned e, v')"
    by (cases "IsServerStreaming (m_vMethods s ! i)") auto
  have "\<not> IsClientStreaming (m_vMethods s ! i)"
    using assms(2,4) Some by (simp add: impl_IsMethodClientStreaming_def)
  with e req assms(2) Some lua_service_env.is_table [OF assms(1)] have
    "impl_CallMethod V G s i payload c a = Done (a\<lparr>la_vm := v'\<rparr>)"
    by (cases "IsServerStreaming (m_vMethods s ! i)")
      (simp_all add: impl_CallMethod_def CallNonClientStreamingMethod_def dispatch_def BufToSlice_def)
  with e req Some show ?thesis by auto
qed

theorem ls_call_dispatch_witness:
  "impl_CallMethod demo_vm (demo_lib 5) demo_impl 1 (Some ''hi'') 7 \<lparr>la_vm = [], la_streams = []\<rparr> =
     Done \<lparr>la_vm = [(RService, ''call_s2c_streaming_method'', [ArgInt 2, ArgStr ''hi'', ArgWriter 7])], la_streams = []\<rparr>"
  using ls_call_dispatch [where i = 1 and a = "\<lparr>la_vm = [], la_streams = []\<rparr>" and payload = "Some ''hi''" and c = 7,
      OF demo_lua_env.lua_service_env_axioms [of 5]]
  by (auto simp: impl_GetMethodCount_def impl_IsMethodClientStreaming_def demo_impl_def demo_lib_def demo_vm_def)

text \<open>
  C36: A server whose services are written in Lua and behave keeps listening on every method, whatever
  calls come in: no assertion of the server, of the adapters or of the readers they start fails while a call is dispatched, and
  one request is outstanding for each registered method. To behave means (\<open>lua_service_env\<close>): the Lua methods return and raise no
  error, those for streams of requests return a reader whose functions return nil or a string, and gRPC can read the buffers of
  the requests. That gRPC takes the requests is assumed, too. The events are those of the server, ending with the
  start of a reader; what a reader does on its later completions is \<open>Server_Reader\<close>.
\<close>
theorem ls_server_serves:
  assumes "\<And>p. p \<in> set svcs \<Longrightarrow> lua_service_env V G (LS p) vinv"
    and "\<And>log request. grpc_server_request_registered_call L log request = GRPC_CALL_OK"
    and "reach (sv_start (\<lambda>a. vinv (la_vm a))) (sv_en svcs (\<lambda>p. lua_service V G (LS p)))
           (sv_step L (\<lambda>p. lua_service V G (LS p))) tr s"
  shows "(sv_started s \<longrightarrow> mset (sv_outstanding s) = mset (method_requests (sv_service_map s))) \<and>
    vinv (la_vm (sv_app s)) \<and>
    (\<forall>e. sv_en svcs (\<lambda>p. lua_service V G (LS p)) e s \<longrightarrow>
      (\<exists>out s'. sv_step L (\<lambda>p. lua_service V G (LS p)) e s = Done (out, s')))"
proof -
  have env: "server_env L (\<lambda>p. lua_service V G (LS p)) svcs (\<lambda>a. vinv (la_vm a))"
    by (rule server_env.intro) (auto intro: lua_service_env.is_contract assms)
  show ?thesis
    using server_env.serves_all_methods [OF env assms(3)] server_env.app_invariant [OF env assms(3)] by simp
qed

theorem ls_server_serves_witness:
  "\<exists>s :: (dref, demo_vm_state, string) lua_app Server.
     la_vm (sv_app s) = [(RService, ''call_simple_method'', [ArgInt 1, ArgStr ''hi'', ArgReplier 7])] \<and>
     mset (sv_outstanding s) = mset (method_requests (sv_service_map s))"
proof -
  let ?S = "\<lambda>p :: nat. lua_service demo_vm (demo_lib 5) demo_impl" and ?L = demo_server_lib
  let ?app = "\<lparr>la_vm = [], la_streams = []\<rparr> :: (dref, demo_vm_state, string) lua_app"
  let ?s0 = "\<lparr>sv_cq4n = \<lparr>c_cq_uptr = Some 1, cq_shutdown_requested = False\<rparr>, sv_started = False,
     sv_shutdown = False, sv_thread_created = False, sv_services = [], sv_service_map = [],
     sv_registrations = [], sv_request_log = [], sv_outstanding = [], sv_heap = [], sv_notified = False,
     sv_app = ?app\<rparr>"
  have start: "sv_start (\<lambda>a :: (dref, demo_vm_state, string) lua_app. True) ?s0"
    by (auto simp: sv_start_def Server_new_def CompletionQueue_new_def CompletionQueue_c_cq_def)
  have run: "case exec (sv_en [0] ?S) (sv_step ?L ?S) sv_demo_events ?s0 of
      None \<Rightarrow> False
    | Some (tr, s) \<Rightarrow> la_vm (sv_app s) = [(RService, ''call_simple_method'', [ArgInt 1, ArgStr ''hi'', ArgReplier 7])]
        \<and> sv_started s" by code_simp
  then obtain tr s where r: "exec (sv_en [0] ?S) (sv_step ?L ?S) sv_demo_events ?s0 = Some (tr, s)"
    by (auto split: option.splits)
  with run have s: "la_vm (sv_app s) = [(RService, ''call_simple_method'', [ArgInt 1, ArgStr ''hi'', ArgReplier 7])]"
    "sv_started s" by (simp_all only: option.case prod.case)
  have "reach (sv_start (\<lambda>a. True)) (sv_en [0] ?S) (sv_step ?L ?S) tr s"
    by (rule exec_reach [where start = "sv_start (\<lambda>a. True)", OF start r])
  from ls_server_serves [OF demo_lua_env.lua_service_env_axioms _ this] s(2)
  have "mset (sv_outstanding s) = mset (method_requests (sv_service_map s))" by (simp add: demo_server_lib_def)
  with s(1) show ?thesis by blast
qed

end
