(* ===== verification/End_To_End.thy ===== *)
theory End_To_End
  imports Client_Async_Writer Client_Async_Reader Server_Writer Server_Reader
begin

text \<open>
  The two ends of a stream together: the client's writer of \<^verbatim>\<open>core/client\<close> with the server's reader of
  \<^verbatim>\<open>core/server\<close>, and the server's writer with the client's reader. Each pair shares the buffer functions
  of gRPC. What lies between is the hypothesis that the buffers one end
  receives are a prefix of those the other end has handed over, in order.
\<close>

section \<open>Buffers in transit\<close>

text \<open>The message buffers that completed reads deliver.\<close>

definition completion_bufs :: "'buf completion \<Rightarrow> 'buf list" where
  "completion_bufs cp = (if cp_success cp then opt_list (cp_recv_buf cp) else [])"

fun sr_bufs :: "'buf sr_event \<Rightarrow> 'buf list" where
  "sr_bufs SrStart = []"
| "sr_bufs (SrCompletion cp) = completion_bufs cp"

definition car_bufs :: "('cb, 'buf) car_event \<Rightarrow> 'buf list" where
  "car_bufs e = (case e of CarCompletion CarRead cp \<Rightarrow> completion_bufs cp | _ \<Rightarrow> [])"

definition server_received :: "('buf sr_event \<times> bool) list \<Rightarrow> 'buf list" where
  "server_received tr = concat (map (\<lambda>(e, out). sr_bufs e) tr)"

definition client_received :: "(('cb, 'buf) car_event \<times> bool) list \<Rightarrow> 'buf list" where
  "client_received tr = concat (map (\<lambda>(e, out). car_bufs e) tr)"

text \<open>The messages that \<^verbatim>\<open>Write\<close> and \<^verbatim>\<open>AsyncWrite\<close> returned true for.\<close>

fun caw_written :: "('cb, 'buf) caw_event \<Rightarrow> bool \<Rightarrow> string list" where
  "caw_written (CawWriteCall request) True = [request]"
| "caw_written e out = []"

fun sw_written :: "sw_event \<Rightarrow> bool \<Rightarrow> string list" where
  "sw_written (SwAsyncWrite m) True = [m]"
| "sw_written e out = []"

definition client_wrote :: "(('cb, 'buf) caw_event \<times> bool) list \<Rightarrow> string list" where
  "client_wrote tr = concat (map (\<lambda>(e, out). caw_written e out) tr)"

definition server_wrote :: "(sw_event \<times> bool) list \<Rightarrow> string list" where
  "server_wrote tr = concat (map (\<lambda>(e, out). sw_written e out) tr)"

lemma accepts_written:
  "caw_accepts G e out = map (grpc_raw_byte_buffer_create G) (caw_written e out)"
  "sw_accepts G e' out = map (grpc_raw_byte_buffer_create G) (sw_written e' out)"
  by (cases "(G, e, out)" rule: caw_accepts.cases; simp)
    (cases "(G, e', out)" rule: sw_accepts.cases; simp)

lemma accepted_wrote:
  "concat (map (\<lambda>(e, out). caw_accepts G e out) tr) = map (grpc_raw_byte_buffer_create G) (client_wrote tr)"
  "concat (map (\<lambda>(e, out). sw_accepts G e out) tr') = map (grpc_raw_byte_buffer_create G) (server_wrote tr')"
  by (simp_all add: client_wrote_def server_wrote_def map_concat accepts_written case_prod_unfold comp_def)

text \<open>Reading back the buffers of messages.\<close>

definition read_all :: "'buf grpc_lib \<Rightarrow> 'buf list \<Rightarrow> string list" where
  "read_all G bufs = concat (map (\<lambda>b. opt_list (grpc_byte_buffer_reader_readall G b)) bufs)"

lemma read_all_simps [simp]:
  "read_all G [] = []" "read_all G (bs @ cs) = read_all G bs @ read_all G cs"
  by (simp_all add: read_all_def)

lemma completion_read: "(if cp_success cp then (case cp_recv_buf cp of None \<Rightarrow> [] |
    Some buf \<Rightarrow> opt_list (grpc_byte_buffer_reader_readall G buf)) else []) = read_all G (completion_bufs cp)"
  by (simp add: read_all_def completion_bufs_def split: option.splits)

lemma sr_received_read: "concat (map (\<lambda>(e, out). sr_received G e) tr) = read_all G (server_received tr)"
proof (induction tr)
  case (Cons x tr)
  obtain e out where x: "x = (e, out)" by (cases x)
  have "sr_received G e = read_all G (sr_bufs e)"
    by (cases e) (simp_all add: completion_read [symmetric])
  with Cons x show ?case by (simp add: server_received_def)
qed (simp add: server_received_def)

lemma car_reads_read: "concat (map (\<lambda>(e, out). car_reads G e) tr) = read_all G (client_received tr)"
proof (induction tr)
  case (Cons x tr)
  obtain e out where x: "x = (e, out)" by (cases x)
  have "car_reads G e = read_all G (car_bufs e)"
    by (simp add: car_reads_def car_bufs_def car_received_def completion_read split: car_event.splits car_tag.splits)
  with Cons x show ?case by (simp add: client_received_def)
qed (simp add: client_received_def)

lemma read_all_created:
  "buffers_faithful G \<Longrightarrow> read_all G (map (grpc_raw_byte_buffer_create G) msgs) = msgs"
  by (induction msgs) (simp_all add: read_all_def buffers_faithful_def)

lemma read_prefix:
  assumes "buffers_faithful G" "prefix bufs (map (grpc_raw_byte_buffer_create G) msgs)"
  shows "prefix (read_all G bufs) msgs"
proof -
  from assms(2) obtain rest where "map (grpc_raw_byte_buffer_create G) msgs = bufs @ rest" by (auto simp: prefix_def)
  then have "bufs = map (grpc_raw_byte_buffer_create G) (take (length bufs) msgs)"
    by (metis append_eq_conv_conj take_map)
  with read_all_created [OF assms(1)] have "read_all G bufs = take (length bufs) msgs" by metis
  then show ?thesis by (simp add: take_is_prefix)
qed

section \<open>Properties\<close>

text \<open>
  C1: An upload: the messages the server's handler gets are a prefix of the messages the client's
  \<^verbatim>\<open>Write\<close> accepted, whatever fails on the way; and they are all of them once the close of
  an unbroken stream is pending and the server has received what was handed over.
\<close>
theorem upload_end_to_end:
  assumes "buffers_faithful G"
    and "reach (caw_start G) caw_en (caw_step G) tr c"
    and "reader_handler R hinv" and "reach (sr_start hinv) sr_en (sr_step G R) tr' s"
    and "prefix (server_received tr') (caw_handed c)"
  shows "prefix (log_msgs (sr_log s)) (client_wrote tr) \<and>
    (status_ok (caw_status c) \<and> CawClose \<in> pend (caw_call c) \<and> server_received tr' = caw_handed c \<longrightarrow>
       log_msgs (sr_log s) = client_wrote tr)"
proof -
  have log: "log_msgs (sr_log s) = read_all G (server_received tr')"
    using reader_handler.log_received [OF assms(3,4)] by (simp add: sr_received_read)
  have acc: "caw.accepted G tr = map (grpc_raw_byte_buffer_create G) (client_wrote tr)"
    by (simp add: caw.accepted_def accepted_wrote)
  have "prefix (server_received tr') (map (grpc_raw_byte_buffer_create G) (client_wrote tr))"
    using assms(5) caw.handed_prefix [OF assms(2)] acc by (metis prefix_order.trans)
  note read_prefix [OF assms(1) this]
  moreover have "log_msgs (sr_log s) = client_wrote tr"
    if "status_ok (caw_status c)" "CawClose \<in> pend (caw_call c)" "server_received tr' = caw_handed c"
  proof -
    have "caw_ctl c" using caw.reach_inv [OF assms(2)] by (simp add: caw_ok_def)
    from caw_ctl_closing [OF this that(2)] have "caw_waiting G c = []" by (simp add: caw_waiting_def)
    with caw.accepted_split [OF assms(2) that(1)] acc
    have "caw_handed c = map (grpc_raw_byte_buffer_create G) (client_wrote tr)" by simp
    then show ?thesis using log that(3) read_all_created [OF assms(1)] by simp
  qed
  ultimately show ?thesis using log by simp
qed

theorem upload_end_to_end_witness:
  "\<exists>s :: (string, unit) ServerReading. log_msgs (sr_log s) = [''a'', ''b''] \<and> sr_log s \<noteq> []"
proof -
  let ?G = "demo_lib 10"
  obtain tr c where c: "caw_demo_run caw_demo_events = Some (tr, c)"
    "reach (caw_start ?G) caw_en (caw_step ?G) tr c" "CawClose \<in> pend (caw_call c)"
    "caw_handed c = [''a'', ''b'']" by (rule caw_demo_closing_state)
  from c(1) have wrote: "client_wrote tr = [''a'', ''b'']" and ok: "status_ok (caw_status c)"
  proof -
    have "case caw_demo_run caw_demo_events of None \<Rightarrow> False
      | Some (tr, c) \<Rightarrow> client_wrote tr = [''a'', ''b''] \<and> status_ok (caw_status c)" by code_simp
    with c(1) show "client_wrote tr = [''a'', ''b'']" "status_ok (caw_status c)" by simp_all
  qed
  have run: "case exec sr_en (sr_step ?G ServerReader_base) sr_demo_events sr_demo of
      None \<Rightarrow> False | Some (tr', s) \<Rightarrow> server_received tr' = [''a'', ''b'']" by code_simp
  then obtain tr' s where r: "exec sr_en (sr_step ?G ServerReader_base) sr_demo_events sr_demo = Some (tr', s)"
    by (auto split: option.splits)
  with run have received: "server_received tr' = [''a'', ''b'']" by (simp only: option.case prod.case)
  have "buffers_faithful ?G" by (simp add: buffers_faithful_def demo_lib_def)
  from upload_end_to_end [OF this c(2) base_reader.reader_handler_axioms sr_demo_reach [OF r]] received c(3,4) ok wrote
  have "log_msgs (sr_log s) = [''a'', ''b'']" by simp
  then show ?thesis by (intro exI [of _ s]) auto
qed

text \<open>
  C2: A download: the messages the client's message callback gets are a prefix of the responses the
  server's \<^verbatim>\<open>AsyncWrite\<close> accepted; and they are all of them once the server has sent its status, and the client
  has received what was handed over and has a callback.
\<close>
theorem download_end_to_end:
  assumes "buffers_faithful G"
    and "reach sw_start (sw_en G) (sw_step G) tr s"
    and "reach (car_start request) car_en (car_step G) tr' c"
    and "prefix (client_received tr') (sw_handed s)"
  shows "prefix (car_msgs (car_log c)) (server_wrote tr) \<and>
    (sw_status_sent s \<and> client_received tr' = sw_handed s \<and> car_msg_cb c \<noteq> None \<longrightarrow>
       car_msgs (car_log c) = server_wrote tr)"
proof -
  have log: "car_msgs (car_log c) = (if car_msg_cb c = None then [] else read_all G (client_received tr'))"
    using car_runs [OF assms(3)] by (simp add: car_reads_read)
  have acc: "sw.accepted G tr = map (grpc_raw_byte_buffer_create G) (server_wrote tr)"
    by (simp add: sw.accepted_def accepted_wrote)
  have "prefix (client_received tr') (map (grpc_raw_byte_buffer_create G) (server_wrote tr))"
    using assms(4) sw.handed_prefix [OF assms(2)] acc by (metis prefix_order.trans)
  note read_prefix [OF assms(1) this]
  moreover have "read_all G (client_received tr') = server_wrote tr"
    if "sw_status_sent s" "client_received tr' = sw_handed s"
    using sw_status_after_messages [OF assms(2)] that acc read_all_created [OF assms(1)] by simp
  ultimately show ?thesis using log by auto
qed

text \<open>A server that writes the two responses the reader's demonstration receives.\<close>

definition download_demo_events :: "sw_event list" where
  "download_demo_events = [SwAsyncWrite ''x'', SwAsyncWrite ''y'', SwAsyncClose Status_OK,
     SwCompletion SwWrite True, SwCompletion SwWrite True]"

lemma download_demo_server:
  "(case exec (sw_en (demo_lib 10)) (sw_step (demo_lib 10)) download_demo_events sw_demo of
      None \<Rightarrow> False
    | Some (tr, s) \<Rightarrow> server_wrote tr = [''x'', ''y''] \<and> sw_handed s = [''x'', ''y''] \<and> sw_status_sent s)"
  by code_simp

lemma download_demo_client:
  "(case car_demo_run car_demo_events of
      None \<Rightarrow> False
    | Some (tr, c) \<Rightarrow> client_received tr = [''x'', ''y''] \<and> car_msg_cb c \<noteq> None)"
  by code_simp

theorem download_end_to_end_witness:
  "\<exists>c :: (nat, string) ClientAsyncReaderImpl. car_msgs (car_log c) = [''x'', ''y'']"
proof (cases "exec (sw_en (demo_lib 10)) (sw_step (demo_lib 10)) download_demo_events sw_demo")
  case None
  with download_demo_server show ?thesis by simp
next
  case server: (Some r)
  obtain tr s where r: "r = (tr, s)" by (cases r)
  show ?thesis
  proof (cases "car_demo_run car_demo_events")
    case None
    with download_demo_client show ?thesis by simp
  next
    case client: (Some q)
    obtain tr' c where q: "q = (tr', c)" by (cases q)
    have "buffers_faithful (demo_lib 10)" by (simp add: buffers_faithful_def demo_lib_def)
    from download_end_to_end [OF this sw_demo_reach [OF server [unfolded r]] car_demo_reach [OF client [unfolded q]]]
      download_demo_server download_demo_client server client
    have "car_msgs (car_log c) = [''x'', ''y'']" by (simp add: r q)
    then show ?thesis by blast
  qed
qed

end
