(* ===== verification/Reader_Refusal.thy ===== *)
theory Reader_Refusal
  imports Client_Async_Reader
begin

text \<open>
  What a message callback of \<^verbatim>\<open>ClientAsyncReaderImpl\<close> that answers with an error status brings about.
\<close>

section \<open>Refusals\<close>

text \<open>The message callback \<open>f\<close> has answered every message with status OK.\<close>

definition accepted_all :: "MsgStrCb \<Rightarrow> string list \<Rightarrow> bool" where
  "accepted_all f ms \<longleftrightarrow> (\<forall>i < length ms. status_ok (f (take i ms) (ms ! i)))"

lemma accepted_all_snoc: "accepted_all f (ms @ [m]) \<longleftrightarrow> accepted_all f ms \<and> status_ok (f ms m)"
  by (auto simp: accepted_all_def nth_append less_Suc_eq)

lemma accepted_all_Nil [simp]: "accepted_all f []"
  by (simp add: accepted_all_def)

definition car_refused :: "MsgStrCb \<Rightarrow> ('cb, 'buf) ClientAsyncReaderImpl \<Rightarrow> bool" where
  "car_refused f s \<longleftrightarrow> (let ms = car_msgs (car_log s) in
     ms \<noteq> [] \<and> accepted_all f (butlast ms) \<and> \<not> status_ok (f (butlast ms) (last ms)) \<and>
     CarRead \<notin> pend (car_call s) \<and> CarRecvStatus \<notin> pend (car_call s) \<and>
     (\<forall>x \<in> set (car_statuses (car_log s)). snd x = f (butlast ms) (last ms)))"

definition car_accepting :: "('cb, 'buf) ClientAsyncReaderImpl \<Rightarrow> bool" where
  "car_accepting s \<longleftrightarrow> (\<forall>f. car_msg_cb s = Some f \<longrightarrow> accepted_all f (car_msgs (car_log s)))"

definition car_verdict :: "('cb, 'buf) ClientAsyncReaderImpl \<Rightarrow> bool" where
  "car_verdict s \<longleftrightarrow> car_accepting s \<or> (\<exists>f. car_msg_cb s = Some f \<and> car_refused f s)"

lemma car_accepting_same:
  "car_accepting s \<Longrightarrow> car_msg_cb s' = car_msg_cb s \<Longrightarrow> car_msgs (car_log s') = car_msgs (car_log s) \<Longrightarrow> car_accepting s'"
  by (simp add: car_accepting_def)

lemma ReadNext_accepting:
  assumes "car_accepting s" "status_ok (car_status s)"
  shows "holds car_accepting (ClientAsyncReaderImpl_ReadNext G s)"
  using assms
  by (auto simp: ClientAsyncReaderImpl_ReadNext_def tag_batches submit_new_tag car_accepting_def)

lemma RecvStatus_accepting:
  "car_accepting s \<Longrightarrow> holds car_accepting (car_RecvStatus G cb s)"
  by (cases cb) (auto simp: car_RecvStatus_def tag_batches submit_new_tag car_accepting_def Let_def)

lemma OnRead_verdict:
  fixes s :: "('cb, 'buf) ClientAsyncReaderImpl"
  assumes "car_accepting s" "car_ready extra s" "status_ok (car_status s)"
  shows "holds car_verdict
    (ClientAsyncReaderImpl_OnRead G (cp_success cp) (ClientReaderReadCqTag_completed cp) s)"
proof -
  have mono: "holds car_verdict x" if "holds car_accepting x" for x :: "('cb, 'buf) ClientAsyncReaderImpl outcome"
    using that by (rule holds_mono) (simp add: car_verdict_def)
  have next_read: "holds car_verdict (ClientAsyncReaderImpl_ReadNext G s')"
    if "car_accepting s'" "status_ok (car_status s')" for s' :: "('cb, 'buf) ClientAsyncReaderImpl"
    by (rule mono [OF ReadNext_accepting [OF that]])
  have recv: "holds car_verdict (car_RecvStatus G (car_status_cb s) s)"
    by (rule mono [OF RecvStatus_accepting [OF assms(1)]])
  have fail: "car_verdict (ClientAsyncReaderImpl_CallStatusCb (s\<lparr>car_status := st\<rparr>))" for st
    using assms(1) by (simp add: car_verdict_def car_accepting_def)
  have refuse: "car_verdict (ClientAsyncReaderImpl_CallStatusCb
      (s\<lparr>car_status := f (car_msgs (car_log s)) m, car_log := car_log s @ [CarMsg m]\<rparr>))"
    if "car_msg_cb s = Some f" "\<not> status_ok (f (car_msgs (car_log s)) m)" for f m
    using assms(1,2) that
    by (cases "car_status_cb s") (auto simp: car_verdict_def car_refused_def car_accepting_def car_ready_def Let_def)
  have accept: "car_accepting (s\<lparr>car_status := f (car_msgs (car_log s)) m, car_log := car_log s @ [CarMsg m]\<rparr>)"
    if "car_msg_cb s = Some f" "status_ok (f (car_msgs (car_log s)) m)" for f m
    using assms(1) that by (simp add: car_accepting_def accepted_all_snoc)
  from assms(2) have started: "car_is_started s" by (simp add: car_ready_def)
  show ?thesis
  proof (cases "cp_success cp \<and> cp_recv_buf cp \<noteq> None")
    case False
    with started assms(3) recv fail show ?thesis by (auto simp: ClientAsyncReaderImpl_OnRead_def)
  next
    case True
    then obtain buf where buf: "cp_success cp" "cp_recv_buf cp = Some buf" by auto
    obtain st m where r: "read_buf G buf '''' = (st, m)" by (cases "read_buf G buf ''''")
    have again: "car_accepting (s\<lparr>car_status := st\<rparr>)" using assms(1) by (simp add: car_accepting_def)
    show ?thesis
    proof (cases "car_msg_cb s")
      case None
      with buf r started assms(3) fail next_read again show ?thesis
        by (simp add: ClientAsyncReaderImpl_OnRead_def Let_def)
    next
      case (Some f)
      with buf r started assms(3) fail [of st] next_read [OF accept [OF Some]] refuse [OF Some] show ?thesis
        by (simp add: ClientAsyncReaderImpl_OnRead_def Let_def)
    qed
  qed
qed


lemma AsyncRecvStatus_accepting:
  "car_accepting s \<Longrightarrow> holds car_accepting (ClientReaderAsyncRecvStatusCqTag_DoComplete success tag s)"
  by (cases "car_tag_cb s") (auto simp: ClientReaderAsyncRecvStatusCqTag_DoComplete_def car_accepting_def)

lemma accepting_verdict: "holds car_accepting x \<Longrightarrow> holds car_verdict x"
  by (erule holds_mono) (simp add: car_verdict_def)

lemma Start_accepting:
  fixes s :: "('cb, 'buf) ClientAsyncReaderImpl"
  assumes "car_msgs (car_log s) = []" "status_ok (car_status s)"
  shows "holds car_accepting (ClientAsyncReaderImpl_Start G mcb cb s)"
proof (cases "car_is_started s")
  case True
  with assms show ?thesis by (simp add: ClientAsyncReaderImpl_Start_def car_accepting_def)
next
  case False
  have "car_accepting s'" if "car_msgs (car_log s') = []" for s' :: "('cb, 'buf) ClientAsyncReaderImpl"
    using that by (simp add: car_accepting_def)
  with False assms show ?thesis
    by (simp add: ReadNext_accepting ClientAsyncReaderImpl_Start_def ClientAsyncReaderImpl_Init_def tag_batches submit_new_tag Let_def)
qed

lemma verdict_delete: "car_verdict s \<Longrightarrow> car_verdict (car_delete t s)"
  by (simp add: car_verdict_def car_accepting_def car_refused_def Let_def)

lemma car_completion_verdict:
  assumes "car_ok g [] s" "car_en (CarCompletion t cp) s" "car_verdict s"
  shows "holds car_verdict (car_DoComplete G t cp (car_pop t s))"
proof -
  from assms(2) have t: "t \<in> pend (car_call s)" by simp
  from assms(1) t obtain mcb cb where g: "g = Some (mcb, cb)" "car_msg_cb s = mcb" "car_is_started s"
    "car_progress cb s" "tags_ok car_kinds [t] (car_call (car_pop t s))" "car_shape (car_log s)"
    "pend (pop_pending t (car_call s)) = pend (car_call s) - {t}"
    by (rule car_ok_pending)
  show ?thesis
  proof (cases t)
    case CarInit
    with assms(3) g(7) show ?thesis
      by (auto simp: car_verdict_def car_accepting_def car_refused_def Let_def)
  next
    case CarRead
    with g t have "car_ready [t] (car_pop t s)" "status_ok (car_status (car_pop t s))"
      by (auto simp: car_ready_def car_progress_def Let_def)
    moreover have "car_accepting (car_pop t s)"
      using assms(3) t CarRead by (auto simp: car_verdict_def car_accepting_def car_refused_def Let_def)
    ultimately show ?thesis using OnRead_verdict [of "car_pop t s" "[t]" G cp] CarRead by simp
  next
    case CarRecvStatus
    have "car_accepting (car_pop t s)"
      using assms(3) t CarRecvStatus by (auto simp: car_verdict_def car_accepting_def car_refused_def Let_def)
    from accepting_verdict [OF AsyncRecvStatus_accepting [OF this]] CarRecvStatus show ?thesis by simp
  qed
qed

lemma car_step_verdict:
  assumes "car_ok g [] s" "car_en e s" "car_verdict s"
  shows "holds (\<lambda>(out, s'). car_verdict s') (car_step G e s)"
proof (cases e)
  case (CarReadEach mcb cb)
  show ?thesis
  proof (cases "car_is_started s")
    case True
    with CarReadEach assms(3) show ?thesis by (simp add: ClientAsyncReaderImpl_reentrant)
  next
    case False
    with assms(1) have "car_msgs (car_log s) = []" "status_ok (car_status s)"
      by (auto simp: car_ok_def split: option.splits prod.splits)
    from accepting_verdict [OF Start_accepting [OF this, of G mcb cb]] CarReadEach show ?thesis by simp
  qed
next
  case (CarCompletion t cp)
  with car_completion_verdict [of g s t cp G] assms show ?thesis
    by (auto elim!: holds_mono intro: verdict_delete)
qed

lemma car_run_verdict: "reach (car_start request) car_en (car_step G) tr s \<Longrightarrow> car_verdict s"
proof (induction rule: reach.induct)
  case (reach_start s)
  then show ?case by (auto simp: car_start_def ClientAsyncReaderImpl_new_def car_verdict_def car_accepting_def)
next
  case (reach_step tr s e out s')
  with car_step_verdict [OF car_reach_ok [OF reach_step(1)], of e G] show ?case by simp
qed

lemma car_refusal:
  assumes "reach (car_start request) car_en (car_step G) tr s"
    and "car_given_of tr = Some (Some f, cb)"
  shows "let ms = car_msgs (car_log s) in
    accepted_all f (butlast ms) \<and>
    (ms \<noteq> [] \<and> \<not> status_ok (f (butlast ms) (last ms)) \<longrightarrow>
       CarRead \<notin> pend (car_call s) \<and> CarRecvStatus \<notin> pend (car_call s) \<and>
       car_statuses (car_log s) = map (\<lambda>cb. (cb, f (butlast ms) (last ms))) (opt_list cb))"
proof -
  let ?ms = "car_msgs (car_log s)"
  have ok: "car_msg_cb s = Some f" "car_progress cb s"
    using car_reach_ok [OF assms(1)] assms(2) by (simp_all add: car_ok_def)
  have acc: "accepted_all f (butlast ?ms) \<and> (?ms \<noteq> [] \<longrightarrow> status_ok (f (butlast ?ms) (last ?ms)))"
    if "accepted_all f ?ms"
    using that by (cases ?ms rule: rev_cases) (simp_all add: accepted_all_snoc)
  from car_run_verdict [OF assms(1)] ok(1) have "accepted_all f ?ms \<or> car_refused f s"
    by (auto simp: car_verdict_def car_accepting_def)
  then show ?thesis
  proof
    assume "accepted_all f ?ms"
    with acc show ?thesis unfolding Let_def by blast
  next
    assume r: "car_refused f s"
    then have "map fst (car_statuses (car_log s)) = opt_list cb"
      using ok(2) by (simp add: car_refused_def car_progress_def Let_def)
    moreover have "car_statuses (car_log s) =
        map (\<lambda>cb. (cb, f (butlast ?ms) (last ?ms))) (map fst (car_statuses (car_log s)))"
      using r by (auto simp: car_refused_def Let_def intro!: map_idI [symmetric])
    ultimately show ?thesis using r by (simp add: car_refused_def Let_def)
  qed
qed

section \<open>Property\<close>

text \<open>
  C37: A refusal ends the call with the callback's own status. The callback has answered every message but
  possibly the last with OK. If it answered the last one with an error status, no read and no receipt
  of the status is pending, and the status callback has been called once, with that very status.
\<close>
theorem car_refusal_ends_call:
  assumes "reach (car_start request) car_en (car_step G) tr s"
    and "car_given_of tr = Some (Some f, cb)"
  shows "let ms = car_msgs (car_log s) in
    accepted_all f (butlast ms) \<and>
    (ms \<noteq> [] \<and> \<not> status_ok (f (butlast ms) (last ms)) \<longrightarrow>
       CarRead \<notin> pend (car_call s) \<and> CarRecvStatus \<notin> pend (car_call s) \<and>
       car_statuses (car_log s) = map (\<lambda>cb. (cb, f (butlast ms) (last ms))) (opt_list cb))"
  using assms by (rule car_refusal)

definition refusal_demo_events :: "(nat, string) car_event list" where
  "refusal_demo_events =
     [CarReadEach (Some (\<lambda>ms m. if m = ''y'' then Status_InternalError ''bad'' else Status_OK)) (Some 1),
      CarCompletion CarInit demo_done, CarCompletion CarRead (car_demo_msg (Some ''x'')),
      CarCompletion CarRead (car_demo_msg (Some ''y''))]"

lemma refusal_demo_result:
  "(case car_demo_run refusal_demo_events of
      None \<Rightarrow> False
    | Some (tr, s) \<Rightarrow> car_msgs (car_log s) = [''x'', ''y''])"
  by code_simp

lemma exec_Cons:
  assumes "exec en step (e # es) s = Some (tr, s')"
  obtains out tr' where "tr = (e, out) # tr'"
  using assms by (auto split: if_splits outcome.splits option.splits prod.splits)

lemma refusal_demo_given:
  "car_demo_run refusal_demo_events = Some (tr, s) \<Longrightarrow> car_given_of tr =
     Some (Some (\<lambda>ms m. if m = ''y'' then Status_InternalError ''bad'' else Status_OK), Some 1)"
  by (auto simp: car_demo_run_def refusal_demo_events_def simp del: exec.simps elim!: exec_Cons)

theorem car_refusal_ends_call_witness:
  "\<exists>s :: (nat, string) ClientAsyncReaderImpl.
     car_statuses (car_log s) = [(1, Status_InternalError ''bad'')]"
proof (cases "car_demo_run refusal_demo_events")
  case None
  with refusal_demo_result show ?thesis by simp
next
  case (Some r)
  obtain tr s where r: "r = (tr, s)" by (cases r)
  with Some refusal_demo_result have "car_msgs (car_log s) = [''x'', ''y'']" by simp
  with car_refusal_ends_call [OF car_demo_reach [OF Some [unfolded r]] refusal_demo_given [OF Some [unfolded r]]]
  have "car_statuses (car_log s) = [(1, Status_InternalError ''bad'')]"
    by (simp add: status_ok_def Status_InternalError_def Status_make_def)
  then show ?thesis by blast
qed

end
