(* ===== verification/Lua_Client.thy ===== *)
theory Lua_Client
  imports Reader_Refusal Client_Async_RdWr Service_Stub Lua_Machine
begin

text \<open>
  \<^verbatim>\<open>lua/common/GetTimeoutMs.cpp, lua/client/impl/CbWrapper*, lua/client/Bind*.cpp\<close>: the client classes as Lua
  sees them. A callback that wraps a Lua function is known by the function's reference: the \<^verbatim>\<open>WrapLua...\<close>
  functions check the reference and yield it, \<open>lua_msg_cb\<close> and its like are the bodies of
  the closures. The methods of a bound class are one function of the method's name, the arguments and the object;
  arguments are converted first, surplus ones ignored, and \<open>None\<close> is a name the class does not have.
\<close>

section \<open>Timeouts\<close>

definition GetTimeoutMs :: "('r, 'v) lua_vm \<Rightarrow> 'r \<Rightarrow> int exn" where
  "GetTimeoutMs V timeoutSec =
     (if \<not> vm_true V timeoutSec then ret INT64_MAX
      else bind_x (vm_double V timeoutSec) (\<lambda>dSec.
        if less64 dSec (to_binary64 (INT64_MAX div 1000) 0)
        then bind_o (int64_of (times64 dSec (to_binary64 1000 0))) ret
        else ret INT64_MAX))"

lemma timeout_limit: "to_binary64 (INT64_MAX div 1000) 0 = Finite 4611686018427388 1"
  by (simp add: INT64_MAX_def to_binary64_def Let_def round_half_even_def)

lemma thousand: "to_binary64 1000 0 = Finite 1000 0"
  by (rule to_binary64_exact) simp_all

section \<open>Callbacks\<close>

definition WrapLuaMsgCb :: "('r, 'v) lua_vm \<Rightarrow> 'r \<Rightarrow> 'r option exn" where
  "WrapLuaMsgCb V luaMsgCb =
     (if \<not> vm_true V luaMsgCb then ret None else bind_x (vm_checkFunction V luaMsgCb) (\<lambda>_. ret (Some luaMsgCb)))"

definition lua_msg_cb :: "('r, 'v) lua_vm \<Rightarrow> 'r \<Rightarrow> string \<Rightarrow> 'v \<Rightarrow> (Status \<times> 'v) outcome" where
  "lua_msg_cb V luaMsgCb sMsg v =
     bind_o (call_lua V luaMsgCb [ArgStr sMsg] v) (\<lambda>(luaErrStr, v).
       if \<not> vm_true V luaErrStr then Done (Status_OK, v)
       else assert_o (STRING = vm_type V luaErrStr) ''STRING == luaErrStr.type()''
         (bind_o (uncaught (vm_string V luaErrStr)) (\<lambda>err. Done (Status_InternalError err, v))))"

definition WrapLuaStatusCb :: "('r, 'v) lua_vm \<Rightarrow> 'r \<Rightarrow> 'r option exn" where
  "WrapLuaStatusCb V luaStatusCb =
     (if \<not> vm_true V luaStatusCb then ret None
      else bind_x (vm_checkFunction V luaStatusCb) (\<lambda>_. ret (Some luaStatusCb)))"

definition lua_status_args :: "Status \<Rightarrow> lua_arg list" where
  "lua_status_args status =
     (if status_ok status then [ArgNil, ArgInt (GetCode status)]
      else [ArgStr (GetDetails status), ArgInt (GetCode status)])"

definition lua_status_cb :: "('r, 'v) lua_vm \<Rightarrow> 'r \<Rightarrow> Status \<Rightarrow> 'v \<Rightarrow> 'v outcome" where
  "lua_status_cb V luaStatusCb status v =
     bind_o (call_lua V luaStatusCb (lua_status_args status) v) (\<lambda>(r, v). Done v)"

definition WrapLuaErrorCb :: "('r, 'v) lua_vm \<Rightarrow> 'r \<Rightarrow> 'r option exn" where
  "WrapLuaErrorCb V luaErrorCb = WrapLuaStatusCb V luaErrorCb"

definition WrapLuaWaitForStatusCb :: "('r, 'v) lua_vm \<Rightarrow> 'r \<Rightarrow> 'r option exn" where
  "WrapLuaWaitForStatusCb V luaWaitForStatusCb =
     (if \<not> vm_true V luaWaitForStatusCb then ret None
      else bind_x (vm_checkFunction V luaWaitForStatusCb) (\<lambda>_. ret (Some luaWaitForStatusCb)))"

definition lua_wait_for_status_cb :: "('r, 'v) lua_vm \<Rightarrow> 'r \<Rightarrow> bool \<Rightarrow> int \<Rightarrow> 'v \<Rightarrow> 'v outcome" where
  "lua_wait_for_status_cb V luaWaitForStatusCb status code v =
     bind_o (call_lua V luaWaitForStatusCb [ArgBool status, ArgInt code] v) (\<lambda>(r, v). Done v)"

text \<open>
  A Lua function as the message callback of a reader: what it answers to \<open>m\<close> when it has been called with
  \<open>ms\<close> before, starting from the machine state \<open>v\<close>. \<open>lua_replay\<close> makes the calls of a log.
\<close>

fun lua_after :: "('r, 'v) lua_vm \<Rightarrow> 'r \<Rightarrow> string list \<Rightarrow> 'v \<Rightarrow> 'v outcome" where
  "lua_after V f [] v = Done v"
| "lua_after V f (m # ms) v = bind_o (lua_msg_cb V f m v) (\<lambda>(status, v). lua_after V f ms v)"

definition lua_answer :: "('r, 'v) lua_vm \<Rightarrow> 'r \<Rightarrow> 'v \<Rightarrow> MsgStrCb" where
  "lua_answer V f v ms m = (case bind_o (lua_after V f ms v) (lua_msg_cb V f m) of
     Done (status, v') \<Rightarrow> status | Abort why \<Rightarrow> Status_InternalError why)"

fun lua_replay :: "('r, 'v) lua_vm \<Rightarrow> 'r \<Rightarrow> 'r car_call_log list \<Rightarrow> 'v \<Rightarrow> 'v outcome" where
  "lua_replay V f [] v = Done v"
| "lua_replay V f (CarMsg m # log) v = bind_o (lua_msg_cb V f m v) (\<lambda>(status, v). lua_replay V f log v)"
| "lua_replay V f (CarStatus cb status # log) v = bind_o (lua_status_cb V cb status v) (lua_replay V f log)"

section \<open>The service stub\<close>

definition BindServiceStub_SetErrorCb :: "('r, 'v) lua_vm \<Rightarrow> 'r \<Rightarrow> 'r ServiceStub \<Rightarrow> 'r ServiceStub exn" where
  "BindServiceStub_SetErrorCb V luaErrorCb s =
     bind_x (WrapLuaErrorCb V luaErrorCb) (\<lambda>cb. ret (ServiceStub_SetErrorCb cb s))"

definition BindServiceStub_SetTimeoutSec :: "('r, 'v) lua_vm \<Rightarrow> 'r \<Rightarrow> 'r ServiceStub \<Rightarrow> 'r ServiceStub exn" where
  "BindServiceStub_SetTimeoutSec V luaTimeoutSec s =
     bind_x (GetTimeoutMs V luaTimeoutSec) (\<lambda>nTimeoutMs. ret (ServiceStub_SetCallTimeoutMs nTimeoutMs s))"

definition BindServiceStub_SetWaitForStateChange ::
  "('r, 'v) lua_vm \<Rightarrow> 'r \<Rightarrow> 'r ServiceStub \<Rightarrow> 'r ServiceStub exn" where
  "BindServiceStub_SetWaitForStateChange V luaWaitForStateChangeCb s =
     bind_x (WrapLuaWaitForStatusCb V luaWaitForStateChangeCb) (\<lambda>scCb. ret (ServiceStub_SetStatusChangeCb scCb s))"

definition BindServiceStub_SyncRequest ::
  "'buf grpc_lib \<Rightarrow> 'buf sync_call \<Rightarrow> string \<Rightarrow> ((string \<times> string \<times> string) \<times> 'buf sync_call) exn" where
  "BindServiceStub_SyncRequest G c sRequest =
     bind_o (ServiceStub_SyncRequest G c sRequest '''') (\<lambda>(status, sResponse, c').
       ret (if status_ok status then (sResponse, '''', ostream_int (GetCode status))
            else ('''', GetDetails status, ostream_int (GetCode status)), c'))"

text \<open>\<open>answer\<close> is what the Lua function makes of the response when it is called, at most once.\<close>

definition BindServiceStub_AsyncRequest ::
  "('r, 'v) lua_vm \<Rightarrow> ('r \<Rightarrow> RespStrCb) \<Rightarrow> 'buf grpc_lib \<Rightarrow> 'buf sync_call \<Rightarrow> string \<Rightarrow> 'r \<Rightarrow> 'r \<Rightarrow>
     ('r, 'buf) stub_calls \<Rightarrow> ('r, 'buf) stub_calls exn" where
  "BindServiceStub_AsyncRequest V answer G c sRequest luaResponseCb luaErrorCb w =
     bind_x (WrapLuaMsgCb V luaResponseCb) (\<lambda>cbRespStr.
     bind_x (WrapLuaErrorCb V luaErrorCb) (\<lambda>cbError.
       bind_o (ServiceStub_AsyncRequest G c sRequest (map_option answer cbRespStr) cbError w) ret))"

definition BindServiceStub_AsyncRequestRead ::
  "('r, 'v) lua_vm \<Rightarrow> 'v \<Rightarrow> 'buf grpc_lib \<Rightarrow> string \<Rightarrow> 'r \<Rightarrow> 'r \<Rightarrow> ('r, 'buf) ClientAsyncReaderImpl exn" where
  "BindServiceStub_AsyncRequestRead V v G sRequest luaMsgCb luaStatusCb =
     bind_o (ClientAsyncReaderImpl_new (Some Call_fresh) sRequest) (\<lambda>reader.
     bind_x (WrapLuaMsgCb V luaMsgCb) (\<lambda>msg_cb.
     bind_x (WrapLuaErrorCb V luaStatusCb) (\<lambda>status_cb.
       bind_o (ClientAsyncReaderImpl_Start G (map_option (\<lambda>f. lua_answer V f v) msg_cb) status_cb reader) ret)))"


section \<open>Properties\<close>

lemma timeout_cast:
  "vm_true V r \<Longrightarrow> vm_double V r = ret d \<Longrightarrow> less64 d (Finite 4611686018427388 1) \<Longrightarrow>
     GetTimeoutMs V r = bind_o (int64_of (times64 d (Finite 1000 0))) ret"
  "vm_true V r \<Longrightarrow> vm_double V r = ret d \<Longrightarrow> \<not> less64 d (Finite 4611686018427388 1) \<Longrightarrow>
     GetTimeoutMs V r = ret INT64_MAX"
  by (simp_all add: GetTimeoutMs_def timeout_limit thousand)

lemma timeout_below_limit:
  assumes "0 \<le> m" "binary64_ok (Finite m e)" "less64 (Finite m e) (Finite 4611686018427388 1)"
  shows "\<exists>t. int64_of (times64 (Finite m e) (Finite 1000 0)) = Done (int t) \<and> int t < INT64_MAX"
proof -
  have small: "nat m < 2 ^ 53" using assms(1,2) by (simp add: nat_less_iff)
  have "nat m * 2 ^ nat e \<le> 9223372036854774" if "0 \<le> e"
  proof (cases "e = 0")
    case True
    with small show ?thesis by simp
  next
    case False
    with that have "nat e = Suc (nat (e - 1))" by simp
    moreover have "m * 2 ^ nat (e - 1) < 4611686018427388" using assms(3) False that by simp
    then have "int (nat m * 2 ^ nat (e - 1)) < int 4611686018427388" using assms(1) by simp
    then have "nat m * 2 ^ nat (e - 1) \<le> 4611686018427387" by (simp only: of_nat_less_iff)
    ultimately show ?thesis by simp
  qed
  from cast_product [OF small this, of 1000] obtain t where
    t: "int64_of (to_binary64 (int (nat m * 1000)) e) = Done (int t)"
    "2 ^ 53 * t \<le> max 9223372036854774 (2 ^ 53) * 1000 * (2 ^ 53 + 1)" by auto
  from t(2) have "t \<le> 9223372036854775024" by simp
  then have "int t \<le> int 9223372036854775024" by (simp only: of_nat_le_iff)
  with t(1) assms(1) show ?thesis by (intro exI [of _ t]) (simp add: INT64_MAX_def)
qed

lemma timeout_very_negative:
  assumes "binary64_ok (Finite m e)" "less64 (Finite m e) (Finite (- 4611686018427389) 1)"
  shows "m < 0 \<and> int64_of (times64 (Finite m e) (Finite 1000 0)) = Abort ''static_cast<int64_t>''"
proof -
  have "\<not> e < 1"
  proof
    assume "e < 1"
    have "(2::int) ^ 1 \<le> 2 ^ nat (1 - e)" using \<open>e < 1\<close> by (intro power_increasing) auto
    with \<open>e < 1\<close> assms show False by simp
  qed
  with assms(2) have big: "m * 2 ^ nat (e - 1) < - 4611686018427389" and e: "0 \<le> e" "nat e = Suc (nat (e - 1))"
    by simp_all
  from big have "m * 2 ^ nat (e - 1) < 0" by linarith
  then have neg: "m < 0" by (simp add: mult_less_0_iff)
  from big neg have "int 4611686018427389 \<le> int (nat (- m) * 2 ^ nat (e - 1))" by simp
  then have "4611686018427389 \<le> nat (- m) * 2 ^ nat (e - 1)" by (simp only: of_nat_le_iff)
  then have "9223372036854778 \<le> nat (- m) * 2 ^ nat e" using e(2) by simp
  from cast_negative_out_of_range [OF e(1) this, of 1000] neg show ?thesis by simp
qed

lemma negative_below: "m < 0 \<Longrightarrow> less64 (Finite m e) (Finite 4611686018427388 1)"
proof -
  assume "m < 0"
  then have "m * 2 ^ j < 0" for j :: nat by (simp add: mult_less_0_iff)
  moreover have "0 < (4611686018427388 :: int) * 2 ^ k" for k :: nat by simp
  ultimately have "m * 2 ^ j < 4611686018427388 * 2 ^ k" for j k by (rule less_trans)
  then show ?thesis by (simp add: Let_def)
qed

lemma number_timeout:
  assumes "vm_true V r" and "vm_double V r = ret d" and "binary64_ok d"
  shows "(\<not> less64 d (Finite 0 0) \<longrightarrow> (\<exists>ms. GetTimeoutMs V r = ret ms \<and> 0 \<le> ms \<and> ms \<le> INT64_MAX \<and>
      (ms = INT64_MAX \<longleftrightarrow> \<not> less64 d (Finite 4611686018427388 1)))) \<and>
    (less64 d (Finite (- 4611686018427389) 1) \<longrightarrow> GetTimeoutMs V r = Abort ''static_cast<int64_t>'')"
proof (cases "less64 d (Finite 4611686018427388 1)")
  case False
  have "0 \<le> INT64_MAX" by (simp add: INT64_MAX_def)
  moreover have "\<not> less64 d (Finite (- 4611686018427389) 1)"
  proof (cases d)
    case (Finite m e)
    with False negative_below [of m e] timeout_very_negative [of m e] assms(3) show ?thesis by blast
  qed (use False in auto)
  ultimately show ?thesis using False timeout_cast(2) [OF assms(1,2) False] by simp
next
  case True
  note cast = timeout_cast(1) [OF assms(1,2) True]
  show ?thesis
  proof (cases d)
    case (Finite m e)
    have pos: "\<not> less64 (Finite m e) (Finite 0 0) \<longleftrightarrow> 0 \<le> m"
      by (simp add: Let_def mult_less_0_iff not_less)
    show ?thesis using cast timeout_below_limit [of m e] timeout_very_negative [of m e] assms(3) True pos
      unfolding Finite by (cases "0 \<le> m") auto
  qed (use cast True in auto)
qed

text \<open>
  C38: A timeout given in seconds. Nil means no timeout, \<^verbatim>\<open>INT64_MAX\<close>; what cannot be read as a number is the error of that.
  Not-a-number and everything from 9223372036854776 seconds on mean no timeout, too;
  every other number from zero on becomes a smaller number of milliseconds, within
  the range of the type, so that the cast is defined. Below -9223372036854778 seconds the cast is not.
\<close>
theorem timeout_ms_bounds:
  assumes "binary64_ok d"
  shows "(\<not> vm_true V r \<longrightarrow> GetTimeoutMs V r = ret INT64_MAX) \<and>
    (vm_true V r \<and> vm_double V r = throw msg \<longrightarrow> GetTimeoutMs V r = throw msg) \<and>
    (vm_true V r \<and> vm_double V r = ret d \<longrightarrow>
      (\<not> less64 d (Finite 0 0) \<longrightarrow> (\<exists>ms. GetTimeoutMs V r = ret ms \<and> 0 \<le> ms \<and> ms \<le> INT64_MAX \<and>
        (ms = INT64_MAX \<longleftrightarrow> \<not> less64 d (Finite 4611686018427388 1)))) \<and>
      (less64 d (Finite (- 4611686018427389) 1) \<longrightarrow> GetTimeoutMs V r = Abort ''static_cast<int64_t>''))"
  using number_timeout [OF _ _ assms, of V r] by (auto simp: GetTimeoutMs_def)

text \<open>A machine whose references are numbers, strings and functions, for the witnesses.\<close>

datatype cref = CNil | CStr string | CNum binary64 | CInt "64 word" | CMsgFun | CStatusFun

type_synonym client_vm_state = "(cref \<times> lua_arg list) list"

text \<open>The message function refuses the message \<^verbatim>\<open>bad\<close>.\<close>

definition client_vm :: "(cref, client_vm_state) lua_vm" where
  "client_vm = \<lparr>vm_none = CNil,
     vm_type = (\<lambda>r. case r of CNil \<Rightarrow> NIL | CStr s \<Rightarrow> STRING | CNum d \<Rightarrow> NUMBER | CInt i \<Rightarrow> NUMBER | _ \<Rightarrow> FUNCTION),
     vm_string = (\<lambda>r. case r of CStr s \<Rightarrow> ret s | _ \<Rightarrow> throw ''string expected''),
     vm_double = (\<lambda>r. case r of CNum d \<Rightarrow> ret d | _ \<Rightarrow> throw ''number expected''),
     vm_integer = (\<lambda>r. case r of CInt i \<Rightarrow> ret i | _ \<Rightarrow> throw ''number expected''),
     vm_bool = (\<lambda>r. r \<noteq> CNil), vm_get = (\<lambda>r k v. CNil), vm_len = (\<lambda>r v. 0), vm_index = (\<lambda>r i v. CNil),
     vm_dispatch = (\<lambda>r func args v. (Thrown ''attempt to index'', v)),
     vm_call = (\<lambda>r args v. (Returned (if r = CMsgFun \<and> args = [ArgStr ''bad''] then CStr ''refused'' else CNil),
        v @ [(r, args)]))\<rparr>"

lemma client_vm_double: "vm_true client_vm (CNum d)" "vm_double client_vm (CNum d) = ret d"
  by (simp_all add: client_vm_def vm_true_def)

theorem timeout_ms_bounds_witness:
  "(\<exists>ms. GetTimeoutMs client_vm (CNum (Finite 5 (- 1))) = ret ms \<and> ms < INT64_MAX) \<and>
   GetTimeoutMs client_vm CNil = ret INT64_MAX \<and>
   GetTimeoutMs client_vm (CNum (Finite (- 9007199254740991) 11)) = Abort ''static_cast<int64_t>''"
proof (intro conjI)
  show "\<exists>ms. GetTimeoutMs client_vm (CNum (Finite 5 (- 1))) = ret ms \<and> ms < INT64_MAX"
    using timeout_ms_bounds [of "Finite 5 (- 1)" client_vm "CNum (Finite 5 (- 1))"] client_vm_double by auto
  show "GetTimeoutMs client_vm CNil = ret INT64_MAX"
    using timeout_ms_bounds [of "Finite 5 (- 1)" client_vm CNil] by (simp add: client_vm_def vm_true_def)
  show "GetTimeoutMs client_vm (CNum (Finite (- 9007199254740991) 11)) = Abort ''static_cast<int64_t>''"
    using timeout_ms_bounds [of "Finite (- 9007199254740991) 11" client_vm "CNum (Finite (- 9007199254740991) 11)"]
      client_vm_double by simp
qed

text \<open>
  Timeouts are exact as long as the product with 1000 has at most 53 bits: the result is the number of seconds times
  1000, without its fraction. Whole seconds up to 9007199254740 are exact, forwards and backwards.
\<close>
theorem timeout_ms_exact:
  assumes "vm_true V r" and "vm_double V r = ret (Finite m e)" and "\<bar>1000 * m\<bar> < 2 ^ 53" and "- 1074 \<le> e" "e \<le> 0"
  shows "GetTimeoutMs V r = ret (truncate64 (1000 * m) e)"
proof -
  have b: "\<bar>m\<bar> < 2 ^ 53" using assms(3) by simp
  have "less64 (Finite m e) (Finite 4611686018427388 1)"
  proof -
    have "(2::int) ^ 1 \<le> 2 ^ nat (1 - e)" using assms(5) by (intro power_increasing) auto
    then have "9223372036854776 \<le> 4611686018427388 * (2::int) ^ nat (1 - e)" by simp
    with b assms(5) show ?thesis by simp
  qed
  note cast = timeout_cast(1) [OF assms(1,2) this]
  have "times64 (Finite m e) (Finite 1000 0) = Finite (1000 * m) e"
    using to_binary64_exact [of "1000 * m" e] assms(3,5) by (simp add: mult.commute)
  moreover have "\<bar>truncate64 (1000 * m) e\<bar> \<le> \<bar>1000 * m\<bar>"
  proof (cases "e = 0")
    case False
    define y where "y = \<bar>1000 * m\<bar> div 2 ^ nat (- e)"
    have "0 \<le> y" "y \<le> \<bar>1000 * m\<bar>"
      using zdiv_mono2 [of "\<bar>1000 * m\<bar>" 1 "2 ^ nat (- e)"] by (simp_all add: y_def pos_imp_zdiv_nonneg_iff)
    then have "\<bar>sgn (1000 * m) * y\<bar> \<le> \<bar>1000 * m\<bar>" by (simp add: abs_mult abs_sgn_eq)
    then show ?thesis using False assms(5) by (simp only: truncate64_def y_def if_False) simp
  qed (simp add: truncate64_def)
  moreover have "(2::int) ^ 53 \<le> 2 ^ 63" by simp
  ultimately have "- (2 ^ 63) \<le> truncate64 (1000 * m) e \<and> truncate64 (1000 * m) e < 2 ^ 63"
    and times: "times64 (Finite m e) (Finite 1000 0) = Finite (1000 * m) e" using assms(3) by linarith+
  then show ?thesis unfolding cast times int64_of.simps by (simp add: ret_def)
qed

theorem timeout_ms_exact_witness:
  "GetTimeoutMs client_vm (CNum (Finite 5 (- 1))) = ret 2500 \<and> GetTimeoutMs client_vm (CNum (Finite (- 3) 0)) = ret (- 3000)"
  using timeout_ms_exact [OF client_vm_double, of 5 "- 1"] timeout_ms_exact [OF client_vm_double, of "- 3" 0]
  by (simp add: truncate64_def)

lemma bind_o_ret: "bind_o m ret = ret x \<longleftrightarrow> m = Done x"
  by (cases m) (auto simp: ret_def)

section \<open>Readers whose callbacks behave\<close>

text \<open>
  \<open>f\<close> and \<open>g\<close> are functions that return; what \<open>f\<close> returns is nil or a string.
\<close>

locale lua_callbacks =
  fixes V :: "('r, 'v) lua_vm"
    and f :: 'r
    and g :: 'r
    and vinv :: "'v \<Rightarrow> bool"
  assumes are_functions: "vm_type V f = FUNCTION" "vm_type V g = FUNCTION"
    and msg: "vinv v \<Longrightarrow> \<exists>e v'. vm_call V f [ArgStr m] v = (Returned e, v') \<and> vinv v' \<and>
        (vm_true V e \<longrightarrow> vm_type V e = STRING \<and> (\<exists>err. vm_string V e = ret err))"
    and status: "vinv v \<Longrightarrow> \<exists>e v'. vm_call V g (lua_status_args st) v = (Returned e, v') \<and> vinv v'"
begin

text \<open>A message is answered with OK or with an error that carries the text the function returned.\<close>

lemma msg_cb_holds:
  "vinv v \<Longrightarrow> holds (\<lambda>(st, v'). vinv v' \<and> (st = Status_OK \<or> (\<exists>err. st = Status_InternalError err))) (lua_msg_cb V f m v)"
  using msg [of v m] by (auto simp: lua_msg_cb_def call_lua_def uncaught_def ret_def)

lemma status_cb_holds: "vinv v \<Longrightarrow> holds vinv (lua_status_cb V g st v)"
  using status [of v st] by (auto simp: lua_status_cb_def call_lua_def)

lemma after_holds: "vinv v \<Longrightarrow> holds vinv (lua_after V f ms v)"
proof (induction ms arbitrary: v)
  case (Cons m ms)
  from msg_cb_holds [OF Cons.prems, of m] Cons.IH show ?case by (auto elim!: holds_mono)
qed simp

lemma replay_holds:
  "vinv v \<Longrightarrow> \<forall>x \<in> set (car_statuses log). fst x = g \<Longrightarrow> holds vinv (lua_replay V f log v)"
proof (induction log arbitrary: v)
  case (Cons x log)
  show ?case
  proof (cases x)
    case (CarMsg m)
    with msg_cb_holds [OF Cons.prems(1), of m] Cons.IH Cons.prems(2) show ?thesis by (auto elim!: holds_mono)
  next
    case (CarStatus cb st)
    with status_cb_holds [OF Cons.prems(1), of st] Cons.IH Cons.prems(2) show ?thesis by (auto elim!: holds_mono)
  qed
qed simp

lemma answer_refusal:
  assumes "vinv v" "\<not> status_ok (lua_answer V f v ms m)"
  shows "\<exists>err v1 v2. lua_after V f ms v = Done v1 \<and> lua_msg_cb V f m v1 = Done (Status_InternalError err, v2) \<and>
    lua_answer V f v ms m = Status_InternalError err"
proof -
  from after_holds [OF assms(1), of ms] obtain v1 where v1: "lua_after V f ms v = Done v1" "vinv v1"
    by (auto simp: holds_iff)
  from msg_cb_holds [OF v1(2), of m] obtain st v2 where
    "lua_msg_cb V f m v1 = Done (st, v2)" "st = Status_OK \<or> (\<exists>err. st = Status_InternalError err)"
    by (auto simp: holds_iff)
  with v1(1) assms(2) show ?thesis by (auto simp: lua_answer_def)
qed

lemma read_starts:
  fixes s0 :: "('r, 'buf) ClientAsyncReaderImpl"
  assumes "BindServiceStub_AsyncRequestRead V v G request f g = ret s0"
  shows "reach (car_start request) car_en (car_step G) [(CarReadEach (Some (lua_answer V f v)) (Some g), True)] s0"
proof -
  have wraps: "WrapLuaMsgCb V f = ret (Some f)" "WrapLuaErrorCb V g = ret (Some g)"
    using are_functions by (simp_all add: WrapLuaMsgCb_def WrapLuaErrorCb_def WrapLuaStatusCb_def vm_true_def
        vm_checkFunction_def)
  obtain reader :: "('r, 'buf) ClientAsyncReaderImpl"
    where reader: "ClientAsyncReaderImpl_new (Some Call_fresh) request = Done reader"
    by (simp add: ClientAsyncReaderImpl_new_def)
  with assms wraps have start: "ClientAsyncReaderImpl_Start G (Some (lua_answer V f v)) (Some g) reader = Done s0"
    by (simp add: BindServiceStub_AsyncRequestRead_def bind_o_ret)
  have "reach (car_start request) car_en (car_step G) [] reader"
    using reader by (intro reach_start) (simp add: car_start_def)
  from reach_step [OF this, of "CarReadEach (Some (lua_answer V f v)) (Some g)" True s0] start show ?thesis
    by simp
qed

end

interpretation client_vm: lua_callbacks client_vm CMsgFun CStatusFun "\<lambda>v. True"
  by unfold_locales (simp_all add: client_vm_def vm_true_def)

lemma reach_append:
  assumes "reach start en step tr0 s0" "reach (\<lambda>s. s = s0) en step tr s"
  shows "reach start en step (tr0 @ tr) s"
  using assms(2)
proof (induction rule: reach.induct)
  case (reach_start s)
  with assms(1) show ?case by simp
next
  case (reach_step tr s e out s')
  then have "reach start en step ((tr0 @ tr) @ [(e, out)]) s'" by (intro reach.reach_step)
  then show ?case by simp
qed

text \<open>
  Lua's side of a server-streaming request, when the Lua functions return, with nil or a string
  (\<open>lua_callbacks\<close>). The Lua callback is called with exactly the messages that the reads have
  brought, in order; when the call is over, the status function
  has been called once, after all of them. If the callback answers a message with an error text, that message is
  the last, and the status function gets that text.
\<close>
theorem lua_read_callbacks:
  assumes "lua_callbacks V f g vinv" and "vinv v"
    and "BindServiceStub_AsyncRequestRead V v G request f g = ret s0"
    and "reach (\<lambda>s. s = s0) car_en (car_step G) tr s"
  shows "car_msgs (car_log s) = concat (map (\<lambda>(e, out). car_reads G e) tr) \<and>
    (\<exists>v'. lua_replay V f (car_log s) v = Done v' \<and> vinv v') \<and>
    (CarRead \<notin> pend (car_call s) \<and> CarRecvStatus \<notin> pend (car_call s) \<longrightarrow>
       (\<exists>st. car_log s = map CarMsg (car_msgs (car_log s)) @ [CarStatus g st])) \<and>
    (\<forall>ms m. car_msgs (car_log s) = ms @ [m] \<and> \<not> status_ok (lua_answer V f v ms m) \<longrightarrow>
       (\<exists>err v1 v2. lua_after V f ms v = Done v1 \<and> lua_msg_cb V f m v1 = Done (Status_InternalError err, v2) \<and>
          car_log s = map CarMsg (ms @ [m]) @ [CarStatus g (Status_InternalError err)]))"
proof -
  let ?first = "(CarReadEach (Some (lua_answer V f v)) (Some g), True)"
  have run: "reach (car_start request) car_en (car_step G) ([?first] @ tr) s"
    by (rule reach_append [OF lua_callbacks.read_starts [OF assms(1,3)] assms(4)])
  have given: "car_given_of ([?first] @ tr) = Some (Some (lua_answer V f v), Some g)" by simp
  from car_runs [OF run] given have msgs: "car_msgs (car_log s) = concat (map (\<lambda>(e, out). car_reads G e) tr)"
    and shape: "car_shape (car_log s)" and progress: "car_progress (Some g) s"
    by (simp_all add: car_ok_def car_reads_def)
  have once: "map fst (car_statuses (car_log s)) =
      (if CarRead \<in> pend (car_call s) \<or> CarRecvStatus \<in> pend (car_call s) then [] else [g])"
    using progress by (auto simp: car_progress_def Let_def split: if_splits)
  have "set (map fst (car_statuses (car_log s))) \<subseteq> {g}" by (simp only: once) simp
  then have "\<forall>x \<in> set (car_statuses (car_log s)). fst x = g" by auto
  from lua_callbacks.replay_holds [OF assms(1,2) this]
  have replay: "\<exists>v'. lua_replay V f (car_log s) v = Done v' \<and> vinv v'" by (simp add: holds_iff)
  have over: "\<exists>st. car_log s = map CarMsg (car_msgs (car_log s)) @ [CarStatus g st]"
    if "CarRead \<notin> pend (car_call s) \<and> CarRecvStatus \<notin> pend (car_call s)"
    using once shape that by (auto simp: car_shape_def map_eq_Cons_conv)
  have refused: "\<exists>err v1 v2. lua_after V f ms v = Done v1 \<and> lua_msg_cb V f m v1 = Done (Status_InternalError err, v2) \<and>
      car_log s = map CarMsg (ms @ [m]) @ [CarStatus g (Status_InternalError err)]"
    if ms: "car_msgs (car_log s) = ms @ [m]" and bad: "\<not> status_ok (lua_answer V f v ms m)" for ms m
  proof -
    from lua_callbacks.answer_refusal [OF assms(1,2) bad] obtain err v1 v2 where
      err: "lua_after V f ms v = Done v1" "lua_msg_cb V f m v1 = Done (Status_InternalError err, v2)"
      "lua_answer V f v ms m = Status_InternalError err" by blast
    from car_refusal [OF run given] ms bad err(3)
    have "car_statuses (car_log s) = [(g, Status_InternalError err)]" by (simp add: Let_def)
    with shape ms have "car_log s = map CarMsg (ms @ [m]) @ [CarStatus g (Status_InternalError err)]"
      by (simp add: car_shape_def)
    with err show ?thesis by blast
  qed
  from msgs replay over refused show ?thesis by blast
qed

definition lua_read_demo_events :: "(cref, string) car_event list" where
  "lua_read_demo_events = [CarCompletion CarInit demo_done, CarCompletion CarRead (car_demo_msg (Some ''ok'')),
     CarCompletion CarRead (car_demo_msg (Some ''bad''))]"

lemma lua_read_demo_run:
  "(case BindServiceStub_AsyncRequestRead client_vm [] (demo_lib 10) ''req'' CMsgFun CStatusFun of
     Done (Returned s0) \<Rightarrow> (case exec car_en (car_step (demo_lib 10)) lua_read_demo_events s0 of
       Some (tr, s) \<Rightarrow> car_msgs (car_log s) = [''ok'', ''bad''] | None \<Rightarrow> False)
   | _ \<Rightarrow> False)"
  by code_simp

lemma client_vm_refuses: "\<not> status_ok (lua_answer client_vm CMsgFun [] [''ok''] ''bad'')"
  by code_simp

theorem lua_read_callbacks_witness:
  "\<exists>s :: (cref, string) ClientAsyncReaderImpl.
     car_log s = [CarMsg ''ok'', CarMsg ''bad'', CarStatus CStatusFun (Status_InternalError ''refused'')]"
proof -
  let ?run = "BindServiceStub_AsyncRequestRead client_vm [] (demo_lib 10) ''req'' CMsgFun CStatusFun"
  obtain s0 where s0: "?run = ret s0"
    using lua_read_demo_run by (auto simp: ret_def split: outcome.splits excepting.splits)
  with lua_read_demo_run obtain tr s where
    run: "exec car_en (car_step (demo_lib 10)) lua_read_demo_events s0 = Some (tr, s)"
    and msgs: "car_msgs (car_log s) = [''ok''] @ [''bad'']"
    by (auto simp: ret_def split: option.splits)
  have "reach (\<lambda>s. s = s0) car_en (car_step (demo_lib 10)) tr s"
    by (rule exec_reach [OF refl run])
  from lua_read_callbacks [OF client_vm.lua_callbacks_axioms TrueI s0 this] msgs client_vm_refuses
  obtain err v1 v2 where "lua_after client_vm CMsgFun [''ok''] [] = Done v1"
    "lua_msg_cb client_vm CMsgFun ''bad'' v1 = Done (Status_InternalError err, v2)"
    "car_log s = map CarMsg ([''ok''] @ [''bad'']) @ [CarStatus CStatusFun (Status_InternalError err)]"
    by blast
  then show ?thesis
    by (intro exI [of _ s]) (auto simp: lua_msg_cb_def call_lua_def client_vm_def vm_true_def uncaught_def ret_def
      Status_InternalError_def Status_make_def)
qed

end
