(* ===== verification/Lua_Client_Classes.thy ===== *)
theory Lua_Client_Classes
  imports Lua_Client Client_Async_Writer
begin

text \<open>
  \<^verbatim>\<open>lua/client/Bind*.cpp\<close>: the classes that the module offers to client scripts. A factory
  makes the object of a class; the methods of the class are one function of the method's name, the
  arguments and the object, which yields the values returned to Lua and the changed object. \<open>None\<close> is a
  name that the class does not have. Arguments are converted before the call; a failed conversion is an error in Lua.

  \<open>make_call\<close> is the fresh call that the channel makes for a timeout. What a Lua function does with a message
  is the argument \<open>answer\<close>.
\<close>

section \<open>Shared parts\<close>

definition with_string :: "('r, 'v) lua_vm \<Rightarrow> nat \<Rightarrow> 'r list \<Rightarrow> (string \<Rightarrow> 'a exn) \<Rightarrow> 'a exn" where
  "with_string V i args k = bind_x (vm_string V (vm_arg V i args)) k"

definition with_timeout :: "('r, 'v) lua_vm \<Rightarrow> 'r \<Rightarrow> (int \<Rightarrow> 'c) \<Rightarrow> ('c \<Rightarrow> 'a outcome) \<Rightarrow> 'a exn" where
  "with_timeout V timeoutSec make_call new =
     bind_x (GetTimeoutMs V timeoutSec) (\<lambda>nTimeoutMs. bind_o (new (make_call nTimeoutMs)) ret)"

text \<open>A message read, or nil.\<close>

definition read_result :: "bool \<times> string \<times> 'd \<Rightarrow> lua_arg list \<times> 'd" where
  "read_result r = (case r of (got, sMsg, d) \<Rightarrow> (if got then [ArgStr sMsg] else [ArgNil], d))"

section \<open>The channel and the service stub\<close>

definition GetChannelSptr :: "(string \<Rightarrow> nat option) \<Rightarrow> string \<Rightarrow> Channel outcome" where
  "GetChannelSptr create sTarget = Channel_new create sTarget"

record ('r, 'buf) lua_stub =
  lst_stub :: "'r ServiceStub"
  lst_calls :: "('r, 'buf) stub_calls"
  lst_readers :: "('r, 'buf) ClientAsyncReaderImpl list"

text \<open>
  \<open>v\<close> is the state of the Lua machine at the call, \<open>status\<close> the channel's connectivity; \<open>run\<close> stands
  for the event loop that \<^verbatim>\<open>run\<close> enters.
\<close>

definition BindServiceStub :: "('r, 'v) lua_vm \<Rightarrow> ('r \<Rightarrow> RespStrCb) \<Rightarrow> 'buf grpc_lib \<Rightarrow> 'v \<Rightarrow> grpc_connectivity_state \<Rightarrow>
    (('r, 'buf) lua_stub \<Rightarrow> ('r, 'buf) lua_stub outcome) \<Rightarrow> string \<Rightarrow> 'r list \<Rightarrow> ('r, 'buf) lua_stub \<Rightarrow>
    (lua_arg list \<times> ('r, 'buf) lua_stub) exn option" where
  "BindServiceStub V answer G v status run name args s =
     (let set_stub = (\<lambda>r. bind_x r (\<lambda>st. ret ([], s\<lparr>lst_stub := st\<rparr>)))
      in if name = ''set_error_cb'' then Some (set_stub (BindServiceStub_SetErrorCb V (vm_arg V 0 args) (lst_stub s)))
      else if name = ''set_timeout_sec'' then
        Some (set_stub (BindServiceStub_SetTimeoutSec V (vm_arg V 0 args) (lst_stub s)))
      else if name = ''get_channel_status'' then Some (ret ([ArgInt (int status)], s))
      else if name = ''set_wait_for_state_change_cb'' then
        Some (set_stub (BindServiceStub_SetWaitForStateChange V (vm_arg V 0 args) (lst_stub s)))
      else if name = ''sync_request'' then
        Some (with_string V 0 args (\<lambda>sMethod. with_string V 1 args (\<lambda>sRequest.
          bind_x (BindServiceStub_SyncRequest G Call_fresh sRequest) (\<lambda>((resp, err, code), c).
            ret ([ArgStr resp, ArgStr err, ArgStr code], s)))))
      else if name = ''async_request'' then
        Some (with_string V 0 args (\<lambda>sMethod. with_string V 1 args (\<lambda>sRequest.
          bind_x (BindServiceStub_AsyncRequest V answer G Call_fresh sRequest (vm_arg V 2 args) (vm_arg V 3 args)
            (lst_calls s)) (\<lambda>w. ret ([], s\<lparr>lst_calls := w\<rparr>)))))
      else if name = ''async_request_read'' then
        Some (with_string V 0 args (\<lambda>sMethod. with_string V 1 args (\<lambda>sRequest.
          bind_x (BindServiceStub_AsyncRequestRead V v G sRequest (vm_arg V 2 args) (vm_arg V 3 args))
            (\<lambda>rd. ret ([], s\<lparr>lst_readers := lst_readers s @ [rd]\<rparr>)))))
      else if name = ''run'' then Some (bind_o (run s) (\<lambda>s'. ret ([], s')))
      else if name = ''shutdown'' then
        Some (bind_o (ServiceStub_Shutdown (lst_stub s)) (\<lambda>st. ret ([], s\<lparr>lst_stub := st\<rparr>)))
      else None)"

section \<open>Blocking streams\<close>

definition GetClientSyncReader :: "('r, 'v) lua_vm \<Rightarrow> 'buf grpc_lib \<Rightarrow> (int \<Rightarrow> 'buf sync_call) \<Rightarrow> string \<Rightarrow> 'r \<Rightarrow>
    'buf ClientSyncReaderData exn" where
  "GetClientSyncReader V G make_call sRequest timeoutSec =
     with_timeout V timeoutSec make_call (\<lambda>c. ClientSyncReader_new G c sRequest)"

definition BindClientSyncReader_ReadOne :: "'buf grpc_lib \<Rightarrow> 'buf ClientSyncReaderData \<Rightarrow>
    (lua_arg list \<times> 'buf ClientSyncReaderData) exn" where
  "BindClientSyncReader_ReadOne G reader =
     bind_o (ClientSyncReader_ReadOne G (Some '''') reader) (\<lambda>r. ret (read_result r))"

definition BindClientSyncReader :: "'buf grpc_lib \<Rightarrow> string \<Rightarrow> 'r list \<Rightarrow> 'buf ClientSyncReaderData \<Rightarrow>
    (lua_arg list \<times> 'buf ClientSyncReaderData) exn option" where
  "BindClientSyncReader G name args reader =
     (if name = ''read_one'' then Some (BindClientSyncReader_ReadOne G reader) else None)"

definition GetClientSyncReaderWriter :: "('r, 'v) lua_vm \<Rightarrow> 'buf grpc_lib \<Rightarrow> (int \<Rightarrow> 'buf sync_call) \<Rightarrow> 'r \<Rightarrow>
    'buf ClientSyncReaderWriterImpl exn" where
  "GetClientSyncReaderWriter V G make_call timeoutSec =
     with_timeout V timeoutSec make_call (ClientSyncReaderWriterImpl_new G)"

definition BindClientSyncReaderWriter_ReadOne :: "'buf grpc_lib \<Rightarrow> 'buf ClientSyncReaderWriterImpl \<Rightarrow>
    (lua_arg list \<times> 'buf ClientSyncReaderWriterImpl) exn" where
  "BindClientSyncReaderWriter_ReadOne G rw =
     bind_o (ClientSyncReaderWriterImpl_ReadOne G (Some '''') rw) (\<lambda>r. ret (read_result r))"

definition BindClientSyncReaderWriter :: "('r, 'v) lua_vm \<Rightarrow> 'buf grpc_lib \<Rightarrow> string \<Rightarrow> 'r list \<Rightarrow>
    'buf ClientSyncReaderWriterImpl \<Rightarrow> (lua_arg list \<times> 'buf ClientSyncReaderWriterImpl) exn option" where
  "BindClientSyncReaderWriter V G name args rw =
     (if name = ''read_one'' then Some (BindClientSyncReaderWriter_ReadOne G rw)
      else if name = ''write'' then Some (with_string V 0 args (\<lambda>request.
        bind_o (ClientSyncReaderWriterImpl_Write G request rw) (\<lambda>(written, rw). ret ([ArgBool written], rw))))
      else if name = ''close_writing'' then
        Some (bind_o (ClientSyncReaderWriterImpl_CloseWriting G rw) (\<lambda>rw. ret ([], rw)))
      else None)"

definition GetClientSyncWriter :: "('r, 'v) lua_vm \<Rightarrow> 'buf grpc_lib \<Rightarrow> (int \<Rightarrow> 'buf sync_call) \<Rightarrow> 'r \<Rightarrow>
    'buf ClientSyncWriterData exn" where
  "GetClientSyncWriter V G make_call timeoutSec = with_timeout V timeoutSec make_call (ClientSyncWriter_new G)"

definition BindClientSyncWriter_Close :: "'buf grpc_lib \<Rightarrow> 'buf ClientSyncWriterData \<Rightarrow>
    (lua_arg list \<times> 'buf ClientSyncWriterData) exn" where
  "BindClientSyncWriter_Close G writer =
     bind_o (ClientSyncWriter_Close G (Some '''') writer) (\<lambda>(status, response, writer).
       ret ([if status_ok status then ArgStr response else ArgNil, ArgStr (GetDetails status), ArgInt (GetCode status)],
            writer))"

definition BindClientSyncWriter :: "('r, 'v) lua_vm \<Rightarrow> 'buf grpc_lib \<Rightarrow> string \<Rightarrow> 'r list \<Rightarrow>
    'buf ClientSyncWriterData \<Rightarrow> (lua_arg list \<times> 'buf ClientSyncWriterData) exn option" where
  "BindClientSyncWriter V G name args writer =
     (if name = ''write'' then Some (with_string V 0 args (\<lambda>request.
        bind_o (ClientSyncWriter_Write G request writer) (\<lambda>(written, writer). ret ([ArgBool written], writer))))
      else if name = ''close'' then Some (BindClientSyncWriter_Close G writer)
      else None)"

section \<open>Streams with callbacks\<close>

definition GetClientAsyncWriter :: "('r, 'v) lua_vm \<Rightarrow> 'buf grpc_lib \<Rightarrow> (int \<Rightarrow> (caw_tag, 'buf) Call) \<Rightarrow> 'r \<Rightarrow>
    ('r, 'buf) ClientAsyncWriterImpl exn" where
  "GetClientAsyncWriter V G make_call timeoutSec =
     with_timeout V timeoutSec (\<lambda>ms. Some (make_call ms)) (ClientAsyncWriterImpl_new G)"

text \<open>\<^verbatim>\<open>Close\<close> takes any value but nil for a function; \<open>lua_close_cb\<close> is the body of the closure.\<close>

definition BindClientAsyncWriter_Close :: "('r, 'v) lua_vm \<Rightarrow> 'buf grpc_lib \<Rightarrow> 'r \<Rightarrow> ('r, 'buf) ClientAsyncWriterImpl \<Rightarrow>
    ('r, 'buf) ClientAsyncWriterImpl outcome" where
  "BindClientAsyncWriter_Close V G luaCloseCb writer =
     (let cbClose = (if vm_true V luaCloseCb then Some luaCloseCb else None)
      in ClientAsyncWriterImpl_Close G cbClose writer)"

definition lua_close_cb :: "('r, 'v) lua_vm \<Rightarrow> 'r \<Rightarrow> Status \<Rightarrow> string \<Rightarrow> 'v \<Rightarrow> 'v outcome" where
  "lua_close_cb V luaCloseCb status sResponse v =
     bind_o (call_lua V luaCloseCb
       (if status_ok status then [ArgStr sResponse, ArgNil, ArgInt (GetCode status)]
        else [ArgNil, ArgStr (GetDetails status), ArgInt (GetCode status)]) v) (\<lambda>(r, v). Done v)"

definition BindClientAsyncWriter :: "('r, 'v) lua_vm \<Rightarrow> 'buf grpc_lib \<Rightarrow> string \<Rightarrow> 'r list \<Rightarrow>
    ('r, 'buf) ClientAsyncWriterImpl \<Rightarrow> (lua_arg list \<times> ('r, 'buf) ClientAsyncWriterImpl) exn option" where
  "BindClientAsyncWriter V G name args writer =
     (if name = ''write'' then Some (with_string V 0 args (\<lambda>request.
        bind_o (ClientAsyncWriterImpl_Write G request writer) (\<lambda>(accepted, writer). ret ([ArgBool accepted], writer))))
      else if name = ''close'' then
        Some (bind_o (BindClientAsyncWriter_Close V G (vm_arg V 0 args) writer) (\<lambda>writer. ret ([], writer)))
      else None)"

definition GetClientAsyncReaderWriter :: "('r, 'v) lua_vm \<Rightarrow> (int \<Rightarrow> (carw_tag, 'buf) Call) \<Rightarrow> 'r \<Rightarrow> 'r \<Rightarrow>
    ('r, 'buf) ClientAsyncReaderWriterImpl exn" where
  "GetClientAsyncReaderWriter V make_call timeoutSec luaStatusCb =
     bind_x (GetTimeoutMs V timeoutSec) (\<lambda>nTimeoutMs.
     bind_x (WrapLuaStatusCb V luaStatusCb) (\<lambda>cbStatus.
       bind_o (ClientAsyncReaderWriterImpl_new (Some (make_call nTimeoutMs)) cbStatus) ret))"

definition BindClientAsyncReaderWriter_ReadEach :: "('r, 'v) lua_vm \<Rightarrow> ('r \<Rightarrow> carw_msg_fun) \<Rightarrow> 'buf grpc_lib \<Rightarrow>
    ('r, 'buf) carw_cb_effect \<Rightarrow> 'r \<Rightarrow> ('r, 'buf) ClientAsyncReaderWriterImpl \<Rightarrow>
    ('r, 'buf) ClientAsyncReaderWriterImpl exn" where
  "BindClientAsyncReaderWriter_ReadEach V answer G K luaMsgCb rw =
     bind_x (WrapLuaMsgCb V luaMsgCb) (\<lambda>cb.
       bind_o (ClientAsyncReaderWriterImpl_ReadEach G K (map_option answer cb) rw) ret)"

definition BindClientAsyncReaderWriter :: "('r, 'v) lua_vm \<Rightarrow> ('r \<Rightarrow> carw_msg_fun) \<Rightarrow> 'buf grpc_lib \<Rightarrow>
    ('r, 'buf) carw_cb_effect \<Rightarrow> string \<Rightarrow> 'r list \<Rightarrow> ('r, 'buf) ClientAsyncReaderWriterImpl \<Rightarrow>
    (lua_arg list \<times> ('r, 'buf) ClientAsyncReaderWriterImpl) exn option" where
  "BindClientAsyncReaderWriter V answer G K name args rw =
     (if name = ''read_each'' then
        Some (bind_x (BindClientAsyncReaderWriter_ReadEach V answer G K (vm_arg V 0 args) rw) (\<lambda>rw. ret ([], rw)))
      else if name = ''write'' then Some (with_string V 0 args (\<lambda>msg.
        bind_o (ClientAsyncReaderWriterImpl_Write G K msg rw) (\<lambda>(accepted, rw). ret ([ArgBool accepted], rw))))
      else if name = ''close_writing'' then
        Some (bind_o (ClientAsyncReaderWriterImpl_CloseWriting G K rw) (\<lambda>rw. ret ([], rw)))
      else None)"

end
