(* ===== verification/Lua_Server_Classes.thy ===== *)
theory Lua_Server_Classes
  imports Lua_Service Server_Writer Server_Replier Service_Stub
begin

text \<open>
  \<^verbatim>\<open>lua/server/Bind*.cpp\<close>: the classes that the module offers to server scripts, in the manner of
  \<open>Lua_Client_Classes\<close>.
\<close>

section \<open>The server\<close>

text \<open>
  The services on the heap are the map \<open>S\<close>; \<open>p\<close> is the address of the adapter that \<^verbatim>\<open>make_shared\<close> makes. The machine's
  state \<open>v\<close> changes by what the adapter's constructor asks the Lua table.
\<close>

definition BindServer_RegisterService :: "('r, 'v) lua_vm \<Rightarrow> grpc_server_lib \<Rightarrow> 'buf grpc_lib \<Rightarrow> nat \<Rightarrow> 'r \<Rightarrow>
    (nat \<Rightarrow> ('buf, ('r, 'v, 'buf) lua_app) Service) \<times> ('r, 'v, 'buf) lua_app Server \<times> 'v \<Rightarrow>
    ((nat \<Rightarrow> ('buf, ('r, 'v, 'buf) lua_app) Service) \<times> ('r, 'v, 'buf) lua_app Server \<times> 'v) exn" where
  "BindServer_RegisterService V L G p luaService w = (case w of (S, server, v) \<Rightarrow>
     bind_x (vm_checkTable V luaService) (\<lambda>_.
     bind_x (impl_Service_new V luaService v) (\<lambda>(service, v').
       (let S' = S(p := lua_service V G service)
        in bind_o (Server_RegisterService_sptr L S' (Some p) server) (\<lambda>server'. ret (S', server', v'))))))"

text \<open>\<open>ev\<close> is what the queue has for the one poll of \<^verbatim>\<open>run\<close>.\<close>

definition BindServer :: "('r, 'v) lua_vm \<Rightarrow> grpc_server_lib \<Rightarrow> 'buf grpc_lib \<Rightarrow> nat \<Rightarrow>
    (ServerMethodCallCqTag, 'buf method_call) grpc_event \<Rightarrow> string \<Rightarrow> 'r list \<Rightarrow>
    (nat \<Rightarrow> ('buf, ('r, 'v, 'buf) lua_app) Service) \<times> ('r, 'v, 'buf) lua_app Server \<times> 'v \<Rightarrow>
    (lua_arg list \<times> (nat \<Rightarrow> ('buf, ('r, 'v, 'buf) lua_app) Service) \<times> ('r, 'v, 'buf) lua_app Server \<times> 'v) exn option"
where
  "BindServer V L G p ev name args w =
     (if name = ''add_listening_port'' then
        Some (bind_x (vm_string V (vm_arg V 0 args)) (\<lambda>addr.
          bind_o (Server_AddListeningPort_insecure L addr (fst (snd w))) (\<lambda>port. ret ([ArgInt port], w))))
      else if name = ''register_service'' then
        Some (bind_x (BindServer_RegisterService V L G p (vm_arg V 0 args) w) (\<lambda>w'. ret ([], w')))
      else if name = ''run'' then
        (case w of (S, server, v) \<Rightarrow> Some (bind_o (Server_Run L S ev server) (\<lambda>server'. ret ([], S, server', v))))
      else None)"

section \<open>The replier and the writer\<close>

text \<open>The status code arrives as an \<^verbatim>\<open>int\<close> and is cast to the enumeration, zero included.\<close>

definition BindServerReplier_ReplyError :: "'buf grpc_lib \<Rightarrow> string \<Rightarrow> 32 word \<Rightarrow> 'buf ServerReplierImpl \<Rightarrow>
    'buf ServerReplierImpl outcome" where
  "BindServerReplier_ReplyError G sError nStatusCode replier =
     ServerReplier_ReplyError G (Status_make (sint nStatusCode) sError) replier"

definition BindServerReplier :: "('r, 'v) lua_vm \<Rightarrow> 'buf grpc_lib \<Rightarrow> string \<Rightarrow> 'r list \<Rightarrow> 'buf ServerReplierImpl \<Rightarrow>
    (lua_arg list \<times> 'buf ServerReplierImpl) exn option" where
  "BindServerReplier V G name args replier =
     (if name = ''reply'' then Some (bind_x (vm_string V (vm_arg V 0 args)) (\<lambda>response.
        bind_o (ServerReplier_ReplyStr G response replier) (\<lambda>replier. ret ([], replier))))
      else if name = ''reply_error'' then Some (bind_x (vm_string V (vm_arg V 0 args)) (\<lambda>sError.
        bind_x (vm_integer V (vm_arg V 1 args)) (\<lambda>code.
          bind_o (BindServerReplier_ReplyError G sError (ucast code) replier) (\<lambda>replier. ret ([], replier)))))
      else None)"

definition BindServerWriter_Close :: "'buf grpc_lib \<Rightarrow> 'buf ServerWriterImpl \<Rightarrow> 'buf ServerWriterImpl outcome" where
  "BindServerWriter_Close G writer = ServerWriterImpl_AsyncClose G Status_OK writer"

text \<open>\<^verbatim>\<open>write\<close> may wait for completions; \<open>None\<close> inside is a wait that \<open>cps\<close> does not end.\<close>

definition BindServerWriter :: "('r, 'v) lua_vm \<Rightarrow> 'buf grpc_lib \<Rightarrow> bool list \<Rightarrow> string \<Rightarrow> 'r list \<Rightarrow>
    'buf ServerWriterImpl \<Rightarrow> (lua_arg list \<times> 'buf ServerWriterImpl) exn option option" where
  "BindServerWriter V G cps name args writer =
     (if name = ''write'' then Some (case vm_string V (vm_arg V 0 args) of
          Abort why \<Rightarrow> Some (Abort why)
        | Done (Thrown msg) \<Rightarrow> Some (throw msg)
        | Done (Returned response) \<Rightarrow>
            map_option (\<lambda>r. bind_o r (\<lambda>(written, writer). ret ([ArgBool written], writer)))
              (ServerWriterImpl_Write G cps response writer))
      else if name = ''close'' then
        Some (Some (bind_o (BindServerWriter_Close G writer) (\<lambda>writer. ret ([], writer))))
      else None)"

end
