(* ===== verification/Lua_End_To_End.thy ===== *)
theory Lua_End_To_End
  imports Lua_Client_Classes Lua_Server_Classes
begin

text \<open>
  A unary request between two scripts: the replier of a server script with \<^verbatim>\<open>sync_request\<close> of a client script.
  What lies between is gRPC, which completes the client's batch with what the server's batch carried.
\<close>

section \<open>A reply on the wire\<close>

fun op_message :: "'buf grpc_op \<Rightarrow> 'buf list" where
  "op_message (SendMessage buf) = [buf]"
| "op_message op = []"

fun op_status :: "'buf grpc_op \<Rightarrow> (grpc_status_code \<times> grpc_slice) list" where
  "op_status (SendStatusFromServer trail code details) = [(code, details)]"
| "op_status op = []"

definition reply_seen :: "'buf grpc_op list \<Rightarrow> 'buf completion" where
  "reply_seen batch = (let st = hd (concat (map op_status batch)); ms = concat (map op_message batch)
     in \<lparr>cp_success = True, cp_recv_buf = (if ms = [] then None else Some (hd ms)),
         cp_status = fst st, cp_details = snd st\<rparr>)"

text \<open>The client's gRPC, which delivers the reply of the batch \<open>b\<close>.\<close>

definition delivering :: "'buf grpc_lib \<Rightarrow> 'buf grpc_op list \<Rightarrow> 'buf grpc_lib" where
  "delivering G b = G\<lparr>grpc_completion_queue_pluck := (\<lambda>log. reply_seen b)\<rparr>"

lemma delivering_simps [simp]:
  "grpc_call_start_batch (delivering G b) = grpc_call_start_batch G"
  "grpc_raw_byte_buffer_create (delivering G b) = grpc_raw_byte_buffer_create G"
  "grpc_byte_buffer_reader_readall (delivering G b) = grpc_byte_buffer_reader_readall G"
  "takes (delivering G b) c batch = takes G c batch" "round_cp (delivering G b) batch c = reply_seen b"
  "buffers_faithful (delivering G b) = buffers_faithful G"
  by (simp_all add: delivering_def takes_def round_cp_def buffers_faithful_def)

lemma reply_seen_batch:
  "reply_seen (reply_batch G im (ReplyMsg m)) = \<lparr>cp_success = True,
     cp_recv_buf = Some (grpc_raw_byte_buffer_create G m), cp_status = GRPC_STATUS_OK, cp_details = ''''\<rparr>"
  "reply_seen (reply_batch G im (ReplyErr st)) = \<lparr>cp_success = True,
     cp_recv_buf = None, cp_status = GetCode st, cp_details = c_str (GetDetails st)\<rparr>"
  by (simp_all add: reply_seen_def init_md_ops_def)

text \<open>The batch of a synchronous request.\<close>

definition request_batch :: "'buf grpc_lib \<Rightarrow> string \<Rightarrow> 'buf grpc_op list" where
  "request_batch G request = [SendMessage (grpc_raw_byte_buffer_create G request), SendInitialMetadata [],
     RecvInitialMetadata, RecvMessage, SendCloseFromClient, RecvStatusOnClient]"

lemma sync_request_round:
  fixes G :: "'buf grpc_lib"
  assumes "takes G (Call_fresh :: 'buf sync_call) (request_batch G request)"
  shows "ServiceStub_SyncRequest (delivering G b) Call_fresh request response =
    bind_o (ClientCallCqTag_GetResponse (delivering G b) (ClientCallCqTag_completed (reply_seen b)) response)
      (\<lambda>(status, response'). Done (status, response', after_round G (request_batch G request) Call_fresh))"
proof -
  let ?b = "request_batch G request"
  have after: "after_round (delivering G b) ?b Call_fresh = after_round G ?b Call_fresh"
    by (simp add: after_round_def)
  define c where "c = snd (submit (delivering G b) ?b () Call_fresh)"
  have c: "submit (delivering G b) ?b () Call_fresh = (True, c)"
    "CQueueForPluck_Pluck (delivering G b) () c = (reply_seen b, after_round G ?b Call_fresh)"
    using submit_round(1,2) [OF idle_fresh, of "delivering G b" ?b] assms after
    by (auto simp: c_def intro: prod_eqI)
  from c show ?thesis
    by (simp add: ServiceStub_SyncRequest_def tag_batches request_batch_def [symmetric])
qed

lemma ok_code: "GetCode Status_OK = GRPC_STATUS_OK" "GetDetails Status_OK = ''''"
  by (simp_all add: GetCode_def GetDetails_def Status_OK_def Status_default_def)

lemma sync_request_seen:
  fixes G :: "'buf grpc_lib"
  assumes "buffers_faithful G" "takes G (Call_fresh :: 'buf sync_call) (request_batch G request)"
  shows "BindServiceStub_SyncRequest (delivering G (reply_batch G im (ReplyMsg m))) Call_fresh request =
      ret ((m, '''', ostream_int GRPC_STATUS_OK), after_round G (request_batch G request) Call_fresh)"
    and "GetCode st \<noteq> GRPC_STATUS_OK \<Longrightarrow>
      BindServiceStub_SyncRequest (delivering G (reply_batch G im (ReplyErr st))) Call_fresh request =
      ret (('''', c_str (GetDetails st), ostream_int (GetCode st)), after_round G (request_batch G request) Call_fresh)"
    and "GetCode st = GRPC_STATUS_OK \<Longrightarrow>
      BindServiceStub_SyncRequest (delivering G (reply_batch G im (ReplyErr st))) Call_fresh request = Abort ''recv_buf_''"
  using assms(1)
  by (simp_all add: BindServiceStub_SyncRequest_def sync_request_round [OF assms(2)] reply_seen_batch read_buf_def
      buffers_faithful_def ok_code del: reply_batch.simps)

section \<open>Property\<close>

text \<open>What the replier's methods start on a new call.\<close>

lemma new_replier_reply:
  assumes "ServerReplier_new (Some Call_fresh) = Done rp"
  shows "vm_string V (vm_arg V 0 args) = ret m \<Longrightarrow>
      BindServerReplier V G ''reply'' args rp = Some (ret ([], rp\<lparr>rp_replied := True,
        rp_call := launched G (reply_batch G True (ReplyMsg m)) () Call_fresh\<rparr>))"
    and "vm_string V (vm_arg V 0 args) = ret e \<Longrightarrow> vm_integer V (vm_arg V 1 args) = ret code \<Longrightarrow>
      BindServerReplier V G ''reply_error'' args rp = Some (ret ([], rp\<lparr>rp_replied := True,
        rp_call := launched G (reply_batch G True (ReplyErr (Status_make (sint (ucast code :: 32 word)) e))) () Call_fresh\<rparr>))"
proof -
  have rp: "\<not> rp_replied rp" "rp_send_init_md rp" "rp_call rp = Call_fresh"
    using assms by (auto simp: ServerReplier_new_def ServerReplierImpl_new_def)
  show "BindServerReplier V G ''reply'' args rp = Some (ret ([], rp\<lparr>rp_replied := True,
        rp_call := launched G (reply_batch G True (ReplyMsg m)) () Call_fresh\<rparr>))"
    if "vm_string V (vm_arg V 0 args) = ret m"
    using send_reply_eq [of G "ReplyMsg m" rp] rp that by (simp add: BindServerReplier_def)
  show "BindServerReplier V G ''reply_error'' args rp = Some (ret ([], rp\<lparr>rp_replied := True,
        rp_call := launched G (reply_batch G True (ReplyErr (Status_make (sint (ucast code :: 32 word)) e))) () Call_fresh\<rparr>))"
    if "vm_string V (vm_arg V 0 args) = ret e" "vm_integer V (vm_arg V 1 args) = ret code"
    using send_reply_eq [of G "ReplyErr (Status_make (sint (ucast code :: 32 word)) e)" rp] rp that
    by (simp add: BindServerReplier_def BindServerReplier_ReplyError_def)
qed

text \<open>
  C39: A unary request from script to script. When the server script calls \<^verbatim>\<open>reply\<close> with a string, whatever further
  arguments it passes, the client's \<^verbatim>\<open>sync_request\<close> returns the
  string, an empty string for the error and \<^verbatim>\<open>"0"\<close>. When it calls \<^verbatim>\<open>reply_error\<close> with a code that is not zero as an \<^verbatim>\<open>int\<close>, the
  client gets an empty string for the reply, the text up to its first null character, and the code; the comments of \<^verbatim>\<open>SyncRequest\<close>
  promise nil where the code returns empty strings. With the code zero the call ends with status OK and no
  message: the assertion in the client's \<^verbatim>\<open>GetResultMsg\<close> fails and the client process ends. gRPC takes both batches,
  and completes the client's with what the server's carried.
\<close>
theorem lua_unary_end_to_end:
  fixes G :: "'buf grpc_lib" and rp rp' :: "'buf ServerReplierImpl"
  assumes "buffers_faithful G" and "ServerReplier_new (Some Call_fresh) = Done rp"
    and "vm_string Vs (vm_arg Vs 0 sargs) = ret msg"
    and "name = ''reply_error'' \<Longrightarrow> vm_integer Vs (vm_arg Vs 1 sargs) = ret code"
    and "vm_string V (vm_arg V 0 cargs) = ret meth" and "vm_string V (vm_arg V 1 cargs) = ret request"
    and "takes G (Call_fresh :: 'buf sync_call) (request_batch G request)"
    and "BindServerReplier Vs G name sargs rp = Some (ret (out, rp'))"
    and "call_batches (rp_call rp') = [(b, True)]"
  shows "BindServiceStub V answer (delivering G b) v status run ''sync_request'' cargs s =
    (if name = ''reply'' then Some (ret ([ArgStr msg, ArgStr '''', ArgStr (ostream_int 0)], s))
     else if ucast code = (0 :: 32 word) then Some (Abort ''recv_buf_'')
     else Some (ret ([ArgStr '''', ArgStr (c_str msg), ArgStr (ostream_int (sint (ucast code :: 32 word)))], s)))"
proof -
  let ?st = "Status_make (sint (ucast code :: 32 word)) msg"
  have names: "name = ''reply'' \<or> name = ''reply_error''"
    using assms(8) by (auto simp: BindServerReplier_def split: if_splits)
  have b: "b = reply_batch G True (if name = ''reply'' then ReplyMsg msg else ReplyErr ?st)"
  proof (cases "name = ''reply''")
    case True
    with assms(8,9) new_replier_reply(1) [OF assms(2), of Vs sargs msg G, OF assms(3)] show ?thesis
      by (auto simp: ret_def launched_def Call_fresh_def simp del: reply_batch.simps)
  next
    case False
    with names have "name = ''reply_error''" by simp
    with assms(8,9) new_replier_reply(2) [OF assms(2), of Vs sargs msg code G, OF assms(3) assms(4)] show ?thesis
      by (auto simp: ret_def launched_def Call_fresh_def simp del: reply_batch.simps)
  qed
  have code: "GetCode ?st = sint (ucast code :: 32 word)" "GetDetails ?st = msg"
    by (simp_all add: GetCode_def GetDetails_def Status_make_def)
  have zero: "GetCode ?st = GRPC_STATUS_OK \<longleftrightarrow> ucast code = (0 :: 32 word)"
    by (simp add: code GRPC_STATUS_OK_def signed_eq_0_iff)
  have call: "BindServiceStub V answer (delivering G b) v status run ''sync_request'' cargs s =
      Some (bind_x (BindServiceStub_SyncRequest (delivering G b) Call_fresh request) (\<lambda>((resp, err, code), c).
        ret ([ArgStr resp, ArgStr err, ArgStr code], s)))"
    using assms(5,6) by (simp add: BindServiceStub_def with_string_def)
  note seen = sync_request_seen [OF assms(1,7), where im = True]
  show ?thesis
  proof (cases "name = ''reply''")
    case True
    then have b': "b = reply_batch G True (ReplyMsg msg)" using b by simp
    from True seen(1) [of msg] show ?thesis unfolding call unfolding b' by (simp add: GRPC_STATUS_OK_def del: reply_batch.simps)
  next
    case False
    then have b': "b = reply_batch G True (ReplyErr ?st)" using b by simp
    from False seen(2,3) [of ?st] zero code show ?thesis
      unfolding call unfolding b' by (cases "ucast code = (0 :: 32 word)") (simp_all del: reply_batch.simps)
  qed
qed

theorem lua_unary_end_to_end_witness:
  "\<forall>s. BindServiceStub client_vm (\<lambda>r m. Status_OK) (delivering (demo_lib 5)
       [SendInitialMetadata [], SendStatusFromServer [] 5 ''none''])
     [] 2 Done ''sync_request'' [CStr ''m'', CStr ''ping''] s =
   Some (ret ([ArgStr '''', ArgStr ''none'', ArgStr (ostream_int 5)], s)) \<and>
   BindServiceStub client_vm (\<lambda>r m. Status_OK) (delivering (demo_lib 5) (reply_batch (demo_lib 5) True (ReplyMsg ''pong'')))
     [] 2 Done ''sync_request'' [CStr ''m'', CStr ''ping''] s =
   Some (ret ([ArgStr ''pong'', ArgStr '''', ArgStr (ostream_int 0)], s))"
proof (intro allI conjI)
  fix s :: "(cref, string) lua_stub"
  let ?G = "demo_lib 5" and ?args = "[CStr ''none'', CInt 5]"
  let ?rp = "\<lparr>rp_call = Call_fresh, rp_send_init_md = True, rp_replied = False\<rparr> :: string ServerReplierImpl"
  let ?b = "[SendInitialMetadata [], SendStatusFromServer [] 5 ''none''] :: string grpc_op list"
  have faithful: "buffers_faithful ?G" by (simp add: buffers_faithful_def)
  have new: "ServerReplier_new (Some Call_fresh) = Done ?rp"
    by (simp add: ServerReplier_new_def ServerReplierImpl_new_def)
  have strings: "vm_string client_vm (vm_arg client_vm 0 ?args) = ret ''none''"
    "vm_integer client_vm (vm_arg client_vm 1 ?args) = ret 5"
    "vm_string client_vm (vm_arg client_vm 0 [CStr ''m'', CStr ''ping'']) = ret ''m''"
    "vm_string client_vm (vm_arg client_vm 1 [CStr ''m'', CStr ''ping'']) = ret ''ping''"
    by (simp_all add: client_vm_def vm_arg_def)
  have batch: "reply_batch ?G True (ReplyErr (Status_make (sint (ucast (5 :: 64 word) :: 32 word)) ''none'')) = ?b"
    by (simp add: init_md_ops_def GetCode_def GetDetails_def Status_make_def c_str_def)
  have batches: "call_batches (rp_call (?rp\<lparr>rp_replied := True, rp_call := launched ?G ?b () Call_fresh\<rparr>)) = [(?b, True)]"
    by (simp add: launched_def takes_def Call_fresh_def)
  from lua_unary_end_to_end [OF faithful new strings _
      new_replier_reply(2) [OF new strings(1,2), of ?G, unfolded batch] batches,
      of "\<lambda>r m. Status_OK" "[]" 2 Done s]
  show "BindServiceStub client_vm (\<lambda>r m. Status_OK) (delivering ?G ?b) [] 2 Done ''sync_request''
      [CStr ''m'', CStr ''ping''] s = Some (ret ([ArgStr '''', ArgStr ''none'', ArgStr (ostream_int 5)], s))"
    by (simp add: takes_def c_str_def)
  let ?r = "reply_batch ?G True (ReplyMsg ''pong'')"
  have pong: "vm_string client_vm (vm_arg client_vm 0 [CStr ''pong'']) = ret ''pong''"
    by (simp add: client_vm_def vm_arg_def)
  have batches: "call_batches (rp_call (?rp\<lparr>rp_replied := True, rp_call := launched ?G ?r () Call_fresh\<rparr>)) = [(?r, True)]"
    by (simp add: launched_def takes_def Call_fresh_def)
  from lua_unary_end_to_end [OF faithful new pong _ strings(3,4) _
      new_replier_reply(1) [OF new pong, of ?G] batches,
      where answer = "\<lambda>r m. Status_OK" and v = "[]" and status = 2 and run = Done and s = s]
  show "BindServiceStub client_vm (\<lambda>r m. Status_OK) (delivering ?G ?r) [] 2 Done ''sync_request''
      [CStr ''m'', CStr ''ping''] s = Some (ret ([ArgStr ''pong'', ArgStr '''', ArgStr (ostream_int 0)], s))"
    by (simp add: takes_def)
qed

end
