(* ===== verification/Net.thy ===== *)
theory Net
  imports Lua_Values
begin

text \<open>
  \<^verbatim>\<open>net/Net.cpp, net/BindNet.cpp\<close>: the table of the machine's IPv4 addresses by interface name. The list that
  \<^verbatim>\<open>getifaddrs\<close> yields is a parameter; on failure the pointer stays null, the empty list. An entry of it may
  have no address.
\<close>

section \<open>Definitions\<close>

datatype sockaddr =
    AF_INET "nat \<times> nat \<times> nat \<times> nat"
  | AF_OTHER nat

record ifaddrs =
  ifa_name :: string
  ifa_addr :: "sockaddr option"

text \<open>\<^verbatim>\<open>inet_ntop\<close> of an IPv4 address, given by its four bytes.\<close>

fun inet_ntop :: "nat \<times> nat \<times> nat \<times> nat \<Rightarrow> string" where
  "inet_ntop (a, b, c, d) = decimal a @ ''.'' @ decimal b @ ''.'' @ decimal c @ ''.'' @ decimal d"

text \<open>The loop of \<^verbatim>\<open>GetIntranetIp\<close>, which reads through \<^verbatim>\<open>ifa_addr\<close> without looking whether it is null.\<close>

fun GetIntranetIp_loop :: "ifaddrs list \<Rightarrow> 'f lua \<Rightarrow> 'f lua outcome" where
  "GetIntranetIp_loop [] tbl = Done tbl"
| "GetIntranetIp_loop (ifa # rest) tbl =
     (case ifa_addr ifa of
        None \<Rightarrow> Abort ''ifAddrStruct->ifa_addr''
      | Some (AF_INET a) \<Rightarrow> GetIntranetIp_loop rest (lua_set tbl (LStr (ifa_name ifa)) (LStr (inet_ntop a)))
      | Some (AF_OTHER family) \<Rightarrow> GetIntranetIp_loop rest tbl)"

definition GetIntranetIp :: "ifaddrs list \<Rightarrow> 'f lua outcome" where
  "GetIntranetIp ifAddrStruct = GetIntranetIp_loop ifAddrStruct (LTable [])"

definition BindNet :: "ifaddrs list \<Rightarrow> string \<Rightarrow> 'f lua outcome option" where
  "BindNet ifs name = (if name = ''get_intranet_ip'' then Some (GetIntranetIp ifs) else None)"

section \<open>Properties\<close>

text \<open>The IPv4 addresses of an interface, in the order of the list.\<close>

definition ipv4_addresses :: "ifaddrs list \<Rightarrow> string \<Rightarrow> string list" where
  "ipv4_addresses ifs name =
     [inet_ntop a. ifa \<leftarrow> ifs, ifa_name ifa = name, AF_INET a \<leftarrow> opt_list (ifa_addr ifa)]"

text \<open>What is found under a key after the loop, when \<open>d\<close> was there before it.\<close>

definition ip_entry :: "ifaddrs list \<Rightarrow> 'f lua \<Rightarrow> 'f lua \<Rightarrow> 'f lua" where
  "ip_entry ifs k d = (case k of
     LStr name \<Rightarrow> if ipv4_addresses ifs name = [] then d else LStr (last (ipv4_addresses ifs name)) | _ \<Rightarrow> d)"

lemma ipv4_addresses_Cons:
  "ipv4_addresses [] name = []"
  "ifa_addr ifa = Some (AF_OTHER n) \<Longrightarrow> ipv4_addresses (ifa # ifs) name = ipv4_addresses ifs name"
  "ifa_addr ifa = Some (AF_INET a) \<Longrightarrow> ipv4_addresses (ifa # ifs) name =
     (if ifa_name ifa = name then [inet_ntop a] else []) @ ipv4_addresses ifs name"
  by (simp_all add: ipv4_addresses_def)

lemma ip_entry_Cons:
  "ip_entry [] k d = d"
  "ifa_addr ifa = Some (AF_OTHER n) \<Longrightarrow> ip_entry (ifa # ifs) k d = ip_entry ifs k d"
  "ifa_addr ifa = Some (AF_INET a) \<Longrightarrow> ip_entry (ifa # ifs) k d =
     ip_entry ifs k (if k = LStr (ifa_name ifa) then LStr (inet_ntop a) else d)"
  by (cases k; simp add: ip_entry_def ipv4_addresses_Cons)+

lemma loop_table:
  "\<forall>ifa \<in> set ifs. ifa_addr ifa \<noteq> None \<Longrightarrow>
   \<exists>t'. GetIntranetIp_loop ifs (LTable t) = Done (LTable t') \<and>
     (\<forall>k. lua_get (LTable t') k = ip_entry ifs k (lua_get (LTable t) k))"
proof (induction ifs arbitrary: t)
  case Nil
  then show ?case by (simp add: ip_entry_Cons)
next
  case (Cons ifa ifs)
  from Cons.prems obtain sa where sa: "ifa_addr ifa = Some sa" by auto
  show ?case
  proof (cases sa)
    case (AF_INET a)
    obtain u where u: "lua_set (LTable t) (LStr (ifa_name ifa)) (LStr (inet_ntop a)) = LTable u"
      using lua_set_table by blast
    from Cons.IH [of u] Cons.prems obtain t' where t': "GetIntranetIp_loop ifs (LTable u) = Done (LTable t')"
      "\<And>k. lua_get (LTable t') k = ip_entry ifs k (lua_get (LTable u) k)" by auto
    have "GetIntranetIp_loop (ifa # ifs) (LTable t) = Done (LTable t')"
      using t'(1) u by (simp add: sa AF_INET del: lua_set.simps)
    moreover have "lua_get (LTable t') k = ip_entry (ifa # ifs) k (lua_get (LTable t) k)" for k
      using t'(2) [of k] lua_get_set [of t "LStr (ifa_name ifa)" "LStr (inet_ntop a)" k] sa AF_INET
      unfolding u by (simp only: ip_entry_Cons)
    ultimately show ?thesis by blast
  next
    case (AF_OTHER n)
    from Cons.IH [of t] Cons.prems obtain t' where t': "GetIntranetIp_loop ifs (LTable t) = Done (LTable t')"
      "\<And>k. lua_get (LTable t') k = ip_entry ifs k (lua_get (LTable t) k)" by auto
    with sa AF_OTHER show ?thesis by (intro exI [of _ t']) (simp add: ip_entry_Cons(2))
  qed
qed

lemma empty_table_get: "lua_get (LTable []) k = LNil"
  by (simp add: lua_get_def)

lemma loop_null: "\<exists>ifa \<in> set ifs. ifa_addr ifa = None \<Longrightarrow>
    GetIntranetIp_loop ifs t = Abort ''ifAddrStruct->ifa_addr''"
  by (induction ifs arbitrary: t) (auto split: option.splits sockaddr.splits)

text \<open>
  If every interface has an address, the table maps each name to the last IPv4 address listed for it, and nothing
  else; an interface without an address, which \<^verbatim>\<open>getifaddrs\<close> may list, ends the process.
\<close>
theorem intranet_ip_table:
  "if \<exists>ifa \<in> set ifs. ifa_addr ifa = None then (GetIntranetIp ifs :: 'f lua outcome) = Abort ''ifAddrStruct->ifa_addr''
   else \<exists>t :: ('f lua \<times> 'f lua) list. GetIntranetIp ifs = Done (LTable t) \<and> (\<forall>k. lua_get (LTable t) k = ip_entry ifs k LNil)"
proof (cases "\<exists>ifa \<in> set ifs. ifa_addr ifa = None")
  case True
  then show ?thesis by (simp add: GetIntranetIp_def loop_null)
next
  case False
  then have "\<forall>ifa \<in> set ifs. ifa_addr ifa \<noteq> None" by auto
  from loop_table [where 'a = 'f, OF this, of "[]"] show ?thesis unfolding if_not_P [OF False]
    by (simp add: GetIntranetIp_def empty_table_get)
qed

theorem intranet_ip_table_witness:
  "\<exists>t :: (nat lua \<times> nat lua) list. GetIntranetIp [\<lparr>ifa_name = ''lo'', ifa_addr = Some (AF_INET (127, 0, 0, 2))\<rparr>] = Done (LTable t) \<and>
     lua_get (LTable t) (LStr ''lo'') = LStr ''127.0.0.2''"
proof -
  have "inet_ntop (127, 0, 0, 2) = ''127.0.0.2''" by code_simp
  with intranet_ip_table [where 'f = nat, of "[\<lparr>ifa_name = ''lo'', ifa_addr = Some (AF_INET (127, 0, 0, 2))\<rparr>]"]
  show ?thesis by (auto simp: ip_entry_Cons simp del: inet_ntop.simps)
qed

end
