(* ===== verification/Lua_Stack.thy ===== *)
theory Lua_Stack
  imports Lua_Values
begin

text \<open>
  The Lua state that \<^verbatim>\<open>lua-intf/LuaIntf\<close> works on: the stack of the running function, the registry, and
  a heap of tables and userdata, with the functions of Lua's C API that \<^verbatim>\<open>LuaRef.cpp\<close>, \<^verbatim>\<open>CppObject.cpp\<close> and
  \<^verbatim>\<open>CppBindClass.cpp\<close> call, after chapters 4.6 and 5.1 of the reference manual. Here a value is what a stack slot
  holds, so that tables have an identity, which the values of \<open>Lua_Values\<close> do not have. What the manual leaves to Lua is the
  record \<open>A\<close>: the next free reference, the order of a traversal, accesses that run metamethods, conversions of numbers, the text of
  errors about arguments.
\<close>

section \<open>Values and the state\<close>

text \<open>
  Addresses that the code uses as keys of the registry: \<^verbatim>\<open>CppSignature<T, KIND>::value()\<close> is a different one for every
  class and kind. \<open>SigObject\<close> is that of \<^verbatim>\<open>CppObject\<close> itself.
\<close>

datatype ptr = SigStatic nat | SigClass nat | SigConst nat | SigObject | DataPtr nat

text \<open>C functions: the metamethods of class and module tables, the two that report an error with the name in their upvalue, and bound ones.\<close>

datatype cfun =
    CClassIndex | CClassNewIndex | CModuleIndex | CModuleNewIndex
  | CReadOnly string | CConstMismatch string | CBound nat

datatype slot =
    SNil | SBool bool | SNum int | SStr string | SPtr ptr | STab nat | SUser nat | SFun cfun | SLua nat

record lua_table =
  t_get :: "slot \<Rightarrow> slot"
  t_meta :: slot

record lua_udata =
  u_meta :: slot
  u_object :: nat

record lua_heap =
  tables :: "nat \<Rightarrow> lua_table"
  next_table :: nat
  udatas :: "nat \<Rightarrow> lua_udata"
  next_udata :: nat

text \<open>
  The registry is one table; its integer keys are \<open>refs\<close>, its light userdata keys \<open>ptrs\<close>. The top of the stack comes first.
  What a \<^verbatim>\<open>CppSignature\<close> is the address of is a flag of the process, which \<^verbatim>\<open>CppAutoDowncast\<close> sets.
\<close>

record lua_State =
  stack :: "slot list"
  refs :: "int \<Rightarrow> slot"
  ptrs :: "ptr \<Rightarrow> slot"
  heap :: lua_heap
  may_downcast :: "ptr \<Rightarrow> bool"

record lua_api =
  api_newref :: "(int \<Rightarrow> slot) \<Rightarrow> int"
  api_order :: "(slot \<Rightarrow> slot) \<Rightarrow> slot list"
  api_get :: "slot \<Rightarrow> slot \<Rightarrow> lua_heap \<Rightarrow> (slot \<times> lua_heap) exn"
  api_set :: "slot \<Rightarrow> slot \<Rightarrow> slot \<Rightarrow> lua_heap \<Rightarrow> lua_heap exn"
  api_numeral :: "string \<Rightarrow> bool"
  api_num_to_str :: "int \<Rightarrow> string"
  api_where :: string
  api_str_int :: "string \<Rightarrow> int option"
  api_argerror :: "nat \<Rightarrow> string \<Rightarrow> string"

definition LUA_NOREF :: int where "LUA_NOREF = -2"

definition LUA_REFNIL :: int where "LUA_REFNIL = -1"

section \<open>The stack\<close>

text \<open>Indices count from the top if they are negative, from the bottom otherwise.\<close>

definition at :: "lua_State \<Rightarrow> int \<Rightarrow> slot" where
  "at L i = (if i < 0 then stack L ! nat (- i - 1) else stack L ! nat (int (length (stack L)) - i))"

definition push :: "slot \<Rightarrow> lua_State \<Rightarrow> lua_State" where
  "push v L = L\<lparr>stack := v # stack L\<rparr>"

definition lua_pop :: "nat \<Rightarrow> lua_State \<Rightarrow> lua_State" where
  "lua_pop n L = L\<lparr>stack := drop n (stack L)\<rparr>"

definition lua_pushvalue :: "int \<Rightarrow> lua_State \<Rightarrow> lua_State" where
  "lua_pushvalue i L = push (at L i) L"

text \<open>The slot at an index is taken out; those above it move down.\<close>

definition lua_remove :: "int \<Rightarrow> lua_State \<Rightarrow> lua_State" where
  "lua_remove i L = (let n = (if i < 0 then nat (- i - 1) else nat (int (length (stack L)) - i))
     in L\<lparr>stack := take n (stack L) @ drop (Suc n) (stack L)\<rparr>)"

text \<open>Operations one after the other, in the order of the program.\<close>

fun ops :: "(lua_State \<Rightarrow> lua_State) list \<Rightarrow> lua_State \<Rightarrow> lua_State" where
  "ops [] L = L"
| "ops (f # fs) L = ops fs (f L)"

section \<open>Types\<close>

fun slot_type :: "slot \<Rightarrow> LuaTypeID" where
  "slot_type SNil = NIL"
| "slot_type (SBool b) = BOOLEAN"
| "slot_type (SNum i) = NUMBER"
| "slot_type (SStr s) = STRING"
| "slot_type (SPtr p) = LIGHTUSERDATA"
| "slot_type (STab t) = TABLE"
| "slot_type (SUser u) = USERDATA"
| "slot_type (SFun f) = FUNCTION"
| "slot_type (SLua f) = FUNCTION"

definition lua_type :: "lua_State \<Rightarrow> int \<Rightarrow> LuaTypeID" where
  "lua_type L i = slot_type (at L i)"

definition lua_isnil :: "lua_State \<Rightarrow> int \<Rightarrow> bool" where
  "lua_isnil L i \<longleftrightarrow> at L i = SNil"

definition lua_istable :: "lua_State \<Rightarrow> int \<Rightarrow> bool" where
  "lua_istable L i \<longleftrightarrow> slot_type (at L i) = TABLE"

text \<open>True for light userdata, too.\<close>

definition lua_isuserdata :: "lua_State \<Rightarrow> int \<Rightarrow> bool" where
  "lua_isuserdata L i \<longleftrightarrow> slot_type (at L i) \<in> {USERDATA, LIGHTUSERDATA}"

fun is_cfun :: "slot \<Rightarrow> bool" where
  "is_cfun (SFun f) = True"
| "is_cfun v = False"

definition lua_iscfunction :: "lua_State \<Rightarrow> int \<Rightarrow> bool" where
  "lua_iscfunction L i = is_cfun (at L i)"

text \<open>A number, or a string that reads as one.\<close>

fun is_number :: "lua_api \<Rightarrow> slot \<Rightarrow> bool" where
  "is_number A (SNum i) = True"
| "is_number A (SStr s) = api_numeral A s"
| "is_number A v = False"

text \<open>The numerals of integers, for instances of \<open>A\<close>.\<close>

definition decimal_int :: "string \<Rightarrow> int option" where
  "decimal_int s = (if s \<noteq> [] \<and> list_all (\<lambda>c. c \<in> set ''0123456789'') s
     then Some (foldl (\<lambda>n c. 10 * n + (of_char c - 48)) 0 s) else None)"

definition lua_isnumber :: "lua_api \<Rightarrow> lua_State \<Rightarrow> int \<Rightarrow> bool" where
  "lua_isnumber A L i = is_number A (at L i)"

text \<open>\<^verbatim>\<open>lua_tostring\<close>, null if the value is neither a string nor a number.\<close>

fun slot_string :: "lua_api \<Rightarrow> slot \<Rightarrow> string option" where
  "slot_string A (SStr s) = Some s"
| "slot_string A (SNum i) = Some (api_num_to_str A i)"
| "slot_string A v = None"

definition lua_tostring :: "lua_api \<Rightarrow> lua_State \<Rightarrow> int \<Rightarrow> string option" where
  "lua_tostring A L i = slot_string A (at L i)"

text \<open>The directive \<^verbatim>\<open>%s\<close> of \<^verbatim>\<open>luaL_error\<close>, which prints a null pointer as such.\<close>

definition percent_s :: "string option \<Rightarrow> string" where
  "percent_s s = (case s of None \<Rightarrow> ''(null)'' | Some s \<Rightarrow> s)"

definition luaL_error :: "lua_api \<Rightarrow> string \<Rightarrow> 'a exn" where
  "luaL_error A msg = throw (api_where A @ msg)"

section \<open>Tables\<close>

definition raw_get :: "lua_heap \<Rightarrow> slot \<Rightarrow> slot \<Rightarrow> slot" where
  "raw_get H t k = (case t of STab n \<Rightarrow> t_get (tables H n) k | _ \<Rightarrow> SNil)"

definition raw_set :: "slot \<Rightarrow> slot \<Rightarrow> slot \<Rightarrow> lua_heap \<Rightarrow> lua_heap" where
  "raw_set t k v H = (case t of
     STab n \<Rightarrow> H\<lparr>tables := (tables H)(n := (tables H n)\<lparr>t_get := (t_get (tables H n))(k := v)\<rparr>)\<rparr>
   | _ \<Rightarrow> H)"

definition get_meta :: "lua_heap \<Rightarrow> slot \<Rightarrow> slot" where
  "get_meta H v = (case v of STab n \<Rightarrow> t_meta (tables H n) | SUser u \<Rightarrow> u_meta (udatas H u) | _ \<Rightarrow> SNil)"

definition set_meta :: "slot \<Rightarrow> slot \<Rightarrow> lua_heap \<Rightarrow> lua_heap" where
  "set_meta v m H = (case v of
     STab n \<Rightarrow> H\<lparr>tables := (tables H)(n := (tables H n)\<lparr>t_meta := m\<rparr>)\<rparr>
   | SUser u \<Rightarrow> H\<lparr>udatas := (udatas H)(u := (udatas H u)\<lparr>u_meta := m\<rparr>)\<rparr>
   | _ \<Rightarrow> H)"

definition new_table :: "lua_heap \<Rightarrow> slot \<times> lua_heap" where
  "new_table H = (STab (next_table H),
     H\<lparr>tables := (tables H)(next_table H := \<lparr>t_get = (\<lambda>k. SNil), t_meta = SNil\<rparr>),
       next_table := Suc (next_table H)\<rparr>)"

text \<open>The key is on the top and is replaced by what the table has under it.\<close>

definition lua_rawget :: "int \<Rightarrow> lua_State \<Rightarrow> lua_State" where
  "lua_rawget i L = L\<lparr>stack := raw_get (heap L) (at L i) (at L (-1)) # tl (stack L)\<rparr>"

definition lua_rawgetp :: "int \<Rightarrow> ptr \<Rightarrow> lua_State \<Rightarrow> lua_State" where
  "lua_rawgetp i p L = push (raw_get (heap L) (at L i) (SPtr p)) L"

text \<open>The value is on the top, the key below it; both are popped.\<close>

definition lua_rawset :: "int \<Rightarrow> lua_State \<Rightarrow> lua_State" where
  "lua_rawset i L = L\<lparr>stack := drop 2 (stack L), heap := raw_set (at L i) (at L (-2)) (at L (-1)) (heap L)\<rparr>"

definition lua_rawsetp :: "int \<Rightarrow> ptr \<Rightarrow> lua_State \<Rightarrow> lua_State" where
  "lua_rawsetp i p L = L\<lparr>stack := tl (stack L), heap := raw_set (at L i) (SPtr p) (at L (-1)) (heap L)\<rparr>"

definition lua_newtable :: "lua_State \<Rightarrow> lua_State" where
  "lua_newtable L = (let (t, H) = new_table (heap L) in L\<lparr>stack := t # stack L, heap := H\<rparr>)"

text \<open>\<^verbatim>\<open>lua_getmetatable\<close> pushes nothing if there is none.\<close>

definition lua_getmetatable :: "int \<Rightarrow> lua_State \<Rightarrow> bool \<times> lua_State" where
  "lua_getmetatable i L = (let m = get_meta (heap L) (at L i) in if m = SNil then (False, L) else (True, push m L))"

definition lua_setmetatable :: "int \<Rightarrow> lua_State \<Rightarrow> lua_State" where
  "lua_setmetatable i L = L\<lparr>stack := tl (stack L), heap := set_meta (at L i) (at L (-1)) (heap L)\<rparr>"

definition lua_gettable :: "lua_api \<Rightarrow> int \<Rightarrow> lua_State \<Rightarrow> lua_State exn" where
  "lua_gettable A i L = bind_x (api_get A (at L i) (at L (-1)) (heap L)) (\<lambda>(v, H).
     ret (L\<lparr>stack := v # tl (stack L), heap := H\<rparr>))"

definition lua_settable :: "lua_api \<Rightarrow> int \<Rightarrow> lua_State \<Rightarrow> lua_State exn" where
  "lua_settable A i L = bind_x (api_set A (at L i) (at L (-2)) (at L (-1)) (heap L)) (\<lambda>H.
     ret (L\<lparr>stack := drop 2 (stack L), heap := H\<rparr>))"

definition lua_rawequal :: "lua_State \<Rightarrow> int \<Rightarrow> int \<Rightarrow> bool" where
  "lua_rawequal L i j \<longleftrightarrow> at L i = at L j"

text \<open>The key on the top is popped; the next entry of the table, if there is one, is pushed, the value on the top.\<close>

definition next_entry :: "lua_api \<Rightarrow> (slot \<Rightarrow> slot) \<Rightarrow> slot \<Rightarrow> slot option" where
  "next_entry A t k = (let ks = (if k = SNil then api_order A t else tl (dropWhile (\<lambda>x. x \<noteq> k) (api_order A t)))
     in case ks of [] \<Rightarrow> None | k' # _ \<Rightarrow> Some k')"

definition lua_next :: "lua_api \<Rightarrow> int \<Rightarrow> lua_State \<Rightarrow> bool \<times> lua_State" where
  "lua_next A i L = (let t = raw_get (heap L) (at L i) in
     case next_entry A t (at L (-1)) of
       None \<Rightarrow> (False, L\<lparr>stack := tl (stack L)\<rparr>)
     | Some k \<Rightarrow> (True, L\<lparr>stack := t k # k # tl (stack L)\<rparr>))"

section \<open>The registry\<close>

definition rawgeti_registry :: "int \<Rightarrow> lua_State \<Rightarrow> lua_State" where
  "rawgeti_registry n L = push (refs L n) L"

definition rawgetp_registry :: "ptr \<Rightarrow> lua_State \<Rightarrow> lua_State" where
  "rawgetp_registry p L = push (ptrs L p) L"

text \<open>\<^verbatim>\<open>lua_rawget(L, LUA_REGISTRYINDEX)\<close>: the key is on the top.\<close>

definition rawget_registry :: "lua_State \<Rightarrow> lua_State" where
  "rawget_registry L = L\<lparr>stack := (case at L (-1) of SPtr p \<Rightarrow> ptrs L p | SNum n \<Rightarrow> refs L n | _ \<Rightarrow> SNil) # tl (stack L)\<rparr>"

definition luaL_ref :: "lua_api \<Rightarrow> lua_State \<Rightarrow> int \<times> lua_State" where
  "luaL_ref A L = (let v = at L (-1); L1 = lua_pop 1 L in
     if v = SNil then (LUA_REFNIL, L1)
     else (let n = api_newref A (refs L) in (n, L1\<lparr>refs := (refs L)(n := v)\<rparr>)))"

definition luaL_unref :: "int \<Rightarrow> lua_State \<Rightarrow> lua_State" where
  "luaL_unref n L = (if n < 0 then L else L\<lparr>refs := (refs L)(n := SNil)\<rparr>)"

text \<open>
  What the manual says of references and traversals: a new reference is a positive key that is not in use; a traversal
  meets every key of the table once.
\<close>

definition refs_ok :: "lua_api \<Rightarrow> bool" where
  "refs_ok A \<longleftrightarrow> (\<forall>R. finite {n. R n \<noteq> SNil} \<longrightarrow> 0 < api_newref A R \<and> R (api_newref A R) = SNil)"

definition order_ok :: "lua_api \<Rightarrow> bool" where
  "order_ok A \<longleftrightarrow> (\<forall>t. finite {k. t k \<noteq> SNil} \<and> t SNil = SNil \<longrightarrow>
     distinct (api_order A t) \<and> set (api_order A t) = {k. t k \<noteq> SNil})"

section \<open>Evaluation\<close>

named_theorems lua_state

lemma push_simps [simp]:
  "stack (push v L) = v # stack L" "refs (push v L) = refs L" "ptrs (push v L) = ptrs L" "heap (push v L) = heap L"
  "may_downcast (push v L) = may_downcast L"
  by (simp_all add: push_def)

lemma lua_pop_simps [simp]:
  "stack (lua_pop n L) = drop n (stack L)" "refs (lua_pop n L) = refs L" "ptrs (lua_pop n L) = ptrs L"
  "heap (lua_pop n L) = heap L" "may_downcast (lua_pop n L) = may_downcast L"
  by (simp_all add: lua_pop_def)

lemma push_pop [simp]: "lua_pop (Suc n) (push v L) = lua_pop n L" "lua_pop 0 L = L"
  by (simp_all add: lua_pop_def push_def)

lemma lua_pop_numeral [simp]: "lua_pop (numeral n) (push v L) = lua_pop (pred_numeral n) L"
  by (simp add: numeral_eq_Suc)

lemma at_push [simp]: "at (push v L) (- 1) = v"
  by (simp add: at_def)

lemma at_push_below [simp]:
  "at (push v L) (- 2) = at L (- 1)" "at (push v L) (- 3) = at L (- 2)" "at (push v L) (- 4) = at L (- 3)"
  by (simp_all add: at_def)

lemmas [lua_state] = at_def lua_pushvalue_def lua_remove_def lua_isnil_def lua_istable_def lua_isuserdata_def
  lua_iscfunction_def lua_isnumber_def lua_tostring_def lua_type_def lua_rawget_def lua_rawgetp_def lua_rawset_def
  lua_rawsetp_def lua_newtable_def lua_getmetatable_def lua_setmetatable_def lua_rawequal_def
  rawgeti_registry_def rawgetp_registry_def rawget_registry_def

end
