(* ===== verification/Lua_Ref.thy ===== *)
theory Lua_Ref
  imports Lua_Stack Machine
begin

text \<open>
  \<^verbatim>\<open>lua-intf/LuaIntf/LuaRef.h, src/LuaRef.cpp\<close>: handles that keep Lua values alive through the registry. A
  \<^verbatim>\<open>LuaRef\<close> owns one reference, a \<^verbatim>\<open>LuaTableRef\<close> that of its key, a \<^verbatim>\<open>LuaTableIterator\<close> those of its key and value; the
  last two borrow the reference of their table. There is one Lua state, so the pointer \<^verbatim>\<open>L\<close> is null or not.
\<close>

section \<open>References\<close>

record LuaRef =
  ref_L :: bool
  m_ref :: int

definition LuaRef_empty :: LuaRef where "LuaRef_empty = \<lparr>ref_L = False, m_ref = LUA_NOREF\<rparr>"

definition LuaRef_nil :: LuaRef where "LuaRef_nil = \<lparr>ref_L = True, m_ref = LUA_REFNIL\<rparr>"

definition LuaRef_popFromStack :: "lua_api \<Rightarrow> lua_State \<Rightarrow> LuaRef \<times> lua_State" where
  "LuaRef_popFromStack A L = (let (n, L1) = luaL_ref A L in (\<lparr>ref_L = True, m_ref = n\<rparr>, L1))"

definition LuaRef_at :: "lua_api \<Rightarrow> int \<Rightarrow> lua_State \<Rightarrow> LuaRef \<times> lua_State" where
  "LuaRef_at A i L = (let (n, L1) = luaL_ref A (lua_pushvalue i L) in (\<lparr>ref_L = True, m_ref = n\<rparr>, L1))"

definition LuaRef_copy :: "lua_api \<Rightarrow> LuaRef \<Rightarrow> lua_State \<Rightarrow> LuaRef \<times> lua_State" where
  "LuaRef_copy A that L =
     (if ref_L that
      then (let (n, L1) = luaL_ref A (rawgeti_registry (m_ref that) L) in (\<lparr>ref_L = ref_L that, m_ref = n\<rparr>, L1))
      else (\<lparr>ref_L = ref_L that, m_ref = LUA_NOREF\<rparr>, L))"

text \<open>The new handle, and what is left of the old one.\<close>

definition LuaRef_move :: "LuaRef \<Rightarrow> LuaRef \<times> LuaRef" where
  "LuaRef_move that = (\<lparr>ref_L = ref_L that, m_ref = m_ref that\<rparr>, that\<lparr>m_ref := LUA_NOREF\<rparr>)"

definition LuaRef_delete :: "LuaRef \<Rightarrow> lua_State \<Rightarrow> lua_State" where
  "LuaRef_delete r L = (if ref_L r then luaL_unref (m_ref r) L else L)"

text \<open>Copy assignment from another object; from itself it does nothing.\<close>

definition LuaRef_assign :: "lua_api \<Rightarrow> LuaRef \<Rightarrow> LuaRef \<Rightarrow> lua_State \<Rightarrow> LuaRef \<times> lua_State" where
  "LuaRef_assign A this that L =
     (let L1 = (if ref_L this then luaL_unref (m_ref this) L else L)
      in if ref_L that
         then (let (n, L2) = luaL_ref A (rawgeti_registry (m_ref that) L1) in (\<lparr>ref_L = ref_L that, m_ref = n\<rparr>, L2))
         else (\<lparr>ref_L = ref_L that, m_ref = LUA_NOREF\<rparr>, L1))"

definition LuaRef_move_assign :: "LuaRef \<Rightarrow> LuaRef \<Rightarrow> LuaRef \<times> LuaRef" where
  "LuaRef_move_assign this that = (that, this)"

definition LuaRef_assign_nil :: "LuaRef \<Rightarrow> lua_State \<Rightarrow> LuaRef \<times> lua_State" where
  "LuaRef_assign_nil r L =
     (if ref_L r then (r\<lparr>m_ref := LUA_REFNIL\<rparr>, luaL_unref (m_ref r) L) else (r, L))"

definition LuaRef_isValid :: "LuaRef \<Rightarrow> bool" where
  "LuaRef_isValid r \<longleftrightarrow> m_ref r \<noteq> LUA_NOREF"

definition LuaRef_is_nil :: "LuaRef \<Rightarrow> bool" where
  "LuaRef_is_nil r \<longleftrightarrow> m_ref r = LUA_REFNIL \<or> m_ref r = LUA_NOREF"

definition LuaRef_pushToStack :: "LuaRef \<Rightarrow> lua_State \<Rightarrow> lua_State exn" where
  "LuaRef_pushToStack r L = assert_o (ref_L r) ''L'' (ret (rawgeti_registry (m_ref r) L))"

definition LuaRef_typeID :: "LuaRef \<Rightarrow> lua_State \<Rightarrow> (LuaTypeID \<times> lua_State) exn" where
  "LuaRef_typeID r L =
     (if m_ref r = LUA_NOREF then ret (NONE, L)
      else if m_ref r = LUA_REFNIL then ret (NIL, L)
      else bind_x (LuaRef_pushToStack r L) (\<lambda>L1. ret (lua_type L1 (-1), lua_pop 1 L1)))"

definition LuaRef_isIdenticalTo :: "LuaRef \<Rightarrow> LuaRef \<Rightarrow> lua_State \<Rightarrow> (bool \<times> lua_State) exn" where
  "LuaRef_isIdenticalTo r r' L =
     bind_x (LuaRef_pushToStack r L) (\<lambda>L1. bind_x (LuaRef_pushToStack r' L1) (\<lambda>L2.
       ret (lua_rawequal L2 (-2) (-1), lua_pop 2 L2)))"

text \<open>\<^verbatim>\<open>Lua::push\<close> of a reference pushes nil for an invalid one.\<close>

definition push_LuaRef :: "LuaRef \<Rightarrow> lua_State \<Rightarrow> lua_State exn" where
  "push_LuaRef r L = (if LuaRef_isValid r then LuaRef_pushToStack r L else ret (push SNil L))"

section \<open>Fields\<close>

definition LuaRef_getMetaTable :: "lua_api \<Rightarrow> LuaRef \<Rightarrow> lua_State \<Rightarrow> (LuaRef \<times> lua_State) exn" where
  "LuaRef_getMetaTable A r L = bind_x (LuaRef_pushToStack r L) (\<lambda>L1.
     let (found, L2) = lua_getmetatable (-1) L1;
         (meta, L3) = (if found then LuaRef_popFromStack A L2 else (LuaRef_empty, L2))
     in ret (meta, lua_pop 1 L3))"

definition LuaRef_setMetaTable :: "LuaRef \<Rightarrow> LuaRef \<Rightarrow> lua_State \<Rightarrow> lua_State exn" where
  "LuaRef_setMetaTable r meta L = bind_x (LuaRef_pushToStack r L) (\<lambda>L1.
     bind_x (LuaRef_pushToStack meta L1) (\<lambda>L2. ret (ops [lua_setmetatable (-2), lua_pop 1] L2)))"

definition LuaRef_rawget :: "lua_api \<Rightarrow> LuaRef \<Rightarrow> slot \<Rightarrow> lua_State \<Rightarrow> (LuaRef \<times> lua_State) exn" where
  "LuaRef_rawget A r key L = bind_x (LuaRef_pushToStack r L) (\<lambda>L1.
     let (v, L2) = LuaRef_at A (-1) (ops [push key, lua_rawget (-2)] L1) in ret (v, lua_pop 2 L2))"

definition LuaRef_rawset :: "LuaRef \<Rightarrow> slot \<Rightarrow> slot \<Rightarrow> lua_State \<Rightarrow> lua_State exn" where
  "LuaRef_rawset r key v L = bind_x (LuaRef_pushToStack r L) (\<lambda>L1.
     ret (ops [push key, push v, lua_rawset (-3), lua_pop 1] L1))"

definition LuaRef_rawgetp :: "lua_api \<Rightarrow> LuaRef \<Rightarrow> ptr \<Rightarrow> lua_State \<Rightarrow> (LuaRef \<times> lua_State) exn" where
  "LuaRef_rawgetp A r p L = bind_x (LuaRef_pushToStack r L) (\<lambda>L1.
     let (v, L2) = LuaRef_at A (-1) (lua_rawgetp (-1) p L1) in ret (v, lua_pop 2 L2))"

definition LuaRef_rawsetp :: "LuaRef \<Rightarrow> ptr \<Rightarrow> slot \<Rightarrow> lua_State \<Rightarrow> lua_State exn" where
  "LuaRef_rawsetp r p v L = bind_x (LuaRef_pushToStack r L) (\<lambda>L1.
     ret (ops [push v, lua_rawsetp (-2) p, lua_pop 1] L1))"

definition LuaRef_has :: "lua_api \<Rightarrow> LuaRef \<Rightarrow> slot \<Rightarrow> lua_State \<Rightarrow> (bool \<times> lua_State) exn" where
  "LuaRef_has A r key L = bind_x (LuaRef_pushToStack r L) (\<lambda>L1.
     bind_x (lua_gettable A (-2) (push key L1)) (\<lambda>L2. ret (\<not> lua_isnil L2 (-1), lua_pop 2 L2)))"

definition LuaRef_get :: "lua_api \<Rightarrow> LuaRef \<Rightarrow> slot \<Rightarrow> lua_State \<Rightarrow> (LuaRef \<times> lua_State) exn" where
  "LuaRef_get A r key L = bind_x (LuaRef_pushToStack r L) (\<lambda>L1.
     bind_x (lua_gettable A (-2) (push key L1)) (\<lambda>L2.
       let (v, L3) = LuaRef_at A (-1) L2 in ret (v, lua_pop 2 L3)))"

definition LuaRef_set :: "lua_api \<Rightarrow> LuaRef \<Rightarrow> slot \<Rightarrow> slot \<Rightarrow> lua_State \<Rightarrow> lua_State exn" where
  "LuaRef_set A r key v L = bind_x (LuaRef_pushToStack r L) (\<lambda>L1.
     bind_x (lua_settable A (-3) (ops [push key, push v] L1)) (\<lambda>L2. ret (lua_pop 1 L2)))"

definition LuaRef_remove :: "lua_api \<Rightarrow> LuaRef \<Rightarrow> slot \<Rightarrow> lua_State \<Rightarrow> lua_State exn" where
  "LuaRef_remove A r key L = bind_x (LuaRef_pushToStack r L) (\<lambda>L1.
     bind_x (lua_settable A (-3) (ops [push key, push SNil] L1)) (\<lambda>L2. ret (lua_pop 1 L2)))"

section \<open>The handle of a field\<close>

record LuaTableRef =
  tr_table :: int
  tr_key :: int

definition LuaRef_index :: "lua_api \<Rightarrow> LuaRef \<Rightarrow> slot \<Rightarrow> lua_State \<Rightarrow> (LuaTableRef \<times> lua_State) exn" where
  "LuaRef_index A r key L = assert_o (ref_L r) ''L''
     (let (n, L1) = luaL_ref A (push key L) in ret (\<lparr>tr_table = m_ref r, tr_key = n\<rparr>, L1))"

definition LuaTableRef_copy :: "lua_api \<Rightarrow> LuaTableRef \<Rightarrow> lua_State \<Rightarrow> LuaTableRef \<times> lua_State" where
  "LuaTableRef_copy A that L =
     (let (n, L1) = luaL_ref A (rawgeti_registry (tr_key that) L) in (\<lparr>tr_table = tr_table that, tr_key = n\<rparr>, L1))"

definition LuaTableRef_move :: "LuaTableRef \<Rightarrow> LuaTableRef \<times> LuaTableRef" where
  "LuaTableRef_move that = (\<lparr>tr_table = tr_table that, tr_key = tr_key that\<rparr>, that\<lparr>tr_key := LUA_NOREF\<rparr>)"

definition LuaTableRef_delete :: "LuaTableRef \<Rightarrow> lua_State \<Rightarrow> lua_State" where
  "LuaTableRef_delete r L = luaL_unref (tr_key r) L"

text \<open>Copy assignment copies the value of the other field.\<close>

definition LuaTableRef_assign :: "lua_api \<Rightarrow> LuaTableRef \<Rightarrow> LuaTableRef \<Rightarrow> lua_State \<Rightarrow> lua_State exn" where
  "LuaTableRef_assign A this that L =
     bind_x (lua_gettable A (-4) (ops [rawgeti_registry (tr_table that), rawgeti_registry (tr_table this),
         rawgeti_registry (tr_key this), rawgeti_registry (tr_key that)] L)) (\<lambda>L1.
       bind_x (lua_settable A (-3) L1) (\<lambda>L2. ret (lua_pop 2 L2)))"

definition LuaTableRef_set :: "lua_api \<Rightarrow> LuaTableRef \<Rightarrow> slot \<Rightarrow> lua_State \<Rightarrow> lua_State exn" where
  "LuaTableRef_set A this v L =
     bind_x (lua_settable A (-3) (ops [rawgeti_registry (tr_table this), rawgeti_registry (tr_key this), push v] L))
       (\<lambda>L1. ret (lua_pop 1 L1))"

definition LuaTableRef_value :: "lua_api \<Rightarrow> LuaTableRef \<Rightarrow> lua_State \<Rightarrow> (LuaRef \<times> lua_State) exn" where
  "LuaTableRef_value A this L =
     bind_x (lua_gettable A (-2) (ops [rawgeti_registry (tr_table this), rawgeti_registry (tr_key this)] L)) (\<lambda>L1.
       let (v, L2) = LuaRef_at A (-1) L1 in ret (v, lua_pop 2 L2))"

section \<open>Iterators\<close>

record LuaTableIterator =
  it_L :: bool
  it_table :: int
  it_key :: int
  it_value :: int

definition LuaTableIterator_empty :: LuaTableIterator where
  "LuaTableIterator_empty = \<lparr>it_L = False, it_table = LUA_NOREF, it_key = LUA_NOREF, it_value = LUA_NOREF\<rparr>"

definition LuaTableIterator_next :: "lua_api \<Rightarrow> LuaTableIterator \<Rightarrow> lua_State \<Rightarrow> (LuaTableIterator \<times> lua_State) exn" where
  "LuaTableIterator_next A it L = assert_o (it_L it) ''L''
     (let L1 = ops [rawgeti_registry (it_table it), rawgeti_registry (it_key it), luaL_unref (it_key it),
            luaL_unref (it_value it)] L;
          (found, L2) = lua_next A (-2) L1
      in if found
         then (let (v, L3) = luaL_ref A L2; (k, L4) = luaL_ref A L3
               in ret (it\<lparr>it_value := v, it_key := k\<rparr>, lua_pop 1 L4))
         else ret (it\<lparr>it_value := LUA_NOREF, it_key := LUA_NOREF\<rparr>, lua_pop 1 L2))"

definition LuaTableIterator_new ::
  "lua_api \<Rightarrow> bool \<Rightarrow> int \<Rightarrow> bool \<Rightarrow> lua_State \<Rightarrow> (LuaTableIterator \<times> lua_State) exn" where
  "LuaTableIterator_new A state table fetch_next L = assert_o state ''L''
     (let it = \<lparr>it_L = state, it_table = table, it_key = LUA_NOREF, it_value = LUA_NOREF\<rparr>
      in if fetch_next then LuaTableIterator_next A it L else ret (it, L))"

definition LuaRef_begin :: "lua_api \<Rightarrow> LuaRef \<Rightarrow> lua_State \<Rightarrow> (LuaTableIterator \<times> lua_State) exn" where
  "LuaRef_begin A r L = LuaTableIterator_new A (ref_L r) (m_ref r) True L"

definition LuaRef_end :: "lua_api \<Rightarrow> LuaRef \<Rightarrow> lua_State \<Rightarrow> (LuaTableIterator \<times> lua_State) exn" where
  "LuaRef_end A r L = LuaTableIterator_new A (ref_L r) (m_ref r) False L"

definition LuaTableIterator_copy :: "lua_api \<Rightarrow> LuaTableIterator \<Rightarrow> lua_State \<Rightarrow> LuaTableIterator \<times> lua_State" where
  "LuaTableIterator_copy A that L =
     (if it_L that
      then (let (k, L1) = luaL_ref A (rawgeti_registry (it_key that) L);
                (v, L2) = luaL_ref A (rawgeti_registry (it_value that) L1)
            in (\<lparr>it_L = it_L that, it_table = it_table that, it_key = k, it_value = v\<rparr>, L2))
      else (\<lparr>it_L = it_L that, it_table = it_table that, it_key = LUA_NOREF, it_value = LUA_NOREF\<rparr>, L))"

text \<open>The move constructor takes the value from \<^verbatim>\<open>that.m_table\<close>.\<close>

definition LuaTableIterator_move :: "LuaTableIterator \<Rightarrow> LuaTableIterator \<times> LuaTableIterator" where
  "LuaTableIterator_move that =
     (\<lparr>it_L = it_L that, it_table = it_table that, it_key = it_key that, it_value = it_table that\<rparr>,
      that\<lparr>it_key := LUA_NOREF, it_value := LUA_NOREF\<rparr>)"

definition LuaTableIterator_delete :: "LuaTableIterator \<Rightarrow> lua_State \<Rightarrow> lua_State" where
  "LuaTableIterator_delete it L =
     (if it_L it then ops [luaL_unref (it_key it), luaL_unref (it_value it)] L else L)"

definition LuaTableIterator_assign ::
  "lua_api \<Rightarrow> LuaTableIterator \<Rightarrow> LuaTableIterator \<Rightarrow> lua_State \<Rightarrow> LuaTableIterator \<times> lua_State" where
  "LuaTableIterator_assign A this that L =
     (let L1 = (if it_L this then ops [luaL_unref (it_key this), luaL_unref (it_value this)] L else L)
      in if it_L that
         then (let (k, L2) = luaL_ref A (rawgeti_registry (it_key that) L1);
                   (v, L3) = luaL_ref A (rawgeti_registry (it_value that) L2)
               in (\<lparr>it_L = it_L that, it_table = it_table that, it_key = k, it_value = v\<rparr>, L3))
         else (\<lparr>it_L = it_L that, it_table = it_table that, it_key = LUA_NOREF, it_value = LUA_NOREF\<rparr>, L1))"

definition LuaTableIterator_move_assign ::
  "LuaTableIterator \<Rightarrow> LuaTableIterator \<Rightarrow> LuaTableIterator \<times> LuaTableIterator" where
  "LuaTableIterator_move_assign this that = (that, this)"

definition LuaTableIterator_eq :: "LuaTableIterator \<Rightarrow> LuaTableIterator \<Rightarrow> lua_State \<Rightarrow> bool \<times> lua_State" where
  "LuaTableIterator_eq this that L =
     (if it_L this \<noteq> it_L that \<or> it_table this \<noteq> it_table that then (False, L)
      else if it_key this = it_key that then (True, L)
      else (let L1 = ops [rawgeti_registry (it_key this), rawgeti_registry (it_key that)] L
            in (lua_rawequal L1 (-1) (-2), lua_pop 2 L1)))"

text \<open>\<^verbatim>\<open>Lua::pop<LuaRef>\<close>: get a reference to the top, then pop it.\<close>

definition pop_LuaRef :: "lua_api \<Rightarrow> lua_State \<Rightarrow> LuaRef \<times> lua_State" where
  "pop_LuaRef A L = (let (v, L1) = LuaRef_at A (-1) L in (v, lua_pop 1 L1))"

definition LuaTableIterator_key :: "lua_api \<Rightarrow> LuaTableIterator \<Rightarrow> lua_State \<Rightarrow> (LuaRef \<times> lua_State) exn" where
  "LuaTableIterator_key A it L = assert_o (it_L it) ''L'' (ret (pop_LuaRef A (rawgeti_registry (it_key it) L)))"

definition LuaTableIterator_value :: "lua_api \<Rightarrow> LuaTableIterator \<Rightarrow> lua_State \<Rightarrow> (LuaRef \<times> lua_State) exn" where
  "LuaTableIterator_value A it L = assert_o (it_L it) ''L'' (ret (pop_LuaRef A (rawgeti_registry (it_value it) L)))"

end
