(* ===== verification/Lua_Handles.thy ===== *)
theory Lua_Handles
  imports Lua_Ref
begin

text \<open>
  Programs that create, copy, move, assign and destroy the handles of \<open>Lua_Ref\<close>: who owns which reference. The program's
  variables are an association list; a variable that is destroyed leaves the list.
\<close>

section \<open>Owned references\<close>

datatype handle = HRef LuaRef | HTab LuaTableRef | HIter LuaTableIterator

text \<open>References that refer to nothing, \<^verbatim>\<open>LUA_NOREF\<close> and \<^verbatim>\<open>LUA_REFNIL\<close>, need no owner.\<close>

definition pos :: "int \<Rightarrow> int list" where "pos n = (if n < 0 then [] else [n])"

fun owned :: "handle \<Rightarrow> int list" where
  "owned (HRef r) = (if ref_L r then pos (m_ref r) else [])"
| "owned (HTab r) = pos (tr_key r)"
| "owned (HIter i) = (if it_L i then pos (it_key i) @ pos (it_value i) else [])"

type_synonym vars = "(nat \<times> handle) list"

definition all_owned :: "vars \<Rightarrow> int list" where
  "all_owned vs = concat (map (\<lambda>(x, h). owned h) vs)"

text \<open>
  \<open>owns B R ns\<close>: the references \<open>ns\<close> of the registry have one owner each, the entries \<open>B\<close> of others are untouched,
  and there are no further entries.
\<close>

definition owns :: "(int \<Rightarrow> slot) \<Rightarrow> (int \<Rightarrow> slot) \<Rightarrow> int list \<Rightarrow> bool" where
  "owns B R ns \<longleftrightarrow> finite {n. B n \<noteq> SNil} \<and> (\<forall>n<0. B n = SNil) \<and> distinct ns \<and>
     (\<forall>n \<in> set ns. 0 \<le> n \<and> B n = SNil \<and> R n \<noteq> SNil) \<and> (\<forall>n. n \<notin> set ns \<longrightarrow> R n = B n)"

text \<open>The same, with the references \<open>F\<close> of other handles keeping the values of \<open>W\<close>.\<close>

definition owns_beside :: "(int \<Rightarrow> slot) \<Rightarrow> (int \<Rightarrow> slot) \<Rightarrow> int list \<Rightarrow> (int \<Rightarrow> slot) \<Rightarrow> int list \<Rightarrow> bool" where
  "owns_beside B W F R ns \<longleftrightarrow> owns B R (ns @ F) \<and> (\<forall>n \<in> set F. R n = W n)"

lemma owns_perm: "mset ns = mset ms \<Longrightarrow> owns B R ns = owns B R ms"
  using mset_eq_imp_distinct_iff [of ns ms] mset_eq_setD [of ns ms] by (simp add: owns_def)

lemma owns_beside_perm: "mset ns = mset ms \<Longrightarrow> owns_beside B W F R ns = owns_beside B W F R ms"
  unfolding owns_beside_def using owns_perm [of "ns @ F" "ms @ F" B R] by simp

lemma owns_besideD: "owns_beside B W F R ns \<Longrightarrow> n < 0 \<Longrightarrow> R n = SNil"
  unfolding owns_beside_def owns_def by (metis not_le)

lemma owns_finite: "owns B R ns \<Longrightarrow> finite {n. R n \<noteq> SNil}"
proof -
  assume own: "owns B R ns"
  then have "{n. R n \<noteq> SNil} \<subseteq> {n. B n \<noteq> SNil} \<union> set ns" unfolding owns_def by auto
  moreover from own have "finite ({n. B n \<noteq> SNil} \<union> set ns)" unfolding owns_def by simp
  ultimately show ?thesis by (rule finite_subset)
qed

lemma owns_luaL_ref:
  assumes A: "refs_ok A" and own: "owns_beside B W F (refs L) ns"
  shows "owns_beside B W F (refs (snd (luaL_ref A L))) (pos (fst (luaL_ref A L)) @ ns)"
proof (cases "at L (- 1) = SNil")
  case True
  with own show ?thesis by (simp add: luaL_ref_def pos_def LUA_REFNIL_def)
next
  case False
  let ?n = "api_newref A (refs L)"
  from own have "finite {n. refs L n \<noteq> SNil}" unfolding owns_beside_def by (blast intro: owns_finite)
  with A have n: "0 < ?n" "refs L ?n = SNil" unfolding refs_ok_def by auto
  with own have "?n \<notin> set (ns @ F)" "B ?n = SNil" unfolding owns_beside_def owns_def by auto
  with own n False show ?thesis
    unfolding owns_beside_def owns_def by (auto simp: luaL_ref_def pos_def Let_def)
qed

lemma owns_luaL_unref:
  assumes "owns_beside B W F (refs L) (pos n @ ns)"
  shows "owns_beside B W F (refs (luaL_unref n L)) ns"
  using assms unfolding owns_beside_def owns_def by (auto simp: luaL_unref_def pos_def split: if_splits)

lemma luaL_ref_stack [simp]:
  "stack (snd (luaL_ref A L)) = drop 1 (stack L)" "heap (snd (luaL_ref A L)) = heap L" "ptrs (snd (luaL_ref A L)) = ptrs L"
  by (simp_all add: luaL_ref_def Let_def)

lemma luaL_unref_stack [simp]:
  "stack (luaL_unref n L) = stack L" "heap (luaL_unref n L) = heap L" "ptrs (luaL_unref n L) = ptrs L"
  by (simp_all add: luaL_unref_def)

text \<open>The value of a new reference.\<close>

lemma luaL_ref_value:
  assumes "refs_ok A" "owns_beside B W F (refs L) ns"
  shows "refs (snd (luaL_ref A L)) (fst (luaL_ref A L)) = at L (- 1)"
  using owns_besideD [OF assms(2), of LUA_REFNIL] by (simp add: luaL_ref_def Let_def LUA_REFNIL_def)


section \<open>Programs\<close>

datatype ref_event =
    NewEmpty nat | NewNil nat | NewValue nat slot | NewAt nat int
  | CopyTo nat nat | MoveTo nat nat | Destroy nat | Assign nat nat | MoveAssign nat nat | AssignNil nat
  | TypeOf nat | GetMeta nat nat | SetMeta nat nat
  | RawGet nat nat slot | RawSet nat slot slot | RawGetP nat nat ptr | RawSetP nat ptr slot
  | Has nat slot | Get nat nat slot | Set nat slot slot | Remove nat slot
  | Index nat nat slot | FieldValue nat nat | FieldSet nat slot
  | Begin nat nat | End nat nat | Next nat | KeyOf nat nat | ValueOf nat nat

record ref_prog =
  rp_vars :: vars
  rp_lua :: lua_State

fun handle_copy :: "lua_api \<Rightarrow> handle \<Rightarrow> lua_State \<Rightarrow> handle \<times> lua_State" where
  "handle_copy A (HRef r) L = map_prod HRef id (LuaRef_copy A r L)"
| "handle_copy A (HTab r) L = map_prod HTab id (LuaTableRef_copy A r L)"
| "handle_copy A (HIter i) L = map_prod HIter id (LuaTableIterator_copy A i L)"

fun handle_move :: "handle \<Rightarrow> handle \<times> handle" where
  "handle_move (HRef r) = map_prod HRef HRef (LuaRef_move r)"
| "handle_move (HTab r) = map_prod HTab HTab (LuaTableRef_move r)"
| "handle_move (HIter i) = map_prod HIter HIter (LuaTableIterator_move i)"

fun handle_delete :: "handle \<Rightarrow> lua_State \<Rightarrow> lua_State" where
  "handle_delete (HRef r) L = LuaRef_delete r L"
| "handle_delete (HTab r) L = LuaTableRef_delete r L"
| "handle_delete (HIter i) L = LuaTableIterator_delete i L"

fun same_class :: "handle \<Rightarrow> handle \<Rightarrow> bool" where
  "same_class (HRef r) (HRef r') = True"
| "same_class (HTab r) (HTab r') = True"
| "same_class (HIter r) (HIter r') = True"
| "same_class h h' = False"

text \<open>Copy assignment from an object to a different one.\<close>

fun handle_assign :: "lua_api \<Rightarrow> handle \<Rightarrow> handle \<Rightarrow> lua_State \<Rightarrow> (handle \<times> lua_State) exn" where
  "handle_assign A (HRef r) (HRef r') L = ret (map_prod HRef id (LuaRef_assign A r r' L))"
| "handle_assign A (HTab r) (HTab r') L = bind_x (LuaTableRef_assign A r r' L) (\<lambda>L1. ret (HTab r, L1))"
| "handle_assign A (HIter i) (HIter i') L = ret (map_prod HIter id (LuaTableIterator_assign A i i' L))"
| "handle_assign A h h' L = Abort ''classes differ''"

fun handle_move_assign :: "handle \<Rightarrow> handle \<Rightarrow> handle \<times> handle" where
  "handle_move_assign (HRef r) (HRef r') = map_prod HRef HRef (LuaRef_move_assign r r')"
| "handle_move_assign (HIter i) (HIter i') = map_prod HIter HIter (LuaTableIterator_move_assign i i')"
| "handle_move_assign h h' = (h, h')"

fun the_ref :: "handle option \<Rightarrow> LuaRef" where "the_ref (Some (HRef r)) = r" | "the_ref h = LuaRef_empty"

fun the_tab :: "handle option \<Rightarrow> LuaTableRef" where "the_tab (Some (HTab r)) = r" | "the_tab h = \<lparr>tr_table = LUA_NOREF, tr_key = LUA_NOREF\<rparr>"

fun the_iter :: "handle option \<Rightarrow> LuaTableIterator" where "the_iter (Some (HIter i)) = i" | "the_iter h = LuaTableIterator_empty"

definition put :: "nat \<Rightarrow> handle \<Rightarrow> vars \<Rightarrow> vars" where "put x h vs = (x, h) # AList.delete x vs"

definition declare_var :: "nat \<Rightarrow> (handle \<times> lua_State) exn \<Rightarrow> ref_prog \<Rightarrow> ref_prog exn" where
  "declare_var x m s = bind_x m (\<lambda>(h, L). ret \<lparr>rp_vars = (x, h) # rp_vars s, rp_lua = L\<rparr>)"

definition on_lua :: "lua_State exn \<Rightarrow> ref_prog \<Rightarrow> ref_prog exn" where
  "on_lua m s = bind_x m (\<lambda>L. ret (s\<lparr>rp_lua := L\<rparr>))"

definition as_ref :: "(LuaRef \<times> lua_State) exn \<Rightarrow> (handle \<times> lua_State) exn" where
  "as_ref m = bind_x m (\<lambda>(r, L). ret (HRef r, L))"

definition as_iter :: "(LuaTableIterator \<times> lua_State) exn \<Rightarrow> (handle \<times> lua_State) exn" where
  "as_iter m = bind_x m (\<lambda>(r, L). ret (HIter r, L))"

fun ref_do :: "lua_api \<Rightarrow> ref_event \<Rightarrow> ref_prog \<Rightarrow> ref_prog exn" where
  "ref_do A (NewEmpty x) s = declare_var x (ret (HRef LuaRef_empty, rp_lua s)) s"
| "ref_do A (NewNil x) s = declare_var x (ret (HRef LuaRef_nil, rp_lua s)) s"
| "ref_do A (NewValue x v) s = declare_var x (as_ref (ret (LuaRef_popFromStack A (push v (rp_lua s))))) s"
| "ref_do A (NewAt x i) s = declare_var x (as_ref (ret (LuaRef_at A i (rp_lua s)))) s"
| "ref_do A (CopyTo x y) s = declare_var x (ret (handle_copy A (the (map_of (rp_vars s) y)) (rp_lua s))) s"
| "ref_do A (MoveTo x y) s =
     (let (h, g) = handle_move (the (map_of (rp_vars s) y)) in ret (s\<lparr>rp_vars := (x, h) # put y g (rp_vars s)\<rparr>))"
| "ref_do A (Destroy x) s =
     ret \<lparr>rp_vars = AList.delete x (rp_vars s), rp_lua = handle_delete (the (map_of (rp_vars s) x)) (rp_lua s)\<rparr>"
| "ref_do A (Assign x y) s =
     (if x = y \<and> \<not> same_class (the (map_of (rp_vars s) x)) (HTab (the_tab None)) then ret s
      else bind_x (handle_assign A (the (map_of (rp_vars s) x)) (the (map_of (rp_vars s) y)) (rp_lua s)) (\<lambda>(h, L).
        ret \<lparr>rp_vars = put x h (rp_vars s), rp_lua = L\<rparr>))"
| "ref_do A (MoveAssign x y) s =
     (let (h, g) = handle_move_assign (the (map_of (rp_vars s) x)) (the (map_of (rp_vars s) y))
      in ret (s\<lparr>rp_vars := put x h (put y g (rp_vars s))\<rparr>))"
| "ref_do A (AssignNil x) s =
     (let (r, L) = LuaRef_assign_nil (the_ref (map_of (rp_vars s) x)) (rp_lua s)
      in ret \<lparr>rp_vars = put x (HRef r) (rp_vars s), rp_lua = L\<rparr>)"
| "ref_do A (TypeOf x) s = on_lua (bind_x (LuaRef_typeID (the_ref (map_of (rp_vars s) x)) (rp_lua s)) (\<lambda>(t, L). ret L)) s"
| "ref_do A (GetMeta x y) s = declare_var x (as_ref (LuaRef_getMetaTable A (the_ref (map_of (rp_vars s) y)) (rp_lua s))) s"
| "ref_do A (SetMeta x y) s =
     on_lua (LuaRef_setMetaTable (the_ref (map_of (rp_vars s) x)) (the_ref (map_of (rp_vars s) y)) (rp_lua s)) s"
| "ref_do A (RawGet x y k) s = declare_var x (as_ref (LuaRef_rawget A (the_ref (map_of (rp_vars s) y)) k (rp_lua s))) s"
| "ref_do A (RawSet y k v) s = on_lua (LuaRef_rawset (the_ref (map_of (rp_vars s) y)) k v (rp_lua s)) s"
| "ref_do A (RawGetP x y p) s = declare_var x (as_ref (LuaRef_rawgetp A (the_ref (map_of (rp_vars s) y)) p (rp_lua s))) s"
| "ref_do A (RawSetP y p v) s = on_lua (LuaRef_rawsetp (the_ref (map_of (rp_vars s) y)) p v (rp_lua s)) s"
| "ref_do A (Has y k) s = on_lua (bind_x (LuaRef_has A (the_ref (map_of (rp_vars s) y)) k (rp_lua s)) (\<lambda>(b, L). ret L)) s"
| "ref_do A (Get x y k) s = declare_var x (as_ref (LuaRef_get A (the_ref (map_of (rp_vars s) y)) k (rp_lua s))) s"
| "ref_do A (Set y k v) s = on_lua (LuaRef_set A (the_ref (map_of (rp_vars s) y)) k v (rp_lua s)) s"
| "ref_do A (Remove y k) s = on_lua (LuaRef_remove A (the_ref (map_of (rp_vars s) y)) k (rp_lua s)) s"
| "ref_do A (Index x y k) s =
     declare_var x (bind_x (LuaRef_index A (the_ref (map_of (rp_vars s) y)) k (rp_lua s)) (\<lambda>(r, L). ret (HTab r, L))) s"
| "ref_do A (FieldValue x y) s = declare_var x (as_ref (LuaTableRef_value A (the_tab (map_of (rp_vars s) y)) (rp_lua s))) s"
| "ref_do A (FieldSet y v) s = on_lua (LuaTableRef_set A (the_tab (map_of (rp_vars s) y)) v (rp_lua s)) s"
| "ref_do A (Begin x y) s = declare_var x (as_iter (LuaRef_begin A (the_ref (map_of (rp_vars s) y)) (rp_lua s))) s"
| "ref_do A (End x y) s = declare_var x (as_iter (LuaRef_end A (the_ref (map_of (rp_vars s) y)) (rp_lua s))) s"
| "ref_do A (Next y) s =
     bind_x (LuaTableIterator_next A (the_iter (map_of (rp_vars s) y)) (rp_lua s)) (\<lambda>(i, L).
       ret \<lparr>rp_vars = put y (HIter i) (rp_vars s), rp_lua = L\<rparr>)"
| "ref_do A (KeyOf x y) s = declare_var x (as_ref (LuaTableIterator_key A (the_iter (map_of (rp_vars s) y)) (rp_lua s))) s"
| "ref_do A (ValueOf x y) s = declare_var x (as_ref (LuaTableIterator_value A (the_iter (map_of (rp_vars s) y)) (rp_lua s))) s"

section \<open>Well-typed programs\<close>

definition fresh_var :: "nat \<Rightarrow> ref_prog \<Rightarrow> bool" where "fresh_var x s \<longleftrightarrow> map_of (rp_vars s) x = None"

definition is_ref :: "nat \<Rightarrow> ref_prog \<Rightarrow> bool" where
  "is_ref y s \<longleftrightarrow> (case map_of (rp_vars s) y of Some (HRef r) \<Rightarrow> True | _ \<Rightarrow> False)"

definition live_ref :: "nat \<Rightarrow> ref_prog \<Rightarrow> bool" where
  "live_ref y s \<longleftrightarrow> (case map_of (rp_vars s) y of Some (HRef r) \<Rightarrow> ref_L r | _ \<Rightarrow> False)"

definition is_tab :: "nat \<Rightarrow> ref_prog \<Rightarrow> bool" where
  "is_tab y s \<longleftrightarrow> (case map_of (rp_vars s) y of Some (HTab r) \<Rightarrow> True | _ \<Rightarrow> False)"

definition live_iter :: "nat \<Rightarrow> ref_prog \<Rightarrow> bool" where
  "live_iter y s \<longleftrightarrow> (case map_of (rp_vars s) y of Some (HIter i) \<Rightarrow> it_L i | _ \<Rightarrow> False)"

definition holds_table :: "int \<Rightarrow> ref_prog \<Rightarrow> bool" where
  "holds_table n s \<longleftrightarrow> slot_type (refs (rp_lua s) n) = TABLE"

definition table_ref :: "nat \<Rightarrow> ref_prog \<Rightarrow> bool" where
  "table_ref y s \<longleftrightarrow> live_ref y s \<and> holds_table (m_ref (the_ref (map_of (rp_vars s) y))) s"

text \<open>
  New variables are new, used ones exist and have the class of the operation, raw accesses and traversals are to tables, a
  stack index is within the stack. \<^verbatim>\<open>MoveTo\<close> takes no iterators: \<open>moved_iterator_releases_table\<close> shows what their move
  constructor does.
\<close>

fun typed :: "ref_event \<Rightarrow> ref_prog \<Rightarrow> bool" where
  "typed (NewEmpty x) s \<longleftrightarrow> fresh_var x s"
| "typed (NewNil x) s \<longleftrightarrow> fresh_var x s"
| "typed (NewValue x v) s \<longleftrightarrow> fresh_var x s"
| "typed (NewAt x i) s \<longleftrightarrow> fresh_var x s \<and> i \<noteq> 0 \<and> \<bar>i\<bar> \<le> int (length (stack (rp_lua s)))"
| "typed (CopyTo x y) s \<longleftrightarrow> fresh_var x s \<and> \<not> fresh_var y s"
| "typed (MoveTo x y) s \<longleftrightarrow> fresh_var x s \<and> (is_ref y s \<or> is_tab y s)"
| "typed (Destroy x) s \<longleftrightarrow> \<not> fresh_var x s"
| "typed (Assign x y) s \<longleftrightarrow> \<not> fresh_var x s \<and> \<not> fresh_var y s \<and>
     same_class (the (map_of (rp_vars s) x)) (the (map_of (rp_vars s) y))"
| "typed (MoveAssign x y) s \<longleftrightarrow> \<not> fresh_var x s \<and> \<not> fresh_var y s \<and> \<not> is_tab x s \<and>
     same_class (the (map_of (rp_vars s) x)) (the (map_of (rp_vars s) y))"
| "typed (AssignNil x) s \<longleftrightarrow> is_ref x s"
| "typed (TypeOf x) s \<longleftrightarrow> live_ref x s"
| "typed (GetMeta x y) s \<longleftrightarrow> fresh_var x s \<and> live_ref y s"
| "typed (SetMeta x y) s \<longleftrightarrow> table_ref x s \<and> table_ref y s"
| "typed (RawGet x y k) s \<longleftrightarrow> fresh_var x s \<and> table_ref y s"
| "typed (RawSet y k v) s \<longleftrightarrow> table_ref y s \<and> k \<noteq> SNil"
| "typed (RawGetP x y p) s \<longleftrightarrow> fresh_var x s \<and> table_ref y s"
| "typed (RawSetP y p v) s \<longleftrightarrow> table_ref y s"
| "typed (Has y k) s \<longleftrightarrow> live_ref y s"
| "typed (Get x y k) s \<longleftrightarrow> fresh_var x s \<and> live_ref y s"
| "typed (Set y k v) s \<longleftrightarrow> live_ref y s"
| "typed (Remove y k) s \<longleftrightarrow> live_ref y s"
| "typed (Index x y k) s \<longleftrightarrow> fresh_var x s \<and> live_ref y s"
| "typed (FieldValue x y) s \<longleftrightarrow> fresh_var x s \<and> is_tab y s"
| "typed (FieldSet y v) s \<longleftrightarrow> is_tab y s"
| "typed (Begin x y) s \<longleftrightarrow> fresh_var x s \<and> table_ref y s"
| "typed (End x y) s \<longleftrightarrow> fresh_var x s \<and> table_ref y s"
| "typed (Next y) s \<longleftrightarrow> live_iter y s \<and> holds_table (it_table (the_iter (map_of (rp_vars s) y))) s"
| "typed (KeyOf x y) s \<longleftrightarrow> fresh_var x s \<and> live_iter y s"
| "typed (ValueOf x y) s \<longleftrightarrow> fresh_var x s \<and> live_iter y s"

text \<open>The variables that an event changes.\<close>

fun writes :: "ref_event \<Rightarrow> nat list" where
  "writes (NewEmpty x) = [x]" | "writes (NewNil x) = [x]" | "writes (NewValue x v) = [x]" | "writes (NewAt x i) = [x]"
| "writes (CopyTo x y) = [x]" | "writes (MoveTo x y) = [x, y]" | "writes (Destroy x) = [x]"
| "writes (Assign x y) = [x]" | "writes (MoveAssign x y) = [x, y]" | "writes (AssignNil x) = [x]"
| "writes (TypeOf x) = []" | "writes (GetMeta x y) = [x]" | "writes (SetMeta x y) = []"
| "writes (RawGet x y k) = [x]" | "writes (RawSet y k v) = []" | "writes (RawGetP x y p) = [x]" | "writes (RawSetP y p v) = []"
| "writes (Has y k) = []" | "writes (Get x y k) = [x]" | "writes (Set y k v) = []" | "writes (Remove y k) = []"
| "writes (Index x y k) = [x]" | "writes (FieldValue x y) = [x]" | "writes (FieldSet y v) = []"
| "writes (Begin x y) = [x]" | "writes (End x y) = [x]" | "writes (Next y) = [y]"
| "writes (KeyOf x y) = [x]" | "writes (ValueOf x y) = [x]"

text \<open>An access whose metamethod raises an error leaves the function, and with it the variables.\<close>

definition raises :: "ref_prog exn \<Rightarrow> bool" where
  "raises m \<longleftrightarrow> (case m of Done (Thrown msg) \<Rightarrow> True | _ \<Rightarrow> False)"

definition ref_en :: "lua_api \<Rightarrow> ref_event \<Rightarrow> ref_prog \<Rightarrow> bool" where
  "ref_en A e s \<longleftrightarrow> typed e s \<and> \<not> raises (ref_do A e s)"

definition ref_step :: "lua_api \<Rightarrow> ref_event \<Rightarrow> ref_prog \<Rightarrow> (unit \<times> ref_prog) outcome" where
  "ref_step A e s = bind_o (ref_do A e s) (\<lambda>r. case r of Returned s' \<Rightarrow> Done ((), s') | Thrown msg \<Rightarrow> Abort msg)"

section \<open>Ownership\<close>

definition accesses_return :: "lua_api \<Rightarrow> bool" where
  "accesses_return A \<longleftrightarrow> (\<forall>t k v H why. api_get A t k H \<noteq> Abort why \<and> api_set A t k v H \<noteq> Abort why)"

definition rp_inv :: "(int \<Rightarrow> slot) \<Rightarrow> ref_prog \<Rightarrow> bool" where
  "rp_inv B s \<longleftrightarrow> distinct (map fst (rp_vars s)) \<and> owns B (refs (rp_lua s)) (all_owned (rp_vars s))"

definition step_ok :: "(int \<Rightarrow> slot) \<Rightarrow> ref_prog \<Rightarrow> nat list \<Rightarrow> ref_prog exn \<Rightarrow> bool" where
  "step_ok B s W m \<longleftrightarrow> (\<exists>s'. m = ret s' \<and> rp_inv B s' \<and> stack (rp_lua s') = stack (rp_lua s) \<and>
     (\<forall>z. z \<notin> set W \<longrightarrow> map_of (rp_vars s') z = map_of (rp_vars s) z \<and>
        (\<forall>h. map_of (rp_vars s) z = Some h \<longrightarrow> (\<forall>n \<in> set (owned h). refs (rp_lua s') n = refs (rp_lua s) n))))"

lemma all_owned_simps [simp]:
  "all_owned [] = []" "all_owned ((x, h) # vs) = owned h @ all_owned vs"
  by (simp_all add: all_owned_def)

lemma all_owned_delete:
  "distinct (map fst vs) \<Longrightarrow> map_of vs x = Some h \<Longrightarrow>
     mset (all_owned vs) = mset (owned h) + mset (all_owned (AList.delete x vs))"
  by (induction vs) (auto simp: delete_idem split: if_splits)

lemma all_owned_lookup: "map_of vs z = Some h \<Longrightarrow> set (owned h) \<subseteq> set (all_owned vs)"
  by (auto simp: all_owned_def dest!: map_of_SomeD)

lemma delete_fst: "distinct (map fst vs) \<Longrightarrow> distinct (map fst (AList.delete x vs))"
  by (rule distinct_delete)

lemma owns_all_but:
  assumes "rp_inv B s" "map_of (rp_vars s) x = Some h"
  shows "owns_beside B (refs (rp_lua s)) (all_owned (AList.delete x (rp_vars s))) (refs (rp_lua s)) (owned h)"
  using assms all_owned_delete [of "rp_vars s" x h]
    owns_perm [of "all_owned (rp_vars s)" "owned h @ all_owned (AList.delete x (rp_vars s))"]
  by (simp add: rp_inv_def owns_beside_def)


text \<open>Each way an event changes the variables.\<close>

lemma step_ok_frame:
  assumes inv: "rp_inv B s" and vs: "distinct (map fst vs')"
    and own: "owns B (refs L) (all_owned vs')" and st: "stack L = stack (rp_lua s)"
    and same: "\<And>z. z \<notin> set W \<Longrightarrow> map_of vs' z = map_of (rp_vars s) z"
    and agree: "\<And>n. n \<in> set F \<Longrightarrow> refs L n = refs (rp_lua s) n"
    and F: "\<And>z h. z \<notin> set W \<Longrightarrow> map_of (rp_vars s) z = Some h \<Longrightarrow> set (owned h) \<subseteq> set F"
  shows "step_ok B s W (ret \<lparr>rp_vars = vs', rp_lua = L\<rparr>)"
  unfolding step_ok_def using assms by (auto simp: rp_inv_def subset_iff)

lemma declare_ok:
  assumes inv: "rp_inv B s" and x: "fresh_var x s" and st: "stack L = stack (rp_lua s)"
    and own: "\<And>W F. owns_beside B W F (refs (rp_lua s)) [] \<Longrightarrow> owns_beside B W F (refs L) (owned h)"
  shows "step_ok B s [x] (declare_var x (ret (h, L)) s)"
proof -
  have "owns_beside B (refs (rp_lua s)) (all_owned (rp_vars s)) (refs (rp_lua s)) []"
    using inv by (simp add: rp_inv_def owns_beside_def)
  from own [OF this] have beside: "owns_beside B (refs (rp_lua s)) (all_owned (rp_vars s)) (refs L) (owned h)" .
  have "step_ok B s [x] (ret \<lparr>rp_vars = (x, h) # rp_vars s, rp_lua = L\<rparr>)"
    by (rule step_ok_frame [where F = "all_owned (rp_vars s)"])
      (use inv x st beside all_owned_lookup [of "rp_vars s"] in \<open>auto simp: rp_inv_def fresh_var_def owns_beside_def map_of_eq_None_iff\<close>)
  then show ?thesis by (simp add: declare_var_def)
qed

lemma put_keys: "distinct (map fst vs) \<Longrightarrow> distinct (map fst (put x h vs))"
  by (simp add: put_def distinct_delete delete_notin_dom)

lemma map_of_put: "map_of (put x h vs) z = (if z = x then Some h else map_of vs z)"
  by (simp add: put_def delete_conv')

lemma owned_elsewhere:
  "z \<notin> set [x] \<Longrightarrow> map_of vs z = Some h \<Longrightarrow> set (owned h) \<subseteq> set (all_owned (AList.delete x vs))"
  by (rule all_owned_lookup [where z = z]) (simp add: delete_conv')

lemma put_ok:
  assumes inv: "rp_inv B s" and x: "map_of (rp_vars s) x = Some h" and st: "stack L = stack (rp_lua s)"
    and own: "\<And>W F. owns_beside B W F (refs (rp_lua s)) (owned h) \<Longrightarrow> owns_beside B W F (refs L) (owned h')"
  shows "step_ok B s [x] (ret \<lparr>rp_vars = put x h' (rp_vars s), rp_lua = L\<rparr>)"
proof -
  let ?F = "all_owned (AList.delete x (rp_vars s))"
  from own [OF owns_all_but [OF inv x]]
  have beside: "owns_beside B (refs (rp_lua s)) ?F (refs L) (owned h')" .
  show ?thesis
    by (rule step_ok_frame [where F = ?F])
      (use inv st beside owned_elsewhere in \<open>auto simp: rp_inv_def owns_beside_def map_of_put put_keys, simp add: put_def\<close>)
qed

lemma destroy_ok:
  assumes inv: "rp_inv B s" and x: "map_of (rp_vars s) x = Some h" and st: "stack L = stack (rp_lua s)"
    and own: "\<And>W F. owns_beside B W F (refs (rp_lua s)) (owned h) \<Longrightarrow> owns_beside B W F (refs L) []"
  shows "step_ok B s [x] (ret \<lparr>rp_vars = AList.delete x (rp_vars s), rp_lua = L\<rparr>)"
proof -
  let ?F = "all_owned (AList.delete x (rp_vars s))"
  from own [OF owns_all_but [OF inv x]] have beside: "owns_beside B (refs (rp_lua s)) ?F (refs L) []" .
  show ?thesis
    by (rule step_ok_frame [where F = ?F])
      (use inv st beside owned_elsewhere in \<open>auto simp: rp_inv_def owns_beside_def delete_conv' distinct_delete\<close>)
qed

lemma on_lua_ok:
  assumes "rp_inv B s" "stack L = stack (rp_lua s)" "refs L = refs (rp_lua s)"
  shows "step_ok B s [] (on_lua (ret L) s)"
  using assms by (simp add: on_lua_def step_ok_def rp_inv_def)

text \<open>Two variables that exchange or pass on what they own.\<close>

lemma move_ok:
  assumes inv: "rp_inv B s" and x: "fresh_var x s" and y: "map_of (rp_vars s) y = Some h"
    and own: "mset (owned h1 @ owned h2) = mset (owned h)"
  shows "step_ok B s [x, y] (ret (s\<lparr>rp_vars := (x, h1) # put y h2 (rp_vars s)\<rparr>))"
proof -
  let ?F = "all_owned (AList.delete y (rp_vars s))"
  from x y have xy: "x \<noteq> y" by (auto simp: fresh_var_def)
  from owns_all_but [OF inv y] own have beside: "owns_beside B (refs (rp_lua s)) ?F (refs (rp_lua s)) (owned h1 @ owned h2)"
    using owns_beside_perm by metis
  have keys: "distinct (map fst ((x, h1) # put y h2 (rp_vars s)))"
    using inv x xy put_keys [of "rp_vars s" y h2]
    by (auto simp: rp_inv_def fresh_var_def put_def map_of_eq_None_iff delete_keys)
  have "step_ok B s [x, y] (ret \<lparr>rp_vars = (x, h1) # put y h2 (rp_vars s), rp_lua = rp_lua s\<rparr>)"
    by (rule step_ok_frame [where F = ?F, OF inv keys])
      (use beside owned_elsewhere [of _ y "rp_vars s"] in \<open>auto simp: owns_beside_def map_of_put, simp add: put_def\<close>)
  then show ?thesis by (cases s) simp
qed

lemma swap_ok:
  assumes inv: "rp_inv B s" and x: "map_of (rp_vars s) x = Some h" and y: "map_of (rp_vars s) y = Some g"
  shows "step_ok B s [x, y] (ret (s\<lparr>rp_vars := put x g (put y h (rp_vars s))\<rparr>))"
proof -
  have keys: "distinct (map fst (put x g (put y h (rp_vars s))))" using inv by (simp add: rp_inv_def put_keys)
  have "mset (all_owned (put x g (put y h (rp_vars s)))) = mset (all_owned (rp_vars s))"
  proof (cases "x = y")
    case True
    then have "put x g (put y h (rp_vars s)) = put x h (rp_vars s)" using x y by (simp add: put_def delete_idem)
    with x inv show ?thesis by (simp add: put_def rp_inv_def all_owned_delete)
  next
    case False
    let ?vs = "AList.delete y (rp_vars s)"
    have "map_of ?vs x = Some h" "distinct (map fst ?vs)" using False x inv
      by (simp_all add: delete_conv' rp_inv_def distinct_delete)
    then have "mset (all_owned ?vs) = mset (owned h) + mset (all_owned (AList.delete x ?vs))" by (intro all_owned_delete)
    with False inv y show ?thesis by (simp add: put_def rp_inv_def all_owned_delete)
  qed
  then have own: "owns B (refs (rp_lua s)) (all_owned (put x g (put y h (rp_vars s))))"
    using inv owns_perm by (metis rp_inv_def)
  have "step_ok B s [x, y] (ret \<lparr>rp_vars = put x g (put y h (rp_vars s)), rp_lua = rp_lua s\<rparr>)"
    by (rule step_ok_frame [where F = "all_owned (rp_vars s)", OF inv keys own])
      (auto simp: map_of_put dest: all_owned_lookup)
  then show ?thesis by (cases s) simp
qed

section \<open>What the operations do to the stack and to the registry\<close>

lemma owns_ref [intro]:
  "refs_ok A \<Longrightarrow> owns_beside B W F (refs L) ns \<Longrightarrow> owns_beside B W F (refs (snd (luaL_ref A L))) (pos (fst (luaL_ref A L)) @ ns)"
  by (rule owns_luaL_ref)

lemma drop_push [simp]: "L\<lparr>stack := stack L\<rparr> = L" by simp

lemma LuaRef_at_ok:
  assumes "refs_ok A"
  shows "stack (snd (LuaRef_at A i L)) = stack L" "heap (snd (LuaRef_at A i L)) = heap L"
    "owns_beside B W F (refs L) ns \<Longrightarrow>
       owns_beside B W F (refs (snd (LuaRef_at A i L))) (owned (HRef (fst (LuaRef_at A i L))) @ ns)"
    "owns_beside B W F (refs L) ns \<Longrightarrow>
       refs (snd (LuaRef_at A i L)) (m_ref (fst (LuaRef_at A i L))) = at L i"
  using owns_luaL_ref [OF assms, of B W F "lua_pushvalue i L" ns] luaL_ref_value [OF assms, of B W F "lua_pushvalue i L" ns]
  by (simp_all add: LuaRef_at_def case_prod_unfold Let_def lua_pushvalue_def)

lemma LuaRef_popFromStack_ok:
  assumes "refs_ok A"
  shows "stack (snd (LuaRef_popFromStack A L)) = drop 1 (stack L)"
    "owns_beside B W F (refs L) ns \<Longrightarrow>
       owns_beside B W F (refs (snd (LuaRef_popFromStack A L))) (owned (HRef (fst (LuaRef_popFromStack A L))) @ ns)"
  using owns_luaL_ref [OF assms, of B W F L ns] by (simp_all add: LuaRef_popFromStack_def case_prod_unfold Let_def)

lemma rawgeti_registry_simps [simp]:
  "stack (rawgeti_registry n L) = refs L n # stack L" "refs (rawgeti_registry n L) = refs L"
  "heap (rawgeti_registry n L) = heap L" "at (rawgeti_registry n L) (- 1) = refs L n"
  by (simp_all add: rawgeti_registry_def)

lemma pos_neg [simp]: "pos LUA_NOREF = []" "pos LUA_REFNIL = []"
  by (simp_all add: pos_def LUA_NOREF_def LUA_REFNIL_def)

lemma handle_copy_ok:
  assumes A: "refs_ok A"
  shows "stack (snd (handle_copy A h L)) = stack L"
    "owns_beside B W F (refs L) ns \<Longrightarrow> owns_beside B W F (refs (snd (handle_copy A h L))) (owned (fst (handle_copy A h L)) @ ns)"
proof -
  show "stack (snd (handle_copy A h L)) = stack L"
    by (cases h) (simp_all add: LuaRef_copy_def LuaTableRef_copy_def LuaTableIterator_copy_def case_prod_unfold Let_def)
  assume own: "owns_beside B W F (refs L) ns"
  show "owns_beside B W F (refs (snd (handle_copy A h L))) (owned (fst (handle_copy A h L)) @ ns)"
  proof (cases h)
    case (HRef r)
    then show ?thesis using own owns_luaL_ref [OF A, of B W F "rawgeti_registry (m_ref r) L" ns]
      by (simp add: LuaRef_copy_def case_prod_unfold Let_def)
  next
    case (HTab r)
    then show ?thesis using own owns_luaL_ref [OF A, of B W F "rawgeti_registry (tr_key r) L" ns]
      by (simp add: LuaTableRef_copy_def case_prod_unfold Let_def)
  next
    case (HIter i)
    let ?L1 = "luaL_ref A (rawgeti_registry (it_key i) L)"
    let ?L2 = "luaL_ref A (rawgeti_registry (it_value i) (snd ?L1))"
    have "owns_beside B W F (refs (snd ?L1)) (pos (fst ?L1) @ ns)"
      using own by (intro owns_luaL_ref [OF A]) simp
    then have "owns_beside B W F (refs (snd ?L2)) (pos (fst ?L2) @ pos (fst ?L1) @ ns)"
      by (intro owns_luaL_ref [OF A]) simp
    then have "owns_beside B W F (refs (snd ?L2)) (pos (fst ?L1) @ pos (fst ?L2) @ ns)"
      by (rule owns_beside_perm [THEN iffD1, rotated]) simp
    with HIter own show ?thesis by (simp add: LuaTableIterator_copy_def case_prod_unfold Let_def)
  qed
qed

lemma handle_delete_ok:
  "stack (handle_delete h L) = stack L"
  "owns_beside B W F (refs L) (owned h @ ns) \<Longrightarrow> owns_beside B W F (refs (handle_delete h L)) ns"
proof -
  show "stack (handle_delete h L) = stack L"
    by (cases h) (simp_all add: LuaRef_delete_def LuaTableRef_delete_def LuaTableIterator_delete_def)
  assume own: "owns_beside B W F (refs L) (owned h @ ns)"
  show "owns_beside B W F (refs (handle_delete h L)) ns"
    using own by (cases h) (auto simp: LuaRef_delete_def LuaTableRef_delete_def LuaTableIterator_delete_def
      intro!: owns_luaL_unref)
qed

text \<open>Copy assignment is destruction, then a copy.\<close>

lemma assign_as_copy:
  assumes "\<not> same_class h (HTab r)" "same_class h h'"
  shows "handle_assign A h h' L = ret (handle_copy A h' (handle_delete h L))"
  using assms by (cases "(h, h')" rule: same_class.cases)
    (auto simp: LuaRef_assign_def LuaRef_copy_def LuaRef_delete_def LuaTableIterator_assign_def
      LuaTableIterator_copy_def LuaTableIterator_delete_def case_prod_unfold Let_def)

section \<open>Every event keeps the ownership\<close>

lemma is_refE: "is_ref y s \<Longrightarrow> (\<And>r. map_of (rp_vars s) y = Some (HRef r) \<Longrightarrow> thesis) \<Longrightarrow> thesis"
  by (auto simp: is_ref_def split: option.splits handle.splits)

lemma live_refE: "live_ref y s \<Longrightarrow> (\<And>r. map_of (rp_vars s) y = Some (HRef r) \<Longrightarrow> ref_L r \<Longrightarrow> thesis) \<Longrightarrow> thesis"
  by (auto simp: live_ref_def split: option.splits handle.splits)

lemma is_tabE: "is_tab y s \<Longrightarrow> (\<And>r. map_of (rp_vars s) y = Some (HTab r) \<Longrightarrow> thesis) \<Longrightarrow> thesis"
  by (auto simp: is_tab_def split: option.splits handle.splits)

lemma live_iterE: "live_iter y s \<Longrightarrow> (\<And>i. map_of (rp_vars s) y = Some (HIter i) \<Longrightarrow> it_L i \<Longrightarrow> thesis) \<Longrightarrow> thesis"
  by (auto simp: live_iter_def split: option.splits handle.splits)

lemma boundE: "\<not> fresh_var y s \<Longrightarrow> (\<And>h. map_of (rp_vars s) y = Some h \<Longrightarrow> thesis) \<Longrightarrow> thesis"
  by (auto simp: fresh_var_def)

lemma pushToStack_live [simp]: "ref_L r \<Longrightarrow> LuaRef_pushToStack r L = ret (rawgeti_registry (m_ref r) L)"
  by (simp add: LuaRef_pushToStack_def)

text \<open>A reference to the slot at an index of a state with the registry of \<open>s\<close>, declared as a variable.\<close>

lemma declare_at_ok:
  assumes A: "refs_ok A" and inv: "rp_inv B s" and x: "fresh_var x s"
    and L: "refs L = refs (rp_lua s)" "drop n (stack L) = stack (rp_lua s)"
  shows "step_ok B s [x] (declare_var x (as_ref (let (v, L2) = LuaRef_at A i L in ret (v, lua_pop n L2))) s)"
proof -
  let ?v = "LuaRef_at A i L"
  have "step_ok B s [x] (declare_var x (ret (HRef (fst ?v), lua_pop n (snd ?v))) s)"
  proof (rule declare_ok [OF inv x])
    show "stack (lua_pop n (snd ?v)) = stack (rp_lua s)" using L(2) by (simp add: LuaRef_at_ok [OF A])
    fix W F assume "owns_beside B W F (refs (rp_lua s)) []"
    then have "owns_beside B W F (refs L) []" by (simp only: L(1))
    from LuaRef_at_ok(3) [OF A this]
    show "owns_beside B W F (refs (lua_pop n (snd ?v))) (owned (HRef (fst ?v)))" by simp
  qed
  then show ?thesis by (simp add: as_ref_def case_prod_unfold Let_def)
qed

lemma new_events_ok:
  assumes A: "refs_ok A" and inv: "rp_inv B s" and x: "fresh_var x s"
  shows "step_ok B s [x] (ref_do A (NewEmpty x) s)" "step_ok B s [x] (ref_do A (NewNil x) s)"
    "step_ok B s [x] (ref_do A (NewValue x v) s)" "step_ok B s [x] (ref_do A (NewAt x i) s)"
proof -
  show "step_ok B s [x] (ref_do A (NewEmpty x) s)" "step_ok B s [x] (ref_do A (NewNil x) s)"
    by (simp_all, rule declare_ok [OF inv x], simp_all add: LuaRef_empty_def LuaRef_nil_def,
        rule declare_ok [OF inv x], simp_all)
  let ?v = "LuaRef_popFromStack A (push v (rp_lua s))"
  have "step_ok B s [x] (declare_var x (ret (HRef (fst ?v), snd ?v)) s)"
    by (rule declare_ok [OF inv x]) (use LuaRef_popFromStack_ok(1) [OF A] LuaRef_popFromStack_ok(2) [OF A, where L = "push v (rp_lua s)" and ns = "[]"] in simp_all)
  then show "step_ok B s [x] (ref_do A (NewValue x v) s)" by (simp add: as_ref_def case_prod_unfold)
  show "step_ok B s [x] (ref_do A (NewAt x i) s)"
    using declare_at_ok [OF A inv x, of "rp_lua s" 0 i] by (simp add: case_prod_unfold)
qed

lemma copy_move_events_ok:
  assumes A: "refs_ok A" and inv: "rp_inv B s" and x: "fresh_var x s" and y: "map_of (rp_vars s) y = Some h"
  shows "step_ok B s [x] (ref_do A (CopyTo x y) s)"
    "is_ref y s \<or> is_tab y s \<Longrightarrow> step_ok B s [x, y] (ref_do A (MoveTo x y) s)"
proof -
  let ?v = "handle_copy A h (rp_lua s)"
  have "step_ok B s [x] (declare_var x (ret (fst ?v, snd ?v)) s)"
    by (rule declare_ok [OF inv x]) (use handle_copy_ok(1) [OF A] handle_copy_ok(2) [OF A, where h = h and L = "rp_lua s" and ns = "[]"] in simp_all)
  with y show "step_ok B s [x] (ref_do A (CopyTo x y) s)" by simp
  assume "is_ref y s \<or> is_tab y s"
  with y have "mset (owned (fst (handle_move h)) @ owned (snd (handle_move h))) = mset (owned h)"
    by (cases h) (auto simp: is_ref_def is_tab_def LuaRef_move_def LuaTableRef_move_def)
  from move_ok [OF inv x y this] y show "step_ok B s [x, y] (ref_do A (MoveTo x y) s)"
    by (simp add: case_prod_unfold Let_def)
qed

lemma destroy_event_ok:
  assumes inv: "rp_inv B s" and x: "map_of (rp_vars s) x = Some h"
  shows "step_ok B s [x] (ref_do A (Destroy x) s)"
proof -
  have "step_ok B s [x] (ret \<lparr>rp_vars = AList.delete x (rp_vars s), rp_lua = handle_delete h (rp_lua s)\<rparr>)"
    by (rule destroy_ok [OF inv x]) (simp_all add: handle_delete_ok)
  with x show ?thesis by simp
qed

text \<open>Operations that change tables only.\<close>

lemma lua_step_ok:
  assumes "rp_inv B s" "m = ret L" "stack L = stack (rp_lua s)" "refs L = refs (rp_lua s)"
  shows "step_ok B s [] (on_lua m s)"
  using on_lua_ok [OF assms(1,3,4)] assms(2) by simp

lemma unchanged_ok: "rp_inv B s \<Longrightarrow> step_ok B s W (ret s)"
  by (simp add: step_ok_def)

lemma raises_on_lua [simp]: "raises (on_lua m s) \<longleftrightarrow> (\<exists>msg. m = throw msg)"
  by (cases m) (auto simp: on_lua_def bind_x_def raises_def ret_def throw_def split: excepting.splits)

text \<open>An access that returns.\<close>

lemma access_get:
  assumes "accesses_return A"
  obtains v H where "lua_gettable A i L = ret (L\<lparr>stack := v # tl (stack L), heap := H\<rparr>)"
  | msg where "lua_gettable A i L = throw msg"
proof (cases "api_get A (at L i) (at L (- 1)) (heap L)")
  case (Done r)
  then show ?thesis using that by (cases r) (auto simp: lua_gettable_def ret_def throw_def bind_x_def)
next
  case (Abort why)
  with assms show ?thesis by (simp add: accesses_return_def)
qed

lemma access_set:
  assumes "accesses_return A"
  obtains H where "lua_settable A i L = ret (L\<lparr>stack := drop 2 (stack L), heap := H\<rparr>)"
  | msg where "lua_settable A i L = throw msg"
proof (cases "api_set A (at L i) (at L (- 2)) (at L (- 1)) (heap L)")
  case (Done r)
  then show ?thesis using that by (cases r) (auto simp: lua_settable_def ret_def throw_def bind_x_def)
next
  case (Abort why)
  with assms show ?thesis by (simp add: accesses_return_def)
qed

lemma on_lua_throw [simp]: "on_lua (throw msg) s = throw msg"
  by (simp add: on_lua_def)

lemma raises_simps [simp]: "raises (throw msg)" "\<not> raises (ret x)"
  by (simp_all add: raises_def throw_def ret_def)

lemma typeID_event_ok:
  assumes "rp_inv B s" "live_ref y s"
  shows "step_ok B s [] (ref_do A (TypeOf y) s)"
proof -
  from assms(2) obtain r where r: "map_of (rp_vars s) y = Some (HRef r)" "ref_L r" by (rule live_refE)
  then have "\<exists>t L. LuaRef_typeID r (rp_lua s) = ret (t, L) \<and> stack L = stack (rp_lua s) \<and> refs L = refs (rp_lua s)"
    by (simp add: LuaRef_typeID_def)
  with assms(1) r(1) show ?thesis by (auto intro: lua_step_ok)
qed

lemma raw_set_events_ok:
  assumes inv: "rp_inv B s" and y: "live_ref y s"
  shows "step_ok B s [] (ref_do A (RawSet y k v) s)" "step_ok B s [] (ref_do A (RawSetP y p v) s)"
    "live_ref x s \<Longrightarrow> step_ok B s [] (ref_do A (SetMeta x y) s)"
proof -
  from y obtain r where r: "map_of (rp_vars s) y = Some (HRef r)" "ref_L r" by (rule live_refE)
  show "step_ok B s [] (ref_do A (RawSet y k v) s)" "step_ok B s [] (ref_do A (RawSetP y p v) s)"
    using r inv by (auto simp: LuaRef_rawset_def LuaRef_rawsetp_def lua_rawset_def lua_rawsetp_def intro!: lua_step_ok [OF _ refl])
  assume "live_ref x s"
  then obtain r' where "map_of (rp_vars s) x = Some (HRef r')" "ref_L r'" by (rule live_refE)
  with r inv show "step_ok B s [] (ref_do A (SetMeta x y) s)"
    by (auto simp: LuaRef_setMetaTable_def lua_setmetatable_def intro!: lua_step_ok [OF _ refl])
qed

lemma access_events_ok:
  assumes A: "accesses_return A" and inv: "rp_inv B s" and y: "live_ref y s"
  shows "\<not> raises (ref_do A (Has y k) s) \<Longrightarrow> step_ok B s [] (ref_do A (Has y k) s)"
    "\<not> raises (ref_do A (Set y k v) s) \<Longrightarrow> step_ok B s [] (ref_do A (Set y k v) s)"
    "\<not> raises (ref_do A (Remove y k) s) \<Longrightarrow> step_ok B s [] (ref_do A (Remove y k) s)"
proof -
  from y obtain r where r: "map_of (rp_vars s) y = Some (HRef r)" "ref_L r" by (rule live_refE)
  let ?L = "rawgeti_registry (m_ref r) (rp_lua s)"
  show "\<not> raises (ref_do A (Has y k) s) \<Longrightarrow> step_ok B s [] (ref_do A (Has y k) s)"
    using r inv by (cases rule: access_get [OF A, of "-2" "push k ?L"]) (auto simp: LuaRef_has_def intro!: lua_step_ok [OF _ refl])
  show "\<not> raises (ref_do A (Set y k v) s) \<Longrightarrow> step_ok B s [] (ref_do A (Set y k v) s)"
    using r inv by (cases rule: access_set [OF A, of "-3" "push v (push k ?L)"]) (auto simp: LuaRef_set_def intro!: lua_step_ok [OF _ refl])
  show "\<not> raises (ref_do A (Remove y k) s) \<Longrightarrow> step_ok B s [] (ref_do A (Remove y k) s)"
    using r inv by (cases rule: access_set [OF A, of "-3" "push SNil (push k ?L)"]) (auto simp: LuaRef_remove_def intro!: lua_step_ok [OF _ refl])
qed

lemma field_set_event_ok:
  assumes A: "accesses_return A" and inv: "rp_inv B s" and y: "is_tab y s" and en: "\<not> raises (ref_do A (FieldSet y v) s)"
  shows "step_ok B s [] (ref_do A (FieldSet y v) s)"
proof -
  from y obtain r where r: "map_of (rp_vars s) y = Some (HTab r)" by (rule is_tabE)
  let ?L = "rawgeti_registry (tr_key r) (rawgeti_registry (tr_table r) (rp_lua s))"
  show ?thesis
    using r inv en by (cases rule: access_set [OF A, of "-3" "push v ?L"]) (auto simp: LuaTableRef_set_def intro!: lua_step_ok [OF _ refl])
qed

text \<open>Operations that yield a new reference.\<close>

lemma declare_throw [simp]: "declare_var x (throw msg) s = throw msg" "as_ref (throw msg) = throw msg"
  by (simp_all add: declare_var_def as_ref_def)

lemmas declare_at_case = declare_at_ok [unfolded Let_def]

lemma get_events_ok:
  assumes A: "refs_ok A" "accesses_return A" and inv: "rp_inv B s" and x: "fresh_var x s" and y: "live_ref y s"
  shows "step_ok B s [x] (ref_do A (RawGet x y k) s)" "step_ok B s [x] (ref_do A (RawGetP x y p) s)"
    "\<not> raises (ref_do A (Get x y k) s) \<Longrightarrow> step_ok B s [x] (ref_do A (Get x y k) s)"
    "step_ok B s [x] (ref_do A (GetMeta x y) s)" "step_ok B s [x] (ref_do A (Index x y k) s)"
proof -
  from y obtain r where r: "map_of (rp_vars s) y = Some (HRef r)" "ref_L r" by (rule live_refE)
  let ?L = "rawgeti_registry (m_ref r) (rp_lua s)"
  show "step_ok B s [x] (ref_do A (RawGet x y k) s)" "step_ok B s [x] (ref_do A (RawGetP x y p) s)"
    using r by (auto simp: LuaRef_rawget_def LuaRef_rawgetp_def lua_rawget_def lua_rawgetp_def intro!: declare_at_case [OF A(1) inv x])
  show "\<not> raises (ref_do A (Get x y k) s) \<Longrightarrow> step_ok B s [x] (ref_do A (Get x y k) s)"
    using r by (cases rule: access_get [OF A(2), of "-2" "push k ?L"])
      (auto simp: LuaRef_get_def intro!: declare_at_case [OF A(1) inv x])
  show "step_ok B s [x] (ref_do A (GetMeta x y) s)"
  proof (cases "get_meta (heap ?L) (at ?L (- 1)) = SNil")
    case True
    have "step_ok B s [x] (declare_var x (ret (HRef LuaRef_empty, lua_pop 1 ?L)) s)"
      by (rule declare_ok [OF inv x]) (simp_all add: LuaRef_empty_def)
    with True r show ?thesis by (simp add: LuaRef_getMetaTable_def lua_getmetatable_def as_ref_def)
  next
    case False
    let ?v = "LuaRef_popFromStack A (push (get_meta (heap ?L) (at ?L (- 1))) ?L)"
    have "step_ok B s [x] (declare_var x (ret (HRef (fst ?v), lua_pop 1 (snd ?v))) s)"
      by (rule declare_ok [OF inv x])
        (use LuaRef_popFromStack_ok(1) [OF A(1)] LuaRef_popFromStack_ok(2) [OF A(1), where ns = "[]" and
            L = "push (get_meta (heap ?L) (at ?L (- 1))) ?L"] in simp_all)
    with False r show ?thesis by (simp add: LuaRef_getMetaTable_def lua_getmetatable_def as_ref_def case_prod_unfold Let_def)
  qed
  let ?n = "luaL_ref A (push k (rp_lua s))"
  have "step_ok B s [x] (declare_var x (ret (HTab \<lparr>tr_table = m_ref r, tr_key = fst ?n\<rparr>, snd ?n)) s)"
    by (rule declare_ok [OF inv x]) (use owns_luaL_ref [OF A(1), where L = "push k (rp_lua s)" and ns = "[]"] in simp_all)
  with r show "step_ok B s [x] (ref_do A (Index x y k) s)" by (simp add: LuaRef_index_def case_prod_unfold Let_def)
qed

lemma field_value_event_ok:
  assumes A: "refs_ok A" "accesses_return A" and inv: "rp_inv B s" and x: "fresh_var x s" and y: "is_tab y s"
    and en: "\<not> raises (ref_do A (FieldValue x y) s)"
  shows "step_ok B s [x] (ref_do A (FieldValue x y) s)"
proof -
  from y obtain r where r: "map_of (rp_vars s) y = Some (HTab r)" by (rule is_tabE)
  let ?L = "rawgeti_registry (tr_key r) (rawgeti_registry (tr_table r) (rp_lua s))"
  show ?thesis
    using r en by (cases rule: access_get [OF A(2), of "-2" ?L])
      (auto simp: LuaTableRef_value_def intro!: declare_at_case [OF A(1) inv x])
qed

lemma iterator_value_events_ok:
  assumes A: "refs_ok A" and inv: "rp_inv B s" and x: "fresh_var x s" and y: "live_iter y s"
  shows "step_ok B s [x] (ref_do A (KeyOf x y) s)" "step_ok B s [x] (ref_do A (ValueOf x y) s)"
proof -
  from y obtain i where i: "map_of (rp_vars s) y = Some (HIter i)" "it_L i" by (rule live_iterE)
  have pop: "pop_LuaRef A L = (let (v, L2) = LuaRef_at A (- 1) L in (v, lua_pop 1 L2))" for L
    by (simp add: pop_LuaRef_def)
  show "step_ok B s [x] (ref_do A (KeyOf x y) s)" "step_ok B s [x] (ref_do A (ValueOf x y) s)"
    using i declare_at_ok [OF A inv x, of "rawgeti_registry (it_key i) (rp_lua s)" 1 "- 1"]
      declare_at_ok [OF A inv x, of "rawgeti_registry (it_value i) (rp_lua s)" 1 "- 1"]
    by (simp_all add: LuaTableIterator_key_def LuaTableIterator_value_def pop case_prod_unfold Let_def)
qed

text \<open>Iterators own the references of the entry they are at.\<close>

lemma iterator_next_ok:
  assumes A: "refs_ok A" and i: "it_L i"
  obtains i' L' where "LuaTableIterator_next A i L = ret (i', L')" "stack L' = stack L" "it_L i'" "it_table i' = it_table i"
    "\<forall>B W F ns. owns_beside B W F (refs L) (owned (HIter i) @ ns) \<longrightarrow> owns_beside B W F (refs L') (owned (HIter i') @ ns)"
proof -
  let ?L0 = "rawgeti_registry (it_key i) (rawgeti_registry (it_table i) L)"
  let ?L1 = "luaL_unref (it_value i) (luaL_unref (it_key i) ?L0)"
  have unref: "owns_beside B W F (refs ?L1) ns" if "owns_beside B W F (refs L) (owned (HIter i) @ ns)" for B W F ns
    using that i by (intro owns_luaL_unref) simp
  show thesis
  proof (cases "next_entry A (raw_get (heap ?L1) (at ?L1 (- 2))) (at ?L1 (- 1))")
    case None
    let ?i = "i\<lparr>it_value := LUA_NOREF, it_key := LUA_NOREF\<rparr>"
    show thesis
    proof (rule that [of ?i "lua_pop 1 (?L1\<lparr>stack := tl (stack ?L1)\<rparr>)"])
      show "LuaTableIterator_next A i L = ret (?i, lua_pop 1 (?L1\<lparr>stack := tl (stack ?L1)\<rparr>))"
        using i None by (simp add: LuaTableIterator_next_def lua_next_def)
    qed (use i unref in simp_all)
  next
    case (Some k)
    let ?L2 = "?L1\<lparr>stack := raw_get (heap ?L1) (at ?L1 (- 2)) k # k # tl (stack ?L1)\<rparr>"
    let ?v = "luaL_ref A ?L2"
    let ?k = "luaL_ref A (snd ?v)"
    let ?i = "i\<lparr>it_value := fst ?v, it_key := fst ?k\<rparr>"
    show thesis
    proof (rule that [of ?i "lua_pop 1 (snd ?k)"])
      show "LuaTableIterator_next A i L = ret (?i, lua_pop 1 (snd ?k))"
        using i Some by (simp add: LuaTableIterator_next_def lua_next_def case_prod_unfold Let_def)
      show "\<forall>B W F ns. owns_beside B W F (refs L) (owned (HIter i) @ ns) \<longrightarrow>
          owns_beside B W F (refs (lua_pop 1 (snd ?k))) (owned (HIter ?i) @ ns)"
      proof (intro allI impI)
        fix B W F ns assume "owns_beside B W F (refs L) (owned (HIter i) @ ns)"
        then have "owns_beside B W F (refs ?L2) ns" by (simp add: unref)
        then have "owns_beside B W F (refs (snd ?v)) (pos (fst ?v) @ ns)" by (rule owns_luaL_ref [OF A])
        then have "owns_beside B W F (refs (snd ?k)) (pos (fst ?k) @ pos (fst ?v) @ ns)" by (rule owns_luaL_ref [OF A])
        with i show "owns_beside B W F (refs (lua_pop 1 (snd ?k))) (owned (HIter ?i) @ ns)" by simp
      qed
    qed (use i in simp_all)
  qed
qed

lemma iterator_events_ok:
  assumes A: "refs_ok A" and inv: "rp_inv B s"
  shows "fresh_var x s \<Longrightarrow> live_ref y s \<Longrightarrow> step_ok B s [x] (ref_do A (Begin x y) s)"
    "fresh_var x s \<Longrightarrow> live_ref y s \<Longrightarrow> step_ok B s [x] (ref_do A (End x y) s)"
    "live_iter y s \<Longrightarrow> step_ok B s [y] (ref_do A (Next y) s)"
proof -
  assume x: "fresh_var x s" and y: "live_ref y s"
  from y obtain r where r: "map_of (rp_vars s) y = Some (HRef r)" "ref_L r" by (rule live_refE)
  let ?i = "\<lparr>it_L = True, it_table = m_ref r, it_key = LUA_NOREF, it_value = LUA_NOREF\<rparr>"
  have L: "it_L ?i" by simp
  obtain i' L' where n: "LuaTableIterator_next A ?i (rp_lua s) = ret (i', L')" "stack L' = stack (rp_lua s)" "it_L i'"
    "it_table i' = it_table ?i"
    "\<forall>B W F ns. owns_beside B W F (refs (rp_lua s)) (owned (HIter ?i) @ ns) \<longrightarrow> owns_beside B W F (refs L') (owned (HIter i') @ ns)"
    by (rule iterator_next_ok [OF A L, where L = "rp_lua s"])
  have "step_ok B s [x] (declare_var x (ret (HIter i', L')) s)"
    by (rule declare_ok [OF inv x]) (use n(2) n(5) [rule_format, where ns = "[]"] in simp_all)
  with n(1) r show "step_ok B s [x] (ref_do A (Begin x y) s)"
    by (simp add: LuaRef_begin_def LuaTableIterator_new_def as_iter_def)
  have "step_ok B s [x] (declare_var x (ret (HIter ?i, rp_lua s)) s)"
    by (rule declare_ok [OF inv x]) simp_all
  with r show "step_ok B s [x] (ref_do A (End x y) s)"
    by (simp add: LuaRef_end_def LuaTableIterator_new_def as_iter_def)
next
  assume "live_iter y s"
  then obtain i where i: "map_of (rp_vars s) y = Some (HIter i)" "it_L i" by (rule live_iterE)
  obtain i' L' where n: "LuaTableIterator_next A i (rp_lua s) = ret (i', L')" "stack L' = stack (rp_lua s)" "it_L i'"
    "it_table i' = it_table i"
    "\<forall>B W F ns. owns_beside B W F (refs (rp_lua s)) (owned (HIter i) @ ns) \<longrightarrow> owns_beside B W F (refs L') (owned (HIter i') @ ns)"
    by (rule iterator_next_ok [OF A i(2)])
  have "step_ok B s [y] (ret \<lparr>rp_vars = put y (HIter i') (rp_vars s), rp_lua = L'\<rparr>)"
    by (rule put_ok [OF inv i(1) n(2)]) (use n(5) [rule_format, where ns = "[]"] in simp)
  with n(1) i show "step_ok B s [y] (ref_do A (Next y) s)" by simp
qed

text \<open>Assignments.\<close>

lemma assign_event_ok:
  assumes A: "refs_ok A" "accesses_return A" and inv: "rp_inv B s"
    and x: "map_of (rp_vars s) x = Some h" and y: "map_of (rp_vars s) y = Some h'" and cls: "same_class h h'"
    and en: "\<not> raises (ref_do A (Assign x y) s)"
  shows "step_ok B s [x] (ref_do A (Assign x y) s)"
proof (cases "same_class h (HTab (the_tab None))")
  case True
  then obtain r where h: "h = HTab r" by (cases h) auto
  with cls obtain r' where h': "h' = HTab r'" by (cases h') auto
  let ?L = "ops [rawgeti_registry (tr_table r'), rawgeti_registry (tr_table r),
         rawgeti_registry (tr_key r), rawgeti_registry (tr_key r')] (rp_lua s)"
  show ?thesis
  proof (cases rule: access_get [OF A(2), of "-4" ?L])
    case (1 v H)
    let ?L1 = "?L\<lparr>stack := v # tl (stack ?L), heap := H\<rparr>"
    have get: "lua_gettable A (- 4) ?L = ret ?L1" by (rule 1)
    show ?thesis
    proof (cases rule: access_set [OF A(2), of "-3" ?L1])
      case (1 H')
      let ?L2 = "lua_pop 2 (?L1\<lparr>stack := drop 2 (stack ?L1), heap := H'\<rparr>)"
      have "handle_assign A h h' (rp_lua s) = ret (HTab r, ?L2)"
        unfolding h h' using get 1 by (simp add: LuaTableRef_assign_def del: ops.simps)
      then have "ref_do A (Assign x y) s = ret \<lparr>rp_vars = put x (HTab r) (rp_vars s), rp_lua = ?L2\<rparr>"
        using x y h by simp
      moreover have "step_ok B s [x] (ret \<lparr>rp_vars = put x (HTab r) (rp_vars s), rp_lua = ?L2\<rparr>)"
        by (rule put_ok [OF inv x]) (use h in simp_all)
      ultimately show ?thesis by simp
    next
      case (2 msg)
      with get have "handle_assign A h h' (rp_lua s) = throw msg"
        unfolding h h' by (simp add: LuaTableRef_assign_def del: ops.simps)
      with en x y h show ?thesis by simp
    qed
  next
    case (2 msg)
    then have "handle_assign A h h' (rp_lua s) = throw msg"
      unfolding h h' by (simp add: LuaTableRef_assign_def del: ops.simps)
    with en x y h show ?thesis by simp
  qed
next
  case False
  show ?thesis
  proof (cases "x = y")
    case True
    with False x inv show ?thesis by (simp add: unchanged_ok)
  next
    case neq: False
    let ?c = "handle_copy A h' (handle_delete h (rp_lua s))"
    have "step_ok B s [x] (ret \<lparr>rp_vars = put x (fst ?c) (rp_vars s), rp_lua = snd ?c\<rparr>)"
    proof (rule put_ok [OF inv x])
      show "stack (snd ?c) = stack (rp_lua s)" by (simp add: handle_copy_ok [OF A(1)] handle_delete_ok)
      fix W F assume "owns_beside B W F (refs (rp_lua s)) (owned h)"
      then have "owns_beside B W F (refs (handle_delete h (rp_lua s))) []" by (intro handle_delete_ok(2)) simp
      from handle_copy_ok(2) [OF A(1) this]
      show "owns_beside B W F (refs (snd ?c)) (owned (fst ?c))" by simp
    qed
    with False neq x y cls show ?thesis by (simp add: assign_as_copy case_prod_unfold)
  qed
qed

lemma other_assign_events_ok:
  assumes inv: "rp_inv B s"
  shows "typed (MoveAssign x y) s \<Longrightarrow> step_ok B s [x, y] (ref_do A (MoveAssign x y) s)"
    "is_ref x s \<Longrightarrow> step_ok B s [x] (ref_do A (AssignNil x) s)"
proof -
  assume t: "typed (MoveAssign x y) s"
  then have "\<not> fresh_var x s" "\<not> fresh_var y s" by simp_all
  then obtain h g where h: "map_of (rp_vars s) x = Some h" "map_of (rp_vars s) y = Some g" by (auto elim!: boundE)
  with t have "handle_move_assign h g = (g, h)"
    by (cases "(h, g)" rule: same_class.cases)
      (auto simp: is_tab_def LuaRef_move_assign_def LuaTableIterator_move_assign_def)
  with h swap_ok [OF inv h] show "step_ok B s [x, y] (ref_do A (MoveAssign x y) s)" by simp
next
  assume "is_ref x s"
  then obtain r where r: "map_of (rp_vars s) x = Some (HRef r)" by (rule is_refE)
  let ?a = "LuaRef_assign_nil r (rp_lua s)"
  have "step_ok B s [x] (ret \<lparr>rp_vars = put x (HRef (fst ?a)) (rp_vars s), rp_lua = snd ?a\<rparr>)"
    by (rule put_ok [OF inv r])
      (use owns_luaL_unref [where ns = "[]"] in \<open>auto simp: LuaRef_assign_nil_def split: if_splits\<close>)
  with r show "step_ok B s [x] (ref_do A (AssignNil x) s)" by (simp add: case_prod_unfold Let_def)
qed

theorem ref_do_ok:
  assumes A: "refs_ok A" "accesses_return A" and inv: "rp_inv B s" and en: "ref_en A e s"
  shows "step_ok B s (writes e) (ref_do A e s)"
proof -
  from en have t: "typed e s" and r: "\<not> raises (ref_do A e s)" by (simp_all add: ref_en_def)
  have live: "table_ref y s \<Longrightarrow> live_ref y s" for y by (simp add: table_ref_def)
  note ok = new_events_ok [OF A(1) inv] copy_move_events_ok [OF A(1) inv] destroy_event_ok [OF inv]
    typeID_event_ok [OF inv] raw_set_events_ok [OF inv live] access_events_ok [OF A(2) inv]
    field_set_event_ok [OF A(2) inv] get_events_ok [OF A inv] field_value_event_ok [OF A inv]
    iterator_value_events_ok [OF A(1) inv] iterator_events_ok [OF A(1) inv] assign_event_ok [OF A inv]
    other_assign_events_ok [OF inv]
  show ?thesis
  proof (cases e)
    case (CopyTo x y)
    with t obtain h where "map_of (rp_vars s) y = Some h" by (auto elim: boundE)
    with t CopyTo show ?thesis using copy_move_events_ok(1) [OF A(1) inv] by simp
  next
    case (MoveTo x y)
    with t obtain h where "map_of (rp_vars s) y = Some h" by (auto elim: is_refE is_tabE)
    with t MoveTo show ?thesis using copy_move_events_ok(2) [OF A(1) inv] by simp
  next
    case (Destroy x)
    with t obtain h where "map_of (rp_vars s) x = Some h" by (auto elim: boundE)
    with Destroy show ?thesis using destroy_event_ok [OF inv] by simp
  next
    case (Assign x y)
    with t obtain h h' where "map_of (rp_vars s) x = Some h" "map_of (rp_vars s) y = Some h'" by (auto elim!: boundE)
    with t r Assign show ?thesis using assign_event_ok [OF A inv, of x h y h'] by simp
  qed (use t r ok live in \<open>simp_all del: ref_do.simps\<close>)
qed

section \<open>Runs of programs\<close>

text \<open>The registry belongs to others at first, and the program has no variables.\<close>

definition ref_start :: "(int \<Rightarrow> slot) \<Rightarrow> slot list \<Rightarrow> ref_prog \<Rightarrow> bool" where
  "ref_start B S s \<longleftrightarrow> rp_vars s = [] \<and> stack (rp_lua s) = S \<and> owns B (refs (rp_lua s)) []"

text \<open>The API as the manual describes it.\<close>

locale handle_env =
  fixes A :: lua_api
  assumes new_references: "refs_ok A"
    and accesses: "accesses_return A"
begin

lemma step_holds:
  assumes "rp_inv B s \<and> stack (rp_lua s) = S" "ref_en A e s"
  shows "holds (\<lambda>(out, s'). rp_inv B s' \<and> stack (rp_lua s') = S) (ref_step A e s)"
  using ref_do_ok [OF new_references accesses _ assms(2), of B] assms(1)
  by (auto simp: step_ok_def ref_step_def ret_def)

lemma step_keeps:
  assumes "rp_inv B s" "ref_en A e s" "ref_step A e s = Done (out, s')" "z \<notin> set (writes e)" "map_of (rp_vars s) z = Some h"
  shows "map_of (rp_vars s') z = Some h \<and> (\<forall>n \<in> set (owned h). refs (rp_lua s') n = refs (rp_lua s) n)"
  using ref_do_ok [OF new_references accesses assms(1,2)] assms(3-5)
  by (auto simp: step_ok_def ref_step_def ret_def)

sublocale handles: safe_machine "ref_start B S" "ref_en A" "ref_step A"
  "\<lambda>s. rp_inv B s \<and> stack (rp_lua s) = S" for B S
proof unfold_locales
  fix s assume "ref_start B S s"
  then show "rp_inv B s \<and> stack (rp_lua s) = S" by (simp add: ref_start_def rp_inv_def)
qed (rule step_holds)

lemma reach_owned: "reach (ref_start B S) (ref_en A) (ref_step A) tr s \<Longrightarrow> rp_inv B s \<and> stack (rp_lua s) = S"
  by (rule handles.reach_inv)

lemma run_keeps:
  assumes "rp_inv B s" "exec (ref_en A) (ref_step A) es s = Some (tr, s')"
    "\<forall>e \<in> set es. z \<notin> set (writes e)" "map_of (rp_vars s) z = Some h"
  shows "map_of (rp_vars s') z = Some h \<and> (\<forall>n \<in> set (owned h). refs (rp_lua s') n = refs (rp_lua s) n)"
  using assms
proof (induction es arbitrary: s tr)
  case Nil
  then show ?case by simp
next
  case (Cons e es)
  from Cons.prems(2) obtain out s1 tr1 where
    step: "ref_en A e s" "ref_step A e s = Done (out, s1)" and rest: "exec (ref_en A) (ref_step A) es s1 = Some (tr1, s')"
    by (auto split: if_splits outcome.splits option.splits prod.splits)
  from step_keeps [OF Cons.prems(1) step _ Cons.prems(4)] Cons.prems(3)
  have z: "map_of (rp_vars s1) z = Some h" "\<forall>n \<in> set (owned h). refs (rp_lua s1) n = refs (rp_lua s) n" by auto
  from step_holds [OF conjI [OF Cons.prems(1) refl] step(1)] step(2) have "rp_inv B s1" by simp
  from Cons.IH [OF this rest _ z(1)] Cons.prems(3) z(2) show ?case by simp
qed

end

section \<open>An interpreter's API\<close>

text \<open>
  For examples: a new reference is the first free one of 1 to 8, or else any that is free. The order of a traversal is
  some enumeration, and fields have no metamethods.
\<close>

definition demo_newref :: "(int \<Rightarrow> slot) \<Rightarrow> int" where
  "demo_newref R = (case find (\<lambda>n. R n = SNil) [1, 2, 3, 4, 5, 6, 7, 8] of
     Some n \<Rightarrow> n | None \<Rightarrow> (SOME n. 0 < n \<and> R n = SNil))"

definition demo_order :: "(slot \<Rightarrow> slot) \<Rightarrow> slot list" where
  "demo_order t = (SOME ks. distinct ks \<and> set ks = {k. t k \<noteq> SNil})"

definition demo_api :: lua_api where
  "demo_api = \<lparr>api_newref = demo_newref, api_order = demo_order,
     api_get = (\<lambda>t k H. ret (raw_get H t k, H)), api_set = (\<lambda>t k v H. ret (raw_set t k v H)),
     api_numeral = (\<lambda>s. s \<noteq> [] \<and> list_all (\<lambda>c. c \<in> set ''0123456789'') s), api_num_to_str = ostream_int, api_where = '''',
     api_str_int = decimal_int, api_argerror = (\<lambda>n s. s)\<rparr>"

lemma demo_api_simps [simp]:
  "api_newref demo_api = demo_newref" "api_order demo_api = demo_order"
  "api_get demo_api = (\<lambda>t k H. ret (raw_get H t k, H))" "api_set demo_api = (\<lambda>t k v H. ret (raw_set t k v H))"
  by (simp_all add: demo_api_def)

lemma infinite_positive: "infinite {n::int. 0 < n}"
proof
  assume "finite {n::int. 0 < n}"
  then have "finite ((\<lambda>n. int n + 1) -` {n::int. 0 < n})" by (rule finite_vimageI) (simp add: inj_def)
  moreover have "(\<lambda>n. int n + 1) -` {n::int. 0 < n} = UNIV" by auto
  ultimately show False by simp
qed

lemma demo_refs_ok: "refs_ok demo_api"
  unfolding refs_ok_def
proof (intro allI impI)
  fix R :: "int \<Rightarrow> slot" assume fin: "finite {n. R n \<noteq> SNil}"
  have "0 < demo_newref R \<and> R (demo_newref R) = SNil"
  proof (cases "find (\<lambda>n. R n = SNil) [1, 2, 3, 4, 5, 6, 7, 8]")
    case None
    from fin infinite_positive have "infinite ({n. 0 < n} - {n. R n \<noteq> SNil})" by (rule Diff_infinite_finite)
    from infinite_imp_nonempty [OF this] obtain n where "0 < n \<and> R n = SNil" by blast
    then have "0 < (SOME n. 0 < n \<and> R n = SNil) \<and> R (SOME n. 0 < n \<and> R n = SNil) = SNil" by (rule someI)
    with None show ?thesis by (simp only: demo_newref_def option.case)
  next
    case (Some n)
    then obtain i where i: "i < length [1, 2, 3, 4, 5, 6, 7, 8::int]" "R n = SNil" "n = [1, 2, 3, 4, 5, 6, 7, 8] ! i"
      unfolding find_Some_iff by blast
    then have "n \<in> set [1, 2, 3, 4, 5, 6, 7, 8]" using nth_mem by blast
    with i(2) Some show ?thesis by (auto simp: demo_newref_def simp del: find.simps)
  qed
  then show "0 < api_newref demo_api R \<and> R (api_newref demo_api R) = SNil" by simp
qed

lemma demo_order_ok: "order_ok demo_api"
  unfolding order_ok_def
proof (intro allI impI)
  fix t :: "slot \<Rightarrow> slot" assume "finite {k. t k \<noteq> SNil} \<and> t SNil = SNil"
  then obtain ks where "distinct ks \<and> set ks = {k. t k \<noteq> SNil}" using finite_distinct_list by blast
  then show "distinct (api_order demo_api t) \<and> set (api_order demo_api t) = {k. t k \<noteq> SNil}"
    by (simp add: demo_order_def) (rule someI)
qed

interpretation demo_handles: handle_env demo_api
  by unfold_locales (simp_all add: demo_refs_ok accesses_return_def ret_def)


section \<open>Properties\<close>

definition no_refs :: "int \<Rightarrow> slot" where "no_refs n = SNil"

definition empty_heap :: lua_heap where
  "empty_heap = \<lparr>tables = (\<lambda>n. \<lparr>t_get = (\<lambda>k. SNil), t_meta = SNil\<rparr>), next_table = 0,
     udatas = (\<lambda>u. \<lparr>u_meta = SNil, u_object = 0\<rparr>), next_udata = 0\<rparr>"

definition empty_lua :: lua_State where
  "empty_lua = \<lparr>stack = [], refs = no_refs, ptrs = (\<lambda>p. SNil), heap = empty_heap, may_downcast = (\<lambda>p. False)\<rparr>"

definition empty_prog :: ref_prog where "empty_prog = \<lparr>rp_vars = [], rp_lua = empty_lua\<rparr>"

lemma empty_prog_start: "ref_start no_refs [] empty_prog"
  by (simp add: ref_start_def empty_prog_def empty_lua_def no_refs_def [abs_def] owns_def)

text \<open>
  C27: In a program that creates, copies, assigns and destroys \<^verbatim>\<open>LuaRef\<close>s, fields and iterators and moves references and fields,
  in any order, every reference that the program made in the registry has exactly one owner and what a handle owns is in the
  registry: nothing is released twice and nothing lost. Entries of others are untouched, and so is the stack. Once all handles
  are destroyed, the registry is as it was. Two things are left out: constructing an iterator by a move, which breaks this
  (\<open>moved_iterator_releases_table\<close>), and accesses that raise a Lua error, which unwind the C++ code in the middle.
\<close>

theorem handle_ownership:
  assumes "handle_env A" and "reach (ref_start B S) (ref_en A) (ref_step A) tr s"
  shows "distinct (all_owned (rp_vars s)) \<and>
    (\<forall>n. if n \<in> set (all_owned (rp_vars s)) then refs (rp_lua s) n \<noteq> SNil \<and> B n = SNil else refs (rp_lua s) n = B n) \<and>
    (rp_vars s = [] \<longrightarrow> refs (rp_lua s) = B) \<and> stack (rp_lua s) = S"
  using handle_env.reach_owned [OF assms] by (auto simp: rp_inv_def owns_def)

definition demo_events :: "ref_event list" where
  "demo_events = [NewValue 0 (STab 0), RawSet 0 (SStr ''a'') (SNum 7), CopyTo 1 0, NewEmpty 2, MoveAssign 2 1,
     RawGet 3 2 (SStr ''a''), Destroy 0]"

lemmas run_refs = ref_en_def ref_step_def empty_prog_def empty_lua_def declare_var_def as_ref_def on_lua_def raises_def
  LuaRef_popFromStack_def LuaRef_copy_def LuaRef_delete_def LuaRef_empty_def LuaRef_move_assign_def LuaRef_rawset_def
  LuaRef_rawget_def LuaRef_at_def luaL_ref_def luaL_unref_def demo_newref_def no_refs_def fresh_var_def table_ref_def
  live_ref_def holds_table_def is_tab_def put_def lua_rawset_def lua_rawget_def lua_pushvalue_def raw_set_def raw_get_def
  ret_def bind_x_def push_def lua_pop_def rawgeti_registry_def at_def Let_def empty_heap_def LUA_NOREF_def LUA_REFNIL_def pos_def

lemma demo_events_run:
  "case exec (ref_en demo_api) (ref_step demo_api) demo_events empty_prog of None \<Rightarrow> False
   | Some (tr, s) \<Rightarrow> all_owned (rp_vars s) = [3, 2] \<and> refs (rp_lua s) 3 = SNum 7"
  by (simp add: demo_events_def run_refs)


theorem handle_ownership_witness:
  "\<exists>tr s. reach (ref_start no_refs []) (ref_en demo_api) (ref_step demo_api) tr s \<and> all_owned (rp_vars s) = [3, 2] \<and>
     distinct (all_owned (rp_vars s)) \<and> refs (rp_lua s) 1 = SNil"
proof -
  from demo_events_run obtain tr s where run: "exec (ref_en demo_api) (ref_step demo_api) demo_events empty_prog = Some (tr, s)"
    and s: "all_owned (rp_vars s) = [3, 2] \<and> refs (rp_lua s) 3 = SNum 7"
    by (rule run_caseE)
  have r: "reach (ref_start no_refs []) (ref_en demo_api) (ref_step demo_api) tr s"
    by (rule exec_reach [where start = "ref_start no_refs []", OF empty_prog_start run])
  from handle_ownership [OF demo_handles.handle_env_axioms r] have o: "distinct (all_owned (rp_vars s))"
    "\<forall>n. if n \<in> set (all_owned (rp_vars s)) then refs (rp_lua s) n \<noteq> SNil \<and> no_refs n = SNil
      else refs (rp_lua s) n = no_refs n" by blast+
  from o(2) [rule_format, of 1] s have "refs (rp_lua s) 1 = SNil" by (simp add: no_refs_def)
  with r s o(1) show ?thesis by blast
qed

lemma owns_neg: "owns B R ns \<Longrightarrow> n < 0 \<Longrightarrow> R n = SNil"
  unfolding owns_def by (metis not_le)

text \<open>The value that a variable refers to.\<close>

definition ref_value :: "ref_prog \<Rightarrow> nat \<Rightarrow> slot" where
  "ref_value s x = (case map_of (rp_vars s) x of
     Some (HRef r) \<Rightarrow> if ref_L r then refs (rp_lua s) (m_ref r) else SNil | _ \<Rightarrow> SNil)"

lemma LuaRef_copy_value:
  assumes "refs_ok A" "owns_beside B W F (refs L) ns" "ref_L r"
  shows "ref_L (fst (LuaRef_copy A r L)) \<and> refs (snd (LuaRef_copy A r L)) (m_ref (fst (LuaRef_copy A r L))) = refs L (m_ref r)"
  using luaL_ref_value [OF assms(1), of B W F "rawgeti_registry (m_ref r) L" ns] assms(2,3)
  by (simp add: LuaRef_copy_def case_prod_unfold Let_def)

lemma LuaRef_copy_null: "\<not> ref_L r \<Longrightarrow> \<not> ref_L (fst (LuaRef_copy A r L))"
  by (simp add: LuaRef_copy_def)

text \<open>What is left of the values of other variables when one is released.\<close>

lemma value_after_delete:
  assumes inv: "rp_inv B s" and x: "map_of (rp_vars s) x = Some h" and y: "map_of (rp_vars s) y = Some (HRef r)" "x \<noteq> y"
    and L: "ref_L r"
  shows "refs (handle_delete h (rp_lua s)) (m_ref r) = refs (rp_lua s) (m_ref r)"
proof -
  let ?F = "all_owned (AList.delete x (rp_vars s))"
  from owns_all_but [OF inv x] have before: "owns_beside B (refs (rp_lua s)) ?F (refs (rp_lua s)) (owned h)" .
  then have after: "owns_beside B (refs (rp_lua s)) ?F (refs (handle_delete h (rp_lua s))) []"
    by (intro handle_delete_ok(2)) simp
  have sub: "set (owned (HRef r)) \<subseteq> set ?F" by (rule owned_elsewhere [of y]) (use y in simp_all)
  show ?thesis
  proof (cases "m_ref r < 0")
    case True
    with owns_besideD [OF before] owns_besideD [OF after] show ?thesis by simp
  next
    case False
    with sub L have "m_ref r \<in> set ?F" by (simp add: pos_def)
    with after show ?thesis by (simp add: owns_beside_def)
  qed
qed

text \<open>Copies and moves pass on the value; a move leaves the source without one.\<close>

lemma copies_value:
  assumes A: "refs_ok A" and inv: "rp_inv B s" and y: "map_of (rp_vars s) y = Some (HRef r)"
  shows "ref_do A (CopyTo x y) s = ret s' \<Longrightarrow> ref_value s' x = ref_value s y"
    "map_of (rp_vars s) x = Some (HRef r') \<Longrightarrow> ref_do A (Assign x y) s = ret s' \<Longrightarrow> ref_value s' x = ref_value s y"
    "ref_do A (MoveTo x y) s = ret s' \<Longrightarrow> ref_value s' x = ref_value s y"
    "map_of (rp_vars s) x = Some (HRef r') \<Longrightarrow> ref_do A (MoveAssign x y) s = ret s' \<Longrightarrow> ref_value s' x = ref_value s y"
proof -
  have own: "owns_beside B W [] (refs (rp_lua s)) (all_owned (rp_vars s))" for W
    using inv by (simp add: rp_inv_def owns_beside_def)
  assume "ref_do A (CopyTo x y) s = ret s'"
  then show "ref_value s' x = ref_value s y"
    using y LuaRef_copy_value [OF A own, of r] LuaRef_copy_null [of r A "rp_lua s"]
    by (cases "ref_L r") (auto simp: declare_var_def ref_value_def case_prod_unfold)
next
  assume "ref_do A (MoveTo x y) s = ret s'"
  with y show "ref_value s' x = ref_value s y"
    by (auto simp: LuaRef_move_def ref_value_def)
next
  assume "map_of (rp_vars s) x = Some (HRef r')" "ref_do A (MoveAssign x y) s = ret s'"
  with y show "ref_value s' x = ref_value s y"
    by (auto simp: LuaRef_move_assign_def ref_value_def map_of_put)
next
  assume x: "map_of (rp_vars s) x = Some (HRef r')" and do: "ref_do A (Assign x y) s = ret s'"
  show "ref_value s' x = ref_value s y"
  proof (cases "x = y")
    case True
    with do y show ?thesis by simp
  next
    case False
    let ?L = "handle_delete (HRef r') (rp_lua s)"
    let ?c = "LuaRef_copy A r ?L"
    have s': "s' = \<lparr>rp_vars = put x (HRef (fst ?c)) (rp_vars s), rp_lua = snd ?c\<rparr>"
      using do False x y by (simp add: assign_as_copy case_prod_unfold del: handle_assign.simps)
    from owns_all_but [OF inv x] have "owns_beside B (refs (rp_lua s)) (all_owned (AList.delete x (rp_vars s))) (refs ?L) []"
      by (intro handle_delete_ok(2)) simp
    from LuaRef_copy_value [OF A this, of r] LuaRef_copy_null [of r A ?L] value_after_delete [OF inv x y False]
    show ?thesis using y by (cases "ref_L r") (auto simp: s' ref_value_def map_of_put)
  qed
qed

text \<open>
  A reference made by copying or moving another one, or assigned from it, refers to the same value; and while the program runs on,
  whatever it does with its other handles, a handle that is neither assigned to nor moved from nor destroyed
  keeps its references and their values.
\<close>

theorem handles_keep_values:
  assumes "handle_env A" and "reach (ref_start B S) (ref_en A) (ref_step A) tr s"
    and "e \<in> {CopyTo x y, MoveTo x y, Assign x y, MoveAssign x y}" and "is_ref y s"
    and "exec (ref_en A) (ref_step A) (e # es) s = Some (tr', s')" and "\<forall>e \<in> set es. x \<notin> set (writes e)"
  shows "ref_value s' x = ref_value s y"
proof -
  from assms(1) have A: "refs_ok A" by (rule handle_env.new_references)
  from handle_env.reach_owned [OF assms(1,2)] have inv: "rp_inv B s" by simp
  from assms(4) obtain r where y: "map_of (rp_vars s) y = Some (HRef r)" by (rule is_refE)
  from assms(5) obtain out s1 tr1 where step: "ref_en A e s" "ref_step A e s = Done (out, s1)"
    and rest: "exec (ref_en A) (ref_step A) es s1 = Some (tr1, s')"
    by (auto split: if_splits outcome.splits option.splits prod.splits)
  from step have do: "ref_do A e s = ret s1"
    by (cases "ref_do A e s") (auto simp: ref_step_def ret_def split: excepting.splits)
  from step(1) have t: "typed e s" by (simp add: ref_en_def)
  have val: "ref_value s1 x = ref_value s y" and x1: "is_ref x s1"
  proof -
    have x: "e \<in> {Assign x y, MoveAssign x y} \<Longrightarrow> \<exists>r'. map_of (rp_vars s) x = Some (HRef r')"
      using t y by (auto simp: fresh_var_def elim!: same_class.elims)
    from assms(3) x do show "ref_value s1 x = ref_value s y" using copies_value [OF A inv y] by auto
    from assms(3) x do y show "is_ref x s1"
      by (auto simp: is_ref_def declare_var_def map_of_put LuaRef_move_def LuaRef_move_assign_def case_prod_unfold split: if_splits)
  qed
  from handle_env.step_holds [OF assms(1) conjI [OF inv refl] step(1)] step(2) have inv1: "rp_inv B s1" by simp
  from handle_env.reach_owned [OF assms(1) exec_reach_from [OF assms(2,5)]] have inv': "rp_inv B s'" by simp
  from x1 obtain r1 where r1: "map_of (rp_vars s1) x = Some (HRef r1)" by (rule is_refE)
  from handle_env.run_keeps [OF assms(1) inv1 rest assms(6) r1]
  have kept: "map_of (rp_vars s') x = Some (HRef r1)" "\<forall>n \<in> set (owned (HRef r1)). refs (rp_lua s') n = refs (rp_lua s1) n" by auto
  have "ref_value s' x = ref_value s1 x"
  proof (cases "m_ref r1 < 0")
    case True
    with inv1 inv' have "refs (rp_lua s1) (m_ref r1) = SNil" "refs (rp_lua s') (m_ref r1) = SNil"
      by (auto simp: rp_inv_def intro: owns_neg)
    with r1 kept show ?thesis by (simp add: ref_value_def)
  next
    case False
    with r1 kept show ?thesis by (simp add: ref_value_def pos_def)
  qed
  with val show ?thesis by simp
qed


lemma demo_copy_run:
  "case exec (ref_en demo_api) (ref_step demo_api) [NewValue 0 (STab 0)] empty_prog of None \<Rightarrow> False
   | Some (tr, s) \<Rightarrow> is_ref 0 s \<and> ref_value s 0 = STab 0 \<and>
      (case exec (ref_en demo_api) (ref_step demo_api) [CopyTo 1 0, AssignNil 0, Destroy 0, NewValue 5 (SNum 3)] s of
         None \<Rightarrow> False | Some (tr', s') \<Rightarrow> True)"
  by (simp add: run_refs is_ref_def ref_value_def LuaRef_assign_nil_def)

theorem handles_keep_values_witness:
  "\<exists>tr s tr' s'. reach (ref_start no_refs []) (ref_en demo_api) (ref_step demo_api) tr s \<and>
     exec (ref_en demo_api) (ref_step demo_api) [CopyTo 1 0, AssignNil 0, Destroy 0, NewValue 5 (SNum 3)] s = Some (tr', s') \<and>
     ref_value s' 1 = STab 0"
proof -
  from demo_copy_run obtain tr s where
    run: "exec (ref_en demo_api) (ref_step demo_api) [NewValue 0 (STab 0)] empty_prog = Some (tr, s)" and
    s: "is_ref 0 s \<and> ref_value s 0 = STab 0 \<and>
      (case exec (ref_en demo_api) (ref_step demo_api) [CopyTo 1 0, AssignNil 0, Destroy 0, NewValue 5 (SNum 3)] s of
         None \<Rightarrow> False | Some (tr', s') \<Rightarrow> True)"
    by (rule run_caseE)
  from s obtain tr' s' where
    run': "exec (ref_en demo_api) (ref_step demo_api) [CopyTo 1 0, AssignNil 0, Destroy 0, NewValue 5 (SNum 3)] s = Some (tr', s')"
    by (auto elim: run_caseE)
  have r: "reach (ref_start no_refs []) (ref_en demo_api) (ref_step demo_api) tr s"
    by (rule exec_reach [where start = "ref_start no_refs []", OF empty_prog_start run])
  have "ref_value s' 1 = ref_value s 0"
    by (rule handles_keep_values [OF demo_handles.handle_env_axioms r _ _ run', where x = 1 and y = 0]) (use s in simp_all)
  with s have "ref_value s' 1 = STab 0" by simp
  with r run' show ?thesis by blast
qed

text \<open>
  The move constructor of an iterator takes the reference of the value from the field of the table. Once the new
  iterator is destroyed, the reference that a \<^verbatim>\<open>LuaRef\<close> holds to the table is released although the \<^verbatim>\<open>LuaRef\<close> lives on, and the
  reference of the value stays in the registry without an owner.
\<close>

theorem moved_iterator_releases_table:
  assumes "handle_env A" and "reach (ref_start B S) (ref_en A) (ref_step A) tr s"
    and "map_of (rp_vars s) y = Some (HIter i)" and "it_L i" and "0 \<le> it_value i" and "0 \<le> it_table i"
    and "map_of (rp_vars s) z = Some (HRef r)" and "ref_L r" and "m_ref r = it_table i" and "fresh_var x s"
  shows "\<exists>s'. bind_x (ref_do A (MoveTo x y) s) (ref_do A (Destroy x)) = ret s' \<and>
    map_of (rp_vars s') z = Some (HRef r) \<and> refs (rp_lua s') (m_ref r) = SNil \<and>
    refs (rp_lua s') (it_value i) \<noteq> SNil \<and> it_value i \<notin> set (all_owned (rp_vars s'))"
proof -
  from handle_env.reach_owned [OF assms(1,2)] have inv: "rp_inv B s" by simp
  let ?F = "all_owned (AList.delete y (rp_vars s))"
  let ?g = "i\<lparr>it_key := LUA_NOREF, it_value := LUA_NOREF\<rparr>"
  let ?s1 = "s\<lparr>rp_vars := (x, HIter \<lparr>it_L = it_L i, it_table = it_table i, it_key = it_key i, it_value = it_table i\<rparr>)
      # put y (HIter ?g) (rp_vars s)\<rparr>"
  let ?L = "luaL_unref (it_table i) (luaL_unref (it_key i) (rp_lua s))"
  let ?s2 = "\<lparr>rp_vars = AList.delete x (rp_vars ?s1), rp_lua = ?L\<rparr>"
  from assms(10) have x: "x \<notin> fst ` set (rp_vars s)" by (simp add: fresh_var_def map_of_eq_None_iff)
  from assms(3,7) have zy: "z \<noteq> y" by auto
  from assms(3,7,10) have xyz: "x \<noteq> y" "x \<noteq> z" by (auto simp: fresh_var_def)
  from owns_all_but [OF inv assms(3)] assms(4,5)
  have own: "distinct (pos (it_key i) @ [it_value i] @ ?F)" "refs (rp_lua s) (it_value i) \<noteq> SNil"
    by (simp_all add: owns_beside_def owns_def pos_def)
  have z: "m_ref r \<in> set ?F" using owned_elsewhere [of z y "rp_vars s" "HRef r"] assms(6-9) zy by (simp add: pos_def)
  have step1: "ref_do A (MoveTo x y) s = ret ?s1" using assms(3) by (simp add: LuaTableIterator_move_def)
  have step2: "ref_do A (Destroy x) ?s1 = ret ?s2" using assms(4) by (simp add: LuaTableIterator_delete_def)
  have vars: "rp_vars ?s2 = put y (HIter ?g) (rp_vars s)" using x xyz(1) delete_twist [of x y "rp_vars s"]
    by (simp add: put_def)
  have "map_of (rp_vars ?s2) z = Some (HRef r)" unfolding vars using assms(7) zy by (simp add: map_of_put)
  moreover have "refs (rp_lua ?s2) (m_ref r) = SNil" using assms(6,9) by (simp add: luaL_unref_def)
  moreover have "it_value i \<notin> set (all_owned (rp_vars ?s2))" unfolding vars using own(1) assms(4) by (simp add: put_def)
  moreover have "refs (rp_lua ?s2) (it_value i) \<noteq> SNil"
    using own z assms(9) by (auto simp: luaL_unref_def pos_def split: if_splits)
  ultimately show ?thesis using step1 step2 by auto
qed


lemma raw_get_table: "raw_get H (STab n) = t_get (tables H n)"
  by (rule ext) (simp add: raw_get_def)

lemma demo_order_single: "v \<noteq> SNil \<Longrightarrow> demo_order ((\<lambda>k. SNil)(k := v)) = [k]"
proof -
  assume v: "v \<noteq> SNil"
  have one: "distinct ks \<and> set ks = {x. ((\<lambda>k. SNil)(k := v)) x \<noteq> SNil} \<longleftrightarrow> ks = [k]" for ks
  proof -
    have "{x. ((\<lambda>k. SNil)(k := v)) x \<noteq> SNil} = {k}" using v by auto
    moreover have "distinct ks \<and> set ks = {k} \<longleftrightarrow> ks = [k]"
      by (cases ks rule: remdups_adj.cases) auto
    ultimately show ?thesis by simp
  qed
  show ?thesis unfolding demo_order_def one by simp
qed

lemma demo_iterator_run:
  "case exec (ref_en demo_api) (ref_step demo_api) [NewValue 0 (STab 0), RawSet 0 (SStr ''a'') (SNum 7), Begin 1 0] empty_prog of
     None \<Rightarrow> False
   | Some (tr, s) \<Rightarrow> map_of (rp_vars s) 0 = Some (HRef \<lparr>ref_L = True, m_ref = 1\<rparr>) \<and>
       map_of (rp_vars s) 1 = Some (HIter \<lparr>it_L = True, it_table = 1, it_key = 3, it_value = 2\<rparr>) \<and> fresh_var 2 s"
  by (simp add: run_refs LuaRef_begin_def LuaTableIterator_new_def LuaTableIterator_next_def lua_next_def next_entry_def
    as_iter_def raw_get_table demo_order_single)

theorem moved_iterator_releases_table_witness:
  "\<exists>s s'. bind_x (ref_do demo_api (MoveTo 2 1) s) (ref_do demo_api (Destroy 2)) = ret s' \<and>
     map_of (rp_vars s') 0 = Some (HRef \<lparr>ref_L = True, m_ref = 1\<rparr>) \<and> refs (rp_lua s') 1 = SNil"
proof -
  from demo_iterator_run obtain tr s where
    run: "exec (ref_en demo_api) (ref_step demo_api) [NewValue 0 (STab 0), RawSet 0 (SStr ''a'') (SNum 7), Begin 1 0] empty_prog
      = Some (tr, s)" and
    s: "map_of (rp_vars s) 0 = Some (HRef \<lparr>ref_L = True, m_ref = 1\<rparr>) \<and>
       map_of (rp_vars s) 1 = Some (HIter \<lparr>it_L = True, it_table = 1, it_key = 3, it_value = 2\<rparr>) \<and> fresh_var 2 s"
    by (rule run_caseE)
  have r: "reach (ref_start no_refs []) (ref_en demo_api) (ref_step demo_api) tr s"
    by (rule exec_reach [where start = "ref_start no_refs []", OF empty_prog_start run])
  from s have y: "map_of (rp_vars s) 1 = Some (HIter \<lparr>it_L = True, it_table = 1, it_key = 3, it_value = 2\<rparr>)"
    and z: "map_of (rp_vars s) 0 = Some (HRef \<lparr>ref_L = True, m_ref = 1\<rparr>)" and x: "fresh_var 2 s" by blast+
  from moved_iterator_releases_table [OF demo_handles.handle_env_axioms r y _ _ _ z _ _ x]
  show ?thesis by auto
qed

end
