(* ===== verification/Lua_Iteration.thy ===== *)
theory Lua_Iteration
  imports Lua_Handles
begin

text \<open>
  The loop \<^verbatim>\<open>for (auto& entry : ref)\<close> over a table, by the iterators of \<^verbatim>\<open>LuaRef.h\<close>, as \<^verbatim>\<open>pb/MessageSetter.cpp\<close>
  uses it: it visits each entry of the table once and leaves the registry and the stack as they were.
\<close>

section \<open>Definitions\<close>

text \<open>
  The body fetches the key and the value as \<^verbatim>\<open>LuaRef\<close>s, which end with it. What else a body does is left out; the Lua manual
  allows it everything but new keys of the table. The loop has fuel; the number of entries is
  enough.
\<close>

fun range_for ::
  "lua_api \<Rightarrow> nat \<Rightarrow> LuaTableIterator \<Rightarrow> LuaTableIterator \<Rightarrow> lua_State \<Rightarrow> ((slot \<times> slot) list \<times> LuaTableIterator \<times> lua_State) exn"
where
  "range_for A 0 it fin L = Abort ''out of fuel''"
| "range_for A (Suc n) it fin L =
     (let (eq, L1) = LuaTableIterator_eq it fin L
      in if eq then ret ([], it, L1)
         else bind_x (LuaTableIterator_key A it L1) (\<lambda>(k, L2).
           bind_x (LuaTableIterator_value A it L2) (\<lambda>(v, L3).
             let entry = (refs L3 (m_ref k), refs L3 (m_ref v));
                 L4 = LuaRef_delete k (LuaRef_delete v L3)
             in bind_x (LuaTableIterator_next A it L4) (\<lambda>(it', L5).
                  bind_x (range_for A n it' fin L5) (\<lambda>(es, it'', L6). ret (entry # es, it'', L6))))))"

definition LuaRef_each :: "lua_api \<Rightarrow> nat \<Rightarrow> LuaRef \<Rightarrow> lua_State \<Rightarrow> ((slot \<times> slot) list \<times> lua_State) exn" where
  "LuaRef_each A n r L =
     bind_x (LuaRef_begin A r L) (\<lambda>(it, L1). bind_x (LuaRef_end A r L1) (\<lambda>(fin, L2).
       bind_x (range_for A n it fin L2) (\<lambda>(es, it', L3).
         ret (es, LuaTableIterator_delete it' (LuaTableIterator_delete fin L3)))))"

section \<open>Where an iterator is\<close>

lemma tl_dropWhile_nth: "distinct ks \<Longrightarrow> j < length ks \<Longrightarrow> tl (dropWhile (\<lambda>x. x \<noteq> ks ! j) ks) = drop (Suc j) ks"
proof (induction ks arbitrary: j)
  case (Cons k ks)
  then show ?case by (cases j) auto
qed simp

lemma next_entry_drop:
  assumes "distinct (api_order A t)" "SNil \<notin> set (api_order A t)"
  shows "next_entry A t SNil = (case api_order A t of [] \<Rightarrow> None | k # ks \<Rightarrow> Some k)"
    "j < length (api_order A t) \<Longrightarrow>
       next_entry A t (api_order A t ! j) = (case drop (Suc j) (api_order A t) of [] \<Rightarrow> None | k # ks \<Rightarrow> Some k)"
proof -
  show "next_entry A t SNil = (case api_order A t of [] \<Rightarrow> None | k # ks \<Rightarrow> Some k)"
    by (simp add: next_entry_def Let_def)
  assume j: "j < length (api_order A t)"
  then have "api_order A t ! j \<noteq> SNil" using assms(2) by (metis nth_mem)
  with tl_dropWhile_nth [OF assms(1) j]
  show "next_entry A t (api_order A t ! j) = (case drop (Suc j) (api_order A t) of [] \<Rightarrow> None | k # ks \<Rightarrow> Some k)"
    by (simp add: next_entry_def Let_def)
qed

lemma luaL_ref_keeps:
  assumes "refs_ok A" "owns_beside B W F (refs L) ns" "refs L m \<noteq> SNil"
  shows "refs (snd (luaL_ref A L)) m = refs L m"
proof -
  from assms(2) have "finite {n. refs L n \<noteq> SNil}" unfolding owns_beside_def by (blast intro: owns_finite)
  with assms(1,3) show ?thesis unfolding refs_ok_def by (auto simp: luaL_ref_def Let_def)
qed

lemma luaL_ref_nonneg: "refs_ok A \<Longrightarrow> owns_beside B W F (refs L) ns \<Longrightarrow> at L (- 1) \<noteq> SNil \<Longrightarrow> 0 \<le> fst (luaL_ref A L)"
proof -
  assume A: "refs_ok A" and own: "owns_beside B W F (refs L) ns" and v: "at L (- 1) \<noteq> SNil"
  from own have "finite {n. refs L n \<noteq> SNil}" unfolding owns_beside_def by (blast intro: owns_finite)
  with A v show ?thesis unfolding refs_ok_def by (auto simp: luaL_ref_def Let_def less_imp_le)
qed

text \<open>One step of an iterator over the table \<open>t\<close> that the reference \<open>n\<close> in \<open>F\<close> refers to.\<close>

lemma next_value:
  assumes A: "refs_ok A" and i: "it_L i" "it_table i = n" and n: "n \<in> set F" "W n = STab a"
    and own: "owns_beside B W F (refs L) (owned (HIter i))" and t: "t = t_get (tables (heap L) a)"
    and nonnil: "\<And>k. next_entry A t (refs L (it_key i)) = Some k \<Longrightarrow> k \<noteq> SNil \<and> t k \<noteq> SNil"
  shows "\<exists>i' L'. LuaTableIterator_next A i L = ret (i', L') \<and> stack L' = stack L \<and> heap L' = heap L \<and> it_L i' \<and>
     it_table i' = n \<and> owns_beside B W F (refs L') (owned (HIter i')) \<and>
     (case next_entry A t (refs L (it_key i)) of
        None \<Rightarrow> it_key i' = LUA_NOREF \<and> it_value i' = LUA_NOREF
      | Some k \<Rightarrow> 0 \<le> it_key i' \<and> refs L' (it_key i') = k \<and> refs L' (it_value i') = t k)"
proof -
  let ?L0 = "rawgeti_registry (it_key i) (rawgeti_registry (it_table i) L)"
  let ?L1 = "luaL_unref (it_value i) (luaL_unref (it_key i) ?L0)"
  have own1: "owns_beside B W F (refs ?L1) []" using own i by (intro owns_luaL_unref) simp
  have tab: "raw_get (heap ?L1) (at ?L1 (- 2)) = t"
    using own n i t by (simp add: owns_beside_def at_def raw_get_table)
  have key: "at ?L1 (- 1) = refs L (it_key i)" by (simp add: at_def)
  show ?thesis
  proof (cases "next_entry A t (refs L (it_key i))")
    case None
    let ?i = "i\<lparr>it_value := LUA_NOREF, it_key := LUA_NOREF\<rparr>"
    have "LuaTableIterator_next A i L = ret (?i, lua_pop 1 (?L1\<lparr>stack := tl (stack ?L1)\<rparr>))"
      using i None tab key by (simp add: LuaTableIterator_next_def lua_next_def)
    with own1 None i show ?thesis by simp
  next
    case (Some k)
    from nonnil [OF Some] have k: "k \<noteq> SNil" "t k \<noteq> SNil" by simp_all
    let ?L2 = "?L1\<lparr>stack := t k # k # tl (stack ?L1)\<rparr>"
    let ?v = "luaL_ref A ?L2"
    let ?k = "luaL_ref A (snd ?v)"
    let ?i = "i\<lparr>it_value := fst ?v, it_key := fst ?k\<rparr>"
    have "LuaTableIterator_next A i L = ret (?i, lua_pop 1 (snd ?k))"
      using i Some tab key by (simp add: LuaTableIterator_next_def lua_next_def case_prod_unfold Let_def)
    moreover have own2: "owns_beside B W F (refs ?L2) []" using own1 by simp
    moreover from own2 have own3: "owns_beside B W F (refs (snd ?v)) (pos (fst ?v) @ [])" by (rule owns_luaL_ref [OF A])
    moreover from own3 have "owns_beside B W F (refs (snd ?k)) (pos (fst ?k) @ pos (fst ?v) @ [])" by (rule owns_luaL_ref [OF A])
    moreover from luaL_ref_value [OF A own2] have val: "refs (snd ?v) (fst ?v) = t k" by (simp add: at_def)
    moreover from luaL_ref_keeps [OF A own3, of "fst ?v"] val k have "refs (snd ?k) (fst ?v) = t k" by simp
    moreover from luaL_ref_value [OF A own3] have "refs (snd ?k) (fst ?k) = k" by (simp add: at_def)
    moreover from luaL_ref_nonneg [OF A own3] k have "0 \<le> fst ?k" by (simp add: at_def)
    ultimately show ?thesis using i Some by simp
  qed
qed


text \<open>Fetching a key or a value as a \<^verbatim>\<open>LuaRef\<close> and releasing it leaves the state as it was.\<close>

lemma fetch_ref:
  assumes A: "refs_ok A" and fin: "finite {n. refs L n \<noteq> SNil}" and v: "refs L n \<noteq> SNil"
  obtains m where "pop_LuaRef A (rawgeti_registry n L) = (\<lparr>ref_L = True, m_ref = m\<rparr>, L\<lparr>refs := (refs L)(m := refs L n)\<rparr>)"
    "refs L m = SNil" "0 < m"
proof (rule that [of "api_newref A (refs L)"])
  show "pop_LuaRef A (rawgeti_registry n L) =
    (\<lparr>ref_L = True, m_ref = api_newref A (refs L)\<rparr>, L\<lparr>refs := (refs L)(api_newref A (refs L) := refs L n)\<rparr>)"
    using v by (simp add: pop_LuaRef_def LuaRef_at_def lua_pushvalue_def luaL_ref_def Let_def lua_pop_def)
      (simp add: push_def rawgeti_registry_def)
qed (use A fin in \<open>auto simp: refs_ok_def\<close>)

lemma unref_new: "refs L m = SNil \<Longrightarrow> 0 < m \<Longrightarrow> luaL_unref m (L\<lparr>refs := (refs L)(m := v)\<rparr>) = L"
  by (simp add: luaL_unref_def fun_upd_idem)

lemma loop_body:
  assumes A: "refs_ok A" and own: "owns_beside B W F (refs L) ns" and it: "it_L it"
    and k: "refs L (it_key it) \<noteq> SNil" and v: "refs L (it_value it) \<noteq> SNil"
  obtains rk L2 rv L3 where "LuaTableIterator_key A it L = ret (rk, L2)" "LuaTableIterator_value A it L2 = ret (rv, L3)"
    "refs L3 (m_ref rk) = refs L (it_key it)" "refs L3 (m_ref rv) = refs L (it_value it)"
    "LuaRef_delete rk (LuaRef_delete rv L3) = L"
proof -
  from own have fin: "finite {n. refs L n \<noteq> SNil}" unfolding owns_beside_def by (blast intro: owns_finite)
  obtain m where m: "pop_LuaRef A (rawgeti_registry (it_key it) L) =
      (\<lparr>ref_L = True, m_ref = m\<rparr>, L\<lparr>refs := (refs L)(m := refs L (it_key it))\<rparr>)" "refs L m = SNil" "0 < m"
    by (rule fetch_ref [OF A fin k])
  let ?L2 = "L\<lparr>refs := (refs L)(m := refs L (it_key it))\<rparr>"
  have "{n. refs ?L2 n \<noteq> SNil} \<subseteq> insert m {n. refs L n \<noteq> SNil}" by auto
  with fin have fin2: "finite {n. refs ?L2 n \<noteq> SNil}" by (meson finite.insertI finite_subset)
  from m(2) v have same: "refs ?L2 (it_value it) = refs L (it_value it)" by auto
  with v have v2: "refs ?L2 (it_value it) \<noteq> SNil" by simp
  obtain m' where m': "pop_LuaRef A (rawgeti_registry (it_value it) ?L2) =
      (\<lparr>ref_L = True, m_ref = m'\<rparr>, ?L2\<lparr>refs := (refs ?L2)(m' := refs ?L2 (it_value it))\<rparr>)" "refs ?L2 m' = SNil" "0 < m'"
    by (rule fetch_ref [OF A fin2 v2])
  let ?L3 = "?L2\<lparr>refs := (refs ?L2)(m' := refs ?L2 (it_value it))\<rparr>"
  from m'(2) k have neq: "m' \<noteq> m" by auto
  show thesis
  proof (rule that [of "\<lparr>ref_L = True, m_ref = m\<rparr>" ?L2 "\<lparr>ref_L = True, m_ref = m'\<rparr>" ?L3])
    show "LuaTableIterator_key A it L = ret (\<lparr>ref_L = True, m_ref = m\<rparr>, ?L2)"
      using it m(1) by (simp add: LuaTableIterator_key_def)
    show "LuaTableIterator_value A it ?L2 = ret (\<lparr>ref_L = True, m_ref = m'\<rparr>, ?L3)"
      using it m'(1) by (simp add: LuaTableIterator_value_def)
    show "LuaRef_delete \<lparr>ref_L = True, m_ref = m\<rparr> (LuaRef_delete \<lparr>ref_L = True, m_ref = m'\<rparr> ?L3) = L"
      using unref_new [OF m'(2,3), of "refs ?L2 (it_value it)"] unref_new [OF m(2,3), of "refs L (it_key it)"]
      by (simp add: LuaRef_delete_def)
  qed (use neq same in simp_all)
qed

text \<open>The loop from the \<open>j\<close>th entry on.\<close>

definition at_entry :: "lua_api \<Rightarrow> (slot \<Rightarrow> slot) \<Rightarrow> nat \<Rightarrow> LuaTableIterator \<Rightarrow> lua_State \<Rightarrow> bool" where
  "at_entry A t j it L \<longleftrightarrow>
     (if j < length (api_order A t)
      then 0 \<le> it_key it \<and> refs L (it_key it) = api_order A t ! j \<and> refs L (it_value it) = t (api_order A t ! j)
      else it_key it = LUA_NOREF \<and> it_value it = LUA_NOREF)"

lemma range_for_ok:
  assumes A: "refs_ok A" and order: "distinct (api_order A t)" "\<forall>k \<in> set (api_order A t). k \<noteq> SNil \<and> t k \<noteq> SNil"
    and n: "n \<in> set F" "W n = STab a"
    and fin: "it_L fin" "it_table fin = n" "it_key fin = LUA_NOREF"
  shows "it_L it \<Longrightarrow> it_table it = n \<Longrightarrow> t = t_get (tables (heap L) a) \<Longrightarrow> at_entry A t j it L \<Longrightarrow>
     owns_beside B W F (refs L) (owned (HIter it)) \<Longrightarrow> j \<le> length (api_order A t) \<Longrightarrow> length (api_order A t) - j < m \<Longrightarrow>
     \<exists>it' L'. range_for A m it fin L = ret (map (\<lambda>k. (k, t k)) (drop j (api_order A t)), it', L') \<and>
       stack L' = stack L \<and> heap L' = heap L \<and> owns_beside B W F (refs L') (owned (HIter it')) \<and> it_L it'"
proof (induction m arbitrary: it L j)
  case 0
  then show ?case by simp
next
  case (Suc m)
  let ?ks = "api_order A t"
  show ?case
  proof (cases "j < length ?ks")
    case False
    with Suc.prems fin have "LuaTableIterator_eq it fin L = (True, L)" by (simp add: LuaTableIterator_eq_def at_entry_def)
    with False Suc.prems show ?thesis by simp
  next
    case True
    with Suc.prems(4) have pos: "0 \<le> it_key it" "refs L (it_key it) = ?ks ! j" "refs L (it_value it) = t (?ks ! j)"
      by (simp_all add: at_entry_def)
    from True order(2) have j: "?ks ! j \<noteq> SNil" "t (?ks ! j) \<noteq> SNil" by auto
    from pos(1) have neq: "it_key it \<noteq> LUA_NOREF" by (auto simp: LUA_NOREF_def)
    have "refs L LUA_NOREF = SNil" using owns_besideD [OF Suc.prems(5)] by (simp add: LUA_NOREF_def)
    with Suc.prems(1,2) fin pos(2) j(1) j(1) [symmetric] neq have eq: "LuaTableIterator_eq it fin L = (False, L)"
      by (simp add: LuaTableIterator_eq_def lua_rawequal_def at_def lua_pop_def) (simp add: rawgeti_registry_def push_def)
    from pos j have nn: "refs L (it_key it) \<noteq> SNil" "refs L (it_value it) \<noteq> SNil" by simp_all
    obtain rk L2 rv L3 where body: "LuaTableIterator_key A it L = ret (rk, L2)" "LuaTableIterator_value A it L2 = ret (rv, L3)"
      "refs L3 (m_ref rk) = refs L (it_key it)" "refs L3 (m_ref rv) = refs L (it_value it)"
      "LuaRef_delete rk (LuaRef_delete rv L3) = L"
      by (rule loop_body [OF A Suc.prems(5,1) nn])
    have nx: "next_entry A t (refs L (it_key it)) = (case drop (Suc j) ?ks of [] \<Rightarrow> None | k # ks \<Rightarrow> Some k)"
      using order next_entry_drop(2) [OF order(1) _ True] pos(2) by auto
    have "\<And>k. next_entry A t (refs L (it_key it)) = Some k \<Longrightarrow> k \<noteq> SNil \<and> t k \<noteq> SNil"
      using order(2) set_drop_subset [of "Suc j" ?ks] unfolding nx by (auto split: list.splits)
    from next_value [OF A Suc.prems(1,2) n Suc.prems(5,3) this] obtain it' L' where
      step: "LuaTableIterator_next A it L = ret (it', L')" and L': "stack L' = stack L" "heap L' = heap L" "it_L it'"
        "it_table it' = n" "owns_beside B W F (refs L') (owned (HIter it'))" and
      pos': "case next_entry A t (refs L (it_key it)) of None \<Rightarrow> it_key it' = LUA_NOREF \<and> it_value it' = LUA_NOREF
        | Some k \<Rightarrow> 0 \<le> it_key it' \<and> refs L' (it_key it') = k \<and> refs L' (it_value it') = t k"
      by blast
    have at: "at_entry A t (Suc j) it' L'"
    proof (cases "Suc j < length ?ks")
      case True
      then have "drop (Suc j) ?ks = ?ks ! Suc j # drop (Suc (Suc j)) ?ks" by (simp add: Cons_nth_drop_Suc)
      with True pos' show ?thesis by (simp add: nx at_entry_def)
    next
      case False
      with pos' show ?thesis by (simp add: nx at_entry_def)
    qed
    have t': "t = t_get (tables (heap L') a)" using Suc.prems(3) L'(2) by simp
    have m: "length ?ks - Suc j < m" using Suc.prems(7) True by linarith
    from Suc.IH [OF L'(3,4) t' at L'(5) Suc_leI [OF True] m] obtain it'' L'' where
      rest: "range_for A m it' fin L' = ret (map (\<lambda>k. (k, t k)) (drop (Suc j) ?ks), it'', L'')"
        "stack L'' = stack L'" "heap L'' = heap L'" "owns_beside B W F (refs L'') (owned (HIter it''))" "it_L it''"
      by blast
    have "range_for A (Suc m) it fin L = ret (map (\<lambda>k. (k, t k)) (?ks ! j # drop (Suc j) ?ks), it'', L'')"
      using eq body step rest(1) pos(2,3) by simp
    with rest(2-5) L'(1,2) Cons_nth_drop_Suc [OF True] show ?thesis by simp
  qed
qed

section \<open>The whole loop\<close>

text \<open>
  C28: The loop over a table that a live reference refers to visits every entry once, in the order of \<^verbatim>\<open>lua_next\<close>, and
  ends; it leaves the registry, the stack and the table as they were.
\<close>

theorem range_for_visits_all:
  assumes "handle_env A" and "order_ok A" and "reach (ref_start B S) (ref_en A) (ref_step A) tr s"
    and "map_of (rp_vars s) y = Some (HRef r)" and "ref_L r" and "0 \<le> m_ref r"
    and "refs (rp_lua s) (m_ref r) = STab a" and "t = t_get (tables (heap (rp_lua s)) a)"
    and "finite {k. t k \<noteq> SNil}" and "t SNil = SNil" and "card {k. t k \<noteq> SNil} < n"
  shows "\<exists>es L'. LuaRef_each A n r (rp_lua s) = ret (es, L') \<and> distinct (map fst es) \<and>
    set es = {(k, v). t k = v \<and> v \<noteq> SNil} \<and>
    refs L' = refs (rp_lua s) \<and> stack L' = stack (rp_lua s) \<and> heap L' = heap (rp_lua s)"
proof -
  let ?L = "rp_lua s" and ?ks = "api_order A t" and ?W = "refs (rp_lua s)" and ?F = "all_owned (rp_vars s)"
  from assms(1) have A: "refs_ok A" by (rule handle_env.new_references)
  from handle_env.reach_owned [OF assms(1,3)] have inv: "rp_inv B s" by simp
  from assms(2,9,10) have order: "distinct ?ks" "set ?ks = {k. t k \<noteq> SNil}" unfolding order_ok_def by auto
  with assms(10) have order': "\<forall>k \<in> set ?ks. k \<noteq> SNil \<and> t k \<noteq> SNil" by auto
  from all_owned_lookup [OF assms(4)] assms(5,6) have F: "m_ref r \<in> set ?F" by (simp add: pos_def)
  let ?i0 = "\<lparr>it_L = True, it_table = m_ref r, it_key = LUA_NOREF, it_value = LUA_NOREF\<rparr>"
  from inv have own: "owns_beside B ?W ?F (refs ?L) (owned (HIter ?i0))" by (simp add: rp_inv_def owns_beside_def)
  have "refs ?L LUA_NOREF = SNil" using owns_besideD [OF own] by (simp add: LUA_NOREF_def)
  then have nx: "next_entry A t (refs ?L (it_key ?i0)) = (case ?ks of [] \<Rightarrow> None | k # ks \<Rightarrow> Some k)"
    using next_entry_drop(1) [OF order(1)] order' by auto
  have "\<And>k. next_entry A t (refs ?L (it_key ?i0)) = Some k \<Longrightarrow> k \<noteq> SNil \<and> t k \<noteq> SNil"
    using order' unfolding nx by (auto split: list.splits)
  from next_value [OF A _ _ F assms(7) own assms(8) this] obtain it L1 where
    begin1: "LuaTableIterator_next A ?i0 ?L = ret (it, L1)" and L1: "stack L1 = stack ?L" "heap L1 = heap ?L" "it_L it"
      "it_table it = m_ref r" "owns_beside B ?W ?F (refs L1) (owned (HIter it))" and
    pos: "case next_entry A t (refs ?L (it_key ?i0)) of None \<Rightarrow> it_key it = LUA_NOREF \<and> it_value it = LUA_NOREF
      | Some k \<Rightarrow> 0 \<le> it_key it \<and> refs L1 (it_key it) = k \<and> refs L1 (it_value it) = t k"
    by auto
  have "at_entry A t 0 it L1" using pos unfolding nx by (cases ?ks) (simp_all add: at_entry_def)
  moreover have "length ?ks < n" using assms(11) order distinct_card [OF order(1)] by simp
  ultimately obtain it' L' where loop: "range_for A n it ?i0 L1 = ret (map (\<lambda>k. (k, t k)) ?ks, it', L')"
    "stack L' = stack L1" "heap L' = heap L1" "owns_beside B ?W ?F (refs L') (owned (HIter it'))" "it_L it'"
    using range_for_ok [OF A order(1) order' F assms(7) _ _ _ L1(3,4) _ _ L1(5), of ?i0 0 n] assms(8) L1(2) by auto
  let ?L2 = "LuaTableIterator_delete it' L'"
  from handle_delete_ok(2) [of B ?W ?F L' "HIter it'" "[]"] loop(4)
  have fin: "owns_beside B ?W ?F (refs ?L2) []" by simp
  have same: "refs ?L2 = refs ?L"
  proof
    fix m show "refs ?L2 m = refs ?L m"
      using fin inv by (cases "m \<in> set ?F") (auto simp: owns_beside_def owns_def rp_inv_def)
  qed
  have "stack ?L2 = stack ?L" "heap ?L2 = heap ?L"
    using loop(2,3,5) L1(1,2) by (simp_all add: LuaTableIterator_delete_def)
  moreover have "LuaRef_each A n r ?L = ret (map (\<lambda>k. (k, t k)) ?ks, ?L2)"
    using assms(5) begin1 loop(1) by (simp add: LuaRef_each_def LuaRef_begin_def LuaRef_end_def LuaTableIterator_new_def
      LuaTableIterator_delete_def luaL_unref_def LUA_NOREF_def)
  moreover have "distinct (map fst (map (\<lambda>k. (k, t k)) ?ks))" using order(1) by (simp add: comp_def)
  moreover have "set (map (\<lambda>k. (k, t k)) ?ks) = {(k, v). t k = v \<and> v \<noteq> SNil}" using order(2) by auto
  ultimately show ?thesis using same by blast
qed

lemma demo_table_run:
  "case exec (ref_en demo_api) (ref_step demo_api) [NewValue 0 (STab 0), RawSet 0 (SStr ''a'') (SNum 7)] empty_prog of
     None \<Rightarrow> False
   | Some (tr, s) \<Rightarrow> map_of (rp_vars s) 0 = Some (HRef \<lparr>ref_L = True, m_ref = 1\<rparr>) \<and> refs (rp_lua s) 1 = STab 0 \<and>
       t_get (tables (heap (rp_lua s)) 0) = (\<lambda>k. SNil)(SStr ''a'' := SNum 7)"
  by (simp add: run_refs)

theorem range_for_visits_all_witness:
  "\<exists>(s :: ref_prog) es L'. LuaRef_each demo_api 2 \<lparr>ref_L = True, m_ref = 1\<rparr> (rp_lua s) = ret (es, L') \<and> set es = {(SStr ''a'', SNum 7)}"
proof -
  from demo_table_run obtain tr s where
    run: "exec (ref_en demo_api) (ref_step demo_api) [NewValue 0 (STab 0), RawSet 0 (SStr ''a'') (SNum 7)] empty_prog = Some (tr, s)"
    and s: "map_of (rp_vars s) 0 = Some (HRef \<lparr>ref_L = True, m_ref = 1\<rparr>) \<and> refs (rp_lua s) 1 = STab 0 \<and>
       t_get (tables (heap (rp_lua s)) 0) = (\<lambda>k. SNil)(SStr ''a'' := SNum 7)"
    by (rule run_caseE)
  let ?r = "\<lparr>ref_L = True, m_ref = 1\<rparr>" and ?t = "(\<lambda>k. SNil)(SStr ''a'' := SNum 7)"
  have r: "reach (ref_start no_refs []) (ref_en demo_api) (ref_step demo_api) tr s"
    by (rule exec_reach [where start = "ref_start no_refs []", OF empty_prog_start run])
  have t: "{k. ?t k \<noteq> SNil} = {SStr ''a''}" by auto
  have "\<exists>es L'. LuaRef_each demo_api 2 ?r (rp_lua s) = ret (es, L') \<and> distinct (map fst es) \<and>
    set es = {(k, v). ?t k = v \<and> v \<noteq> SNil} \<and>
    refs L' = refs (rp_lua s) \<and> stack L' = stack (rp_lua s) \<and> heap L' = heap (rp_lua s)"
  proof (rule range_for_visits_all [OF demo_handles.handle_env_axioms demo_order_ok r])
    from s show "map_of (rp_vars s) 0 = Some (HRef ?r)" "refs (rp_lua s) (m_ref ?r) = STab 0"
      "?t = t_get (tables (heap (rp_lua s)) 0)" by simp_all
    show "finite {k. ?t k \<noteq> SNil}" "card {k. ?t k \<noteq> SNil} < 2" unfolding t by simp_all
  qed simp_all
  then obtain es L' where e: "LuaRef_each demo_api 2 ?r (rp_lua s) = ret (es, L')" "set es = {(k, v). ?t k = v \<and> v \<noteq> SNil}"
    by blast
  have eq: "{(k, v). ?t k = v \<and> v \<noteq> SNil} = {(SStr ''a'', SNum 7)}" by (auto split: if_splits)
  have es: "set es = {(SStr ''a'', SNum 7)}" by (rule trans [OF e(2) eq])
  from e(1) es show ?thesis by blast
qed

end
