(* ===== verification/Lua_Class.thy ===== *)
theory Lua_Class
  imports Lua_Stack
begin

text \<open>
  \<^verbatim>\<open>lua-intf/LuaIntf/src/CppBindClass.cpp, CppBindModule.cpp, CppObject.cpp\<close> with their headers: C++ classes as Lua
  metatables. A class has three tables: \<^verbatim>\<open>clazz\<close> is the metatable of its objects, \<^verbatim>\<open>clazz_const\<close> of its const objects, and
  \<^verbatim>\<open>clazz_static\<close> is what a script sees under the name of the class. Each is its own metatable, with
  the functions \<open>index\<close> and \<open>newIndex\<close> for fields that it does not have; \<^verbatim>\<open>___super\<close> links it to the tables of the base class.

  A C function starts with its arguments as the only slots of the stack. Functions bound to C++ code are the
  parameter \<open>user\<close>, which takes the function, its arguments and the heap; a \<^verbatim>\<open>LuaRef\<close> is the value that it
  refers to (see \<open>Lua_Handles\<close>). \<^verbatim>\<open>LUAINTF_EXTRA_LUA_FIELDS\<close> is off, as in the makefile.
\<close>

section \<open>Calls\<close>

type_synonym user_call = "slot \<Rightarrow> slot list \<Rightarrow> lua_heap \<Rightarrow> (slot \<times> lua_heap) exn"

text \<open>\<^verbatim>\<open>errorReadOnly\<close> and \<^verbatim>\<open>errorConstMismatch\<close> of \<^verbatim>\<open>CppBindClassMetaMethod\<close> and \<^verbatim>\<open>CppBindModuleMetaMethod\<close>.\<close>

definition quoted :: "string \<Rightarrow> string" where
  "quoted s = CHR 0x27 # s @ [CHR 0x27]"

definition errorReadOnly :: "lua_api \<Rightarrow> string \<Rightarrow> 'a exn" where
  "errorReadOnly A name = luaL_error A (''property '' @ quoted name @ '' is read-only'')"

definition errorConstMismatch :: "lua_api \<Rightarrow> string \<Rightarrow> 'a exn" where
  "errorConstMismatch A name = luaL_error A (''member function '' @ quoted name @ '' can not be access by const object'')"

fun call_slot :: "lua_api \<Rightarrow> user_call \<Rightarrow> user_call" where
  "call_slot A user (SFun (CReadOnly name)) args H = errorReadOnly A name"
| "call_slot A user (SFun (CConstMismatch name)) args H = errorConstMismatch A name"
| "call_slot A user f args H = user f args H"

text \<open>The function lies below its \<open>n\<close> arguments; \<open>r\<close> results are kept, 0 or 1.\<close>

definition lua_call :: "lua_api \<Rightarrow> user_call \<Rightarrow> nat \<Rightarrow> nat \<Rightarrow> lua_State \<Rightarrow> lua_State exn" where
  "lua_call A user n r L = bind_x (call_slot A user (stack L ! n) (rev (take n (stack L))) (heap L)) (\<lambda>(v, H).
     ret (L\<lparr>stack := (if r = 0 then [] else [v]) @ drop (Suc n) (stack L), heap := H\<rparr>))"

text \<open>\<^verbatim>\<open>luaL_optstring(L, -1, "<unknown>")\<close>.\<close>

definition optstring :: "lua_api \<Rightarrow> lua_State \<Rightarrow> string exn" where
  "optstring A L = (if lua_isnil L (-1) then ret ''<unknown>''
     else case lua_tostring A L (-1) of Some s \<Rightarrow> ret s | None \<Rightarrow> luaL_error A ''string expected'')"

definition unfound :: "lua_api \<Rightarrow> string \<Rightarrow> string \<Rightarrow> lua_State \<Rightarrow> 'a exn" where
  "unfound A before after L = bind_x (optstring A L) (\<lambda>t.
     luaL_error A (before @ quoted (t @ ''.'' @ percent_s (lua_tostring A L 2)) @ after))"

section \<open>The metamethods of classes\<close>

text \<open>
  The table or userdata must have a metatable that the registry has under the signature found in it. \<open>verb\<close> is
  \<^verbatim>\<open>get\<close> or \<^verbatim>\<open>set\<close>.
\<close>

definition check_signature :: "lua_api \<Rightarrow> string \<Rightarrow> lua_State \<Rightarrow> lua_State exn" where
  "check_signature A verb L =
     (let L1 = ops [snd \<circ> lua_getmetatable 1, lua_rawgetp (-1) SigObject, rawget_registry] L
      in if \<not> lua_rawequal L1 (-1) (-2)
         then unfound A (''invalid meta table found when try to '' @ verb @ '' property '') ''''
                (ops [push (SStr ''___type''), lua_rawget (-3)] L1)
         else ret (lua_pop 1 L1))"

fun index_loop :: "lua_api \<Rightarrow> user_call \<Rightarrow> nat \<Rightarrow> lua_State \<Rightarrow> lua_State exn" where
  "index_loop A user 0 L = Abort ''out of fuel''"
| "index_loop A user (Suc n) L =
     (let L1 = ops [lua_pushvalue 2, lua_rawget (-2)] L
      in if \<not> lua_isnil L1 (-1) then ret L1
         else
          (let L2 = lua_pop 1 L1;
               L3 = ops [push (SStr ''___get_indexed''), lua_rawget (-2)] L2
           in if lua_isnumber A L 2 \<and> \<not> lua_isnil L3 (-1)
              then assert_o (lua_iscfunction L3 (-1)) ''lua_iscfunction(L, -1)''
                     (lua_call A user 2 1 (ops [lua_pushvalue 1, lua_pushvalue 2] L3))
              else
               (let L4 = ops [push (SStr ''___getters''), lua_rawget (-2)] L2
                in assert_o (lua_istable L4 (-1)) ''lua_istable(L, -1)''
                    (let L5 = ops [lua_pushvalue 2, lua_rawget (-2)] L4
                     in if \<not> lua_isnil L5 (-1)
                        then (if lua_iscfunction L5 (-1)
                              then (if lua_isuserdata L5 1 then lua_call A user 1 1 (lua_pushvalue 1 L5)
                                    else assert_o (lua_istable L5 1) ''lua_istable(L, 1)'' (lua_call A user 0 1 L5))
                              else ret L5)
                        else
                         (let L6 = ops [lua_pop 2, push (SStr ''___super''), lua_rawget (-2)] L5
                          in if lua_isnil L6 (-1) then ret L6
                             else assert_o (lua_istable L6 (-1)) ''lua_istable(L, -1)''
                                    (index_loop A user n (lua_remove (-2) L6)))))))"

text \<open>\<^verbatim>\<open>CppBindClassMetaMethod::index\<close> of an object or table and a key: its result and the heap after it.\<close>

definition CppBindClass_index :: "lua_api \<Rightarrow> user_call \<Rightarrow> nat \<Rightarrow> slot \<Rightarrow> slot \<Rightarrow> lua_State \<Rightarrow> (slot \<times> lua_heap) exn" where
  "CppBindClass_index A user n obj key L =
     bind_x (check_signature A ''get'' (L\<lparr>stack := [key, obj]\<rparr>)) (\<lambda>L1.
       bind_x (index_loop A user n L1) (\<lambda>L2. ret (at L2 (-1), heap L2)))"

fun newIndex_loop :: "lua_api \<Rightarrow> user_call \<Rightarrow> nat \<Rightarrow> lua_State \<Rightarrow> lua_State exn" where
  "newIndex_loop A user 0 L = Abort ''out of fuel''"
| "newIndex_loop A user (Suc n) L =
     (let L1 = ops [push (SStr ''___set_indexed''), lua_rawget (-2)] L
      in if lua_isnumber A L 2 \<and> \<not> lua_isnil L1 (-1)
         then assert_o (lua_iscfunction L1 (-1)) ''lua_iscfunction(L, -1)''
                (lua_call A user 3 0 (ops [lua_pushvalue 1, lua_pushvalue 2, lua_pushvalue 3] L1))
         else
          (let L2 = ops [push (SStr ''___setters''), lua_rawget (-2)] L
           in assert_o (lua_istable L2 (-1)) ''lua_istable(L, -1)''
               (let L3 = ops [lua_pushvalue 2, lua_rawget (-2)] L2
                in if lua_iscfunction L3 (-1)
                   then (if lua_isuserdata L3 1
                         then lua_call A user 2 0 (ops [lua_pushvalue 1, lua_pushvalue 3] L3)
                         else assert_o (lua_istable L3 1) ''lua_istable(L, 1)''
                                (lua_call A user 1 0 (lua_pushvalue 3 L3)))
                   else assert_o (lua_isnil L3 (-1)) ''lua_isnil(L, -1)''
                    (let L4 = ops [lua_pop 2, push (SStr ''___super''), lua_rawget (-2)] L3
                     in if lua_isnil L4 (-1)
                        then unfound A ''property '' '' is not found or not writable''
                               (ops [push (SStr ''___type''), lua_rawget (-3)] L4)
                        else assert_o (lua_istable L4 (-1)) ''lua_istable(L, -1)''
                               (newIndex_loop A user n (lua_remove (-2) L4))))))"

definition CppBindClass_newIndex :: "lua_api \<Rightarrow> user_call \<Rightarrow> nat \<Rightarrow> slot \<Rightarrow> slot \<Rightarrow> slot \<Rightarrow> lua_State \<Rightarrow> lua_heap exn" where
  "CppBindClass_newIndex A user n obj key v L =
     bind_x (check_signature A ''set'' (L\<lparr>stack := [v, key, obj]\<rparr>)) (\<lambda>L1.
       bind_x (newIndex_loop A user n L1) (\<lambda>L2. ret (heap L2)))"

declare index_loop.simps(2) [simp del] newIndex_loop.simps(2) [simp del]

section \<open>The metamethods of modules\<close>

definition CppBindModule_index :: "lua_api \<Rightarrow> user_call \<Rightarrow> slot \<Rightarrow> slot \<Rightarrow> lua_State \<Rightarrow> (slot \<times> lua_heap) exn" where
  "CppBindModule_index A user obj key L =
     (let L1 = ops [snd \<circ> lua_getmetatable 1, lua_pushvalue 2, lua_rawget (-2)] (L\<lparr>stack := [key, obj]\<rparr>)
      in if \<not> lua_isnil L1 (-1) then ret (at L1 (-1), heap L1)
         else
          (let L2 = ops [lua_pop 1, push (SStr ''___getters''), lua_rawget (-2)] L1
           in assert_o (lua_istable L2 (-1)) ''lua_istable(L, -1)''
               (let L3 = ops [lua_pushvalue 2, lua_rawget (-2)] L2
                in if lua_iscfunction L3 (-1)
                   then bind_x (lua_call A user 0 1 L3) (\<lambda>L4. ret (at L4 (-1), heap L4))
                   else ret (at L3 (-1), heap L3))))"

definition CppBindModule_newIndex :: "lua_api \<Rightarrow> user_call \<Rightarrow> slot \<Rightarrow> slot \<Rightarrow> slot \<Rightarrow> lua_State \<Rightarrow> lua_heap exn" where
  "CppBindModule_newIndex A user obj key v L =
     (let L1 = ops [snd \<circ> lua_getmetatable 1, push (SStr ''___setters''), lua_rawget (-2)] (L\<lparr>stack := [v, key, obj]\<rparr>)
      in assert_o (lua_istable L1 (-1)) ''lua_istable(L, -1)''
          (let L2 = ops [lua_pushvalue 2, lua_rawget (-2)] L1
           in if lua_iscfunction L2 (-1)
              then bind_x (lua_call A user 1 0 (lua_pushvalue 3 L2)) (\<lambda>L3. ret (heap L3))
              else assert_o (lua_isnil L2 (-1)) ''lua_isnil(L, -1)'' (ret (heap (ops [lua_pop 3, lua_rawset 1] L2)))))"

section \<open>Objects\<close>

definition luaL_typename :: "slot \<Rightarrow> string" where
  "luaL_typename v = (case slot_type v of
     NONE \<Rightarrow> ''no value'' | NIL \<Rightarrow> ''nil'' | STRING \<Rightarrow> ''string'' | NUMBER \<Rightarrow> ''number''
   | THREAD \<Rightarrow> ''thread'' | BOOLEAN \<Rightarrow> ''boolean'' | FUNCTION \<Rightarrow> ''function'' | TABLE \<Rightarrow> ''table''
   | USERDATA \<Rightarrow> ''userdata'' | LIGHTUSERDATA \<Rightarrow> ''userdata'')"

definition typeMismatchError :: "lua_api \<Rightarrow> int \<Rightarrow> lua_State \<Rightarrow> 'a exn" where
  "typeMismatchError A index L =
     (let L1 = ops [push (SStr ''___type''), lua_rawget (-3)] L;
          expected = lua_tostring A L1 (-1);
          L2 = ops [push (SStr ''___type''), lua_rawget (-3)] L1;
          actual = (case lua_tostring A L2 (-1) of Some s \<Rightarrow> s | None \<Rightarrow> luaL_typename (at L2 index))
      in luaL_error A (percent_s expected @ '' expected, got '' @ actual))"

fun getObject_loop :: "lua_api \<Rightarrow> nat \<Rightarrow> int \<Rightarrow> bool \<Rightarrow> bool \<Rightarrow> lua_State \<Rightarrow> (slot option \<times> lua_State) exn" where
  "getObject_loop A 0 index is_exact raise_error L = Abort ''out of fuel''"
| "getObject_loop A (Suc n) index is_exact raise_error L =
     (if lua_rawequal L (-1) (-2) then (let L1 = lua_pop 2 L in ret (Some (at L1 index), L1))
      else if is_exact then (if raise_error then typeMismatchError A index L else ret (None, lua_pop 2 L))
      else
       (let L1 = ops [push (SStr ''___super''), lua_rawget (-2)] L
        in if lua_isnil L1 (-1)
           then (if raise_error then typeMismatchError A index (lua_pop 1 L1) else ret (None, lua_pop 3 L1))
           else getObject_loop A n index is_exact raise_error (lua_remove (-2) L1)))"

definition unknown_class :: string where
  "unknown_class = ''unknown class, you need to register this class with lua-intf first by using LuaBinding''"

text \<open>
  \<^verbatim>\<open>CppObject::getObject\<close>: the userdata at an index of the stack, if it is of the class, or null. The result of
  \<^verbatim>\<open>lua_getmetatable\<close> is not looked at.
\<close>

definition CppObject_getObject ::
  "lua_api \<Rightarrow> nat \<Rightarrow> int \<Rightarrow> ptr \<Rightarrow> bool \<Rightarrow> bool \<Rightarrow> bool \<Rightarrow> lua_State \<Rightarrow> (slot option \<times> lua_State) exn" where
  "CppObject_getObject A n index0 class_id is_const is_exact raise_error L =
     (if \<not> lua_isuserdata L index0
      then (if raise_error then luaL_error A (''expect userdata, got '' @ luaL_typename (at L index0)) else ret (None, L))
      else
       (let index = (if index0 < 0 then int (length (stack L)) + index0 + 1 else index0);
            L1 = rawgetp_registry class_id L
        in if \<not> lua_istable L1 (-1)
           then (if raise_error then luaL_error A unknown_class else ret (None, lua_pop 1 L1))
           else
            (let L2 = snd (lua_getmetatable index L1)
             in if is_const \<and> \<not> is_exact
                then
                 (let L3 = ops [push (SStr ''___const''), lua_rawget (-2), lua_remove (-2)] L2
                  in if \<not> lua_istable L3 (-1)
                     then (if raise_error then luaL_error A unknown_class else ret (None, lua_pop 2 L3))
                     else getObject_loop A n index is_exact raise_error L3)
                else getObject_loop A n index is_exact raise_error L2)))"

text \<open>\<^verbatim>\<open>CppObject::getClassID\<close>, and the userdata that \<^verbatim>\<open>pushToStack\<close> makes of an object.\<close>

definition getClassID :: "nat \<Rightarrow> bool \<Rightarrow> ptr" where
  "getClassID T is_const = (if is_const then SigConst T else SigClass T)"

definition new_udata :: "slot \<Rightarrow> nat \<Rightarrow> lua_heap \<Rightarrow> slot \<times> lua_heap" where
  "new_udata mt obj H = (SUser (next_udata H),
     H\<lparr>udatas := (udatas H)(next_udata H := \<lparr>u_meta = mt, u_object = obj\<rparr>), next_udata := Suc (next_udata H)\<rparr>)"

definition CppObject_allocate :: "lua_api \<Rightarrow> ptr \<Rightarrow> nat \<Rightarrow> lua_State \<Rightarrow> lua_State exn" where
  "CppObject_allocate A class_id obj L =
     (if slot_type (ptrs L class_id) \<noteq> TABLE then luaL_error A ''table expected''
      else (let (u, H) = new_udata (ptrs L class_id) obj (heap L) in ret (push u (L\<lparr>heap := H\<rparr>))))"

end
