(* ===== verification/Lua_Binding.thy ===== *)
theory Lua_Binding
  imports Lua_Class
begin

text \<open>
  \<^verbatim>\<open>lua-intf/LuaIntf/impl/CppBindClass.h, CppBindModule.h\<close> with their sources: how \<^verbatim>\<open>LuaBinding(mod).beginClass<T>(...)\<close>
  builds the metatables and the functions of \<open>Lua_Class\<close> find in them what was bound. A \<^verbatim>\<open>LuaRef\<close> is the value that it refers
  to; the functions pass on the Lua state, of which only the heap and the registry change. A bound C++ function,
  closure or pointer is a function \<open>CBound n\<close> or another value of the caller's.
\<close>

section \<open>Raw access\<close>

definition rawset :: "slot \<Rightarrow> slot \<Rightarrow> slot \<Rightarrow> lua_State \<Rightarrow> lua_State" where
  "rawset t k v L = L\<lparr>heap := raw_set t k v (heap L)\<rparr>"

definition rawset_new :: "slot \<Rightarrow> slot \<Rightarrow> lua_State \<Rightarrow> lua_State" where
  "rawset_new t k L = (let (v, H) = new_table (heap L) in L\<lparr>heap := raw_set t k v H\<rparr>)"

definition rawget :: "lua_State \<Rightarrow> slot \<Rightarrow> string \<Rightarrow> slot" where
  "rawget L t k = raw_get (heap L) t (SStr k)"

section \<open>Names\<close>

text \<open>What is between the first \<^verbatim>\<open><\<close> and the last \<^verbatim>\<open>>\<close>.\<close>

definition erase_to_lt :: "string \<Rightarrow> string" where
  "erase_to_lt s = (case dropWhile (\<lambda>c. c \<noteq> CHR ''<'') s of [] \<Rightarrow> s | _ # r \<Rightarrow> r)"

definition erase_from_gt :: "string \<Rightarrow> string" where
  "erase_from_gt s = (case dropWhile (\<lambda>c. c \<noteq> CHR ''>'') (rev s) of [] \<Rightarrow> s | _ # r \<Rightarrow> rev r)"

definition getFullName :: "lua_api \<Rightarrow> slot \<Rightarrow> string \<Rightarrow> lua_State \<Rightarrow> (string \<times> lua_State) exn" where
  "getFullName A parent name L = bind_x (api_get A parent (SStr ''___type'') (heap L)) (\<lambda>(t, H).
     bind_x (if t = SNil then ret '''' else case slot_string A t of Some s \<Rightarrow> ret s | None \<Rightarrow> luaL_error A ''string expected'') (\<lambda>s.
       ret ((if s \<noteq> '''' then erase_from_gt (erase_to_lt s) @ ''.'' else '''') @ name, L\<lparr>heap := H\<rparr>)))"

definition getMemberName :: "lua_api \<Rightarrow> slot \<Rightarrow> string \<Rightarrow> lua_State \<Rightarrow> string exn" where
  "getMemberName A parent name L =
     bind_x (let t = rawget L parent ''___type'' in if t = SNil then ret ''<unknown>''
       else case slot_string A t of Some s \<Rightarrow> ret s | None \<Rightarrow> luaL_error A ''string expected'') (\<lambda>s.
     ret (s @ ''.'' @ name))"

section \<open>Metatables of classes\<close>

text \<open>A table that is its own metatable, with the fields that the three tables of a class have in common.\<close>

definition new_meta :: "string \<Rightarrow> lua_State \<Rightarrow> slot \<times> lua_State" where
  "new_meta type_name L =
     (let (m, H) = new_table (heap L)
      in (m, ops [\<lambda>L. L\<lparr>heap := set_meta m m (heap L)\<rparr>,
                  rawset m (SStr ''__index'') (SFun CClassIndex), rawset m (SStr ''__newindex'') (SFun CClassNewIndex),
                  rawset_new m (SStr ''___getters''), rawset_new m (SStr ''___setters''),
                  rawset m (SStr ''___type'') (SStr type_name)] (L\<lparr>heap := H\<rparr>)))"

definition register_ptr :: "ptr \<Rightarrow> slot \<Rightarrow> lua_State \<Rightarrow> lua_State" where
  "register_ptr p v L = L\<lparr>ptrs := (ptrs L)(p := v)\<rparr>"

text \<open>True if the class is new, false if the parent has something under the name already.\<close>

definition buildMetaTable :: "lua_api \<Rightarrow> slot \<Rightarrow> string \<Rightarrow> nat \<Rightarrow> lua_State \<Rightarrow> (bool \<times> slot \<times> lua_State) exn" where
  "buildMetaTable A parent name T L =
     (if rawget L parent name \<noteq> SNil then ret (False, rawget L parent name, L)
      else bind_x (getFullName A parent name L) (\<lambda>(full, L0).
        let type_name = ''class<'' @ full @ ''>'';
            (clazz_const, L1) = new_meta (''const_'' @ type_name) L0;
            L2 = ops [rawset clazz_const (SStr ''___const'') clazz_const, rawset clazz_const (SPtr SigObject) (SPtr (SigConst T))] L1;
            (clazz, L3) = new_meta type_name L2;
            L4 = ops [rawset clazz (SStr ''___const'') clazz_const, rawset clazz (SPtr SigObject) (SPtr (SigClass T))] L3;
            (clazz_static, L5) = new_meta (''static_'' @ type_name) L4
        in ret (True, clazz_static,
          ops [rawset clazz_static (SStr ''___class'') clazz, rawset clazz_static (SStr ''___const'') clazz_const,
               rawset clazz_static (SStr ''___parent'') parent, rawset clazz_static (SPtr SigObject) (SPtr (SigStatic T)),
               rawset clazz_const (SStr ''class'') clazz_static, rawset clazz (SStr ''class'') clazz_static,
               register_ptr (SigClass T) clazz, register_ptr (SigConst T) clazz_const,
               register_ptr (SigStatic T) clazz_static, rawset parent (SStr name) clazz_static] L5)))"

text \<open>The variant for a class with a base class \<open>S\<close>.\<close>

definition buildMetaTable_super :: "lua_api \<Rightarrow> slot \<Rightarrow> string \<Rightarrow> nat \<Rightarrow> nat \<Rightarrow> lua_State \<Rightarrow> (bool \<times> slot \<times> lua_State) exn" where
  "buildMetaTable_super A parent name T S L =
     bind_x (buildMetaTable A parent name T L) (\<lambda>(new, meta, L1).
       if \<not> new then ret (False, meta, L1)
       else
        (let super = ptrs L1 (SigStatic S)
         in ret (True, meta, ops
             [rawset meta (SStr ''___super'') super,
              \<lambda>L. rawset (rawget L meta ''___class'') (SStr ''___super'') (rawget L super ''___class'') L,
              \<lambda>L. rawset (rawget L meta ''___const'') (SStr ''___super'') (rawget L super ''___const'') L] L1)))"

section \<open>Downcasts\<close>

text \<open>
  \<^verbatim>\<open>LUAINTF_AUTO_DOWNCAST\<close> is on. A base class keeps a list of functions under \<^verbatim>\<open>__downcast\<close>, in userdata that
  \<^verbatim>\<open>createUserDataFrom\<close> makes: \<^verbatim>\<open>tryDowncast<T, SUPER, IS_CONST>\<close> is a number for \<open>T\<close> and \<open>IS_CONST\<close>. \<open>dyn obj T\<close> says that
  \<^verbatim>\<open>dynamic_cast<T*>\<close> yields the object at the same address.
\<close>

definition downcast_fun :: "nat \<Rightarrow> bool \<Rightarrow> nat" where
  "downcast_fun T const = 2 * T + (if const then 1 else 0)"

definition tryDowncast :: "(nat \<Rightarrow> nat \<Rightarrow> bool) \<Rightarrow> nat \<Rightarrow> nat \<Rightarrow> ptr option" where
  "tryDowncast dyn f obj = (if dyn obj (f div 2) then Some (getClassID (f div 2) (odd f)) else None)"

text \<open>The length of a list. Every entry is made together with tables, so that the number of tables bounds it.\<close>

fun border :: "(slot \<Rightarrow> slot) \<Rightarrow> nat \<Rightarrow> nat \<Rightarrow> nat" where
  "border t 0 n = n"
| "border t (Suc fuel) n = (if t (SNum (int n + 1)) = SNil then n else border t fuel (Suc n))"

definition rawlen :: "lua_State \<Rightarrow> slot \<Rightarrow> nat" where
  "rawlen L list = border (raw_get (heap L) list) (next_table (heap L)) 0"

definition addDowncast :: "nat \<Rightarrow> nat \<Rightarrow> bool \<Rightarrow> slot \<Rightarrow> lua_State \<Rightarrow> lua_State" where
  "addDowncast T S const super L =
     (let (downcast, H) = new_udata SNil (downcast_fun T const) (heap L);
          L1 = L\<lparr>heap := H, may_downcast := (may_downcast L)(getClassID S const := True)\<rparr>;
          L2 = (if rawget L1 super ''__downcast'' = SNil then rawset_new super (SStr ''__downcast'') L1 else L1);
          list = rawget L2 super ''__downcast''
      in rawset list (SNum (int (rawlen L2 list) + 1)) downcast L2)"

definition CppAutoDowncast_add :: "nat \<Rightarrow> nat \<Rightarrow> lua_State \<Rightarrow> lua_State" where
  "CppAutoDowncast_add T S L = (let super = ptrs L (SigStatic S) in ops
     [\<lambda>L. addDowncast T S False (rawget L super ''___class'') L, \<lambda>L. addDowncast T S True (rawget L super ''___const'') L] L)"

text \<open>The loop over the list: the first class that the object can be cast to.\<close>

fun try_downcasts :: "(nat \<Rightarrow> nat \<Rightarrow> bool) \<Rightarrow> nat \<Rightarrow> lua_heap \<Rightarrow> slot list \<Rightarrow> ptr option exn" where
  "try_downcasts dyn obj H [] = ret None"
| "try_downcasts dyn obj H (SUser u # vs) = (case tryDowncast dyn (u_object (udatas H u)) obj of
     Some class_id \<Rightarrow> ret (Some class_id) | None \<Rightarrow> try_downcasts dyn obj H vs)"
| "try_downcasts dyn obj H (v # vs) = Abort ''null pointer''"

fun findClassID :: "lua_api \<Rightarrow> (nat \<Rightarrow> nat \<Rightarrow> bool) \<Rightarrow> nat \<Rightarrow> nat \<Rightarrow> ptr \<Rightarrow> lua_State \<Rightarrow> ptr exn" where
  "findClassID A dyn 0 obj class_id L = Abort ''out of fuel''"
| "findClassID A dyn (Suc n) obj class_id L =
     (if \<not> may_downcast L class_id then ret class_id
      else if slot_type (ptrs L class_id) \<noteq> TABLE then luaL_error A ''table expected''
      else
       (let list = rawget L (ptrs L class_id) ''__downcast''
        in if list = SNil then ret class_id
           else bind_x (try_downcasts dyn obj (heap L)
               (map (\<lambda>i. raw_get (heap L) list (SNum (int i))) [1..<Suc (rawlen L list)])) (\<lambda>found.
             case found of None \<Rightarrow> ret class_id | Some cast_id \<Rightarrow> findClassID A dyn n obj cast_id L)))"

text \<open>\<^verbatim>\<open>CppObjectPtr::pushToStack\<close>, and that of \<^verbatim>\<open>CppObjectSharedPtr\<close>: an object known by a pointer.\<close>

definition CppObjectPtr_pushToStack ::
  "lua_api \<Rightarrow> (nat \<Rightarrow> nat \<Rightarrow> bool) \<Rightarrow> nat \<Rightarrow> nat \<Rightarrow> bool \<Rightarrow> nat \<Rightarrow> lua_State \<Rightarrow> lua_State exn" where
  "CppObjectPtr_pushToStack A dyn n T is_const obj L = bind_x (findClassID A dyn n obj (getClassID T is_const) L) (\<lambda>class_id.
     CppObject_allocate A class_id obj L)"

section \<open>Classes\<close>

text \<open>\<^verbatim>\<open>CppBindClass::bind\<close> and \<^verbatim>\<open>extend\<close>, with the destructors \<open>gc\<close> and \<open>gc_const\<close> for \<^verbatim>\<open>__gc\<close>.\<close>

definition CppBindClass_bind :: "lua_api \<Rightarrow> slot \<Rightarrow> string \<Rightarrow> nat \<Rightarrow> slot \<Rightarrow> slot \<Rightarrow> lua_State \<Rightarrow> (slot \<times> lua_State) exn" where
  "CppBindClass_bind A parent name T gc gc_const L =
     bind_x (buildMetaTable A parent name T L) (\<lambda>(new, meta, L1).
       ret (meta, if new then ops [\<lambda>L. rawset (rawget L meta ''___class'') (SStr ''__gc'') gc L,
                                   \<lambda>L. rawset (rawget L meta ''___const'') (SStr ''__gc'') gc_const L] L1 else L1))"

definition CppBindClass_extend ::
  "lua_api \<Rightarrow> slot \<Rightarrow> string \<Rightarrow> nat \<Rightarrow> nat \<Rightarrow> slot \<Rightarrow> slot \<Rightarrow> lua_State \<Rightarrow> (slot \<times> lua_State) exn" where
  "CppBindClass_extend A parent name T S gc gc_const L =
     bind_x (buildMetaTable_super A parent name T S L) (\<lambda>(new, meta, L1).
       ret (meta, if new then ops [\<lambda>L. rawset (rawget L meta ''___class'') (SStr ''__gc'') gc L,
                                   \<lambda>L. rawset (rawget L meta ''___const'') (SStr ''__gc'') gc_const L,
                                   CppAutoDowncast_add T S] L1 else L1))"

section \<open>Binding members\<close>

definition setStaticGetter :: "slot \<Rightarrow> string \<Rightarrow> slot \<Rightarrow> lua_State \<Rightarrow> lua_State" where
  "setStaticGetter meta name getter L = rawset (rawget L meta ''___getters'') (SStr name) getter L"

definition setStaticSetter :: "slot \<Rightarrow> string \<Rightarrow> slot \<Rightarrow> lua_State \<Rightarrow> lua_State" where
  "setStaticSetter meta name setter L = rawset (rawget L meta ''___setters'') (SStr name) setter L"

definition setStaticReadOnly :: "lua_api \<Rightarrow> slot \<Rightarrow> string \<Rightarrow> lua_State \<Rightarrow> lua_State exn" where
  "setStaticReadOnly A meta name L = bind_x (getMemberName A meta name L) (\<lambda>full.
     ret (setStaticSetter meta name (SFun (CReadOnly full)) L))"

definition setMemberGetter :: "slot \<Rightarrow> string \<Rightarrow> slot \<Rightarrow> slot \<Rightarrow> lua_State \<Rightarrow> lua_State" where
  "setMemberGetter meta name getter getter_const L = ops
     [\<lambda>L. rawset (rawget L (rawget L meta ''___class'') ''___getters'') (SStr name) getter L,
      \<lambda>L. rawset (rawget L (rawget L meta ''___const'') ''___getters'') (SStr name) getter_const L] L"

definition setMemberSetter :: "lua_api \<Rightarrow> slot \<Rightarrow> string \<Rightarrow> slot \<Rightarrow> lua_State \<Rightarrow> lua_State exn" where
  "setMemberSetter A meta name setter L =
     (let meta_class = rawget L meta ''___class''; meta_const = rawget L meta ''___const''
      in bind_x (getMemberName A meta_class name L) (\<lambda>full. ret (ops
           [\<lambda>L. rawset (rawget L meta_class ''___setters'') (SStr name) setter L,
            \<lambda>L. rawset (rawget L meta_const ''___setters'') (SStr name) (SFun (CConstMismatch full)) L] L)))"

definition setMemberReadOnly :: "lua_api \<Rightarrow> slot \<Rightarrow> string \<Rightarrow> lua_State \<Rightarrow> lua_State exn" where
  "setMemberReadOnly A meta name L =
     (let meta_class = rawget L meta ''___class''; meta_const = rawget L meta ''___const''
      in bind_x (getMemberName A meta_class name L) (\<lambda>full. ret (ops
           [\<lambda>L. rawset (rawget L meta_class ''___setters'') (SStr name) (SFun (CReadOnly full)) L,
            \<lambda>L. rawset (rawget L meta_const ''___setters'') (SStr name) (SFun (CReadOnly full)) L] L)))"

definition setMemberFunction :: "lua_api \<Rightarrow> slot \<Rightarrow> string \<Rightarrow> slot \<Rightarrow> bool \<Rightarrow> lua_State \<Rightarrow> lua_State exn" where
  "setMemberFunction A meta name proc is_const L =
     (let meta_class = rawget L meta ''___class''; meta_const = rawget L meta ''___const'';
          L1 = rawset meta_class (SStr name) proc L
      in if is_const then ret (rawset meta_const (SStr name) proc L1)
         else bind_x (getMemberName A meta_class name L1) (\<lambda>full.
           ret (rawset meta_const (SStr name) (SFun (CConstMismatch full)) L1)))"

section \<open>The interface of a class binding\<close>

text \<open>A constant that is a function is wrapped, so that the getter yields it instead of calling it.\<close>

definition addConstant :: "lua_api \<Rightarrow> (slot \<Rightarrow> slot) \<Rightarrow> slot \<Rightarrow> string \<Rightarrow> slot \<Rightarrow> lua_State \<Rightarrow> lua_State exn" where
  "addConstant A wrap meta name r L =
     setStaticReadOnly A meta name (setStaticGetter meta name (if slot_type r = FUNCTION then wrap r else r) L)"

definition addStaticVariable :: "lua_api \<Rightarrow> slot \<Rightarrow> string \<Rightarrow> slot \<Rightarrow> slot \<Rightarrow> bool \<Rightarrow> lua_State \<Rightarrow> lua_State exn" where
  "addStaticVariable A meta name getter setter writable L =
     (let L1 = setStaticGetter meta name getter L
      in if writable then ret (setStaticSetter meta name setter L1) else setStaticReadOnly A meta name L1)"

definition addStaticProperty :: "lua_api \<Rightarrow> slot \<Rightarrow> string \<Rightarrow> slot \<Rightarrow> slot option \<Rightarrow> lua_State \<Rightarrow> lua_State exn" where
  "addStaticProperty A meta name getter setter L =
     (let L1 = setStaticGetter meta name getter L
      in case setter of Some f \<Rightarrow> ret (setStaticSetter meta name f L1) | None \<Rightarrow> setStaticReadOnly A meta name L1)"

definition addStaticFunction :: "slot \<Rightarrow> string \<Rightarrow> slot \<Rightarrow> lua_State \<Rightarrow> lua_State" where
  "addStaticFunction meta name proc L = rawset meta (SStr name) proc L"

text \<open>\<^verbatim>\<open>addConstructor\<close> and \<^verbatim>\<open>addFactory\<close>.\<close>

definition addConstructor :: "slot \<Rightarrow> slot \<Rightarrow> lua_State \<Rightarrow> lua_State" where
  "addConstructor meta proc L = rawset meta (SStr ''__call'') proc L"

definition addVariable :: "lua_api \<Rightarrow> slot \<Rightarrow> string \<Rightarrow> slot \<Rightarrow> slot \<Rightarrow> bool \<Rightarrow> lua_State \<Rightarrow> lua_State exn" where
  "addVariable A meta name getter setter writable L =
     (let L1 = setMemberGetter meta name getter getter L
      in if writable then setMemberSetter A meta name setter L1 else setMemberReadOnly A meta name L1)"

definition addProperty :: "lua_api \<Rightarrow> slot \<Rightarrow> string \<Rightarrow> slot \<Rightarrow> slot \<Rightarrow> slot \<Rightarrow> lua_State \<Rightarrow> lua_State exn" where
  "addProperty A meta name getter getter_const setter L =
     setMemberSetter A meta name setter (setMemberGetter meta name getter getter_const L)"

definition addPropertyReadOnly :: "lua_api \<Rightarrow> slot \<Rightarrow> string \<Rightarrow> slot \<Rightarrow> slot \<Rightarrow> lua_State \<Rightarrow> lua_State exn" where
  "addPropertyReadOnly A meta name getter getter_const L =
     setMemberReadOnly A meta name (setMemberGetter meta name getter getter_const L)"

text \<open>\<^verbatim>\<open>isConst\<close> is a property of the type of the function.\<close>

definition addFunction :: "lua_api \<Rightarrow> slot \<Rightarrow> string \<Rightarrow> slot \<Rightarrow> bool \<Rightarrow> lua_State \<Rightarrow> lua_State exn" where
  "addFunction A meta name proc isConst L = setMemberFunction A meta name proc isConst L"

definition addIndexer :: "lua_api \<Rightarrow> slot \<Rightarrow> slot \<times> bool \<Rightarrow> (slot \<times> bool) option \<Rightarrow> lua_State \<Rightarrow> lua_State exn" where
  "addIndexer A meta getter setter L =
     bind_x (setMemberFunction A meta ''___get_indexed'' (fst getter) (snd getter) L) (\<lambda>L1.
       case setter of None \<Rightarrow> ret L1
       | Some f \<Rightarrow> setMemberFunction A meta ''___set_indexed'' (fst f) (snd f) L1)"

definition addMetaFunction :: "lua_api \<Rightarrow> slot \<Rightarrow> string \<Rightarrow> slot \<Rightarrow> lua_State \<Rightarrow> lua_State exn" where
  "addMetaFunction A meta name proc L = setMemberFunction A meta name proc True L"

definition endClass :: "slot \<Rightarrow> lua_State \<Rightarrow> slot" where
  "endClass meta L = rawget L meta ''___parent''"

section \<open>Modules\<close>

definition CppBindModule_new :: "lua_api \<Rightarrow> slot \<Rightarrow> string \<Rightarrow> lua_State \<Rightarrow> (slot \<times> lua_State) exn" where
  "CppBindModule_new A meta name L =
     (if rawget L meta name \<noteq> SNil then ret (rawget L meta name, L)
      else bind_x (getFullName A meta name L) (\<lambda>(full, L0).
        let type_name = ''module<'' @ full @ ''>'';
            (m, H) = new_table (heap L0)
        in ret (m, ops
            [\<lambda>L. L\<lparr>heap := set_meta m m (heap L)\<rparr>,
             rawset m (SStr ''__index'') (SFun CModuleIndex), rawset m (SStr ''__newindex'') (SFun CModuleNewIndex),
             rawset_new m (SStr ''___getters''), rawset_new m (SStr ''___setters''),
             rawset m (SStr ''___type'') (SStr type_name), rawset m (SStr ''___parent'') meta,
             rawset meta (SStr name) m] (L0\<lparr>heap := H\<rparr>))))"

definition setGetter :: "slot \<Rightarrow> string \<Rightarrow> slot \<Rightarrow> lua_State \<Rightarrow> lua_State" where
  "setGetter meta name getter L = rawset (rawget L meta ''___getters'') (SStr name) getter L"

definition setSetter :: "slot \<Rightarrow> string \<Rightarrow> slot \<Rightarrow> lua_State \<Rightarrow> lua_State" where
  "setSetter meta name setter L = rawset (rawget L meta ''___setters'') (SStr name) setter L"

definition setReadOnly :: "lua_api \<Rightarrow> slot \<Rightarrow> string \<Rightarrow> lua_State \<Rightarrow> lua_State exn" where
  "setReadOnly A meta name L = bind_x (getMemberName A meta name L) (\<lambda>full.
     ret (setSetter meta name (SFun (CReadOnly full)) L))"

definition CppBindModule_addConstant :: "lua_api \<Rightarrow> (slot \<Rightarrow> slot) \<Rightarrow> slot \<Rightarrow> string \<Rightarrow> slot \<Rightarrow> lua_State \<Rightarrow> lua_State exn" where
  "CppBindModule_addConstant A wrap meta name r L =
     setReadOnly A meta name (setGetter meta name (if slot_type r = FUNCTION then wrap r else r) L)"

definition CppBindModule_addVariable :: "lua_api \<Rightarrow> slot \<Rightarrow> string \<Rightarrow> slot \<Rightarrow> slot \<Rightarrow> bool \<Rightarrow> lua_State \<Rightarrow> lua_State exn" where
  "CppBindModule_addVariable A meta name getter setter writable L =
     (let L1 = setGetter meta name getter L
      in if writable then ret (setSetter meta name setter L1) else setReadOnly A meta name L1)"

definition CppBindModule_addProperty :: "lua_api \<Rightarrow> slot \<Rightarrow> string \<Rightarrow> slot \<Rightarrow> slot option \<Rightarrow> lua_State \<Rightarrow> lua_State exn" where
  "CppBindModule_addProperty A meta name getter setter L =
     (let L1 = setGetter meta name getter L
      in case setter of Some f \<Rightarrow> ret (setSetter meta name f L1) | None \<Rightarrow> setReadOnly A meta name L1)"

definition CppBindModule_addFunction :: "slot \<Rightarrow> string \<Rightarrow> slot \<Rightarrow> lua_State \<Rightarrow> lua_State" where
  "CppBindModule_addFunction meta name proc L = rawset meta (SStr name) proc L"

text \<open>The variants of \<^verbatim>\<open>addFactory\<close>: a function, or \<^verbatim>\<open>forwardCall\<close> with the name of a submodule.\<close>

definition CppBindModule_addFactory :: "slot \<Rightarrow> slot \<Rightarrow> lua_State \<Rightarrow> lua_State" where
  "CppBindModule_addFactory meta proc L = rawset meta (SStr ''__call'') proc L"

definition endModule :: "slot \<Rightarrow> lua_State \<Rightarrow> slot" where
  "endModule meta L = rawget L meta ''___parent''"

end
