(* ===== verification/Lua_Class_Laws.thy ===== *)
theory Lua_Class_Laws
  imports Lua_Binding
begin

text \<open>
  What the metatables of \<open>Lua_Binding\<close> mean: an environment of classes with their base classes, the well-formedness of the heap
  with respect to it, and the functions of \<open>Lua_Class\<close> in its terms.
\<close>

section \<open>Environments of classes\<close>

datatype kind = KConst | KClass | KStatic

text \<open>A class is known by its number \<open>T\<close>. Its tables lie next to each other, each with its getters and setters behind it.\<close>

record cls =
  c_base :: nat
  c_super :: "nat option"
  c_type :: string

type_synonym env = "nat \<Rightarrow> cls option"

fun off :: "kind \<Rightarrow> nat" where "off KConst = 0" | "off KClass = 3" | "off KStatic = 6"

fun sig :: "kind \<Rightarrow> nat \<Rightarrow> ptr" where "sig KConst T = SigConst T" | "sig KClass T = SigClass T" | "sig KStatic T = SigStatic T"

fun type_name :: "kind \<Rightarrow> cls \<Rightarrow> string" where
  "type_name KConst c = ''const_'' @ c_type c" | "type_name KClass c = c_type c" | "type_name KStatic c = ''static_'' @ c_type c"

definition addr :: "cls \<Rightarrow> kind \<Rightarrow> nat" where "addr c k = c_base c + off k"

definition field :: "lua_State \<Rightarrow> nat \<Rightarrow> string \<Rightarrow> slot" where
  "field L t name = t_get (tables (heap L) t) (SStr name)"

definition super_slot :: "env \<Rightarrow> cls \<Rightarrow> kind \<Rightarrow> slot" where
  "super_slot E c k = (case c_super c of None \<Rightarrow> SNil | Some S \<Rightarrow> (case E S of None \<Rightarrow> SNil | Some d \<Rightarrow> STab (addr d k)))"

definition table_ok :: "env \<Rightarrow> lua_State \<Rightarrow> nat \<Rightarrow> cls \<Rightarrow> kind \<Rightarrow> bool" where
  "table_ok E L T c k \<longleftrightarrow>
     ptrs L (sig k T) = STab (addr c k) \<and> t_meta (tables (heap L) (addr c k)) = STab (addr c k) \<and>
     t_get (tables (heap L) (addr c k)) (SPtr SigObject) = SPtr (sig k T) \<and>
     field L (addr c k) ''___getters'' = STab (addr c k + 1) \<and> field L (addr c k) ''___setters'' = STab (addr c k + 2) \<and>
     field L (addr c k) ''___type'' = SStr (type_name k c) \<and> field L (addr c k) ''___super'' = super_slot E c k \<and>
     field L (addr c k) ''___const'' = STab (addr c KConst) \<and>
     (k = KStatic \<longrightarrow> field L (addr c k) ''___class'' = STab (addr c KClass))"

text \<open>Base classes have been registered before the classes derived from them.\<close>

definition wf :: "env \<Rightarrow> lua_State \<Rightarrow> bool" where
  "wf E L \<longleftrightarrow>
     (\<forall>T c. E T = Some c \<longrightarrow> (\<forall>k. table_ok E L T c k) \<and> c_base c + 9 \<le> next_table (heap L) \<and>
        (\<forall>S. c_super c = Some S \<longrightarrow> (\<exists>d. E S = Some d \<and> c_base d + 9 \<le> c_base c))) \<and>
     (\<forall>T T' c c'. E T = Some c \<and> E T' = Some c' \<and> T \<noteq> T' \<longrightarrow> c_base c + 9 \<le> c_base c' \<or> c_base c' + 9 \<le> c_base c)"

text \<open>A class derives from itself, its base class and the classes that one derives from.\<close>

inductive derives :: "env \<Rightarrow> nat \<Rightarrow> nat \<Rightarrow> bool" for E where
  derives_refl: "derives E T T"
| derives_super: "E T = Some c \<Longrightarrow> c_super c = Some S \<Longrightarrow> derives E S R \<Longrightarrow> derives E T R"

lemma wfD:
  assumes "wf E L" "E T = Some c"
  shows "table_ok E L T c k" "c_base c + 9 \<le> next_table (heap L)"
    "c_super c = Some S \<Longrightarrow> \<exists>d. E S = Some d \<and> c_base d + 9 \<le> c_base c"
  using assms unfolding wf_def by blast+

lemma off_less: "off k < 7" "off k + 2 < 9"
  by (cases k; simp)+

lemma addr_inj:
  assumes "wf E L" "E T = Some c" "E T' = Some c'"
  shows "addr c k = addr c' k' \<longleftrightarrow> T = T' \<and> k = k'"
proof (cases "T = T'")
  case True
  with assms show ?thesis by (cases k; cases k') (auto simp: addr_def)
next
  case False
  with assms have "c_base c + 9 \<le> c_base c' \<or> c_base c' + 9 \<le> c_base c" unfolding wf_def by blast
  with False off_less(1) [of k] off_less(1) [of k'] show ?thesis by (auto simp: addr_def)
qed

section \<open>Casts\<close>

text \<open>The tables that the cast goes through.\<close>

lemma typeMismatchError_throws: "\<exists>msg. typeMismatchError A index L = throw msg"
  by (simp add: typeMismatchError_def luaL_error_def Let_def)

lemma getObject_loop_chain:
  assumes wf: "wf E L0" and T: "E T = Some t"
  shows "E C = Some c \<Longrightarrow> stack L = STab (addr c k) # STab (addr t k') # st \<Longrightarrow> heap L = heap L0 \<Longrightarrow> c_base c < n \<Longrightarrow>
    (if derives E C T \<and> k = k' then getObject_loop A n index False raise L = (let L' = L\<lparr>stack := st\<rparr> in ret (Some (at L' index), L'))
     else if raise then \<exists>msg. getObject_loop A n index False raise L = throw msg
     else getObject_loop A n index False raise L = ret (None, L\<lparr>stack := st\<rparr>))"
proof (induction n arbitrary: C c L)
  case 0
  then show ?case by simp
next
  case (Suc n)
  have tab: "table_ok E L0 C c k" using wfD(1) [OF wf Suc.prems(1)] .
  have eq: "lua_rawequal L (-1) (-2) \<longleftrightarrow> C = T \<and> k = k'"
    using Suc.prems(2) addr_inj [OF wf Suc.prems(1) T, of k k'] by (simp add: lua_rawequal_def at_def)
  let ?L1 = "ops [push (SStr ''___super''), lua_rawget (-2)] L"
  have L1: "?L1 = L\<lparr>stack := super_slot E c k # stack L\<rparr>"
    using tab Suc.prems(2,3) by (simp add: lua_rawget_def at_def raw_get_def table_ok_def field_def push_def)
  show ?case
  proof (cases "C = T \<and> k = k'")
    case True
    with eq Suc.prems(2) show ?thesis by (auto simp: lua_pop_def derives_refl)
  next
    case neq: False
    show ?thesis
    proof (cases "c_super c")
      case None
      then have not: "\<not> (derives E C T \<and> k = k')" using neq Suc.prems(1) by (auto elim: derives.cases)
      have nil: "lua_isnil ?L1 (-1)" unfolding L1 using None by (simp add: lua_isnil_def at_def super_slot_def)
      have pop: "lua_pop 1 ?L1 = L" "lua_pop 3 ?L1 = L\<lparr>stack := st\<rparr>"
        unfolding L1 using Suc.prems(2) by (simp_all add: lua_pop_def)
      have loop: "getObject_loop A (Suc n) index False raise L =
          (if raise then typeMismatchError A index L else ret (None, L\<lparr>stack := st\<rparr>))"
        using eq neq nil pop by (simp del: ops.simps)
      show ?thesis unfolding loop using not typeMismatchError_throws by auto
    next
      case (Some S)
      from wfD(3) [OF wf Suc.prems(1) Some] obtain d where d: "E S = Some d" "c_base d + 9 \<le> c_base c" by blast
      have slot: "super_slot E c k = STab (addr d k)" using Some d by (simp add: super_slot_def)
      let ?L2 = "L\<lparr>stack := STab (addr d k) # STab (addr t k') # st\<rparr>"
      have step: "getObject_loop A (Suc n) index False raise L = getObject_loop A n index False raise ?L2"
        using eq neq L1 slot Suc.prems(2) by (simp add: lua_isnil_def at_def lua_remove_def del: ops.simps)
      have der: "derives E C T \<and> k = k' \<longleftrightarrow> derives E S T \<and> k = k'"
        using neq Suc.prems(1) Some by (auto elim: derives.cases intro: derives_super)
      show ?thesis unfolding step der
        using Suc.IH [OF d(1), of ?L2] Suc.prems(3,4) d(2)
        by (cases "derives E S T \<and> k = k'"; cases raise) (auto simp: Let_def)
    qed
  qed
qed


text \<open>The object at an index of the stack: a userdata whose metatable is one of the two of a class for objects.\<close>

definition object_at :: "env \<Rightarrow> lua_State \<Rightarrow> int \<Rightarrow> nat \<Rightarrow> bool \<Rightarrow> bool" where
  "object_at E L i C const \<longleftrightarrow> i \<noteq> 0 \<and> \<bar>i\<bar> \<le> int (length (stack L)) \<and>
     (\<exists>u c. at L i = SUser u \<and> E C = Some c \<and>
        u_meta (udatas (heap L) u) = STab (addr c (if const then KConst else KClass)))"

definition abs_index :: "lua_State \<Rightarrow> int \<Rightarrow> int" where
  "abs_index L i = (if i < 0 then int (length (stack L)) + i + 1 else i)"

lemma at_abs:
  assumes "i \<noteq> 0" "\<bar>i\<bar> \<le> int (length (stack L))"
  shows "at L (abs_index L i) = at L i" "at (L\<lparr>stack := x # stack L\<rparr>) (abs_index L i) = at L i"
  using assms by (auto simp: at_def abs_index_def nth_Cons' Suc_nat_eq_nat_zadd1 nat_diff_distrib' intro!: arg_cong [where f = "(!) (stack L)"])

lemma sig_class_id: "getClassID T const = sig (if const then KConst else KClass) T"
  by (simp add: getClassID_def)

text \<open>Up to the loop.\<close>

lemma getObject_start:
  assumes i: "i \<noteq> 0" "\<bar>i\<bar> \<le> int (length (stack L))" and u: "at L i = SUser u" "u_meta (udatas (heap L) u) = STab m"
    and base: "ptrs L p = STab b" and const: "field L m ''___const'' = STab m'"
  shows "CppObject_getObject A n i p want False raise L =
    getObject_loop A n (abs_index L i) False raise (L\<lparr>stack := STab (if want then m' else m) # STab b # stack L\<rparr>)"
proof -
  have L1: "rawgetp_registry p L = L\<lparr>stack := STab b # stack L\<rparr>" using base by (simp add: rawgetp_registry_def push_def)
  have L2: "snd (lua_getmetatable (abs_index L i) (L\<lparr>stack := STab b # stack L\<rparr>)) = L\<lparr>stack := STab m # STab b # stack L\<rparr>"
    using u at_abs(2) [OF i, of "STab b"] by (simp add: lua_getmetatable_def get_meta_def push_def)
  have L3: "ops [push (SStr ''___const''), lua_rawget (-2), lua_remove (-2)] (L\<lparr>stack := STab m # STab b # stack L\<rparr>)
      = L\<lparr>stack := STab m' # STab b # stack L\<rparr>"
    using const by (simp add: field_def lua_rawget_def lua_remove_def at_def raw_get_def push_def)
  have ud: "lua_isuserdata L i" using u(1) by (simp add: lua_isuserdata_def)
  show ?thesis
    unfolding CppObject_getObject_def L1 abs_index_def [symmetric] Let_def L2 L3
    using ud by (cases want) (simp_all add: lua_istable_def at_def)
qed

text \<open>
  What a cast to the class \<open>T\<close> yields: the object if its class derives from \<open>T\<close> and no const object is asked for as one
  that is not; otherwise null or an error. The stack is left as it was.
\<close>

lemma getObject_cases:
  assumes wf: "wf E L" and T: "E T = Some t" and obj: "object_at E L i C const"
    and fuel: "next_table (heap L) < n"
  shows "if derives E C T \<and> (const \<longrightarrow> want)
    then CppObject_getObject A n i (getClassID T want) want False raise L = ret (Some (at L i), L)
    else if raise then \<exists>msg. CppObject_getObject A n i (getClassID T want) want False raise L = throw msg
    else CppObject_getObject A n i (getClassID T want) want False raise L = ret (None, L)"
proof -
  define k where "k = (if const then KConst else KClass)"
  define k' where "k' = (if want then KConst else KClass)"
  define kk where "kk = (if want then KConst else k)"
  from obj obtain u c where u: "at L i = SUser u" "E C = Some c" "u_meta (udatas (heap L) u) = STab (addr c k)"
    and i: "i \<noteq> 0" "\<bar>i\<bar> \<le> int (length (stack L))" unfolding object_at_def k_def by auto
  let ?L = "L\<lparr>stack := STab (addr c kk) # STab (addr t k') # stack L\<rparr>"
  from wfD(1) [OF wf T, of k'] have base: "ptrs L (getClassID T want) = STab (addr t k')"
    by (simp add: table_ok_def sig_class_id k'_def)
  from wfD(1) [OF wf u(2), of k] have const: "field L (addr c k) ''___const'' = STab (addr c KConst)" by (simp add: table_ok_def)
  have start: "CppObject_getObject A n i (getClassID T want) want False raise L =
      getObject_loop A n (abs_index L i) False raise ?L"
    using getObject_start [OF i u(1,3) base const, of A n want raise] by (simp add: kk_def if_distrib)
  have iff: "derives E C T \<and> kk = k' \<longleftrightarrow> derives E C T \<and> (const \<longrightarrow> want)" by (auto simp: kk_def k'_def k_def)
  have c: "c_base c < n" using wfD(2) [OF wf u(2)] fuel by simp
  from getObject_loop_chain [OF wf T u(2), of ?L kk k' "stack L" n A "abs_index L i" raise] c at_abs(1) [OF i]
  show ?thesis unfolding start iff by (auto simp: Let_def split: if_splits)
qed

section \<open>Fields of objects\<close>

text \<open>What a metatable of a class has under a key: a value, a function for numbers, or the getter of a property.\<close>

datatype member = Field slot | Indexer slot | Getter slot

definition own_member :: "lua_api \<Rightarrow> lua_State \<Rightarrow> nat \<Rightarrow> slot \<Rightarrow> member option" where
  "own_member A L t key =
     (if t_get (tables (heap L) t) key \<noteq> SNil then Some (Field (t_get (tables (heap L) t) key))
      else if is_number A key \<and> field L t ''___get_indexed'' \<noteq> SNil then Some (Indexer (field L t ''___get_indexed''))
      else if raw_get (heap L) (field L t ''___getters'') key \<noteq> SNil
        then Some (Getter (raw_get (heap L) (field L t ''___getters'') key))
      else None)"

text \<open>A class and its base classes, the class first.\<close>

fun super_chain :: "env \<Rightarrow> nat \<Rightarrow> nat \<Rightarrow> cls list" where
  "super_chain E 0 C = []"
| "super_chain E (Suc n) C = (case E C of None \<Rightarrow> []
     | Some c \<Rightarrow> c # (case c_super c of None \<Rightarrow> [] | Some S \<Rightarrow> super_chain E n S))"

fun first_some :: "('a \<Rightarrow> 'b option) \<Rightarrow> 'a list \<Rightarrow> 'b option" where
  "first_some f [] = None"
| "first_some f (x # xs) = (case f x of None \<Rightarrow> first_some f xs | Some y \<Rightarrow> Some y)"

text \<open>The member that a script's \<^verbatim>\<open>obj.key\<close> means: that of the nearest class.\<close>

definition find_member :: "lua_api \<Rightarrow> env \<Rightarrow> lua_State \<Rightarrow> nat \<Rightarrow> kind \<Rightarrow> nat \<Rightarrow> slot \<Rightarrow> member option" where
  "find_member A E L n k C key = first_some (\<lambda>c. own_member A L (addr c k) key) (super_chain E n C)"

fun use_member :: "lua_api \<Rightarrow> user_call \<Rightarrow> slot \<Rightarrow> slot \<Rightarrow> member option \<Rightarrow> lua_heap \<Rightarrow> (slot \<times> lua_heap) exn" where
  "use_member A user obj key None H = ret (SNil, H)"
| "use_member A user obj key (Some (Field v)) H = ret (v, H)"
| "use_member A user obj key (Some (Indexer f)) H =
     assert_o (is_cfun f) ''lua_iscfunction(L, -1)'' (call_slot A user f [obj, key] H)"
| "use_member A user obj key (Some (Getter g)) H =
     (if is_cfun g then call_slot A user g (if slot_type obj = USERDATA then [obj] else []) H else ret (g, H))"

text \<open>An object of a class, or the table of a class itself, is what has a metatable of the class.\<close>

definition has_meta :: "lua_State \<Rightarrow> slot \<Rightarrow> nat \<Rightarrow> bool" where
  "has_meta L obj t \<longleftrightarrow> get_meta (heap L) obj = STab t \<and> slot_type obj \<in> {USERDATA, TABLE}"

lemma check_signature_ok:
  assumes "wf E L" "E C = Some c" "has_meta L obj (addr c k)"
  shows "check_signature A verb (L\<lparr>stack := rest @ [obj]\<rparr>) = ret (L\<lparr>stack := STab (addr c k) # rest @ [obj]\<rparr>)"
proof -
  have at1: "at (L\<lparr>stack := rest @ [obj]\<rparr>) 1 = obj" by (simp add: at_def)
  from wfD(1) [OF assms(1,2), of k] assms(3) at1 show ?thesis
    by (simp add: check_signature_def table_ok_def has_meta_def lua_getmetatable_def lua_rawgetp_def rawget_registry_def
      lua_rawequal_def raw_get_def lua_pop_def Let_def) (simp add: at_def push_def)
qed

lemma bind_x_ret_right [simp]: "bind_x m ret = m"
proof (cases m)
  case (Done r)
  then show ?thesis by (cases r) (simp_all add: bind_x_def ret_def)
qed (simp add: bind_x_def)

text \<open>One round of the loop, on the stack of a metatable, the key and the object.\<close>

lemma index_step:
  assumes tab: "\<exists>g. field L0 m ''___getters'' = STab g"
    and super: "field L0 m ''___super'' = SNil \<or> (\<exists>s. field L0 m ''___super'' = STab s)"
    and obj: "slot_type obj \<in> {USERDATA, TABLE}"
  shows "bind_x (index_loop A user (Suc n) (L0\<lparr>stack := [STab m, key, obj]\<rparr>)) (\<lambda>L2. ret (at L2 (-1), heap L2)) =
    (case own_member A L0 m key of
       Some y \<Rightarrow> use_member A user obj key (Some y) (heap L0)
     | None \<Rightarrow> if field L0 m ''___super'' = SNil then ret (SNil, heap L0)
         else bind_x (index_loop A user n (L0\<lparr>stack := [field L0 m ''___super'', key, obj]\<rparr>)) (\<lambda>L2. ret (at L2 (-1), heap L2)))"
proof -
  from tab obtain gt where gt: "field L0 m ''___getters'' = STab gt" by blast
  let ?s = "\<lambda>x. L0\<lparr>stack := x # [STab m, key, obj]\<rparr>"
  let ?v = "t_get (tables (heap L0) m) key" and ?i = "field L0 m ''___get_indexed''" and ?sup = "field L0 m ''___super''"
  let ?g = "raw_get (heap L0) (STab gt) key"
  let ?s2 = "L0\<lparr>stack := ?g # STab gt # [STab m, key, obj]\<rparr>"
  have L1: "ops [lua_pushvalue 2, lua_rawget (-2)] (L0\<lparr>stack := [STab m, key, obj]\<rparr>) = ?s ?v"
    by (simp add: lua_pushvalue_def lua_rawget_def at_def raw_get_def push_def)
  have L3: "ops [push (SStr ''___get_indexed''), lua_rawget (-2)] (lua_pop 1 (?s ?v)) = ?s ?i"
    by (simp add: lua_rawget_def at_def raw_get_def push_def lua_pop_def field_def)
  have L4: "ops [push (SStr ''___getters''), lua_rawget (-2)] (lua_pop 1 (?s ?v)) = ?s (STab gt)"
    using gt by (simp add: lua_rawget_def at_def raw_get_def push_def lua_pop_def field_def)
  have L5: "ops [lua_pushvalue 2, lua_rawget (-2)] (?s (STab gt)) = ?s2"
    by (simp add: lua_pushvalue_def lua_rawget_def at_def push_def)
  have L6: "ops [lua_pop 2, push (SStr ''___super''), lua_rawget (-2)] ?s2 = ?s ?sup"
    by (simp add: lua_rawget_def at_def raw_get_def push_def lua_pop_def field_def)
  have at: "at (?s x) (-1) = x" "at (?s x) 1 = obj" "at (?s x) 2 = key" "at ?s2 (-1) = ?g" "at ?s2 1 = obj"
    "at (L0\<lparr>stack := [STab m, key, obj]\<rparr>) 2 = key" for x
    by (simp_all add: at_def)
  have rem: "lua_remove (-2) (?s x) = L0\<lparr>stack := [x, key, obj]\<rparr>" for x by (simp add: lua_remove_def)
  have call2: "bind_x (lua_call A user 2 1 (ops [lua_pushvalue 1, lua_pushvalue 2] (?s ?i))) (\<lambda>L2. ret (at L2 (-1), heap L2)) =
      call_slot A user ?i [obj, key] (heap L0)"
    by (simp add: lua_call_def lua_pushvalue_def push_def at_def bind_x_assoc case_prod_unfold)
  have call1: "bind_x (lua_call A user 1 1 (lua_pushvalue 1 ?s2)) (\<lambda>L2. ret (at L2 (-1), heap L2)) =
      call_slot A user ?g [obj] (heap L0)"
    by (simp add: lua_call_def lua_pushvalue_def push_def at_def bind_x_assoc case_prod_unfold)
  have call0: "bind_x (lua_call A user 0 1 ?s2) (\<lambda>L2. ret (at L2 (-1), heap L2)) = call_slot A user ?g [] (heap L0)"
    by (simp add: lua_call_def at_def bind_x_assoc case_prod_unfold)
  have asrt: "bind_x (assert_o b why m) f = assert_o b why (bind_x m f)" for b why and m :: "lua_State exn" and f :: "lua_State \<Rightarrow> (slot \<times> lua_heap) exn"
    by (cases b) simp_all
  show ?thesis
    unfolding index_loop.simps Let_def L1 L3 L4 L5 L6 lua_isnil_def lua_isnumber_def lua_iscfunction_def lua_istable_def
      lua_isuserdata_def at rem own_member_def gt
    using super obj
    by (auto simp: if_distrib [of "\<lambda>m. bind_x m (\<lambda>L2. ret (at L2 (-1), heap L2))"] asrt call2 call1 call0 at simp del: ops.simps One_nat_def)
qed

lemma find_member_Suc:
  "E C = Some c \<Longrightarrow> find_member A E L (Suc n) k C key = (case own_member A L (addr c k) key of
     Some y \<Rightarrow> Some y | None \<Rightarrow> (case c_super c of None \<Rightarrow> None | Some S \<Rightarrow> find_member A E L n k S key))"
  by (cases "c_super c") (simp_all add: find_member_def split: option.splits)

lemma index_loop_finds:
  assumes wf: "wf E L" and obj: "slot_type obj \<in> {USERDATA, TABLE}"
  shows "E C = Some c \<Longrightarrow> c_base c < n \<Longrightarrow>
    bind_x (index_loop A user n (L\<lparr>stack := [STab (addr c k), key, obj]\<rparr>)) (\<lambda>L2. ret (at L2 (-1), heap L2)) =
      use_member A user obj key (find_member A E L n k C key) (heap L)"
proof (induction n arbitrary: C c)
  case 0
  then show ?case by simp
next
  case (Suc n)
  have tab: "table_ok E L C c k" by (rule wfD(1) [OF wf Suc.prems(1)])
  then have g: "\<exists>g. field L (addr c k) ''___getters'' = STab g" and sup: "field L (addr c k) ''___super'' = super_slot E c k"
    by (simp_all add: table_ok_def)
  show ?case
  proof (cases "c_super c")
    case None
    then have "super_slot E c k = SNil" by (simp add: super_slot_def)
    with sup index_step [OF g _ obj, of A user n key] Suc.prems(1) None show ?thesis
      by (auto simp: find_member_Suc split: option.splits)
  next
    case (Some S)
    from wfD(3) [OF wf Suc.prems(1) Some] obtain d where d: "E S = Some d" "c_base d + 9 \<le> c_base c" by blast
    with Some have slot: "super_slot E c k = STab (addr d k)" by (simp add: super_slot_def)
    have IH: "bind_x (index_loop A user n (L\<lparr>stack := [STab (addr d k), key, obj]\<rparr>)) (\<lambda>L2. ret (at L2 (-1), heap L2)) =
      use_member A user obj key (find_member A E L n k S key) (heap L)"
      using Suc.IH [OF d(1)] d(2) Suc.prems(2) by simp
    from index_step [OF g _ obj, of A user n key] sup slot
    have "bind_x (index_loop A user (Suc n) (L\<lparr>stack := [STab (addr c k), key, obj]\<rparr>)) (\<lambda>L2. ret (at L2 (-1), heap L2)) =
      (case own_member A L (addr c k) key of Some y \<Rightarrow> use_member A user obj key (Some y) (heap L)
       | None \<Rightarrow> use_member A user obj key (find_member A E L n k S key) (heap L))"
      by (simp add: IH cong: option.case_cong)
    with Suc.prems(1) Some show ?thesis by (simp add: find_member_Suc split: option.splits)
  qed
qed

lemma index_finds:
  assumes wf: "wf E L" and C: "E C = Some c" and obj: "has_meta L obj (addr c k)" and n: "next_table (heap L) < n"
  shows "CppBindClass_index A user n obj key L = use_member A user obj key (find_member A E L n k C key) (heap L)"
proof -
  have "check_signature A ''get'' (L\<lparr>stack := [key, obj]\<rparr>) = ret (L\<lparr>stack := [STab (addr c k), key, obj]\<rparr>)"
    using check_signature_ok [OF wf C obj, of A "''get''" "[key]"] by simp
  moreover have "c_base c < n" using wfD(2) [OF wf C] n by simp
  ultimately show ?thesis
    using index_loop_finds [OF wf _ C, of obj n A user k key] obj by (simp add: CppBindClass_index_def has_meta_def)
qed

section \<open>Assignments to fields\<close>

text \<open>What an assignment finds: a function for numbers or the setter of a property.\<close>

datatype assigner = SetIndexed slot | Setter slot

definition own_setter :: "lua_api \<Rightarrow> lua_State \<Rightarrow> nat \<Rightarrow> slot \<Rightarrow> assigner option" where
  "own_setter A L t key =
     (if is_number A key \<and> field L t ''___set_indexed'' \<noteq> SNil then Some (SetIndexed (field L t ''___set_indexed''))
      else if raw_get (heap L) (field L t ''___setters'') key \<noteq> SNil
        then Some (Setter (raw_get (heap L) (field L t ''___setters'') key))
      else None)"

definition find_setter :: "lua_api \<Rightarrow> env \<Rightarrow> lua_State \<Rightarrow> nat \<Rightarrow> kind \<Rightarrow> nat \<Rightarrow> slot \<Rightarrow> assigner option" where
  "find_setter A E L n k C key = first_some (\<lambda>c. own_setter A L (addr c k) key) (super_chain E n C)"

text \<open>The error of an assignment to a field that no class has names the class at the end of the chain.\<close>

definition not_writable :: "lua_api \<Rightarrow> string \<Rightarrow> slot \<Rightarrow> 'a exn" where
  "not_writable A t key = luaL_error A (''property '' @ quoted (t @ ''.'' @ percent_s (slot_string A key)) @ '' is not found or not writable'')"

fun use_setter :: "lua_api \<Rightarrow> user_call \<Rightarrow> slot \<Rightarrow> slot \<Rightarrow> slot \<Rightarrow> assigner \<Rightarrow> lua_heap \<Rightarrow> lua_heap exn" where
  "use_setter A user obj key v (SetIndexed f) H =
     assert_o (is_cfun f) ''lua_iscfunction(L, -1)'' (bind_x (call_slot A user f [obj, key, v] H) (\<lambda>(r, H'). ret H'))"
| "use_setter A user obj key v (Setter f) H =
     assert_o (is_cfun f) ''lua_isnil(L, -1)''
       (bind_x (call_slot A user f (if slot_type obj = USERDATA then [obj, v] else [v]) H) (\<lambda>(r, H'). ret H'))"

lemma newIndex_step:
  assumes tab: "\<exists>g. field L0 m ''___setters'' = STab g" "\<exists>t. field L0 m ''___type'' = SStr t"
    and super: "field L0 m ''___super'' = SNil \<or> (\<exists>s. field L0 m ''___super'' = STab s)"
    and obj: "slot_type obj \<in> {USERDATA, TABLE}"
  shows "bind_x (newIndex_loop A user (Suc n) (L0\<lparr>stack := [STab m, v, key, obj]\<rparr>)) (\<lambda>L2. ret (heap L2)) =
    (case own_setter A L0 m key of
       Some y \<Rightarrow> use_setter A user obj key v y (heap L0)
     | None \<Rightarrow> if field L0 m ''___super'' = SNil then not_writable A (percent_s (slot_string A (field L0 m ''___type''))) key
         else bind_x (newIndex_loop A user n (L0\<lparr>stack := [field L0 m ''___super'', v, key, obj]\<rparr>)) (\<lambda>L2. ret (heap L2)))"
proof -
  from tab obtain gt t where gt: "field L0 m ''___setters'' = STab gt" and t: "field L0 m ''___type'' = SStr t" by blast
  let ?b = "[STab m, v, key, obj]"
  let ?s = "\<lambda>x. L0\<lparr>stack := x # ?b\<rparr>"
  let ?i = "field L0 m ''___set_indexed''" and ?sup = "field L0 m ''___super''" and ?g = "raw_get (heap L0) (STab gt) key"
  let ?s2 = "L0\<lparr>stack := ?g # STab gt # ?b\<rparr>"
  have L1: "ops [push (SStr ''___set_indexed''), lua_rawget (-2)] (L0\<lparr>stack := ?b\<rparr>) = ?s ?i"
    by (simp add: lua_rawget_def at_def raw_get_def push_def field_def)
  have L2: "ops [push (SStr ''___setters''), lua_rawget (-2)] (L0\<lparr>stack := ?b\<rparr>) = ?s (STab gt)"
    using gt by (simp add: lua_rawget_def at_def raw_get_def push_def field_def)
  have L3: "ops [lua_pushvalue 2, lua_rawget (-2)] (?s (STab gt)) = ?s2"
    by (simp add: lua_pushvalue_def lua_rawget_def at_def push_def)
  have L4: "ops [lua_pop 2, push (SStr ''___super''), lua_rawget (-2)] ?s2 = ?s ?sup"
    by (simp add: lua_rawget_def at_def raw_get_def push_def lua_pop_def field_def)
  have L5: "ops [push (SStr ''___type''), lua_rawget (-3)] (?s SNil) = L0\<lparr>stack := SStr t # SNil # ?b\<rparr>"
    using t by (simp add: lua_rawget_def at_def raw_get_def push_def field_def)
  have at: "at (?s x) (-1) = x" "at (?s x) 1 = obj" "at (?s x) 2 = key" "at ?s2 (-1) = ?g" "at ?s2 1 = obj"
    "at (L0\<lparr>stack := ?b\<rparr>) 2 = key" for x
    by (simp_all add: at_def)
  have rem: "lua_remove (-2) (?s x) = L0\<lparr>stack := [x, v, key, obj]\<rparr>" for x by (simp add: lua_remove_def)
  have call3: "bind_x (lua_call A user 3 0 (ops [lua_pushvalue 1, lua_pushvalue 2, lua_pushvalue 3] (?s ?i))) (\<lambda>L2. ret (heap L2)) =
      bind_x (call_slot A user ?i [obj, key, v] (heap L0)) (\<lambda>(r, H'). ret H')"
    by (simp add: lua_call_def lua_pushvalue_def push_def at_def bind_x_assoc case_prod_unfold)
  have call2: "bind_x (lua_call A user 2 0 (ops [lua_pushvalue 1, lua_pushvalue 3] ?s2)) (\<lambda>L2. ret (heap L2)) =
      bind_x (call_slot A user ?g [obj, v] (heap L0)) (\<lambda>(r, H'). ret H')"
    by (simp add: lua_call_def lua_pushvalue_def push_def at_def bind_x_assoc case_prod_unfold)
  have call1: "bind_x (lua_call A user 1 0 (lua_pushvalue 3 ?s2)) (\<lambda>L2. ret (heap L2)) =
      bind_x (call_slot A user ?g [v] (heap L0)) (\<lambda>(r, H'). ret H')"
    by (simp add: lua_call_def lua_pushvalue_def push_def at_def bind_x_assoc case_prod_unfold)
  have asrt: "bind_x (assert_o b why m) f = assert_o b why (bind_x m f)" for b why and m :: "lua_State exn" and f :: "lua_State \<Rightarrow> lua_heap exn"
    by (cases b) simp_all
  have nw: "bind_x (unfound A ''property '' '' is not found or not writable'' (L0\<lparr>stack := SStr t # SNil # ?b\<rparr>)) f = not_writable A t key" for f
    by (simp add: unfound_def optstring_def lua_isnil_def lua_tostring_def at_def not_writable_def luaL_error_def)
  show ?thesis
    unfolding newIndex_loop.simps Let_def L1 L2 L3 L4 lua_isnil_def lua_isnumber_def lua_iscfunction_def lua_istable_def
      lua_isuserdata_def at rem own_setter_def gt t
    using super obj
    by (auto simp: if_distrib [of "\<lambda>m. bind_x m (\<lambda>L2. ret (heap L2))"] asrt call3 call2 call1 at L5 nw percent_s_def simp del: ops.simps One_nat_def)
qed

lemma find_setter_Suc:
  "E C = Some c \<Longrightarrow> find_setter A E L (Suc n) k C key = (case own_setter A L (addr c k) key of
     Some y \<Rightarrow> Some y | None \<Rightarrow> (case c_super c of None \<Rightarrow> None | Some S \<Rightarrow> find_setter A E L n k S key))"
  by (cases "c_super c") (simp_all add: find_setter_def split: option.splits)

lemma super_chain_Suc:
  "E C = Some c \<Longrightarrow> super_chain E (Suc n) C = c # (case c_super c of None \<Rightarrow> [] | Some S \<Rightarrow> super_chain E n S)"
  by simp

lemma super_chain_nonempty: "E C = Some c \<Longrightarrow> 0 < n \<Longrightarrow> super_chain E n C \<noteq> []"
  by (cases n) simp_all

text \<open>The class at the root of the hierarchy.\<close>

definition root_class :: "env \<Rightarrow> nat \<Rightarrow> nat \<Rightarrow> cls" where "root_class E n C = last (super_chain E n C)"

definition assign_field :: "lua_api \<Rightarrow> user_call \<Rightarrow> env \<Rightarrow> lua_State \<Rightarrow> nat \<Rightarrow> kind \<Rightarrow> nat \<Rightarrow> slot \<Rightarrow> slot \<Rightarrow> slot \<Rightarrow> lua_heap exn" where
  "assign_field A user E L n k C obj key v = (case find_setter A E L n k C key of
     Some y \<Rightarrow> use_setter A user obj key v y (heap L)
   | None \<Rightarrow> not_writable A (type_name k (root_class E n C)) key)"

lemma newIndex_loop_finds:
  assumes wf: "wf E L" and obj: "slot_type obj \<in> {USERDATA, TABLE}"
  shows "E C = Some c \<Longrightarrow> c_base c < n \<Longrightarrow>
    bind_x (newIndex_loop A user n (L\<lparr>stack := [STab (addr c k), v, key, obj]\<rparr>)) (\<lambda>L2. ret (heap L2)) =
      assign_field A user E L n k C obj key v"
proof (induction n arbitrary: C c)
  case 0
  then show ?case by simp
next
  case (Suc n)
  have tab: "table_ok E L C c k" by (rule wfD(1) [OF wf Suc.prems(1)])
  then have g: "\<exists>g. field L (addr c k) ''___setters'' = STab g" and t: "\<exists>t. field L (addr c k) ''___type'' = SStr t"
    and ty: "field L (addr c k) ''___type'' = SStr (type_name k c)"
    and sup: "field L (addr c k) ''___super'' = super_slot E c k"
    by (simp_all add: table_ok_def)
  show ?case
  proof (cases "c_super c")
    case None
    then have "super_slot E c k = SNil" by (simp add: super_slot_def)
    with sup ty newIndex_step [OF g t _ obj, of A user n v key] Suc.prems(1) None show ?thesis
      by (simp add: assign_field_def find_setter_Suc root_class_def percent_s_def split: option.splits)
  next
    case (Some S)
    from wfD(3) [OF wf Suc.prems(1) Some] obtain d where d: "E S = Some d" "c_base d + 9 \<le> c_base c" by blast
    with Some have slot: "super_slot E c k = STab (addr d k)" by (simp add: super_slot_def)
    have n: "0 < n" using d(2) Suc.prems(2) by simp
    have IH: "bind_x (newIndex_loop A user n (L\<lparr>stack := [STab (addr d k), v, key, obj]\<rparr>)) (\<lambda>L2. ret (heap L2)) =
      assign_field A user E L n k S obj key v"
      using Suc.IH [OF d(1)] d(2) Suc.prems(2) by simp
    have root: "root_class E (Suc n) C = root_class E n S"
      using Suc.prems(1) Some super_chain_nonempty [where E = E, OF d(1) n] by (simp add: root_class_def)
    from newIndex_step [OF g t _ obj, of A user n v key] sup slot
    have "bind_x (newIndex_loop A user (Suc n) (L\<lparr>stack := [STab (addr c k), v, key, obj]\<rparr>)) (\<lambda>L2. ret (heap L2)) =
      (case own_setter A L (addr c k) key of Some y \<Rightarrow> use_setter A user obj key v y (heap L)
       | None \<Rightarrow> assign_field A user E L n k S obj key v)"
      by (simp add: IH cong: option.case_cong)
    with Suc.prems(1) Some root show ?thesis by (simp add: assign_field_def find_setter_Suc split: option.splits)
  qed
qed

lemma newIndex_finds:
  assumes wf: "wf E L" and C: "E C = Some c" and obj: "has_meta L obj (addr c k)" and n: "next_table (heap L) < n"
  shows "CppBindClass_newIndex A user n obj key v L = assign_field A user E L n k C obj key v"
proof -
  have "check_signature A ''set'' (L\<lparr>stack := [v, key, obj]\<rparr>) = ret (L\<lparr>stack := [STab (addr c k), v, key, obj]\<rparr>)"
    using check_signature_ok [OF wf C obj, of A "''set''" "[v, key]"] by simp
  moreover have "c_base c < n" using wfD(2) [OF wf C] n by simp
  ultimately show ?thesis
    using newIndex_loop_finds [OF wf _ C, of obj n A user k v key] obj by (simp add: CppBindClass_newIndex_def has_meta_def)
qed

section \<open>Const objects\<close>

text \<open>The setters of const objects do nothing but report an error.\<close>

fun reports_error :: "slot \<Rightarrow> bool" where
  "reports_error (SFun (CReadOnly name)) = True"
| "reports_error (SFun (CConstMismatch name)) = True"
| "reports_error v = False"

definition const_setters_ok :: "env \<Rightarrow> lua_State \<Rightarrow> bool" where
  "const_setters_ok E L \<longleftrightarrow> (\<forall>C c key. E C = Some c \<longrightarrow>
     (let f = t_get (tables (heap L) (addr c KConst + 2)) key in f = SNil \<or> reports_error f))"

lemma reports_error_call:
  "reports_error f \<Longrightarrow> is_cfun f" "reports_error f \<Longrightarrow> \<exists>msg. bind_x (call_slot A user f args H) g = throw msg"
  by (cases f rule: reports_error.cases; simp add: errorReadOnly_def errorConstMismatch_def luaL_error_def)+

lemma find_setter_const:
  assumes wf: "wf E L" and const: "const_setters_ok E L" and key: "\<not> is_number A key"
  shows "E C = Some c \<Longrightarrow> find_setter A E L n KConst C key = Some y \<Longrightarrow> \<exists>f. y = Setter f \<and> reports_error f"
proof (induction n arbitrary: C c)
  case 0
  then show ?case by (simp add: find_setter_def)
next
  case (Suc n)
  let ?f = "t_get (tables (heap L) (addr c KConst + 2)) key"
  have "field L (addr c KConst) ''___setters'' = STab (addr c KConst + 2)"
    using wfD(1) [OF wf Suc.prems(1), of KConst] by (simp add: table_ok_def)
  then have own: "own_setter A L (addr c KConst) key = (if ?f \<noteq> SNil then Some (Setter ?f) else None)"
    using key by (simp add: own_setter_def raw_get_def)
  have f: "?f = SNil \<or> reports_error ?f" using const Suc.prems(1) unfolding const_setters_ok_def Let_def by blast
  show ?case
  proof (cases "?f = SNil")
    case False
    with f own Suc.prems show ?thesis by (auto simp: find_setter_Suc)
  next
    case True
    with own Suc.prems obtain S where S: "c_super c = Some S" "find_setter A E L n KConst S key = Some y"
      by (auto simp: find_setter_Suc split: option.splits)
    from wfD(3) [OF wf Suc.prems(1) S(1)] obtain d where "E S = Some d" by blast
    from Suc.IH [OF this S(2)] show ?thesis .
  qed
qed

lemma const_assignment_fails:
  assumes "wf E L" "const_setters_ok E L" "E C = Some c" "has_meta L obj (addr c KConst)" "\<not> is_number A key"
    "next_table (heap L) < n"
  shows "\<exists>msg. CppBindClass_newIndex A user n obj key v L = throw msg"
proof (cases "find_setter A E L n KConst C key")
  case None
  then show ?thesis unfolding newIndex_finds [OF assms(1,3,4,6)]
    by (simp add: assign_field_def not_writable_def luaL_error_def)
next
  case (Some y)
  from find_setter_const [OF assms(1,2,5,3) this] obtain f where f: "y = Setter f" "reports_error f" by blast
  have "\<exists>msg. use_setter A user obj key v y (heap L) = throw msg"
    unfolding f(1) by (simp add: reports_error_call [OF f(2)])
  with Some show ?thesis unfolding newIndex_finds [OF assms(1,3,4,6)] by (simp add: assign_field_def)
qed

end
