(* ===== verification/Lua_Binder.thy ===== *)
theory Lua_Binder
  imports Lua_Class_Laws Machine
begin

text \<open>
  Programs that bind classes with \<open>Lua_Binding\<close>, in any order: the metatables stay well-formed, and the setters of const objects only
  report errors. From that, the properties of what scripts do with objects of the classes.
\<close>

section \<open>Writes to tables\<close>

text \<open>Names that the metatables use themselves.\<close>

definition own_names :: "string list" where
  "own_names = [''___getters'', ''___setters'', ''___type'', ''___super'', ''___const'', ''___class'', ''___parent'']"

definition reserved :: "string list" where "reserved = ''__downcast'' # own_names"

definition plain_key :: "slot \<Rightarrow> bool" where
  "plain_key k \<longleftrightarrow> k \<noteq> SPtr SigObject \<and> (\<forall>r \<in> set own_names. k \<noteq> SStr r)"

definition free_key :: "slot \<Rightarrow> bool" where
  "free_key k \<longleftrightarrow> plain_key k \<and> k \<noteq> SStr ''__downcast''"

lemma free_name: "name \<notin> set reserved \<Longrightarrow> free_key (SStr name)"
  by (auto simp: free_key_def plain_key_def reserved_def)

lemma rawset_state [simp]:
  "ptrs (rawset t k v L) = ptrs L" "stack (rawset t k v L) = stack L" "refs (rawset t k v L) = refs L"
  "next_table (heap (rawset t k v L)) = next_table (heap L)" "udatas (heap (rawset t k v L)) = udatas (heap L)"
  "next_udata (heap (rawset t k v L)) = next_udata (heap L)" "may_downcast (rawset t k v L) = may_downcast L"
  by (simp_all add: rawset_def raw_set_def split: slot.split)

lemma rawset_tables:
  "t_meta (tables (heap (rawset t k v L)) n) = t_meta (tables (heap L) n)"
  "t_get (tables (heap (rawset t k v L)) n) k' = (if t = STab n \<and> k = k' then v else t_get (tables (heap L) n) k')"
  by (auto simp: rawset_def raw_set_def split: slot.split)

lemma rawset_field: "field (rawset t k v L) n name = (if t = STab n \<and> k = SStr name then v else field L n name)"
  by (auto simp: field_def rawset_tables)

lemma rawget_field [simp]: "rawget L (STab n) name = field L n name"
  by (simp add: rawget_def raw_get_def field_def)

lemma wf_rawset: "wf E L \<Longrightarrow> plain_key k \<Longrightarrow> wf E (rawset t k v L)"
  unfolding wf_def table_ok_def by (simp add: rawset_tables rawset_field plain_key_def own_names_def)

text \<open>Tables of different classes and kinds, with their getters and setters, do not overlap.\<close>

lemma tables_apart:
  assumes "wf E L" "E T = Some c" "E T' = Some c'" "i < 3" "j < 3"
  shows "addr c k + i = addr c' k' + j \<longleftrightarrow> T = T' \<and> k = k' \<and> i = j"
proof (cases "T = T'")
  case True
  with assms show ?thesis by (cases k; cases k') (auto simp: addr_def)
next
  case False
  with assms have "c_base c + 9 \<le> c_base c' \<or> c_base c' + 9 \<le> c_base c" unfolding wf_def by blast
  with False assms(4,5) off_less [of k] off_less [of k'] show ?thesis by (auto simp: addr_def)
qed

text \<open>
  A module is the table of globals, or a table with getters and setters behind it like those of a class. Its tables are none of
  the tables of classes.
\<close>

definition outside :: "env \<Rightarrow> nat \<Rightarrow> bool" where
  "outside E n \<longleftrightarrow> (\<forall>C d. E C = Some d \<longrightarrow> n < c_base d \<or> c_base d + 9 \<le> n)"

definition module_ok :: "env \<Rightarrow> lua_State \<Rightarrow> nat \<Rightarrow> bool" where
  "module_ok E L m \<longleftrightarrow> m < next_table (heap L) \<and> outside E m \<and>
     (if t_meta (tables (heap L) m) = SNil then field L m ''___type'' = SNil
      else (\<exists>ty. field L m ''___type'' = SStr ty) \<and> field L m ''___getters'' = STab (Suc m) \<and>
        field L m ''___setters'' = STab (Suc (Suc m)) \<and> Suc (Suc m) < next_table (heap L) \<and>
        outside E (Suc m) \<and> outside E (Suc (Suc m)))"

text \<open>An object: its userdata, the class that it was made of, and whether it is const.\<close>

type_synonym obj = "nat \<times> nat \<times> bool"

definition obj_kind :: "bool \<Rightarrow> kind" where "obj_kind const = (if const then KConst else KClass)"

fun object_ok :: "env \<Rightarrow> lua_State \<Rightarrow> obj \<Rightarrow> bool" where
  "object_ok E L (u, C, const) \<longleftrightarrow> u < next_udata (heap L) \<and>
     (\<exists>c. E C = Some c \<and> u_meta (udatas (heap L) u) = STab (addr c (obj_kind const)))"

text \<open>
  The lists of downcasts: \<open>D S const\<close> are the classes in the list of the class \<open>S\<close>, or of its const objects. Lists are tables of their
  own.
\<close>

definition downcasts :: "lua_State \<Rightarrow> cls \<Rightarrow> bool \<Rightarrow> slot" where
  "downcasts L d const = field L (addr d (obj_kind const)) ''__downcast''"

definition is_list :: "env \<Rightarrow> lua_State \<Rightarrow> nat \<Rightarrow> bool" where
  "is_list E L t \<longleftrightarrow> (\<exists>S d const. E S = Some d \<and> downcasts L d const = STab t)"

definition entry_ok :: "lua_State \<Rightarrow> nat list \<Rightarrow> bool \<Rightarrow> nat \<Rightarrow> slot \<Rightarrow> bool" where
  "entry_ok L Ts const i v \<longleftrightarrow> (if i < length Ts
     then (\<exists>u. v = SUser u \<and> u < next_udata (heap L) \<and> u_object (udatas (heap L) u) = downcast_fun (Ts ! i) const) else v = SNil)"

definition list_ok :: "env \<Rightarrow> lua_State \<Rightarrow> nat list \<Rightarrow> nat \<Rightarrow> cls \<Rightarrow> bool \<Rightarrow> bool" where
  "list_ok E L Ts S d const \<longleftrightarrow> (if Ts = [] then downcasts L d const = SNil
     else may_downcast L (sig (obj_kind const) S) \<and> length Ts < next_table (heap L) \<and>
       (\<exists>t. downcasts L d const = STab t \<and> t < next_table (heap L) \<and> outside E t \<and>
         (\<forall>i. entry_ok L Ts const i (t_get (tables (heap L) t) (SNum (int i + 1))))))"

type_synonym downs = "nat \<Rightarrow> bool \<Rightarrow> nat list"

definition downs_ok :: "env \<Rightarrow> nat set \<Rightarrow> downs \<Rightarrow> lua_State \<Rightarrow> bool" where
  "downs_ok E M D L \<longleftrightarrow> (\<forall>S d const. E S = Some d \<longrightarrow> list_ok E L (D S const) S d const) \<and>
     (\<forall>S d const S' d' const' t. E S = Some d \<longrightarrow> E S' = Some d' \<longrightarrow> downcasts L d const = STab t \<longrightarrow> downcasts L d' const' = STab t \<longrightarrow>
        S = S' \<and> const = const') \<and>
     (\<forall>m \<in> M. \<not> is_list E L m \<and> (t_meta (tables (heap L) m) \<noteq> SNil \<longrightarrow> \<not> is_list E L (Suc m) \<and> \<not> is_list E L (Suc (Suc m))))"

definition binder_ok :: "env \<Rightarrow> nat set \<Rightarrow> obj set \<Rightarrow> downs \<Rightarrow> lua_State \<Rightarrow> bool" where
  "binder_ok E M B D L \<longleftrightarrow> wf E L \<and> const_setters_ok E L \<and> (\<forall>m \<in> M. module_ok E L m) \<and> (\<forall>b \<in> B. object_ok E L b) \<and>
     downs_ok E M D L"

lemma downs_okI:
  assumes "\<And>S d const. E S = Some d \<Longrightarrow> list_ok E L (D S const) S d const"
    and "\<And>S d const S' d' const' t. E S = Some d \<Longrightarrow> E S' = Some d' \<Longrightarrow> downcasts L d const = STab t \<Longrightarrow> downcasts L d' const' = STab t \<Longrightarrow>
      S = S' \<and> const = const'"
    and "\<And>m. m \<in> M \<Longrightarrow> \<not> is_list E L m \<and> (t_meta (tables (heap L) m) \<noteq> SNil \<longrightarrow> \<not> is_list E L (Suc m) \<and> \<not> is_list E L (Suc (Suc m)))"
  shows "downs_ok E M D L"
  using assms unfolding downs_ok_def by blast

lemma downs_okD:
  assumes "downs_ok E M D L"
  shows "E S = Some d \<Longrightarrow> list_ok E L (D S const) S d const"
    "E S = Some d \<Longrightarrow> E S' = Some d' \<Longrightarrow> downcasts L d const = STab t \<Longrightarrow> downcasts L d' const' = STab t \<Longrightarrow> S = S' \<and> const = const'"
    "m \<in> M \<Longrightarrow> \<not> is_list E L m"
    "m \<in> M \<Longrightarrow> t_meta (tables (heap L) m) \<noteq> SNil \<Longrightarrow> \<not> is_list E L (Suc m) \<and> \<not> is_list E L (Suc (Suc m))"
  using assms unfolding downs_ok_def by blast+

lemma module_no_list:
  "binder_ok E M B D L \<Longrightarrow> m \<in> M \<Longrightarrow> \<not> is_list E L m"
  "binder_ok E M B D L \<Longrightarrow> m \<in> M \<Longrightarrow> t_meta (tables (heap L) m) \<noteq> SNil \<Longrightarrow> \<not> is_list E L (Suc m) \<and> \<not> is_list E L (Suc (Suc m))"
  unfolding binder_ok_def by (blast dest: downs_okD)+

lemma list_outside: "downs_ok E M D L \<Longrightarrow> is_list E L t \<Longrightarrow> outside E t \<and> t < next_table (heap L)"
  unfolding downs_ok_def is_list_def list_ok_def by (metis slot.distinct(9) slot.inject(5))

lemma downs_ok_rawset:
  assumes d: "downs_ok E M D L" and k: "free_key k" and n: "\<not> is_list E L n"
  shows "downs_ok E M D (rawset (STab n) k v L)"
proof -
  have f: "downcasts (rawset (STab n) k v L) c const = downcasts L c const" for c const
    using k by (simp add: downcasts_def rawset_field free_key_def)
  have l: "is_list E (rawset (STab n) k v L) t = is_list E L t" for t by (simp add: is_list_def f)
  have "list_ok E (rawset (STab n) k v L) Ts S c const" if "list_ok E L Ts S c const" "E S = Some c" for Ts S c const
  proof -
    have "t \<noteq> n" if "downcasts L c const = STab t" for t using n that \<open>E S = Some c\<close> unfolding is_list_def by blast
    with that(1) show ?thesis by (auto simp: list_ok_def f entry_ok_def rawset_tables)
  qed
  with d show ?thesis unfolding downs_ok_def by (auto simp: f l rawset_tables)
qed

lemma object_ok_same:
  "udatas (heap L') = udatas (heap L) \<Longrightarrow> next_udata (heap L') = next_udata (heap L) \<Longrightarrow> object_ok E L' b = object_ok E L b"
  by (cases b) simp

lemma object_ok_rawset [simp]: "object_ok E (rawset t k v L) b = object_ok E L b"
  by (rule object_ok_same) simp_all

lemma module_ok_rawset: "module_ok E L m \<Longrightarrow> plain_key k \<Longrightarrow> module_ok E (rawset t k v L) m"
  unfolding module_ok_def by (simp add: rawset_tables rawset_field plain_key_def own_names_def)

text \<open>A write to a table of a class, or to its getters or setters, that keeps the rules.\<close>

lemma binder_ok_rawset:
  assumes ok: "binder_ok E M B D L" and T: "E T = Some c" and i: "i < 3" and k: "free_key k"
    and const: "kd = KConst \<Longrightarrow> i = 2 \<Longrightarrow> v = SNil \<or> reports_error v"
  shows "binder_ok E M B D (rawset (STab (addr c kd + i)) k v L)"
proof -
  from ok have wf: "wf E L" and cs: "const_setters_ok E L" and mods: "\<forall>m \<in> M. module_ok E L m" and objs: "\<forall>b \<in> B. object_ok E L b"
    and downs: "downs_ok E M D L" by (simp_all add: binder_ok_def)
  have plain: "plain_key k" using k by (simp add: free_key_def)
  have "\<not> outside E (addr c kd + i)"
    using T i off_less [of kd] by (intro notI) (auto simp: outside_def addr_def dest!: spec [where x = T])
  with list_outside [OF downs] have "\<not> is_list E L (addr c kd + i)" by blast
  note downs' = downs_ok_rawset [OF downs k this, of v]
  have "const_setters_ok E (rawset (STab (addr c kd + i)) k v L)"
    unfolding const_setters_ok_def Let_def
  proof (intro allI impI)
    fix C d key assume C: "E C = Some d"
    show "t_get (tables (heap (rawset (STab (addr c kd + i)) k v L)) (addr d KConst + 2)) key = SNil \<or>
        reports_error (t_get (tables (heap (rawset (STab (addr c kd + i)) k v L)) (addr d KConst + 2)) key)"
      using cs C const tables_apart [OF wf T C i, of 2 kd KConst]
      by (auto simp: rawset_tables const_setters_ok_def Let_def)
  qed
  with wf_rawset [OF wf plain] mods module_ok_rawset [OF _ plain] objs downs' show ?thesis by (simp add: binder_ok_def)
qed

lemma binder_ok_outside:
  assumes ok: "binder_ok E M B D L" and n: "outside E n" "\<not> is_list E L n" and k: "free_key k"
  shows "binder_ok E M B D (rawset (STab n) k v L)"
proof -
  have "n \<noteq> addr d KConst + 2" if "E C = Some d" for C d
    using n(1) that off_less(2) [of KConst] unfolding outside_def addr_def by fastforce
  then have "const_setters_ok E (rawset (STab n) k v L)"
    using ok by (auto simp: binder_ok_def const_setters_ok_def Let_def rawset_tables)
  moreover have "plain_key k" using k by (simp add: free_key_def)
  moreover have "downs_ok E M D L" using ok by (simp add: binder_ok_def)
  note downs_ok_rawset [OF this k n(2), of v]
  ultimately show ?thesis using ok wf_rawset module_ok_rawset by (simp add: binder_ok_def)
qed

section \<open>Binding members\<close>

lemma class_fields:
  assumes "binder_ok E M B D L" "E T = Some c"
  shows "field L (addr c KStatic) ''___class'' = STab (addr c KClass)" "field L (addr c KStatic) ''___const'' = STab (addr c KConst)"
    "field L (addr c k) ''___getters'' = STab (addr c k + 1)" "field L (addr c k) ''___setters'' = STab (addr c k + 2)"
    "field L (addr c k) ''___type'' = SStr (type_name k c)"
  using assms wfD(1) [of E L T c k] wfD(1) [of E L T c KStatic] by (auto simp: binder_ok_def table_ok_def)

lemma getMemberName_class:
  "binder_ok E M B D L \<Longrightarrow> E T = Some c \<Longrightarrow> getMemberName A (STab (addr c k)) name L = ret (type_name k c @ ''.'' @ name)"
  by (simp add: getMemberName_def class_fields Let_def)

lemma class_writes_ok:
  assumes "binder_ok E M B D L" "E T = Some c" "free_key k"
  shows "binder_ok E M B D (rawset (STab (addr c kd)) k v L)" "binder_ok E M B D (rawset (STab (addr c kd + 1)) k v L)"
    "kd \<noteq> KConst \<or> v = SNil \<or> reports_error v \<Longrightarrow> binder_ok E M B D (rawset (STab (addr c kd + 2)) k v L)"
  using binder_ok_rawset [OF assms(1,2) _ assms(3), of 0 kd v] binder_ok_rawset [OF assms(1,2) _ assms(3), of 1 kd v]
    binder_ok_rawset [OF assms(1,2) _ assms(3), of 2 kd v] by auto

text \<open>The primitives of class bindings.\<close>

lemma set_member_ok:
  assumes ok: "binder_ok E M B D L" and T: "E T = Some c" and name: "name \<notin> set reserved"
  shows "binder_ok E M B D (setStaticGetter (STab (addr c KStatic)) name v L)"
    "binder_ok E M B D (setStaticSetter (STab (addr c KStatic)) name v L)"
    "\<exists>L'. setStaticReadOnly A (STab (addr c KStatic)) name L = ret L' \<and> binder_ok E M B D L'"
    "binder_ok E M B D (setMemberGetter (STab (addr c KStatic)) name v v' L)"
    "\<exists>L'. setMemberSetter A (STab (addr c KStatic)) name v L = ret L' \<and> binder_ok E M B D L'"
    "\<exists>L'. setMemberReadOnly A (STab (addr c KStatic)) name L = ret L' \<and> binder_ok E M B D L'"
    "\<exists>L'. setMemberFunction A (STab (addr c KStatic)) name v is_const L = ret L' \<and> binder_ok E M B D L'"
proof -
  note w = class_writes_ok [where E = E, OF _ T free_name [OF name]]
  note f = class_fields [where E = E, OF _ T] getMemberName_class [where E = E, OF _ T]
  show "binder_ok E M B D (setStaticGetter (STab (addr c KStatic)) name v L)"
    "binder_ok E M B D (setStaticSetter (STab (addr c KStatic)) name v L)"
    "\<exists>L'. setStaticReadOnly A (STab (addr c KStatic)) name L = ret L' \<and> binder_ok E M B D L'"
    using w [OF ok] by (simp_all add: setStaticGetter_def setStaticSetter_def setStaticReadOnly_def f [OF ok])
  have g: "binder_ok E M B D (rawset (STab (Suc (addr c KClass))) (SStr name) v L)" for v using w [OF ok] by simp
  have s: "binder_ok E M B D (rawset (STab (Suc (Suc (addr c KClass)))) (SStr name) v L)" for v using w [OF ok] by simp
  have m: "binder_ok E M B D (rawset (STab (addr c KClass)) (SStr name) v L)" for v using w [OF ok] by simp
  show "binder_ok E M B D (setMemberGetter (STab (addr c KStatic)) name v v' L)"
    using w [OF g, of KConst] by (simp add: setMemberGetter_def f [OF ok] f [OF g])
  show "\<exists>L'. setMemberSetter A (STab (addr c KStatic)) name v L = ret L' \<and> binder_ok E M B D L'"
    "\<exists>L'. setMemberReadOnly A (STab (addr c KStatic)) name L = ret L' \<and> binder_ok E M B D L'"
    using w [OF s] by (simp_all add: setMemberSetter_def setMemberReadOnly_def f [OF ok] f [OF s] Let_def)
  show "\<exists>L'. setMemberFunction A (STab (addr c KStatic)) name v is_const L = ret L' \<and> binder_ok E M B D L'"
    using w [OF m] by (simp add: setMemberFunction_def f [OF ok] f [OF m] Let_def)
qed


section \<open>Binding classes\<close>

text \<open>What a step that allocates tables leaves as it was.\<close>

lemma binder_ok_frame:
  assumes ok: "binder_ok E M B D L" and same: "\<And>n. n < next_table (heap L) \<Longrightarrow> tables (heap L') n = tables (heap L) n"
    and ptrs: "\<And>C k. E C \<noteq> None \<Longrightarrow> ptrs L' (sig k C) = ptrs L (sig k C)" and next_t: "next_table (heap L) \<le> next_table (heap L')"
    and objs: "\<And>u. u < next_udata (heap L) \<Longrightarrow> udatas (heap L') u = udatas (heap L) u" "next_udata (heap L) \<le> next_udata (heap L')"
    and flags: "\<And>q. may_downcast L q \<Longrightarrow> may_downcast L' q"
  shows "binder_ok E M B D L'"
proof -
  from ok have wf: "wf E L" and cs: "const_setters_ok E L" by (simp_all add: binder_ok_def)
  have below: "addr c k + i < next_table (heap L)" if "E C = Some c" "i < 3" for C c k i
    using wfD(2) [OF wf that(1)] that(2) off_less [of k] by (simp add: addr_def)
  have t: "tables (heap L') (addr c k) = tables (heap L) (addr c k)" "tables (heap L') (addr c k + 2) = tables (heap L) (addr c k + 2)"
    if "E C = Some c" for C c k using same below [OF that, of 0 k] below [OF that, of 2 k] by simp_all
  have "table_ok E L' C c k \<longleftrightarrow> table_ok E L C c k" if "E C = Some c" for C c k
    using t [OF that, of k] t [OF that, of KStatic] ptrs [of C k] that by (simp add: table_ok_def field_def)
  with wf next_t have "wf E L'" unfolding wf_def by (meson order_trans)
  moreover from cs t have "const_setters_ok E L'" unfolding const_setters_ok_def Let_def by simp
  moreover have "module_ok E L' m" if "m \<in> M" for m
    using ok that same [of m] next_t unfolding binder_ok_def module_ok_def field_def by auto
  moreover have "downs_ok E M D L'"
  proof -
    from ok have downs: "downs_ok E M D L" by (simp add: binder_ok_def)
    have f: "downcasts L' c const = downcasts L c const" if "E C = Some c" for C c const
      using t(1) [OF that, of "obj_kind const"] by (simp add: downcasts_def field_def)
    have l: "is_list E L' n = is_list E L n" for n using f by (fastforce simp: is_list_def)
    have "list_ok E L' Ts S c const" if "list_ok E L Ts S c const" "E S = Some c" for Ts S c const
    proof -
      have "entry_ok L' Ts const i v" if "entry_ok L Ts const i v" for i v
        using that objs by (fastforce simp: entry_ok_def split: if_splits)
      with that f [OF that(2)] same next_t flags show ?thesis
        by (fastforce simp: list_ok_def split: if_splits)
    qed
    moreover have "t_meta (tables (heap L') m) = t_meta (tables (heap L) m)" if "m \<in> M" for m
      using ok that same [of m] by (auto simp: binder_ok_def module_ok_def)
    ultimately show ?thesis using downs f by (intro downs_okI) (auto simp: l downs_ok_def)
  qed
  moreover have "object_ok E L' b" if "object_ok E L b" for b
    using that objs by (cases b) auto
  ultimately show ?thesis using ok by (simp add: binder_ok_def)
qed

definition class_table :: "lua_State \<Rightarrow> nat \<Rightarrow> cls \<Rightarrow> kind \<Rightarrow> bool" where
  "class_table L T c k \<longleftrightarrow>
     ptrs L (sig k T) = STab (addr c k) \<and> t_meta (tables (heap L) (addr c k)) = STab (addr c k) \<and>
     t_get (tables (heap L) (addr c k)) (SPtr SigObject) = SPtr (sig k T) \<and>
     field L (addr c k) ''___getters'' = STab (addr c k + 1) \<and> field L (addr c k) ''___setters'' = STab (addr c k + 2) \<and>
     field L (addr c k) ''___type'' = SStr (type_name k c) \<and> field L (addr c k) ''___const'' = STab (addr c KConst) \<and>
     (k = KStatic \<longrightarrow> field L (addr c k) ''___class'' = STab (addr c KClass))"

text \<open>The names that a new table of a class has.\<close>

definition std_names :: "string list" where
  "std_names = own_names @ [''__index'', ''__newindex'', ''class'', ''__gc'']"

text \<open>The three new tables of a class, with \<open>bases\<close> the tables of the base class.\<close>

definition built :: "lua_State \<Rightarrow> nat \<Rightarrow> cls \<Rightarrow> (kind \<Rightarrow> slot) \<Rightarrow> lua_State \<Rightarrow> bool" where
  "built L T c bases L' \<longleftrightarrow>
     c_base c = next_table (heap L) \<and> next_table (heap L') = c_base c + 9 \<and>
     udatas (heap L') = udatas (heap L) \<and> may_downcast L' = may_downcast L \<and> next_udata (heap L') = next_udata (heap L) \<and>
     (\<forall>n < next_table (heap L). tables (heap L') n = tables (heap L) n) \<and>
     (\<forall>C k. C \<noteq> T \<longrightarrow> ptrs L' (sig k C) = ptrs L (sig k C)) \<and>
     (\<forall>key. t_get (tables (heap L') (addr c KConst + 2)) key = SNil) \<and>
     (\<forall>k. class_table L' T c k \<and> field L' (addr c k) ''___super'' = bases k) \<and>
     (\<forall>k name. name \<notin> set std_names \<longrightarrow> field L' (addr c k) name = SNil)"

lemma binder_ok_built:
  assumes ok: "binder_ok E M B D L" and new: "E T = None" "\<And>const. D T const = []" and b: "built L T c bases L'"
    and bases: "\<And>k. bases k = super_slot E c k" and base: "\<And>S. c_super c = Some S \<Longrightarrow> E S \<noteq> None"
  shows "binder_ok (E(T \<mapsto> c)) M B D L'"
proof -
  let ?E = "E(T \<mapsto> c)"
  have "ptrs L' (sig k C) = ptrs L (sig k C)" if "E C \<noteq> None" for C k
    using b new(1) that by (cases "C = T") (simp_all add: built_def)
  with b have "binder_ok E M B D L'" by (intro binder_ok_frame [OF ok]) (simp_all add: built_def)
  note ok' = this
  then have wf: "wf E L'" and cs: "const_setters_ok E L'" by (simp_all add: binder_ok_def)
  from ok have wfL: "wf E L" by (simp add: binder_ok_def)
  have old: "c_base d + 9 \<le> c_base c" if "E C = Some d" for C d
    using wfD(2) [OF wfL that] b by (simp add: built_def)
  have slot_c: "super_slot ?E c k = super_slot E c k" for k
    using base new by (auto simp: super_slot_def split: option.split)
  have slot_d: "super_slot ?E d k = super_slot E d k" if "E C = Some d" for C d k
    using wfD(3) [OF wfL that] new by (auto simp: super_slot_def split: option.split)
  have tab: "table_ok ?E L' C d k" if "?E C = Some d" for C d k
  proof (cases "C = T")
    case True
    with that b bases slot_c show ?thesis by (simp add: built_def class_table_def table_ok_def)
  next
    case False
    with that have "E C = Some d" by simp
    with wfD(1) [OF wf this, of k] slot_d [OF this] show ?thesis by (simp add: table_ok_def)
  qed
  have bases': "\<exists>e. ?E S = Some e \<and> c_base e + 9 \<le> c_base d" if "?E C = Some d" "c_super d = Some S" for C d S
  proof (cases "C = T")
    case True
    with that base obtain e where "E S = Some e" by fastforce
    with old new True that show ?thesis by auto
  next
    case False
    with that wfD(3) [OF wfL] new show ?thesis by fastforce
  qed
  have len: "c_base d + 9 \<le> next_table (heap L')" if "?E C = Some d" for C d
    using that wfD(2) [OF wf, of C d] b by (auto simp: built_def split: if_splits)
  have apart: "c_base d + 9 \<le> c_base e \<or> c_base e + 9 \<le> c_base d" if "?E C = Some d" "?E D = Some e" "C \<noteq> D" for C D d e
    using that old wf unfolding wf_def by (auto split: if_splits)
  from tab bases' len apart have "wf ?E L'" unfolding wf_def by blast
  moreover have "const_setters_ok ?E L'"
    using cs b by (auto simp: const_setters_ok_def built_def Let_def)
  moreover have "module_ok ?E L' m" if "m \<in> M" for m
  proof -
    from ok' that have m': "module_ok E L' m" by (simp add: binder_ok_def)
    from ok that have m: "module_ok E L m" by (simp add: binder_ok_def)
    with b have "tables (heap L') m = tables (heap L) m" by (simp add: built_def module_ok_def)
    moreover have "outside ?E n" if "outside E n" "n < next_table (heap L)" for n
      using that b by (auto simp: outside_def built_def)
    ultimately show ?thesis using b m m' by (auto simp: module_ok_def built_def)
  qed
  moreover have "object_ok ?E L' x" if "x \<in> B" for x
    using ok' that new by (cases x) (auto simp: binder_ok_def)
  moreover have "downs_ok ?E M D L'"
  proof -
    from ok' have downs: "downs_ok E M D L'" by (simp add: binder_ok_def)
    have nil: "downcasts L' c const = SNil" for const
      using b by (simp add: downcasts_def built_def std_names_def own_names_def)
    have l: "is_list ?E L' n \<longleftrightarrow> is_list E L' n" for n
      using new(1) nil by (auto simp: is_list_def split: if_splits) (metis option.distinct(1))+
    have out: "outside ?E n" if "outside E n" "n < next_table (heap L)" for n
      using that b by (auto simp: outside_def built_def)
    have below: "t < next_table (heap L)" if "is_list E L' t" for t
    proof -
      from that obtain S d const where S: "E S = Some d" "downcasts L' d const = STab t" by (auto simp: is_list_def)
      have "addr d (obj_kind const) < next_table (heap L)" using wfD(2) [OF wfL S(1)] off_less [of "obj_kind const"] by (simp add: addr_def)
      with b S have "downcasts L d const = STab t" by (simp add: downcasts_def field_def built_def)
      with S list_outside [of E M D L t] ok show ?thesis by (auto simp: binder_ok_def is_list_def)
    qed
    have "list_ok ?E L' (D S const) S d const" if "?E S = Some d" for S d const
    proof (cases "S = T")
      case True
      with that nil new(2) show ?thesis by (simp add: list_ok_def)
    next
      case False
      with that have S: "E S = Some d" by simp
      have "outside ?E t" if "downcasts L' d const = STab t" "outside E t" for t
        using out [OF that(2) below] S that(1) by (auto simp: is_list_def)
      with downs_okD(1) [OF downs S, of const] show ?thesis unfolding list_ok_def by (metis (no_types, lifting))
    qed
    moreover have "S = S' \<and> const = const'"
      if "?E S = Some d" "?E S' = Some d'" "downcasts L' d const = STab t" "downcasts L' d' const' = STab t" for S d const S' d' const' t
    proof -
      from that(3,4) nil have "d \<noteq> c" "d' \<noteq> c" by auto
      with that(1,2) have "E S = Some d" "E S' = Some d'" by (simp_all split: if_splits)
      from downs_okD(2) [OF downs this that(3,4)] show ?thesis .
    qed
    moreover have "\<not> is_list ?E L' m \<and> (t_meta (tables (heap L') m) \<noteq> SNil \<longrightarrow> \<not> is_list ?E L' (Suc m) \<and> \<not> is_list ?E L' (Suc (Suc m)))"
      if "m \<in> M" for m
      unfolding l using downs_okD(3,4) [OF downs that] by blast
    ultimately show ?thesis by (rule downs_okI)
  qed
  ultimately show ?thesis by (simp add: binder_ok_def)
qed

text \<open>Writes to the new tables.\<close>

lemma class_table_rawset: "class_table L T c k \<Longrightarrow> free_key key \<or> key = SStr ''___super'' \<Longrightarrow> class_table (rawset t key v L) T c k"
  by (auto simp: class_table_def rawset_tables rawset_field free_key_def plain_key_def reserved_def own_names_def)

lemma built_rawset:
  assumes b: "built L T c bases L'"
  shows "free_key key \<Longrightarrow> key \<in> SStr ` set std_names \<Longrightarrow> built L T c bases (rawset (STab (addr c kd)) key v L')"
    "built L T c (bases(kd := v)) (rawset (STab (addr c kd)) (SStr ''___super'') v L')"
proof -
  from b have other: "addr c kd \<noteq> addr c KConst + 2" "n < next_table (heap L) \<Longrightarrow> addr c kd \<noteq> n" for n
    by (cases kd; simp add: addr_def built_def)+
  have same: "addr c kd = addr c k \<longleftrightarrow> kd = k" for k by (cases kd; cases k) (simp_all add: addr_def)
  have tabs: "tables (heap (rawset (STab (addr c kd)) key v L')) n = tables (heap L') n" if "n < next_table (heap L)" for key v n
    using other(2) [OF that] by (simp add: rawset_def raw_set_def)
  from b other tabs show "free_key key \<Longrightarrow> key \<in> SStr ` set std_names \<Longrightarrow> built L T c bases (rawset (STab (addr c kd)) key v L')"
    unfolding built_def by (auto simp: class_table_rawset rawset_tables rawset_field free_key_def plain_key_def own_names_def std_names_def)
  from b other tabs same show "built L T c (bases(kd := v)) (rawset (STab (addr c kd)) (SStr ''___super'') v L')"
    unfolding built_def by (auto simp: class_table_rawset rawset_tables rawset_field std_names_def own_names_def)
qed


text \<open>A new metatable, its getters and its setters, next to each other.\<close>

definition with_new_table :: "lua_State \<Rightarrow> lua_State" where
  "with_new_table L = L\<lparr>heap := snd (new_table (heap L))\<rparr>"

lemma rawset_new_eq: "rawset_new t k L = rawset t k (STab (next_table (heap L))) (with_new_table L)"
  by (simp add: rawset_new_def with_new_table_def rawset_def new_table_def)

lemma with_new_table_facts [simp]:
  "ptrs (with_new_table L) = ptrs L" "udatas (heap (with_new_table L)) = udatas (heap L)" "next_udata (heap (with_new_table L)) = next_udata (heap L)"
  "may_downcast (with_new_table L) = may_downcast L"
  "next_table (heap (with_new_table L)) = Suc (next_table (heap L))"
  "t_get (tables (heap (with_new_table L)) n) k = (if n = next_table (heap L) then SNil else t_get (tables (heap L) n) k)"
  "t_meta (tables (heap (with_new_table L)) n) = (if n = next_table (heap L) then SNil else t_meta (tables (heap L) n))"
  by (simp_all add: with_new_table_def new_table_def)

definition own_meta :: "nat \<Rightarrow> lua_State \<Rightarrow> lua_State" where
  "own_meta b L = L\<lparr>heap := set_meta (STab b) (STab b) (heap L)\<rparr>"

lemma own_meta_facts [simp]:
  "ptrs (own_meta b L) = ptrs L" "udatas (heap (own_meta b L)) = udatas (heap L)" "next_udata (heap (own_meta b L)) = next_udata (heap L)"
  "may_downcast (own_meta b L) = may_downcast L"
  "next_table (heap (own_meta b L)) = next_table (heap L)"
  "t_get (tables (heap (own_meta b L)) n) k = t_get (tables (heap L) n) k"
  "t_meta (tables (heap (own_meta b L)) n) = (if n = b then STab b else t_meta (tables (heap L) n))"
  by (simp_all add: own_meta_def set_meta_def)

lemma new_meta_eq:
  "new_meta ty L = (STab (next_table (heap L)), (let m = STab (next_table (heap L)) in
     rawset m (SStr ''___type'') (SStr ty) (rawset_new m (SStr ''___setters'') (rawset_new m (SStr ''___getters'')
       (rawset m (SStr ''__newindex'') (SFun CClassNewIndex) (rawset m (SStr ''__index'') (SFun CClassIndex)
         (own_meta (next_table (heap L)) (with_new_table L))))))))"
  by (simp add: new_meta_def with_new_table_def own_meta_def new_table_def Let_def)

lemma new_meta_facts:
  assumes "new_meta ty L = (m, L')"
  shows "m = STab (next_table (heap L))" "ptrs L' = ptrs L" "next_table (heap L') = next_table (heap L) + 3"
    "udatas (heap L') = udatas (heap L)" "next_udata (heap L') = next_udata (heap L)" "may_downcast L' = may_downcast L"
    "n < next_table (heap L) \<Longrightarrow> t_get (tables (heap L') n) k = t_get (tables (heap L) n) k"
    "n < next_table (heap L) \<Longrightarrow> t_meta (tables (heap L') n) = t_meta (tables (heap L) n)"
    "t_meta (tables (heap L') (next_table (heap L))) = STab (next_table (heap L))"
    "t_get (tables (heap L') (next_table (heap L) + 2)) k = SNil"
    "t_get (tables (heap L') (next_table (heap L))) k =
       (if k = SStr ''___type'' then SStr ty else if k = SStr ''___setters'' then STab (next_table (heap L) + 2)
        else if k = SStr ''___getters'' then STab (next_table (heap L) + 1)
        else if k = SStr ''__newindex'' then SFun CClassNewIndex else if k = SStr ''__index'' then SFun CClassIndex else SNil)"
proof -
  from assms have m: "m = STab (next_table (heap L))" and L': "L' = (let m = STab (next_table (heap L)) in
     rawset m (SStr ''___type'') (SStr ty) (rawset_new m (SStr ''___setters'') (rawset_new m (SStr ''___getters'')
       (rawset m (SStr ''__newindex'') (SFun CClassNewIndex) (rawset m (SStr ''__index'') (SFun CClassIndex)
         (own_meta (next_table (heap L)) (with_new_table L)))))))" by (auto simp: new_meta_eq Let_def)
  note facts = L' Let_def rawset_new_eq rawset_tables
  show "m = STab (next_table (heap L))" by (fact m)
  show "ptrs L' = ptrs L" "next_table (heap L') = next_table (heap L) + 3" by (simp_all add: facts)
  show "udatas (heap L') = udatas (heap L)" "next_udata (heap L') = next_udata (heap L)" "may_downcast L' = may_downcast L" by (simp_all add: facts)
  show "n < next_table (heap L) \<Longrightarrow> t_get (tables (heap L') n) k = t_get (tables (heap L) n) k" by (simp add: facts)
  show "n < next_table (heap L) \<Longrightarrow> t_meta (tables (heap L') n) = t_meta (tables (heap L) n)" by (simp add: facts)
  show "t_meta (tables (heap L') (next_table (heap L))) = STab (next_table (heap L))" by (simp add: facts)
  show "t_get (tables (heap L') (next_table (heap L) + 2)) k = SNil" by (simp add: facts)
  show "t_get (tables (heap L') (next_table (heap L))) k =
       (if k = SStr ''___type'' then SStr ty else if k = SStr ''___setters'' then STab (next_table (heap L) + 2)
        else if k = SStr ''___getters'' then STab (next_table (heap L) + 1)
        else if k = SStr ''__newindex'' then SFun CClassNewIndex else if k = SStr ''__index'' then SFun CClassIndex else SNil)"
    by (simp add: facts eq_commute [of k])
qed

lemma register_ptr_facts [simp]:
  "heap (register_ptr q v L) = heap L" "may_downcast (register_ptr q v L) = may_downcast L" "ptrs (register_ptr q v L) r = (if r = q then v else ptrs L r)"
  by (simp_all add: register_ptr_def)

lemma register_ptr_field [simp]: "field (register_ptr q v L) n name = field L n name"
  by (simp add: field_def)

lemma rawset_register: "rawset t k v (register_ptr q w L) = register_ptr q w (rawset t k v L)"
  by (simp add: rawset_def register_ptr_def)


text \<open>A new class.\<close>

lemma buildMetaTable_built:
  assumes free: "rawget L (STab p) name = SNil" and full: "getFullName A (STab p) name L = ret (full, L)"
    and p: "p < next_table (heap L)"
    and c: "c_base c = next_table (heap L)" "c_type c = ''class<'' @ full @ ''>''"
  shows "\<exists>L'. buildMetaTable A (STab p) name T L = ret (True, STab (addr c KStatic), L') \<and>
    built (rawset (STab p) (SStr name) (STab (addr c KStatic)) L) T c (\<lambda>k. SNil) L'"
proof -
  obtain m1 L1 where n1: "new_meta (''const_'' @ c_type c) L = (m1, L1)" by (cases "new_meta (''const_'' @ c_type c) L")
  note f1 = new_meta_facts [OF n1]
  define L2 where "L2 = rawset m1 (SPtr SigObject) (SPtr (SigConst T)) (rawset m1 (SStr ''___const'') m1 L1)"
  have b2: "next_table (heap L2) = c_base c + 3" by (simp add: L2_def f1 c)
  obtain m3 L3 where n3: "new_meta (c_type c) L2 = (m3, L3)" by (cases "new_meta (c_type c) L2")
  note f3 = new_meta_facts [OF n3, unfolded b2]
  define L4 where "L4 = rawset m3 (SPtr SigObject) (SPtr (SigClass T)) (rawset m3 (SStr ''___const'') m1 L3)"
  have b4: "next_table (heap L4) = c_base c + 6" by (simp add: L4_def f3)
  obtain m5 L5 where n5: "new_meta (''static_'' @ c_type c) L4 = (m5, L5)" by (cases "new_meta (''static_'' @ c_type c) L4")
  note f5 = new_meta_facts [OF n5, unfolded b4]
  define L6 where "L6 = ops [rawset m5 (SStr ''___class'') m3, rawset m5 (SStr ''___const'') m1,
               rawset m5 (SStr ''___parent'') (STab p), rawset m5 (SPtr SigObject) (SPtr (SigStatic T)),
               rawset m1 (SStr ''class'') m5, rawset m3 (SStr ''class'') m5,
               register_ptr (SigClass T) m3, register_ptr (SigConst T) m1,
               register_ptr (SigStatic T) m5, rawset (STab p) (SStr name) m5] L5"
  have m: "m1 = STab (c_base c)" "m3 = STab (c_base c + 3)" "m5 = STab (c_base c + 6)" "m5 = STab (addr c KStatic)"
    using f1(1) f3(1) f5(1) c by (simp_all add: addr_def)
  have eq: "buildMetaTable A (STab p) name T L = ret (True, m5, L6)"
    using free full n1 n3 n5 by (simp add: buildMetaTable_def c(2) Let_def L2_def L4_def L6_def)
  have p': "p \<noteq> c_base c + i" "p \<noteq> c_base c" "p \<noteq> Suc (Suc (c_base c))" for i using p c by simp_all
  have tab: "t_get (tables (heap L6) n) k = (if n = p \<and> k = SStr name then m5 else t_get (tables (heap L) n) k)"
    "t_meta (tables (heap L6) n) = t_meta (tables (heap L) n)" if "n < next_table (heap L)" for n k
    using that p c by (simp_all add: L6_def rawset_tables m f5 L4_def f3 L2_def f1 rawset_register)
  have const: "t_get (tables (heap L6) (c_base c)) k = (if k = SStr ''class'' then m5 else if k = SPtr SigObject then SPtr (SigConst T)
      else if k = SStr ''___const'' then m1 else t_get (tables (heap L1) (c_base c)) k)"
    "t_meta (tables (heap L6) (c_base c)) = m1" "t_get (tables (heap L6) (c_base c + 2)) k = SNil" for k
    using p' c f1(9,10) by (simp_all add: L6_def rawset_tables m f5 L4_def f3 L2_def rawset_register)
  have plain: "t_get (tables (heap L6) (c_base c + 3)) k = (if k = SStr ''class'' then m5 else if k = SPtr SigObject then SPtr (SigClass T)
      else if k = SStr ''___const'' then m1 else t_get (tables (heap L3) (c_base c + 3)) k)"
    "t_meta (tables (heap L6) (c_base c + 3)) = m3" for k
    using p' f3(9) by (simp_all add: L6_def rawset_tables m f5 L4_def rawset_register)
  have static: "t_get (tables (heap L6) (c_base c + 6)) k = (if k = SPtr SigObject then SPtr (SigStatic T)
      else if k = SStr ''___parent'' then STab p else if k = SStr ''___const'' then m1 else if k = SStr ''___class'' then m3
      else t_get (tables (heap L5) (c_base c + 6)) k)"
    "t_meta (tables (heap L6) (c_base c + 6)) = m5" for k
    using p' f5(9) by (simp_all add: L6_def rawset_tables m rawset_register)
  have objs: "udatas (heap L6) = udatas (heap L)" "next_udata (heap L6) = next_udata (heap L)" "may_downcast L6 = may_downcast L" by (simp_all add: L6_def f5 L4_def f3 L2_def f1)
  have len: "next_table (heap L6) = c_base c + 9" by (simp add: L6_def f5)
  have ptrs: "ptrs L6 q = (if q = SigStatic T then m5 else if q = SigConst T then m1 else if q = SigClass T then m3 else ptrs L q)" for q
    by (simp add: L6_def f5 L4_def f3 L2_def f1)
  have "class_table L6 T c k \<and> field L6 (addr c k) ''___super'' = SNil" for k
  proof (cases k)
    case KConst
    then show ?thesis using f1(11) m c const by (simp add: class_table_def field_def addr_def ptrs)
  next
    case KClass
    then show ?thesis using f3(11) m plain by (simp add: class_table_def field_def addr_def ptrs)
  next
    case KStatic
    then show ?thesis using f5(11) m static by (simp add: class_table_def field_def addr_def ptrs)
  qed
  moreover have "field L6 (addr c k) nm = SNil" if "nm \<notin> set std_names" for k nm
    using that f1(11) f3(11) f5(11) m c const plain static by (cases k) (auto simp: field_def addr_def std_names_def own_names_def)
  moreover have "tables (heap L6) n = tables (heap (rawset (STab p) (SStr name) m5 L)) n" if "n < next_table (heap L)" for n
    using tab [OF that] by (auto simp: rawset_tables intro!: lua_table.equality)
  moreover have "ptrs L6 (sig k C) = ptrs L (sig k C)" if "C \<noteq> T" for C k
    using that by (cases k) (simp_all add: ptrs)
  ultimately have "built (rawset (STab p) (SStr name) (STab (addr c KStatic)) L) T c (\<lambda>k. SNil) L6"
    using const(3) len objs c m(4) by (simp add: built_def addr_def)
  with eq m show ?thesis by auto
qed

section \<open>Names and parents\<close>

text \<open>
  What the manual says of accesses: a table that has the key, or that has no metatable, yields what is in it and
  runs no metamethod.
\<close>

definition raw_reads :: "lua_api \<Rightarrow> bool" where
  "raw_reads A \<longleftrightarrow> (\<forall>t k H. raw_get H (STab t) k \<noteq> SNil \<or> t_meta (tables H t) = SNil \<longrightarrow>
     api_get A (STab t) k H = ret (raw_get H (STab t) k, H))"

lemma getFullName_module:
  assumes "raw_reads A" "module_ok E L m"
  shows "\<exists>full. getFullName A (STab m) name L = ret (full, L)"
proof (cases "t_meta (tables (heap L) m) = SNil")
  case True
  with assms(2) have "field L m ''___type'' = SNil" by (simp add: module_ok_def)
  with True assms(1) show ?thesis by (simp add: getFullName_def raw_reads_def raw_get_def field_def)
next
  case False
  with assms(2) obtain ty where "field L m ''___type'' = SStr ty" by (auto simp: module_ok_def)
  with assms(1) show ?thesis by (simp add: getFullName_def raw_reads_def raw_get_def field_def)
qed

section \<open>Declaring classes\<close>

lemma built_fields:
  assumes "built L T c bases L'"
  shows "field L' (addr c k) ''___super'' = bases k" "field L' (addr c KStatic) ''___class'' = STab (addr c KClass)"
    "field L' (addr c k) ''___const'' = STab (addr c KConst)"
  using assms by (simp_all add: built_def class_table_def)

lemma gc_free [simp]: "free_key (SStr ''__gc'')" "SStr ''__gc'' \<in> SStr ` set std_names"
  by (simp_all add: free_key_def plain_key_def own_names_def std_names_def)

text \<open>A new class under a free name of a module, without and with a base class.\<close>

definition new_class :: "lua_State \<Rightarrow> nat option \<Rightarrow> string \<Rightarrow> cls" where
  "new_class L S full = \<lparr>c_base = next_table (heap L), c_super = S, c_type = ''class<'' @ full @ ''>''\<rparr>"

lemma new_class_simps [simp]:
  "c_base (new_class L S full) = next_table (heap L)" "c_super (new_class L S full) = S"
  "c_type (new_class L S full) = ''class<'' @ full @ ''>''"
  by (simp_all add: new_class_def)

lemma CppBindClass_bind_ok:
  assumes api: "raw_reads A" and ok: "binder_ok E M B D L" and p: "p \<in> M" and new: "E T = None" "\<And>const. D T const = []"
    and name: "name \<notin> set reserved" and free: "field L p name = SNil"
  shows "\<exists>L' full. getFullName A (STab p) name L = ret (full, L) \<and>
    CppBindClass_bind A (STab p) name T gc gc_const L = ret (STab (addr (new_class L None full) KStatic), L') \<and>
    binder_ok (E(T \<mapsto> new_class L None full)) M B D L' \<and>
    built (rawset (STab p) (SStr name) (STab (addr (new_class L None full) KStatic)) L) T (new_class L None full) (super_slot E (new_class L None full)) L'"
proof -
  from ok p have m: "module_ok E L p" by (simp add: binder_ok_def)
  from getFullName_module [OF api m] obtain full where full: "getFullName A (STab p) name L = ret (full, L)" by blast
  let ?c = "new_class L None full"
  let ?L0 = "rawset (STab p) (SStr name) (STab (addr ?c KStatic)) L"
  have "rawget L (STab p) name = SNil" using free by simp
  from buildMetaTable_built [OF this full, of ?c T] m obtain L1
    where L1: "buildMetaTable A (STab p) name T L = ret (True, STab (addr ?c KStatic), L1)" and b: "built ?L0 T ?c (\<lambda>k. SNil) L1"
    by (auto simp: module_ok_def)
  let ?L2 = "rawset (STab (addr ?c KClass)) (SStr ''__gc'') gc L1"
  let ?L3 = "rawset (STab (addr ?c KConst)) (SStr ''__gc'') gc_const ?L2"
  have b2: "built ?L0 T ?c (\<lambda>k. SNil) ?L2" using b by (rule built_rawset) simp_all
  have b3: "built ?L0 T ?c (\<lambda>k. SNil) ?L3" using b2 by (rule built_rawset) simp_all
  have eq: "CppBindClass_bind A (STab p) name T gc gc_const L = ret (STab (addr ?c KStatic), ?L3)"
    using L1 built_fields [OF b] built_fields [OF b2] by (simp add: CppBindClass_bind_def)
  have "outside E p" using m by (simp add: module_ok_def)
  from binder_ok_outside [OF ok this module_no_list(1) [OF ok p] free_name [OF name]] have "binder_ok E M B D ?L0" .
  from binder_ok_built [OF this new b3] have "binder_ok (E(T \<mapsto> ?c)) M B D ?L3" by (simp add: super_slot_def)
  moreover have "(\<lambda>k. SNil) = super_slot E ?c" by (simp add: super_slot_def fun_eq_iff)
  ultimately show ?thesis using eq full b3 by auto
qed

end
