(* ===== verification/Lua_Downcast.thy ===== *)
theory Lua_Downcast
  imports Lua_Binder
begin

text \<open>
  The lists of downcasts that \<^verbatim>\<open>CppAutoDowncast\<close> keeps: declaring a class adds it to the two lists of its base class, and an object
  that is pushed as an object of a base class gets the metatable of its own class.
\<close>

section \<open>Adding to a list\<close>

lemma border_eq:
  "(\<And>i. i < m \<Longrightarrow> t (SNum (int i + 1)) \<noteq> SNil) \<Longrightarrow> t (SNum (int m + 1)) = SNil \<Longrightarrow> n \<le> m \<Longrightarrow> m < n + fuel \<Longrightarrow> border t fuel n = m"
proof (induction fuel arbitrary: n)
  case (Suc fuel)
  then show ?case by (cases "n = m") auto
qed simp

lemma list_number [simp]: "plain_key (SNum i)" "free_key (SNum i)" "plain_key (SStr ''__downcast'')"
  by (simp_all add: free_key_def plain_key_def own_names_def)

lemma entry_ok_nonnil: "entry_ok L Ts const i v \<Longrightarrow> i < length Ts \<Longrightarrow> v \<noteq> SNil"
  by (auto simp: entry_ok_def)

lemma const_setters_ok_rawset:
  assumes "const_setters_ok E L" "\<And>C d. E C = Some d \<Longrightarrow> n \<noteq> addr d KConst + 2"
  shows "const_setters_ok E (rawset (STab n) k v L)"
  using assms by (auto simp: const_setters_ok_def Let_def rawset_tables)

lemma class_table_inside: "E S = Some d \<Longrightarrow> i < 3 \<Longrightarrow> \<not> outside E (addr d k + i)"
  using off_less [of k] by (intro notI) (auto simp: outside_def addr_def dest!: spec [where x = S])

text \<open>The table of the list, which may have to be made, before the new entry is written.\<close>

lemma downcast_list:
  assumes ok: "binder_ok E M B D L" and S: "E S = Some d" and len: "length (D S const) < next_table (heap L)"
    and may: "may_downcast L (sig (obj_kind const) S)"
  defines "a \<equiv> addr d (obj_kind const)"
  defines "L2 \<equiv> (if downcasts L d const = SNil then rawset_new (STab a) (SStr ''__downcast'') L else L)"
  obtains t where "downcasts L2 d const = STab t" "wf E L2" "const_setters_ok E L2" "\<forall>m \<in> M. module_ok E L2 m" "\<forall>b \<in> B. object_ok E L2 b"
    "t < next_table (heap L2)" "outside E t" "next_table (heap L) \<le> next_table (heap L2)" "udatas (heap L2) = udatas (heap L)"
    "next_udata (heap L2) = next_udata (heap L)" "may_downcast L2 = may_downcast L" "ptrs L2 = ptrs L"
    "\<And>i. entry_ok L2 (D S const) const i (t_get (tables (heap L2) t) (SNum (int i + 1)))"
    "\<And>S' d' const'. E S' = Some d' \<Longrightarrow> (S', const') \<noteq> (S, const) \<Longrightarrow> downcasts L2 d' const' = downcasts L d' const' \<and> downcasts L d' const' \<noteq> STab t"
    "\<And>n k. n < next_table (heap L) \<Longrightarrow> n \<noteq> a \<Longrightarrow> tables (heap L2) n = tables (heap L) n"
    "\<And>m. m \<in> M \<Longrightarrow> m \<noteq> t \<and> (t_meta (tables (heap L2) m) \<noteq> SNil \<longrightarrow> Suc m \<noteq> t \<and> Suc (Suc m) \<noteq> t \<and> t_meta (tables (heap L) m) \<noteq> SNil)"
proof (cases "downcasts L d const = SNil")
  case True
  let ?t = "next_table (heap L)"
  have L2: "L2 = rawset (STab a) (SStr ''__downcast'') (STab ?t) (with_new_table L)" using True by (simp add: L2_def rawset_new_eq)
  have okw: "binder_ok E M B D (with_new_table L)"
    by (rule binder_ok_frame [OF ok]) (simp_all add: with_new_table_def new_table_def)
  have wfL: "wf E L" using ok by (simp add: binder_ok_def)
  have a: "a < ?t" using wfD(2) [OF wfL S] off_less [of "obj_kind const"] by (simp add: a_def addr_def)
  have apart: "a \<noteq> addr c KConst + 2" if "E C = Some c" for C c
    using tables_apart [OF wfL S that, of 0 2 "obj_kind const" KConst] by (simp add: a_def)
  have addrs: "addr d' (obj_kind const') = a \<longleftrightarrow> S' = S \<and> const' = const" if "E S' = Some d'" for S' d' const'
    using addr_inj [OF wfL that S] by (auto simp: a_def obj_kind_def)
  have lower: "addr d' k < ?t" if "E S' = Some d'" for S' d' k
    using wfD(2) [OF wfL that] off_less [of k] by (simp add: addr_def)
  have D: "D S const = []"
    using ok S True unfolding binder_ok_def downs_ok_def list_ok_def by (metis slot.distinct(9))
  have old: "downcasts (with_new_table L) d' const' = downcasts L d' const'" if "E S' = Some d'" for S' d' const'
    using lower [OF that] by (simp add: downcasts_def field_def less_not_refl3)
  show thesis
  proof (rule that)
    show "downcasts L2 d const = STab ?t" by (simp add: L2 downcasts_def rawset_field a_def)
    show "wf E L2" unfolding L2 using okw by (intro wf_rawset) (simp_all add: binder_ok_def)
    show "const_setters_ok E L2" unfolding L2 using okw apart by (intro const_setters_ok_rawset) (simp_all add: binder_ok_def)
    show "\<forall>m \<in> M. module_ok E L2 m" unfolding L2 using okw by (auto intro!: module_ok_rawset simp: binder_ok_def)
    show "\<forall>b \<in> B. object_ok E L2 b" unfolding L2 using okw by (simp add: binder_ok_def)
    show "outside E ?t" using wfD(2) [OF wfL] by (auto simp: outside_def)
    show "?t < next_table (heap L2)" "?t \<le> next_table (heap L2)" "udatas (heap L2) = udatas (heap L)"
      "next_udata (heap L2) = next_udata (heap L)" "may_downcast L2 = may_downcast L" "ptrs L2 = ptrs L" by (simp_all add: L2)
    show "entry_ok L2 (D S const) const i (t_get (tables (heap L2) ?t) (SNum (int i + 1)))" for i
      by (simp add: D entry_ok_def L2 rawset_tables)
    show "downcasts L2 d' const' = downcasts L d' const' \<and> downcasts L d' const' \<noteq> STab ?t"
      if "E S' = Some d'" "(S', const') \<noteq> (S, const)" for S' d' const'
    proof -
      have "downcasts L2 d' const' = downcasts L d' const'"
        using addrs [OF that(1), of const'] that old [OF that(1)] by (auto simp: L2 downcasts_def rawset_field)
      moreover have "downcasts L d' const' \<noteq> STab ?t"
        using list_outside [of E M D L ?t] ok that(1) by (auto simp: binder_ok_def is_list_def)
      ultimately show ?thesis by simp
    qed
    show "tables (heap L2) n = tables (heap L) n" if "n < ?t" "n \<noteq> a" for n
      using that by (auto simp: L2 rawset_tables intro!: lua_table.equality)
    show "m \<noteq> ?t \<and> (t_meta (tables (heap L2) m) \<noteq> SNil \<longrightarrow> Suc m \<noteq> ?t \<and> Suc (Suc m) \<noteq> ?t \<and> t_meta (tables (heap L) m) \<noteq> SNil)" if "m \<in> M" for m
      using ok that by (auto simp: L2 binder_ok_def module_ok_def rawset_tables split: if_splits)
  qed
next
  case False
  have L2: "L2 = L" using False by (simp add: L2_def)
  from ok have downs: "downs_ok E M D L" by (simp add: binder_ok_def)
  from downs_okD(1) [OF downs S, of const] False obtain t where t: "downcasts L d const = STab t" "t < next_table (heap L)" "outside E t"
    "\<forall>i. entry_ok L (D S const) const i (t_get (tables (heap L) t) (SNum (int i + 1)))"
    by (auto simp: list_ok_def split: if_splits)
  have list: "is_list E L t" using S t(1) by (auto simp: is_list_def)
  show thesis
  proof (rule that)
    show "downcasts L2 d' const' = downcasts L d' const' \<and> downcasts L d' const' \<noteq> STab t"
      if "E S' = Some d'" "(S', const') \<noteq> (S, const)" for S' d' const'
      using downs_okD(2) [OF downs S that(1) t(1), of const'] that(2) by (auto simp: L2)
    show "m \<noteq> t \<and> (t_meta (tables (heap L2) m) \<noteq> SNil \<longrightarrow> Suc m \<noteq> t \<and> Suc (Suc m) \<noteq> t \<and> t_meta (tables (heap L) m) \<noteq> SNil)" if "m \<in> M" for m
      using downs_okD(3,4) [OF downs that] list by (auto simp: L2)
  qed (use ok t in \<open>auto simp: L2 binder_ok_def\<close>)
qed


definition add_down :: "downs \<Rightarrow> nat \<Rightarrow> bool \<Rightarrow> nat \<Rightarrow> downs" where
  "add_down D S const T = (\<lambda>S' const'. if S' = S \<and> const' = const then D S const @ [T] else D S' const')"

lemma rawlen_list:
  assumes "downcasts L d const = STab t" "\<And>i. entry_ok L' Ts const i (t_get (tables (heap L) t) (SNum (int i + 1)))"
    "length Ts < next_table (heap L)"
  shows "rawlen L (STab t) = length Ts"
  unfolding rawlen_def
proof (rule border_eq)
  show "raw_get (heap L) (STab t) (SNum (int i + 1)) \<noteq> SNil" if "i < length Ts" for i
    using entry_ok_nonnil [OF assms(2) that] by (simp add: raw_get_def)
  show "raw_get (heap L) (STab t) (SNum (int (length Ts) + 1)) = SNil"
    using assms(2) [of "length Ts"] by (simp add: raw_get_def entry_ok_def)
qed (use assms(3) in simp_all)

lemma addDowncast_ok:
  assumes ok: "binder_ok E M B D L" and S: "E S = Some d" and len: "Suc (length (D S const)) < next_table (heap L)"
  shows "binder_ok E M B (add_down D S const T) (addDowncast T S const (STab (addr d (obj_kind const))) L)"
    "next_table (heap L) \<le> next_table (heap (addDowncast T S const (STab (addr d (obj_kind const))) L))"
proof -
  let ?a = "addr d (obj_kind const)" and ?u = "next_udata (heap L)"
  define L1 where "L1 = L\<lparr>heap := snd (new_udata SNil (downcast_fun T const) (heap L)),
    may_downcast := (may_downcast L)(getClassID S const := True)\<rparr>"
  have same: "tables (heap L1) = tables (heap L)" "next_table (heap L1) = next_table (heap L)" "ptrs L1 = ptrs L"
    "next_udata (heap L1) = Suc ?u" "udatas (heap L1) = (udatas (heap L))(?u := \<lparr>u_meta = SNil, u_object = downcast_fun T const\<rparr>)"
    "may_downcast L1 = (may_downcast L)(getClassID S const := True)"
    by (simp_all add: L1_def new_udata_def)
  have ok1: "binder_ok E M B D L1"
    by (rule binder_ok_frame [OF ok]) (simp_all add: same)
  have may: "may_downcast L1 (sig (obj_kind const) S)" by (simp add: same sig_class_id obj_kind_def)
  have down1: "downcasts L1 d' const' = downcasts L d' const'" for d' const' by (simp add: downcasts_def field_def same)
  define L2 where "L2 = (if downcasts L1 d const = SNil then rawset_new (STab ?a) (SStr ''__downcast'') L1 else L1)"
  have len1: "length (D S const) < next_table (heap L1)" using len same by simp
  obtain t
    where t: "downcasts L2 d const = STab t" "wf E L2" "const_setters_ok E L2" "\<forall>m \<in> M. module_ok E L2 m" "\<forall>b \<in> B. object_ok E L2 b"
    "t < next_table (heap L2)" "outside E t" "next_table (heap L1) \<le> next_table (heap L2)" "udatas (heap L2) = udatas (heap L1)"
    "next_udata (heap L2) = next_udata (heap L1)" "may_downcast L2 = may_downcast L1" "ptrs L2 = ptrs L1"
    and entries: "\<And>i. entry_ok L2 (D S const) const i (t_get (tables (heap L2) t) (SNum (int i + 1)))"
    and others: "\<And>S' d' const'. E S' = Some d' \<Longrightarrow> (S', const') \<noteq> (S, const) \<Longrightarrow> downcasts L2 d' const' = downcasts L1 d' const' \<and> downcasts L1 d' const' \<noteq> STab t"
    and below: "\<And>n k. n < next_table (heap L1) \<Longrightarrow> n \<noteq> ?a \<Longrightarrow> tables (heap L2) n = tables (heap L1) n"
    and mods: "\<And>m. m \<in> M \<Longrightarrow> m \<noteq> t \<and> (t_meta (tables (heap L2) m) \<noteq> SNil \<longrightarrow> Suc m \<noteq> t \<and> Suc (Suc m) \<noteq> t \<and> t_meta (tables (heap L1) m) \<noteq> SNil)"
    by (rule downcast_list [where E = E, OF ok1 S len1 may, folded L2_def]) (rule that)
  have raw: "rawlen L2 (STab t) = length (D S const)"
    using rawlen_list [OF t(1) entries] t(8) len same by simp
  let ?k = "SNum (int (length (D S const)) + 1)"
  define L3 where "L3 = rawset (STab t) ?k (SUser ?u) L2"
  have list: "rawget L2 (STab ?a) ''__downcast'' = STab t" using t(1) by (simp add: downcasts_def)
  have "addDowncast T S const (STab ?a) L = rawset (rawget L2 (STab ?a) ''__downcast'')
      (SNum (int (rawlen L2 (rawget L2 (STab ?a) ''__downcast'')) + 1)) (SUser ?u) L2"
    unfolding addDowncast_def L2_def downcasts_def L1_def by (simp add: new_udata_def Let_def)
  then have eq: "addDowncast T S const (STab ?a) L = L3" unfolding list raw L3_def .
  have downs: "downs_ok E M D L1" using ok1 by (simp add: binder_ok_def)
  have f3: "downcasts L3 d' const' = downcasts L2 d' const'" for d' const' by (simp add: L3_def downcasts_def rawset_field)
  have new: "list_ok E L3 (D S const @ [T]) S d const"
  proof -
    have "entry_ok L3 (D S const @ [T]) const i (t_get (tables (heap L3) t) (SNum (int i + 1)))" for i
    proof (cases i "length (D S const)" rule: linorder_cases)
      case less
      with entries [of i] show ?thesis by (simp add: entry_ok_def L3_def rawset_tables nth_append)
    next
      case equal
      then show ?thesis using t(9,10) same by (simp add: entry_ok_def L3_def rawset_tables)
    next
      case greater
      with entries [of i] show ?thesis by (simp add: entry_ok_def L3_def rawset_tables)
    qed
    moreover have "downcasts L3 d const = STab t" by (simp add: f3 t(1))
    moreover have "t < next_table (heap L3)" "Suc (length (D S const)) < next_table (heap L3)" "may_downcast L3 (sig (obj_kind const) S)"
      using t(6,8,11) len same(2) may by (simp_all add: L3_def)
    ultimately show ?thesis using t(7) unfolding list_ok_def by auto
  qed
  have old: "list_ok E L3 (D S' const') S' d' const'" if "E S' = Some d'" "(S', const') \<noteq> (S, const)" for S' d' const'
  proof (cases "D S' const' = []")
    case True
    with downs_okD(1) [OF downs that(1), of const'] others [OF that] show ?thesis by (simp add: list_ok_def f3)
  next
    case False
    with downs_okD(1) [OF downs that(1), of const'] obtain t' where t': "downcasts L1 d' const' = STab t'" "t' < next_table (heap L1)" "outside E t'"
      "\<forall>i. entry_ok L1 (D S' const') const' i (t_get (tables (heap L1) t') (SNum (int i + 1)))"
      "may_downcast L1 (sig (obj_kind const') S')" "length (D S' const') < next_table (heap L1)"
      by (auto simp: list_ok_def)
    have "t' \<noteq> ?a" using t'(3) class_table_inside [of E S d 0 "obj_kind const"] S by auto
    with below t'(2) have tab: "tables (heap L2) t' = tables (heap L1) t'" by simp
    have "t' \<noteq> t" using others [OF that] t'(1) by auto
    with tab t'(4) t(9,10) have "\<forall>i. entry_ok L3 (D S' const') const' i (t_get (tables (heap L3) t') (SNum (int i + 1)))"
      by (simp add: L3_def rawset_tables entry_ok_def)
    moreover have "downcasts L3 d' const' = STab t'" using others [OF that] t'(1) by (simp add: f3)
    moreover have "t' < next_table (heap L3)" "length (D S' const') < next_table (heap L3)" "may_downcast L3 (sig (obj_kind const') S')"
      using t(8,11) t'(2,5,6) by (simp_all add: L3_def)
    ultimately show ?thesis using False t'(3) unfolding list_ok_def by auto
  qed
  have lists3: "is_list E L3 n \<longleftrightarrow> n = t \<or> (\<exists>S' d' const'. E S' = Some d' \<and> (S', const') \<noteq> (S, const) \<and> downcasts L1 d' const' = STab n)" for n
  proof -
    have "is_list E L3 n \<longleftrightarrow> (\<exists>S' d' const'. E S' = Some d' \<and> downcasts L2 d' const' = STab n)" by (simp add: is_list_def f3)
    also have "\<dots> \<longleftrightarrow> n = t \<or> (\<exists>S' d' const'. E S' = Some d' \<and> (S', const') \<noteq> (S, const) \<and> downcasts L2 d' const' = STab n)"
      using t(1) S by (metis option.inject prod.inject slot.inject(5))
    also have "\<dots> \<longleftrightarrow> n = t \<or> (\<exists>S' d' const'. E S' = Some d' \<and> (S', const') \<noteq> (S, const) \<and> downcasts L1 d' const' = STab n)"
      using others by metis
    finally show ?thesis .
  qed
  have apart: "S' = S'' \<and> c' = c''"
    if "E S' = Some d'" "E S'' = Some d''" "downcasts L3 d' c' = STab n" "downcasts L3 d'' c'' = STab n" for S' d' c' S'' d'' c'' n
  proof -
    consider "(S', c') = (S, const)" "(S'', c'') = (S, const)" | "(S', c') \<noteq> (S, const)" "(S'', c'') = (S, const)"
      | "(S', c') = (S, const)" "(S'', c'') \<noteq> (S, const)" | "(S', c') \<noteq> (S, const)" "(S'', c'') \<noteq> (S, const)" by blast
    then show ?thesis
    proof cases
      case 2
      with that S t(1) others [OF that(1) 2(1)] show ?thesis by (simp add: f3)
    next
      case 3
      with that S t(1) others [OF that(2) 3(2)] show ?thesis by (simp add: f3)
    next
      case 4
      with that others [OF that(1) 4(1)] others [OF that(2) 4(2)] downs_okD(2) [OF downs that(1,2)] show ?thesis by (simp add: f3)
    qed simp
  qed
  have "downs_ok E M (add_down D S const T) L3"
  proof (rule downs_okI)
    show "list_ok E L3 (add_down D S const T S' c') S' d' c'" if "E S' = Some d'" for S' d' c'
      using new old [OF that, of c'] that S by (cases "(S', c') = (S, const)") (auto simp: add_down_def)
    show "S' = S'' \<and> c' = c''"
      if "E S' = Some d'" "E S'' = Some d''" "downcasts L3 d' c' = STab n" "downcasts L3 d'' c'' = STab n" for S' d' c' S'' d'' c'' n
      by (rule apart [OF that])
    show "\<not> is_list E L3 m \<and> (t_meta (tables (heap L3) m) \<noteq> SNil \<longrightarrow> \<not> is_list E L3 (Suc m) \<and> \<not> is_list E L3 (Suc (Suc m)))" if "m \<in> M" for m
    proof -
      have meta: "t_meta (tables (heap L3) m) = t_meta (tables (heap L2) m)" by (simp add: L3_def rawset_tables)
      have l1: "is_list E L3 n \<Longrightarrow> n = t \<or> is_list E L1 n" for n
        unfolding lists3 unfolding is_list_def by blast
      from mods [OF that] downs_okD(3,4) [OF downs that] show ?thesis unfolding meta by (auto dest: l1)
    qed
  qed
  moreover have "wf E L3" unfolding L3_def using t(2) by (rule wf_rawset) simp
  moreover have "const_setters_ok E L3"
    unfolding L3_def using t(3)
  proof (rule const_setters_ok_rawset)
    show "t \<noteq> addr c KConst + 2" if "E C = Some c" for C c using class_table_inside [where E = E, OF that, of 2 KConst] t(7) by auto
  qed
  moreover have "\<forall>m \<in> M. module_ok E L3 m" unfolding L3_def using t(4) by (simp add: module_ok_rawset)
  moreover have "\<forall>b \<in> B. object_ok E L3 b" unfolding L3_def using t(5) by simp
  ultimately show "binder_ok E M B (add_down D S const T) (addDowncast T S const (STab ?a) L)" unfolding eq binder_ok_def by blast
  show "next_table (heap L) \<le> next_table (heap (addDowncast T S const (STab ?a) L))" unfolding eq using t(8) by (simp add: L3_def same)
qed


lemma addDowncast_facts:
  "next_udata (heap (addDowncast T S const (STab a) L)) = Suc (next_udata (heap L))"
  "ptrs (addDowncast T S const (STab a) L) = ptrs L"
  "next_table (heap (addDowncast T S const (STab a) L)) = (if field L a ''__downcast'' = SNil then Suc (next_table (heap L)) else next_table (heap L))"
  "n < next_table (heap L) \<Longrightarrow> name \<noteq> ''__downcast'' \<Longrightarrow> field (addDowncast T S const (STab a) L) n name = field L n name"
  by (auto simp: addDowncast_def new_udata_def Let_def rawset_new_eq rawset_field field_def rawset_tables)

section \<open>A class with a base class\<close>

text \<open>What declaring it does beside the writes to the tables of the class and of its base class.\<close>

definition extended :: "lua_State \<Rightarrow> lua_State \<Rightarrow> bool" where
  "extended L L' \<longleftrightarrow> ptrs L' = ptrs L \<and> next_udata (heap L') = Suc (Suc (next_udata (heap L))) \<and>
     next_table (heap L) \<le> next_table (heap L') \<and> next_table (heap L') \<le> next_table (heap L) + 2 \<and>
     (\<forall>n < next_table (heap L). \<forall>name. name \<noteq> ''__downcast'' \<longrightarrow> field L' n name = field L n name)"

lemma CppAutoDowncast_add_ok:
  assumes ok: "binder_ok E M B D L" and S: "E S = Some d" and len: "\<And>const. Suc (length (D S const)) < next_table (heap L)"
  shows "binder_ok E M B (add_down (add_down D S False T) S True T) (CppAutoDowncast_add T S L)" "extended L (CppAutoDowncast_add T S L)"
proof -
  let ?L1 = "addDowncast T S False (STab (addr d KClass)) L"
  let ?L2 = "addDowncast T S True (STab (addr d KConst)) ?L1"
  have wf: "wf E L" using ok by (simp add: binder_ok_def)
  have ptr: "ptrs L (SigStatic S) = STab (addr d KStatic)"
    using wfD(1) [OF wf S, of KStatic] by (simp add: table_ok_def)
  have ok1: "binder_ok E M B (add_down D S False T) ?L1" and n1: "next_table (heap L) \<le> next_table (heap ?L1)"
    using addDowncast_ok [OF ok S len [of False], of T] by (simp_all add: obj_kind_def)
  have "Suc (length (add_down D S False T S True)) < next_table (heap ?L1)" using len [of True] n1 by (simp add: add_down_def)
  from addDowncast_ok [OF ok1 S this, of T]
  have ok2: "binder_ok E M B (add_down (add_down D S False T) S True T) ?L2" by (simp add: obj_kind_def)
  have eq: "CppAutoDowncast_add T S L = ?L2"
    using class_fields(1) [OF ok S] class_fields(2) [OF ok1 S] ptr by (simp add: CppAutoDowncast_add_def Let_def)
  from ok2 show "binder_ok E M B (add_down (add_down D S False T) S True T) (CppAutoDowncast_add T S L)" unfolding eq .
  show "extended L (CppAutoDowncast_add T S L)" unfolding eq extended_def using n1 by (auto simp: addDowncast_facts)
qed

lemma lists_short:
  assumes "binder_ok E M B D L" "E S = Some d"
  shows "length (D S const) < next_table (heap L)"
  using downs_okD(1) [where E = E and M = M and D = D and L = L and const = const, OF _ assms(2)] assms(1)
    wfD(2) [where E = E and L = L, OF _ assms(2)]
  by (auto simp: binder_ok_def list_ok_def split: if_splits)

lemma CppBindClass_extend_ok:
  assumes api: "raw_reads A" and ok: "binder_ok E M B D L" and p: "p \<in> M" and new: "E T = None" "\<And>const. D T const = []" and base: "E S = Some d"
    and name: "name \<notin> set reserved" and free: "field L p name = SNil"
  shows "\<exists>L1 L' full. getFullName A (STab p) name L = ret (full, L) \<and>
    CppBindClass_extend A (STab p) name T S gc gc_const L = ret (STab (addr (new_class L (Some S) full) KStatic), L') \<and>
    binder_ok (E(T \<mapsto> new_class L (Some S) full)) M B (add_down (add_down D S False T) S True T) L' \<and> extended L1 L' \<and>
    built (rawset (STab p) (SStr name) (STab (addr (new_class L (Some S) full) KStatic)) L) T (new_class L (Some S) full) (super_slot E (new_class L (Some S) full)) L1"
proof -
  from ok p have m: "module_ok E L p" by (simp add: binder_ok_def)
  from getFullName_module [OF api m] obtain full where full: "getFullName A (STab p) name L = ret (full, L)" by blast
  let ?c = "new_class L (Some S) full"
  let ?L0 = "rawset (STab p) (SStr name) (STab (addr ?c KStatic)) L"
  have "rawget L (STab p) name = SNil" using free by simp
  from buildMetaTable_built [OF this full, of ?c T] m obtain L1
    where L1: "buildMetaTable A (STab p) name T L = ret (True, STab (addr ?c KStatic), L1)" and b: "built ?L0 T ?c (\<lambda>k. SNil) L1"
    by (auto simp: module_ok_def)
  have "outside E p" using m by (simp add: module_ok_def)
  from binder_ok_outside [OF ok this module_no_list(1) [OF ok p] free_name [OF name]] have ok0: "binder_ok E M B D ?L0" .
  have neq: "S \<noteq> T" using new base by auto
  have "binder_ok E M B D L1"
  proof (rule binder_ok_frame [OF ok0])
    show "ptrs L1 (sig k C) = ptrs ?L0 (sig k C)" if "E C \<noteq> None" for C k
      using b that new by (cases "C = T") (simp_all add: built_def)
  qed (use b in \<open>simp_all add: built_def\<close>)
  note sup = class_fields(1,2) [OF this base]
  have ptr: "ptrs L1 (SigStatic S) = STab (addr d KStatic)"
    using wfD(1) [of E L1 S d KStatic] \<open>binder_ok E M B D L1\<close> base by (simp add: binder_ok_def table_ok_def)
  let ?m = "\<lambda>k L. rawset (STab (addr ?c k)) (SStr ''___super'') (STab (addr d k)) L"
  let ?L4 = "?m KConst (?m KClass (?m KStatic L1))"
  note b1 = built_rawset(2) [OF b, of KStatic "STab (addr d KStatic)"]
  note b2 = built_rawset(2) [OF b1, of KClass "STab (addr d KClass)"]
  note b3 = built_rawset(2) [OF b2, of KConst "STab (addr d KConst)"]
  let ?L5 = "rawset (STab (addr ?c KClass)) (SStr ''__gc'') gc ?L4"
  let ?L6 = "rawset (STab (addr ?c KConst)) (SStr ''__gc'') gc_const ?L5"
  note b5 = built_rawset(1) [OF b3 gc_free, of KClass gc]
  note b6 = built_rawset(1) [OF b5 gc_free, of KConst gc_const]
  have old: "addr ?c k \<noteq> addr d KStatic" for k
    using ok base off_less(1) [of KStatic] by (auto simp: binder_ok_def wf_def addr_def dest!: spec [where x = S])
  let ?L7 = "CppAutoDowncast_add T S ?L6"
  have eq: "CppBindClass_extend A (STab p) name T S gc gc_const L = ret (STab (addr ?c KStatic), ?L7)"
    using L1 ptr sup old built_fields [OF b] built_fields [OF b1] built_fields [OF b2] built_fields [OF b3] built_fields [OF b5]
    by (simp add: CppBindClass_extend_def buildMetaTable_super_def Let_def rawset_field)
  have "((\<lambda>k. SNil)(KStatic := STab (addr d KStatic), KClass := STab (addr d KClass), KConst := STab (addr d KConst))) k =
      super_slot E ?c k" for k
    using base by (cases k) (simp_all add: super_slot_def)
  note sups = this
  from binder_ok_built [OF ok0 new b6 this] base have ok6: "binder_ok (E(T \<mapsto> ?c)) M B D ?L6" by simp
  have S6: "(E(T \<mapsto> ?c)) S = Some d" using base neq by simp
  have "Suc (length (D S const)) < next_table (heap ?L6)" for const
    using lists_short [OF ok base, of const] b6 by (simp add: built_def)
  from CppAutoDowncast_add_ok [OF ok6 S6 this, of T]
  have "binder_ok (E(T \<mapsto> ?c)) M B (add_down (add_down D S False T) S True T) ?L7" "extended ?L6 ?L7" .
  moreover have "super_slot E ?c = (\<lambda>k. SNil)(KStatic := STab (addr d KStatic), KClass := STab (addr d KClass), KConst := STab (addr d KConst))"
    by (rule ext) (rule sups [symmetric])
  with b6 have "built ?L0 T ?c (super_slot E ?c) ?L6" by (simp only:)
  ultimately show ?thesis using eq full by blast
qed

section \<open>Finding the class of an object\<close>

text \<open>The lists are those of the classes that have been declared.\<close>

definition downs_of :: "env \<Rightarrow> downs \<Rightarrow> bool" where
  "downs_of E D \<longleftrightarrow> (\<forall>S const. set (D S const) = {T. \<exists>c. E T = Some c \<and> c_super c = Some S})"

lemma downs_of_new:
  assumes "downs_of E D" "wf E L" "E T = None"
  shows "D T const = []"
proof -
  have "\<not> (\<exists>C c. E C = Some c \<and> c_super c = Some T)" using wfD(3) [OF assms(2)] assms(3) by fastforce
  with assms(1) have "set (D T const) = {}" unfolding downs_of_def by auto
  then show ?thesis by simp
qed

lemma downs_of_declared:
  assumes "downs_of E D" "E T = None"
  shows "c_super c = None \<Longrightarrow> downs_of (E(T \<mapsto> c)) D"
    "c_super c = Some S \<Longrightarrow> downs_of (E(T \<mapsto> c)) (add_down (add_down D S False T) S True T)"
  using assms by (auto simp: downs_of_def add_down_def)

text \<open>The first class in the list to which the object can be cast.\<close>

lemma downcast_fun_inverse [simp]: "downcast_fun T const div 2 = T" "odd (downcast_fun T const) = const"
  by (simp_all add: downcast_fun_def)

lemma try_downcasts_list:
  "(\<And>i. i < length Ts \<Longrightarrow> \<exists>u. vs ! i = SUser u \<and> u_object (udatas H u) = downcast_fun (Ts ! i) const) \<Longrightarrow> length vs = length Ts \<Longrightarrow>
     try_downcasts dyn obj H vs = ret (map_option (\<lambda>T. getClassID T const) (find (dyn obj) Ts))"
proof (induction Ts arbitrary: vs)
  case (Cons T Ts)
  then obtain v ws where vs: "vs = v # ws" by (cases vs) auto
  from Cons.prems(1) [of 0] vs obtain u where v: "v = SUser u" "u_object (udatas H u) = downcast_fun T const" by auto
  have "\<exists>u. ws ! i = SUser u \<and> u_object (udatas H u) = downcast_fun (Ts ! i) const" if "i < length Ts" for i
    using Cons.prems(1) [of "Suc i"] that vs by simp
  from Cons.IH [OF this] Cons.prems(2) vs v show ?case by (simp add: tryDowncast_def)
qed simp

lemma findClassID_Suc:
  assumes ok: "binder_ok E M B D L" and T: "E T = Some c"
  shows "findClassID A dyn (Suc n) obj (getClassID T const) L = (case find (dyn obj) (D T const) of
    None \<Rightarrow> ret (getClassID T const) | Some T' \<Rightarrow> findClassID A dyn n obj (getClassID T' const) L)"
proof (cases "D T const = []")
  case True
  have wf: "wf E L" using ok by (simp add: binder_ok_def)
  from ok T True have "downcasts L c const = SNil" using downs_okD(1) [where E = E, OF _ T, of M D L const] by (simp add: binder_ok_def list_ok_def)
  moreover have "ptrs L (getClassID T const) = STab (addr c (obj_kind const))"
    using wfD(1) [OF wf T, of "obj_kind const"] by (simp add: table_ok_def sig_class_id obj_kind_def)
  ultimately show ?thesis using True by (simp add: downcasts_def)
next
  case False
  have wf: "wf E L" using ok by (simp add: binder_ok_def)
  from ok T False obtain t where t: "downcasts L c const = STab t" "may_downcast L (getClassID T const)" "length (D T const) < next_table (heap L)"
    and entries: "\<And>i. entry_ok L (D T const) const i (t_get (tables (heap L) t) (SNum (int i + 1)))"
    using downs_okD(1) [where E = E, OF _ T, of M D L const] by (auto simp: binder_ok_def list_ok_def sig_class_id obj_kind_def)
  have ptr: "ptrs L (getClassID T const) = STab (addr c (obj_kind const))"
    using wfD(1) [OF wf T, of "obj_kind const"] by (simp add: table_ok_def sig_class_id obj_kind_def)
  let ?vs = "map (\<lambda>i. raw_get (heap L) (STab t) (SNum (int i))) [1..<Suc (rawlen L (STab t))]"
  have len: "rawlen L (STab t) = length (D T const)" by (rule rawlen_list [OF t(1) entries t(3)])
  have "try_downcasts dyn obj (heap L) ?vs = ret (map_option (\<lambda>T. getClassID T const) (find (dyn obj) (D T const)))"
  proof (rule try_downcasts_list)
    show "\<exists>u. ?vs ! i = SUser u \<and> u_object (udatas (heap L) u) = downcast_fun (D T const ! i) const" if "i < length (D T const)" for i
    proof -
      have "?vs ! i = t_get (tables (heap L) t) (SNum (int i + 1))" using that by (simp add: len raw_get_def add.commute del: upt_Suc)
      with entries [of i] that show ?thesis by (auto simp: entry_ok_def)
    qed
  qed (simp add: len del: upt_Suc)
  with t ptr show ?thesis by (simp add: downcasts_def split: option.split)
qed

text \<open>A class that derives from another is that class, or derives from one that extends it.\<close>

lemma derives_child:
  assumes "derives E C T" "C \<noteq> T"
  shows "\<exists>X x. E X = Some x \<and> c_super x = Some T \<and> derives E C X"
  using assms
proof (induction rule: derives.induct)
  case (derives_super C c S T)
  then show ?case by (cases "S = T") (auto intro: derives.intros)
qed simp

lemma derives_base:
  assumes "derives E C T" "wf E L" "E C = Some c" "E T = Some t"
  shows "c_base t \<le> c_base c"
  using assms
proof (induction arbitrary: c rule: derives.induct)
  case (derives_super C d S T)
  from derives_super wfD(3) [of E L C d S] obtain s where "E S = Some s" "c_base s + 9 \<le> c_base d" by auto
  with derives_super show ?case by fastforce
qed simp

text \<open>
  An object whose class is \<open>C\<close>, pushed as an object of a base class \<open>T\<close>: the search ends in \<open>C\<close>. The tables of a class come after
  those of its base class, so that the number of tables bounds the number of classes between them.
\<close>

lemma findClassID_finds:
  assumes ok: "binder_ok E M B D L" and downs: "downs_of E D" and dyn: "\<And>X. E X \<noteq> None \<Longrightarrow> dyn obj X \<longleftrightarrow> derives E C X"
    and C: "E C = Some c"
  shows "derives E C T \<Longrightarrow> E T = Some t \<Longrightarrow> next_table (heap L) \<le> c_base t + n \<Longrightarrow>
    findClassID A dyn n obj (getClassID T const) L = ret (getClassID C const)"
proof (induction n arbitrary: T t)
  case 0
  have "wf E L" using ok by (simp add: binder_ok_def)
  with 0 wfD(2) [of E L T t] show ?case by simp
next
  case (Suc n)
  have wf: "wf E L" using ok by (simp add: binder_ok_def)
  have child: "X \<in> set (D T const) \<longleftrightarrow> (\<exists>x. E X = Some x \<and> c_super x = Some T)" for X
    using downs by (simp add: downs_of_def)
  have higher: "c_base t + 9 \<le> c_base x" if "E X = Some x" "c_super x = Some T" for X x
    using wfD(3) [OF wf that] Suc.prems(2) by auto
  show ?case
  proof (cases "C = T")
    case True
    have "\<not> dyn obj X" if "X \<in> set (D T const)" for X
    proof
      assume "dyn obj X"
      from that child obtain x where X: "E X = Some x" "c_super x = Some T" by auto
      with \<open>dyn obj X\<close> dyn True have "derives E T X" by auto
      from derives_base [OF this wf Suc.prems(2) X(1)] higher [OF X] show False by simp
    qed
    then have "find (dyn obj) (D T const) = None" by (simp add: find_None_iff)
    with True show ?thesis by (simp add: findClassID_Suc [OF ok Suc.prems(2)] del: findClassID.simps)
  next
    case False
    from derives_child [OF Suc.prems(1) False] child dyn obtain X where "X \<in> set (D T const)" "dyn obj X" by blast
    then obtain T' where T': "find (dyn obj) (D T const) = Some T'" by (cases "find (dyn obj) (D T const)") (auto simp: find_None_iff)
    then have "T' \<in> set (D T const)" "dyn obj T'" by (auto simp: find_Some_iff)
    with child obtain x where x: "E T' = Some x" "c_super x = Some T" by auto
    with \<open>dyn obj T'\<close> dyn have "derives E C T'" by auto
    moreover have "next_table (heap L) \<le> c_base x + n" using higher [OF x] Suc.prems(3) by simp
    ultimately have "findClassID A dyn n obj (getClassID T' const) L = ret (getClassID C const)" using Suc.IH x(1) by blast
    with T' show ?thesis by (simp add: findClassID_Suc [OF ok Suc.prems(2)] del: findClassID.simps)
  qed
qed

end
