(* ===== verification/Class_Programs.thy ===== *)
theory Class_Programs
  imports Lua_Downcast
begin

text \<open>
  Programs that declare modules and classes, bind members to them and make objects, as a machine, and what holds of objects after
  any such program: which casts succeed, which member a name means, and that const objects stay as they are.
\<close>

section \<open>Modules\<close>

lemma addr_below: "wf E L \<Longrightarrow> E C = Some c \<Longrightarrow> addr c k < next_table (heap L)"
  using wfD(2) [of E L C c] off_less(1) [of k] by (simp add: addr_def)

lemma downs_ok_insert:
  assumes "downs_ok E M D L" "\<And>n. b \<le> n \<Longrightarrow> \<not> is_list E L n"
  shows "downs_ok E (insert b M) D L"
  using assms by (intro downs_okI) (auto dest: downs_okD)

lemma CppBindModule_new_ok:
  assumes api: "raw_reads A" and ok: "binder_ok E M B D L" and p: "p \<in> M" and name: "name \<notin> set reserved" and free: "field L p name = SNil"
  shows "\<exists>L'. CppBindModule_new A (STab p) name L = ret (STab (next_table (heap L)), L') \<and>
    binder_ok E (insert (next_table (heap L)) M) B D L'"
proof -
  define b where "b = next_table (heap L)"
  from ok p have m: "module_ok E L p" by (simp add: binder_ok_def)
  from getFullName_module [OF api m] obtain full where full: "getFullName A (STab p) name L = ret (full, L)" by blast
  have wf: "wf E L" using ok by (simp add: binder_ok_def)
  have above: "outside E n" if "b \<le> n" for n
    using wfD(2) [OF wf] that unfolding outside_def b_def by fastforce
  define L1 where "L1 = ops [rawset (STab b) (SStr ''__index'') (SFun CModuleIndex), rawset (STab b) (SStr ''__newindex'') (SFun CModuleNewIndex),
     rawset_new (STab b) (SStr ''___getters''), rawset_new (STab b) (SStr ''___setters''),
     rawset (STab b) (SStr ''___type'') (SStr (''module<'' @ full @ ''>'')), rawset (STab b) (SStr ''___parent'') (STab p)]
     (own_meta b (with_new_table L))"
  have facts: "ptrs L1 = ptrs L" "next_table (heap L1) = b + 3" "udatas (heap L1) = udatas (heap L)" "next_udata (heap L1) = next_udata (heap L)"
    "may_downcast L1 = may_downcast L" by (simp_all add: L1_def rawset_new_eq b_def)
  have tabs: "t_get (tables (heap L1) n) k = t_get (tables (heap L) n) k" "t_meta (tables (heap L1) n) = t_meta (tables (heap L) n)"
    if "n < b" for n k
    using that by (simp_all add: L1_def rawset_new_eq rawset_tables b_def)
  have same: "tables (heap L1) n = tables (heap L) n" if "n < next_table (heap L)" for n
    using tabs [of n] that by (auto simp: b_def intro!: lua_table.equality)
  have "binder_ok E M B D L1"
    using same facts by (intro binder_ok_frame [OF ok]) (simp_all add: b_def)
  moreover have "module_ok E L1 b"
    using above facts by (simp add: module_ok_def L1_def rawset_new_eq rawset_tables field_def)
  moreover have "downs_ok E (insert b M) D L1"
  proof (rule downs_ok_insert)
    show "downs_ok E M D L1" using \<open>binder_ok E M B D L1\<close> by (simp add: binder_ok_def)
    have "is_list E L1 n \<Longrightarrow> is_list E L n" for n
      using addr_below [OF wf] same by (fastforce simp: is_list_def downcasts_def field_def)
    then show "\<not> is_list E L1 n" if "b \<le> n" for n
      using list_outside [of E M D L n] ok that by (auto simp: binder_ok_def b_def)
  qed
  ultimately have "binder_ok E (insert b M) B D L1" by (simp add: binder_ok_def)
  note L1_ok = this
  have "outside E p" using m by (simp add: module_ok_def)
  from binder_ok_outside [OF L1_ok this _ free_name [OF name]] module_no_list(1) [OF L1_ok, of p] p
  have "binder_ok E (insert b M) B D (rawset (STab p) (SStr name) (STab b) L1)" by simp
  moreover have "CppBindModule_new A (STab p) name L = ret (STab b, rawset (STab p) (SStr name) (STab b) L1)"
    using full free by (simp add: CppBindModule_new_def new_table_def Let_def L1_def own_meta_def with_new_table_def b_def)
  ultimately show ?thesis by (auto simp: b_def)
qed

section \<open>Members\<close>

datatype class_op =
    AddConstant string slot
  | AddStaticVariable string slot slot bool
  | AddStaticProperty string slot "slot option"
  | AddStaticFunction string slot
  | AddConstructor slot
  | AddVariable string slot slot bool
  | AddProperty string slot slot slot
  | AddPropertyReadOnly string slot slot
  | AddFunction string slot bool
  | AddIndexer "slot \<times> bool" "(slot \<times> bool) option"
  | AddMetaFunction string slot

fun class_op_name :: "class_op \<Rightarrow> string option" where
  "class_op_name (AddConstant name v) = Some name"
| "class_op_name (AddStaticVariable name g s w) = Some name"
| "class_op_name (AddStaticProperty name g s) = Some name"
| "class_op_name (AddStaticFunction name f) = Some name"
| "class_op_name (AddConstructor f) = None"
| "class_op_name (AddVariable name g s w) = Some name"
| "class_op_name (AddProperty name g gc s) = Some name"
| "class_op_name (AddPropertyReadOnly name g gc) = Some name"
| "class_op_name (AddFunction name f const) = Some name"
| "class_op_name (AddIndexer g s) = None"
| "class_op_name (AddMetaFunction name f) = Some name"

fun class_op_do :: "lua_api \<Rightarrow> (slot \<Rightarrow> slot) \<Rightarrow> slot \<Rightarrow> class_op \<Rightarrow> lua_State \<Rightarrow> lua_State exn" where
  "class_op_do A wrap meta (AddConstant name v) L = addConstant A wrap meta name v L"
| "class_op_do A wrap meta (AddStaticVariable name g s w) L = addStaticVariable A meta name g s w L"
| "class_op_do A wrap meta (AddStaticProperty name g s) L = addStaticProperty A meta name g s L"
| "class_op_do A wrap meta (AddStaticFunction name f) L = ret (addStaticFunction meta name f L)"
| "class_op_do A wrap meta (AddConstructor f) L = ret (addConstructor meta f L)"
| "class_op_do A wrap meta (AddVariable name g s w) L = addVariable A meta name g s w L"
| "class_op_do A wrap meta (AddProperty name g gc s) L = addProperty A meta name g gc s L"
| "class_op_do A wrap meta (AddPropertyReadOnly name g gc) L = addPropertyReadOnly A meta name g gc L"
| "class_op_do A wrap meta (AddFunction name f const) L = addFunction A meta name f const L"
| "class_op_do A wrap meta (AddIndexer g s) L = addIndexer A meta g s L"
| "class_op_do A wrap meta (AddMetaFunction name f) L = addMetaFunction A meta name f L"

lemma indexer_names [simp]:
  "''___get_indexed'' \<notin> set reserved" "''___set_indexed'' \<notin> set reserved" "''__call'' \<notin> set reserved"
  by (simp_all add: reserved_def own_names_def)

lemma class_op_ok:
  assumes ok: "binder_ok E M B D L" and T: "E T = Some c" and name: "\<forall>name. class_op_name op = Some name \<longrightarrow> name \<notin> set reserved"
  shows "\<exists>L'. class_op_do A wrap (STab (addr c KStatic)) op L = ret L' \<and> binder_ok E M B D L'"
proof -
  note m = set_member_ok [where E = E, OF _ T]
  note w = class_writes_ok [where E = E, OF _ T free_name, of M B D]
  show ?thesis
  proof (cases op)
    case (AddConstant n v)
    with name m(1) [OF ok] m(3) show ?thesis by (simp add: addConstant_def)
  next
    case (AddStaticVariable n g s w)
    with name m(1,2) [OF ok] m(2,3) [where name = n] show ?thesis by (simp add: addStaticVariable_def Let_def)
  next
    case (AddStaticProperty n g s)
    with name m(1) [OF ok] m(2,3) [where name = n] show ?thesis by (simp add: addStaticProperty_def Let_def split: option.split)
  next
    case (AddStaticFunction n f)
    with name w(1) [OF ok] show ?thesis by (simp add: addStaticFunction_def)
  next
    case (AddConstructor f)
    with w(1) [OF ok] show ?thesis by (simp add: addConstructor_def)
  next
    case (AddVariable n g s w)
    with name m(4) [OF ok] m(5,6) [where name = n] show ?thesis by (simp add: addVariable_def Let_def)
  next
    case (AddProperty n g gc s)
    with name m(4) [OF ok] m(5) [where name = n] show ?thesis by (simp add: addProperty_def)
  next
    case (AddPropertyReadOnly n g gc)
    with name m(4) [OF ok] m(6) [where name = n] show ?thesis by (simp add: addPropertyReadOnly_def)
  next
    case (AddFunction n f const)
    with name m(7) [OF ok] show ?thesis by (simp add: addFunction_def)
  next
    case (AddIndexer g s)
    from m(7) [OF ok indexer_names(1), of A "fst g" "snd g"] obtain L1
      where L1: "setMemberFunction A (STab (addr c KStatic)) ''___get_indexed'' (fst g) (snd g) L = ret L1" "binder_ok E M B D L1" by blast
    from m(7) [OF L1(2) indexer_names(2)] L1 AddIndexer show ?thesis by (simp add: addIndexer_def split: option.split)
  next
    case (AddMetaFunction n f)
    with name m(7) [OF ok] show ?thesis by (simp add: addMetaFunction_def)
  qed
qed

text \<open>Members of modules.\<close>

datatype module_op =
    ModConstant string slot
  | ModVariable string slot slot bool
  | ModProperty string slot "slot option"
  | ModFunction string slot
  | ModFactory slot

fun module_op_name :: "module_op \<Rightarrow> string option" where
  "module_op_name (ModConstant name v) = Some name"
| "module_op_name (ModVariable name g s w) = Some name"
| "module_op_name (ModProperty name g s) = Some name"
| "module_op_name (ModFunction name f) = Some name"
| "module_op_name (ModFactory f) = None"

fun module_op_do :: "lua_api \<Rightarrow> (slot \<Rightarrow> slot) \<Rightarrow> slot \<Rightarrow> module_op \<Rightarrow> lua_State \<Rightarrow> lua_State exn" where
  "module_op_do A wrap meta (ModConstant name v) L = CppBindModule_addConstant A wrap meta name v L"
| "module_op_do A wrap meta (ModVariable name g s w) L = CppBindModule_addVariable A meta name g s w L"
| "module_op_do A wrap meta (ModProperty name g s) L = CppBindModule_addProperty A meta name g s L"
| "module_op_do A wrap meta (ModFunction name f) L = ret (CppBindModule_addFunction meta name f L)"
| "module_op_do A wrap meta (ModFactory f) L = ret (CppBindModule_addFactory meta f L)"

text \<open>Functions and factories go into the table itself, the other members into its metatable's tables.\<close>

fun module_op_plain :: "module_op \<Rightarrow> bool" where
  "module_op_plain (ModFunction name f) \<longleftrightarrow> True"
| "module_op_plain (ModFactory f) \<longleftrightarrow> True"
| "module_op_plain _ \<longleftrightarrow> False"

lemma set_module_ok:
  assumes ok: "binder_ok E M B D L" and p: "p \<in> M" "t_meta (tables (heap L) p) \<noteq> SNil" and name: "name \<notin> set reserved"
  shows "binder_ok E M B D (setGetter (STab p) name v L)" "binder_ok E M B D (setSetter (STab p) name v L)"
    "\<exists>L'. setReadOnly A (STab p) name L = ret L' \<and> binder_ok E M B D L'"
proof -
  from ok p(1) have "module_ok E L p" by (simp add: binder_ok_def)
  with p(2) obtain ty where f: "field L p ''___type'' = SStr ty" "field L p ''___getters'' = STab (Suc p)"
    "field L p ''___setters'' = STab (Suc (Suc p))" "outside E (Suc p)" "outside E (Suc (Suc p))" by (auto simp: module_ok_def)
  note w = binder_ok_outside [OF ok _ _ free_name [OF name]]
  note no = module_no_list(2) [OF ok p]
  from f w no show "binder_ok E M B D (setGetter (STab p) name v L)" by (simp add: setGetter_def)
  from f w no show "binder_ok E M B D (setSetter (STab p) name v L)" by (simp add: setSetter_def)
  from f w no show "\<exists>L'. setReadOnly A (STab p) name L = ret L' \<and> binder_ok E M B D L'"
    by (simp add: setReadOnly_def setSetter_def getMemberName_def Let_def)
qed

lemma module_op_ok:
  assumes ok: "binder_ok E M B D L" and p: "p \<in> M" "module_op_plain op \<or> t_meta (tables (heap L) p) \<noteq> SNil"
    and name: "\<forall>name. module_op_name op = Some name \<longrightarrow> name \<notin> set reserved"
  shows "\<exists>L'. module_op_do A wrap (STab p) op L = ret L' \<and> binder_ok E M B D L'"
proof -
  have meta: "t_meta (tables (heap (setGetter (STab p) n v L)) p) \<noteq> SNil" if "\<not> module_op_plain op" for n v
    using p(2) that by (simp add: setGetter_def rawset_tables)
  have "outside E p" using ok p(1) by (simp add: binder_ok_def module_ok_def)
  note w = binder_ok_outside [OF ok this module_no_list(1) [OF ok p(1)] free_name]
  note m = set_module_ok [where E = E, OF _ p(1)]
  show ?thesis
  proof (cases op)
    case (ModConstant n v)
    with p(2) have q: "t_meta (tables (heap L) p) \<noteq> SNil" by simp
    from ModConstant name m(1) [OF ok q] m(3) [OF _ meta] show ?thesis by (simp add: CppBindModule_addConstant_def)
  next
    case (ModVariable n g s w)
    with p(2) have q: "t_meta (tables (heap L) p) \<noteq> SNil" by simp
    from ModVariable name m(1) [OF ok q] m(2,3) [OF _ meta] show ?thesis by (simp add: CppBindModule_addVariable_def Let_def)
  next
    case (ModProperty n g s)
    with p(2) have q: "t_meta (tables (heap L) p) \<noteq> SNil" by simp
    from ModProperty name m(1) [OF ok q] m(2,3) [OF _ meta] show ?thesis
      by (simp add: CppBindModule_addProperty_def Let_def split: option.split)
  next
    case (ModFunction n f)
    with name w show ?thesis by (simp add: CppBindModule_addFunction_def)
  next
    case (ModFactory f)
    with w show ?thesis by (simp add: CppBindModule_addFactory_def)
  qed
qed


section \<open>Programs\<close>

text \<open>
  The program's Lua state, with what it has declared so far: the classes, the tables of the modules (at first only the
  table of globals), and the objects.
\<close>

record binding =
  bd_lua :: lua_State
  bd_env :: env
  bd_mods :: "nat list"
  bd_objs :: "obj list"

text \<open>A module or class has a parent, the table \<^verbatim>\<open>p\<close> of a module, and a name in it.\<close>

datatype bind_event =
    BeginModule nat string
  | BeginClass nat string nat slot slot
  | BeginExtendClass nat string nat nat slot slot
  | BindMember nat class_op
  | BindModuleMember nat module_op
  | NewObject nat bool nat

text \<open>A name that is taken already yields what is there; a new class gets its three tables.\<close>

definition declared :: "lua_api \<Rightarrow> nat \<Rightarrow> string \<Rightarrow> nat \<Rightarrow> nat option \<Rightarrow> binding \<Rightarrow> env" where
  "declared A p name T S s = (if field (bd_lua s) p name \<noteq> SNil then bd_env s
     else case getFullName A (STab p) name (bd_lua s) of
       Done (Returned (full, L)) \<Rightarrow> (bd_env s)(T \<mapsto> new_class (bd_lua s) S full)
     | _ \<Rightarrow> bd_env s)"

fun bind_do :: "lua_api \<Rightarrow> (slot \<Rightarrow> slot) \<Rightarrow> bind_event \<Rightarrow> binding \<Rightarrow> (slot \<times> binding) exn" where
  "bind_do A wrap (BeginModule p name) s = bind_x (CppBindModule_new A (STab p) name (bd_lua s)) (\<lambda>(m, L).
     ret (m, s\<lparr>bd_lua := L,
       bd_mods := (if field (bd_lua s) p name \<noteq> SNil then bd_mods s else next_table (heap (bd_lua s)) # bd_mods s)\<rparr>))"
| "bind_do A wrap (BeginClass p name T gc gc_const) s =
     bind_x (CppBindClass_bind A (STab p) name T gc gc_const (bd_lua s)) (\<lambda>(m, L).
       ret (m, s\<lparr>bd_lua := L, bd_env := declared A p name T None s\<rparr>))"
| "bind_do A wrap (BeginExtendClass p name T S gc gc_const) s =
     bind_x (CppBindClass_extend A (STab p) name T S gc gc_const (bd_lua s)) (\<lambda>(m, L).
       ret (m, s\<lparr>bd_lua := L, bd_env := declared A p name T (Some S) s\<rparr>))"
| "bind_do A wrap (BindMember T f) s = (case bd_env s T of None \<Rightarrow> Abort ''no such class''
     | Some c \<Rightarrow> bind_x (class_op_do A wrap (STab (addr c KStatic)) f (bd_lua s)) (\<lambda>L. ret (SNil, s\<lparr>bd_lua := L\<rparr>)))"
| "bind_do A wrap (BindModuleMember p f) s =
     bind_x (module_op_do A wrap (STab p) f (bd_lua s)) (\<lambda>L. ret (SNil, s\<lparr>bd_lua := L\<rparr>))"
| "bind_do A wrap (NewObject T const obj) s = bind_x (CppObject_allocate A (getClassID T const) obj (bd_lua s)) (\<lambda>L.
     ret (at L (-1), s\<lparr>bd_lua := lua_pop 1 L, bd_objs := (next_udata (heap (bd_lua s)), T, const) # bd_objs s\<rparr>))"

definition name_ok :: "string option \<Rightarrow> bool" where
  "name_ok n \<longleftrightarrow> (case n of None \<Rightarrow> True | Some name \<Rightarrow> name \<notin> set reserved)"

text \<open>
  What a program must keep to, and the code does not check: no member takes a name of the metatables' own, a class
  has one name, its base class is declared first, and the table of globals, which has no metatable, takes modules, classes
  and functions only. With a reserved name the code overwrites its own entries; with an unregistered base class
  (\<^verbatim>\<open>CppBindClass.cpp:340\<close>) or a variable of the table of globals it indexes nil.
\<close>

fun bind_en :: "bind_event \<Rightarrow> binding \<Rightarrow> bool" where
  "bind_en (BeginModule p name) s \<longleftrightarrow> p \<in> set (bd_mods s) \<and> name \<notin> set reserved"
| "bind_en (BeginClass p name T gc gc_const) s \<longleftrightarrow> p \<in> set (bd_mods s) \<and> name \<notin> set reserved \<and>
     (field (bd_lua s) p name = SNil \<longrightarrow> bd_env s T = None)"
| "bind_en (BeginExtendClass p name T S gc gc_const) s \<longleftrightarrow> p \<in> set (bd_mods s) \<and> name \<notin> set reserved \<and>
     (field (bd_lua s) p name = SNil \<longrightarrow> bd_env s T = None \<and> bd_env s S \<noteq> None)"
| "bind_en (BindMember T f) s \<longleftrightarrow> bd_env s T \<noteq> None \<and> name_ok (class_op_name f)"
| "bind_en (BindModuleMember p f) s \<longleftrightarrow> p \<in> set (bd_mods s) \<and>
     (module_op_plain f \<or> t_meta (tables (heap (bd_lua s)) p) \<noteq> SNil) \<and> name_ok (module_op_name f)"
| "bind_en (NewObject T const obj) s \<longleftrightarrow> bd_env s T \<noteq> None"

text \<open>The output of a step is the value that it yields, none if it ends in a Lua error.\<close>

definition bind_step :: "lua_api \<Rightarrow> (slot \<Rightarrow> slot) \<Rightarrow> bind_event \<Rightarrow> binding \<Rightarrow> (slot option \<times> binding) outcome" where
  "bind_step A wrap e s = (case bind_do A wrap e s of
     Abort why \<Rightarrow> Abort why | Done (Thrown msg) \<Rightarrow> Done (None, s) | Done (Returned (v, s')) \<Rightarrow> Done (Some v, s'))"

definition bind_start :: "binding \<Rightarrow> bool" where
  "bind_start s \<longleftrightarrow> bd_env s = Map.empty \<and> bd_objs s = [] \<and> (\<exists>g. bd_mods s = [g] \<and> g < next_table (heap (bd_lua s)) \<and>
     t_meta (tables (heap (bd_lua s)) g) = SNil \<and> field (bd_lua s) g ''___type'' = SNil)"

definition bind_inv :: "binding \<Rightarrow> bool" where
  "bind_inv s \<longleftrightarrow> (\<exists>D. binder_ok (bd_env s) (set (bd_mods s)) (set (bd_objs s)) D (bd_lua s) \<and> downs_of (bd_env s) D)"

lemma bind_inv_start: "bind_start s \<Longrightarrow> bind_inv s"
  unfolding bind_inv_def
  by (intro exI [of _ "\<lambda>S const. []"])
    (auto simp: bind_start_def binder_ok_def wf_def const_setters_ok_def module_ok_def outside_def downs_ok_def is_list_def downs_of_def)

text \<open>Under a taken name nothing changes.\<close>

lemma taken_name:
  assumes "field L p name \<noteq> SNil"
  shows "CppBindModule_new A (STab p) name L = ret (field L p name, L)"
    "CppBindClass_bind A (STab p) name T gc gc_const L = ret (field L p name, L)"
    "CppBindClass_extend A (STab p) name T S gc gc_const L = ret (field L p name, L)"
  using assms by (simp_all add: CppBindModule_new_def CppBindClass_bind_def CppBindClass_extend_def buildMetaTable_def buildMetaTable_super_def)

lemma new_object_ok:
  assumes ok: "binder_ok E M B D L" and T: "E T = Some c"
  shows "\<exists>L'. CppObject_allocate A (getClassID T const) obj L = ret (push (SUser (next_udata (heap L))) L') \<and>
    binder_ok E M (insert (next_udata (heap L), T, const) B) D L' \<and> stack L' = stack L \<and> next_table (heap L') = next_table (heap L) \<and>
    next_udata (heap L') = Suc (next_udata (heap L)) \<and> (\<forall>n name. field L' n name = field L n name) \<and>
    u_object (udatas (heap L') (next_udata (heap L))) = obj"
proof -
  let ?m = "addr c (obj_kind const)"
  let ?L = "L\<lparr>heap := snd (new_udata (STab ?m) obj (heap L))\<rparr>"
  from ok T have "ptrs L (getClassID T const) = STab ?m"
    using wfD(1) [of E L T c "obj_kind const"] by (simp add: binder_ok_def table_ok_def sig_class_id obj_kind_def)
  then have eq: "CppObject_allocate A (getClassID T const) obj L = ret (push (SUser (next_udata (heap L))) ?L)"
    by (simp add: CppObject_allocate_def new_udata_def Let_def)
  have "binder_ok E M B D ?L" by (rule binder_ok_frame [OF ok]) (simp_all add: new_udata_def)
  moreover have "object_ok E ?L (next_udata (heap L), T, const)" using T by (simp add: new_udata_def)
  ultimately have "binder_ok E M (insert (next_udata (heap L), T, const) B) D ?L" by (simp add: binder_ok_def)
  with eq show ?thesis by (auto simp: new_udata_def field_def)
qed

lemma declared_new:
  "field (bd_lua s) p name = SNil \<Longrightarrow> getFullName A (STab p) name (bd_lua s) = ret (full, L) \<Longrightarrow>
     declared A p name T S s = (bd_env s)(T \<mapsto> new_class (bd_lua s) S full)"
  by (simp add: declared_def ret_def)

lemma bind_do_ok:
  assumes api: "raw_reads A" and inv: "bind_inv s" and en: "bind_en e s"
  shows "\<exists>v s'. bind_do A wrap e s = ret (v, s') \<and> bind_inv s'"
proof -
  from inv obtain D where ok: "binder_ok (bd_env s) (set (bd_mods s)) (set (bd_objs s)) D (bd_lua s)" and downs: "downs_of (bd_env s) D"
    by (auto simp: bind_inv_def)
  have wf: "wf (bd_env s) (bd_lua s)" using ok by (simp add: binder_ok_def)
  show ?thesis
  proof (cases e)
    case (BeginModule p name)
    show ?thesis
    proof (cases "field (bd_lua s) p name = SNil")
      case True
      with CppBindModule_new_ok [OF api ok, of p name] en downs BeginModule show ?thesis by (auto simp: bind_inv_def)
    next
      case False
      with taken_name(1) [OF False] BeginModule inv show ?thesis by (simp add: bind_inv_def)
    qed
  next
    case (BeginClass p name T gc gc_const)
    show ?thesis
    proof (cases "field (bd_lua s) p name = SNil")
      case True
      with en BeginClass have p: "p \<in> set (bd_mods s)" "bd_env s T = None" "name \<notin> set reserved" by simp_all
      from CppBindClass_bind_ok [OF api ok p(1,2) downs_of_new [OF downs wf p(2)] p(3) True, of gc gc_const]
        downs_of_declared(1) [OF downs p(2) new_class_simps(2)] True BeginClass show ?thesis
        by (auto simp: bind_inv_def declared_new intro!: exI [of _ D])
    next
      case False
      with taken_name(2) [OF False] BeginClass inv show ?thesis by (simp add: bind_inv_def declared_def)
    qed
  next
    case (BeginExtendClass p name T S gc gc_const)
    show ?thesis
    proof (cases "field (bd_lua s) p name = SNil")
      case True
      with en BeginExtendClass obtain d where p: "p \<in> set (bd_mods s)" "bd_env s T = None" "name \<notin> set reserved" "bd_env s S = Some d" by auto
      from CppBindClass_extend_ok [OF api ok p(1,2) downs_of_new [OF downs wf p(2)] p(4,3) True, of gc gc_const]
        downs_of_declared(2) [OF downs p(2) new_class_simps(2)] True BeginExtendClass show ?thesis
        by (auto simp: bind_inv_def declared_new intro!: exI [of _ "add_down (add_down D S False T) S True T"])
    next
      case False
      with taken_name(3) [OF False] BeginExtendClass inv show ?thesis by (simp add: bind_inv_def declared_def)
    qed
  next
    case (BindMember T f)
    with en obtain c where c: "bd_env s T = Some c" by auto
    from class_op_ok [OF ok c, of f A wrap] en downs BindMember c show ?thesis by (auto simp: bind_inv_def name_ok_def split: option.splits)
  next
    case (BindModuleMember p f)
    with module_op_ok [OF ok, of p f A wrap] en downs show ?thesis by (auto simp: bind_inv_def name_ok_def split: option.splits)
  next
    case (NewObject T const obj)
    with en obtain c where c: "bd_env s T = Some c" by auto
    from new_object_ok [OF ok c, of A const obj] downs NewObject show ?thesis
      by (auto simp: bind_inv_def)
  qed
qed

lemma bind_step_ok:
  assumes "raw_reads A" "bind_inv s" "bind_en e s"
  shows "\<exists>v s'. bind_step A wrap e s = Done (Some v, s') \<and> bind_inv s'"
  using bind_do_ok [OF assms, of wrap] by (auto simp: bind_step_def ret_def)

lemma bind_step_ret: "bind_do A wrap e s = ret (v, s') \<Longrightarrow> bind_step A wrap e s = Done (Some v, s')"
  by (simp add: bind_step_def ret_def)

locale binder_env =
  fixes A :: lua_api and wrap :: "slot \<Rightarrow> slot"
  assumes reads: "raw_reads A"
begin

lemma bind_holds: "bind_inv s \<Longrightarrow> bind_en e s \<Longrightarrow> holds (\<lambda>(out, s'). bind_inv s') (bind_step A wrap e s)"
  using bind_step_ok [OF reads, of s e wrap] by auto

sublocale declaring: safe_machine bind_start bind_en "bind_step A wrap" bind_inv
  by unfold_locales (auto intro: bind_inv_start bind_holds)

lemma objects_ok:
  assumes "reach bind_start bind_en (bind_step A wrap) tr s" "(u, C, const) \<in> set (bd_objs s)"
  shows "\<exists>c. bd_env s C = Some c \<and> u_meta (udatas (heap (bd_lua s)) u) = STab (addr c (obj_kind const))"
  using declaring.reach_inv [OF assms(1)] assms(2) by (auto simp: bind_inv_def binder_ok_def)

lemma reach_wf:
  assumes "reach bind_start bind_en (bind_step A wrap) tr s"
  shows "wf (bd_env s) (bd_lua s)" "const_setters_ok (bd_env s) (bd_lua s)"
  using declaring.reach_inv [OF assms(1)] by (auto simp: bind_inv_def binder_ok_def)

text \<open>An object of the class \<open>C\<close> that is known by a pointer to a base class \<open>T\<close>.\<close>

lemma pushed:
  assumes r: "reach bind_start bind_en (bind_step A wrap) tr s" and C: "bd_env s C = Some c" and T: "bd_env s T = Some t"
    and d: "derives (bd_env s) C T" and dyn: "\<And>X. bd_env s X \<noteq> None \<Longrightarrow> dyn obj X \<longleftrightarrow> derives (bd_env s) C X"
    and n: "next_table (heap (bd_lua s)) \<le> n"
  shows "\<exists>s'. let u = next_udata (heap (bd_lua s)) in bind_step A wrap (NewObject C const obj) s = Done (Some (SUser u), s') \<and>
    CppObjectPtr_pushToStack A dyn n T const obj (bd_lua s) = ret (push (SUser u) (bd_lua s')) \<and>
    (u, C, const) \<in> set (bd_objs s') \<and> u_object (udatas (heap (bd_lua s')) u) = obj \<and> bd_env s' = bd_env s \<and>
    next_table (heap (bd_lua s')) = next_table (heap (bd_lua s))"
proof -
  let ?u = "next_udata (heap (bd_lua s))"
  obtain D where ok: "binder_ok (bd_env s) (set (bd_mods s)) (set (bd_objs s)) D (bd_lua s)" and downs: "downs_of (bd_env s) D"
    using declaring.reach_inv [OF r] by (auto simp: bind_inv_def)
  have "next_table (heap (bd_lua s)) \<le> c_base t + n" using n by simp
  from findClassID_finds [where dyn = dyn and obj = obj, OF ok downs dyn C d T this]
  have "findClassID A dyn n obj (getClassID T const) (bd_lua s) = ret (getClassID C const)" .
  moreover from new_object_ok [OF ok C, of A const obj] obtain L'
    where L': "CppObject_allocate A (getClassID C const) obj (bd_lua s) = ret (push (SUser ?u) L')" "u_object (udatas (heap L') ?u) = obj"
    "next_table (heap L') = next_table (heap (bd_lua s))" by blast
  ultimately have "CppObjectPtr_pushToStack A dyn n T const obj (bd_lua s) = ret (push (SUser ?u) L')" by (simp add: CppObjectPtr_pushToStack_def)
  moreover have "bind_do A wrap (NewObject C const obj) s = ret (SUser ?u, s\<lparr>bd_lua := L', bd_objs := (?u, C, const) # bd_objs s\<rparr>)"
    using L'(1) by simp
  note bind_step_ret [OF this]
  ultimately show ?thesis using L'(2,3) by (intro exI [of _ "s\<lparr>bd_lua := L', bd_objs := (?u, C, const) # bd_objs s\<rparr>"]) (simp add: Let_def)
qed

lemma steps_succeed:
  assumes "reach bind_start bind_en (bind_step A wrap) tr s"
  shows "bind_en e s \<Longrightarrow> \<exists>v s'. bind_step A wrap e s = Done (Some v, s')"
  using bind_step_ok [OF reads declaring.reach_inv [OF assms]] by blast

end

section \<open>Scripts\<close>

text \<open>What a script sees of an object of a program. Its arguments are all that is on the stack of a C function that it calls.\<close>

definition script_state :: "binding \<Rightarrow> slot list \<Rightarrow> lua_State" where
  "script_state s args = (bd_lua s)\<lparr>stack := rev args\<rparr>"

lemma script_state_simps [simp]:
  "heap (script_state s args) = heap (bd_lua s)" "ptrs (script_state s args) = ptrs (bd_lua s)" "stack (script_state s args) = rev args"
  by (simp_all add: script_state_def)

lemma script_state_ok:
  "wf E (script_state s args) \<longleftrightarrow> wf E (bd_lua s)" "const_setters_ok E (script_state s args) \<longleftrightarrow> const_setters_ok E (bd_lua s)"
  unfolding wf_def const_setters_ok_def table_ok_def field_def by simp_all

context binder_env
begin

lemma object_meta:
  assumes "reach bind_start bind_en (bind_step A wrap) tr s" "(u, C, const) \<in> set (bd_objs s)"
  shows "\<exists>c. bd_env s C = Some c \<and> has_meta (script_state s args) (SUser u) (addr c (obj_kind const))"
  using objects_ok [OF assms] by (auto simp: has_meta_def get_meta_def)

lemma casts:
  assumes "reach bind_start bind_en (bind_step A wrap) tr s" "(u, C, const) \<in> set (bd_objs s)"
    and T: "bd_env s T = Some t" and i: "0 < i" "i \<le> length args" "args ! (i - 1) = SUser u" and n: "next_table (heap (bd_lua s)) < n"
  shows "let L = script_state s args in
    if derives (bd_env s) C T \<and> (const \<longrightarrow> want)
    then CppObject_getObject A n (int i) (getClassID T want) want False raise L = ret (Some (SUser u), L)
    else if raise then \<exists>msg. CppObject_getObject A n (int i) (getClassID T want) want False raise L = throw msg
    else CppObject_getObject A n (int i) (getClassID T want) want False raise L = ret (None, L)"
proof -
  let ?L = "script_state s args"
  have at: "at ?L (int i) = SUser u"
    using i by (simp add: at_def rev_nth nat_diff_distrib' del: One_nat_def) (metis One_nat_def diff_diff_cancel diff_less_mono2 le_simps(3))
  obtain c where "bd_env s C = Some c" "u_meta (udatas (heap (bd_lua s)) u) = STab (addr c (obj_kind const))"
    using objects_ok [OF assms(1,2)] by blast
  then have obj: "object_at (bd_env s) ?L (int i) C const"
    using i at by (auto simp: object_at_def obj_kind_def)
  have "wf (bd_env s) ?L" using reach_wf [OF assms(1)] by (simp add: script_state_ok)
  from getObject_cases [OF this T obj] n at show ?thesis by (simp add: Let_def)
qed

lemma reads_member:
  assumes "reach bind_start bind_en (bind_step A wrap) tr s" "(u, C, const) \<in> set (bd_objs s)" "next_table (heap (bd_lua s)) < n"
  shows "CppBindClass_index A user n (SUser u) key (bd_lua s) =
    use_member A user (SUser u) key (find_member A (bd_env s) (bd_lua s) n (obj_kind const) C key) (heap (bd_lua s))"
proof -
  obtain c where c: "bd_env s C = Some c" "u_meta (udatas (heap (bd_lua s)) u) = STab (addr c (obj_kind const))"
    using objects_ok [OF assms(1,2)] by blast
  then have "has_meta (bd_lua s) (SUser u) (addr c (obj_kind const))" by (simp add: has_meta_def get_meta_def)
  from index_finds [OF reach_wf(1) [OF assms(1)] c(1) this assms(3)] show ?thesis .
qed

lemma const_kept:
  assumes "reach bind_start bind_en (bind_step A wrap) tr s" "(u, C, True) \<in> set (bd_objs s)" "next_table (heap (bd_lua s)) < n"
    "\<not> is_number A key"
  shows "\<exists>msg. CppBindClass_newIndex A user n (SUser u) key v (bd_lua s) = throw msg"
proof -
  obtain c where c: "bd_env s C = Some c" "u_meta (udatas (heap (bd_lua s)) u) = STab (addr c KConst)"
    using objects_ok [OF assms(1,2)] by (auto simp: obj_kind_def)
  then have "has_meta (bd_lua s) (SUser u) (addr c KConst)" by (simp add: has_meta_def get_meta_def)
  from const_assignment_fails [OF reach_wf [OF assms(1)] c(1) this assms(4,3)] show ?thesis .
qed

end

text \<open>Accesses of tables without metamethods; a bound program needs no references and no traversals.\<close>

definition raw_api :: lua_api where
  "raw_api = \<lparr>api_newref = (\<lambda>R. 1), api_order = (\<lambda>t. []), api_get = (\<lambda>t k H. ret (raw_get H t k, H)),
     api_set = (\<lambda>t k v H. ret (raw_set t k v H)), api_numeral = (\<lambda>s. s \<noteq> [] \<and> list_all (\<lambda>c. c \<in> set ''0123456789'') s),
     api_num_to_str = ostream_int, api_where = '''',
     api_str_int = decimal_int, api_argerror = (\<lambda>n s. s)\<rparr>"

lemma raw_api_reads: "raw_reads raw_api"
  by (simp add: raw_reads_def raw_api_def)

interpretation raw_binding: binder_env raw_api "\<lambda>f. f"
  by unfold_locales (rule raw_api_reads)


section \<open>Bound variables\<close>

text \<open>What \<^verbatim>\<open>addVariable\<close> leaves in the tables of the class.\<close>

lemma addVariable_fields:
  assumes ok: "binder_ok E M B D L" and T: "E T = Some c" and name: "name \<notin> set reserved"
  obtains L' where "addVariable A (STab (addr c KStatic)) name g f True L = ret L'" "binder_ok E M B D L'"
    "\<And>k. t_get (tables (heap L') (addr c k)) = t_get (tables (heap L) (addr c k))"
    "field L' (addr c KClass + 1) name = g" "field L' (addr c KConst + 1) name = g" "field L' (addr c KClass + 2) name = f"
    "field L' (addr c KConst + 2) name = SFun (CConstMismatch (c_type c @ ''.'' @ name))"
    "udatas (heap L') = udatas (heap L)" "next_table (heap L') = next_table (heap L)"
proof -
  note m = set_member_ok [where E = E, OF _ T name]
  let ?L1 = "setMemberGetter (STab (addr c KStatic)) name g g L"
  from m(4) [OF ok] have ok1: "binder_ok E M B D ?L1" .
  from m(5) [OF ok1] obtain L' where L': "setMemberSetter A (STab (addr c KStatic)) name f ?L1 = ret L'" "binder_ok E M B D L'" by blast
  note f = class_fields [where E = E, OF ok T] class_fields [where E = E, OF ok1 T] getMemberName_class [where E = E, OF ok1 T]
  have g: "binder_ok E M B D (rawset (STab (Suc (addr c KClass))) (SStr name) g L)"
    using class_writes_ok(2) [where E = E, OF ok T free_name [OF name], of KClass g] by simp
  have s: "binder_ok E M B D (rawset (STab (Suc (Suc (addr c KClass)))) (SStr name) f ?L1)"
    using class_writes_ok(3) [where E = E, OF ok1 T free_name [OF name], of KClass f] by simp
  note f' = f class_fields [where E = E, OF g T] class_fields [where E = E, OF s T]
  have L1: "?L1 = rawset (STab (addr c KConst + 1)) (SStr name) g (rawset (STab (addr c KClass + 1)) (SStr name) g L)"
    by (simp add: setMemberGetter_def f')
  have L2: "L' = rawset (STab (addr c KConst + 2)) (SStr name) (SFun (CConstMismatch (c_type c @ ''.'' @ name)))
      (rawset (STab (addr c KClass + 2)) (SStr name) f ?L1)"
    using L'(1) by (simp add: setMemberSetter_def f' Let_def)
  have a: "addr c KClass = c_base c + 3" "addr c KConst = c_base c" by (simp_all add: addr_def)
  have add: "addVariable A (STab (addr c KStatic)) name g f True L = ret L'" using L'(1) by (simp add: addVariable_def Let_def)
  show thesis
  proof (rule that [OF add L'(2)])
    show "t_get (tables (heap L') (addr c k)) = t_get (tables (heap L) (addr c k))" for k
      unfolding L2 L1 by (cases k) (auto simp: rawset_tables a addr_def fun_eq_iff)
    show "field L' (addr c KClass + 1) name = g" "field L' (addr c KConst + 1) name = g" "field L' (addr c KClass + 2) name = f"
      "field L' (addr c KConst + 2) name = SFun (CConstMismatch (c_type c @ ''.'' @ name))"
      unfolding L2 L1 by (simp_all add: rawset_field a)
    show "udatas (heap L') = udatas (heap L)" "next_table (heap L') = next_table (heap L)" unfolding L2 L1 by simp_all
  qed
qed

context binder_env
begin

lemma variable_bound:
  assumes r: "reach bind_start bind_en (bind_step A wrap) tr s" and obj: "(u, T, const) \<in> set (bd_objs s)"
    and c: "bd_env s T = Some c" and name: "name \<notin> set reserved" "\<not> api_numeral A name"
    and free: "field (bd_lua s) (addr c (obj_kind const)) name = SNil" and f: "is_cfun g" "is_cfun f" "next_table (heap (bd_lua s)) < n"
  shows "\<exists>L'. bind_step A wrap (BindMember T (AddVariable name g f True)) s = Done (Some SNil, s\<lparr>bd_lua := L'\<rparr>) \<and>
    CppBindClass_index A user n (SUser u) (SStr name) L' = call_slot A user g [SUser u] (heap L') \<and>
    CppBindClass_newIndex A user n (SUser u) (SStr name) v L' =
      (if const then errorConstMismatch A (c_type c @ ''.'' @ name)
       else bind_x (call_slot A user f [SUser u, v] (heap L')) (\<lambda>(r, H). ret H))"
proof -
  let ?k = "obj_kind const"
  obtain D where ok: "binder_ok (bd_env s) (set (bd_mods s)) (set (bd_objs s)) D (bd_lua s)"
    using declaring.reach_inv [OF r] by (auto simp: bind_inv_def)
  from addVariable_fields [where E = "bd_env s", OF ok c name(1), of A g f] obtain L'
    where L': "addVariable A (STab (addr c KStatic)) name g f True (bd_lua s) = ret L'"
    and ok': "binder_ok (bd_env s) (set (bd_mods s)) (set (bd_objs s)) D L'"
    and same: "\<And>k. t_get (tables (heap L') (addr c k)) = t_get (tables (heap (bd_lua s)) (addr c k))"
    and gs: "field L' (addr c KClass + 1) name = g" "field L' (addr c KConst + 1) name = g" "field L' (addr c KClass + 2) name = f"
      "field L' (addr c KConst + 2) name = SFun (CConstMismatch (c_type c @ ''.'' @ name))"
    and u': "udatas (heap L') = udatas (heap (bd_lua s))" "next_table (heap L') = next_table (heap (bd_lua s))" by metis
  from objects_ok [OF r obj] c have "has_meta L' (SUser u) (addr c ?k)" by (simp add: has_meta_def get_meta_def u')
  moreover have wf: "wf (bd_env s) L'" using ok' by (simp add: binder_ok_def)
  moreover have n: "next_table (heap L') < n" using f(3) u' by simp
  ultimately have idx: "CppBindClass_index A user n (SUser u) (SStr name) L' =
      use_member A user (SUser u) (SStr name) (find_member A (bd_env s) L' n ?k T (SStr name)) (heap L')"
    and nidx: "CppBindClass_newIndex A user n (SUser u) (SStr name) v L' = assign_field A user (bd_env s) L' n ?k T (SUser u) (SStr name) v"
    using c by (simp_all add: index_finds newIndex_finds)
  from n obtain n' where n': "n = Suc n'" by (cases n) auto
  have free': "t_get (tables (heap L') (addr c ?k)) (SStr name) = SNil" using free same by (simp add: field_def)
  have tabs: "field L' (addr c ?k) ''___getters'' = STab (addr c ?k + 1)" "field L' (addr c ?k) ''___setters'' = STab (addr c ?k + 2)"
    using class_fields(3,4) [where E = "bd_env s", OF ok' c] by blast+
  have g: "g \<noteq> SNil" "f \<noteq> SNil" using f by auto
  have own: "own_member A L' (addr c ?k) (SStr name) = Some (Getter g)"
    using free' tabs gs g name(2) by (cases const) (simp_all add: own_member_def raw_get_def obj_kind_def field_def)
  have set: "own_setter A L' (addr c ?k) (SStr name) =
      Some (Setter (if const then SFun (CConstMismatch (c_type c @ ''.'' @ name)) else f))"
    using tabs gs g name(2) by (cases const) (simp_all add: own_setter_def raw_get_def obj_kind_def field_def)
  have "CppBindClass_index A user n (SUser u) (SStr name) L' = call_slot A user g [SUser u] (heap L')"
    using idx own f(1) c by (simp add: n' find_member_Suc)
  moreover have "CppBindClass_newIndex A user n (SUser u) (SStr name) v L' =
      (if const then errorConstMismatch A (c_type c @ ''.'' @ name)
       else bind_x (call_slot A user f [SUser u, v] (heap L')) (\<lambda>(r, H). ret H))"
    using nidx set f(2) c by (simp add: n' find_setter_Suc assign_field_def errorConstMismatch_def luaL_error_def)
  moreover have "bind_step A wrap (BindMember T (AddVariable name g f True)) s = Done (Some SNil, s\<lparr>bd_lua := L'\<rparr>)"
    by (rule bind_step_ret) (simp add: c L')
  ultimately show ?thesis by blast
qed

end

section \<open>Properties\<close>

text \<open>An example: the class \<^verbatim>\<open>Circle\<close> extends \<^verbatim>\<open>Shape\<close>, and there is a const object and another of \<^verbatim>\<open>Circle\<close>.\<close>

definition bare_lua :: lua_State where
  "bare_lua = \<lparr>stack = [], refs = (\<lambda>n. SNil), ptrs = (\<lambda>p. SNil), heap = \<lparr>tables = (\<lambda>n. \<lparr>t_get = (\<lambda>k. SNil), t_meta = SNil\<rparr>), next_table = 1,
     udatas = (\<lambda>u. \<lparr>u_meta = SNil, u_object = 0\<rparr>), next_udata = 0\<rparr>, may_downcast = (\<lambda>p. False)\<rparr>"

definition demo_binding :: binding where
  "demo_binding = \<lparr>bd_lua = bare_lua, bd_env = Map.empty, bd_mods = [0], bd_objs = []\<rparr>"

definition shape_class :: cls where "shape_class = \<lparr>c_base = 1, c_super = None, c_type = ''class<Shape>''\<rparr>"

definition circle_class :: cls where "circle_class = \<lparr>c_base = 10, c_super = Some 0, c_type = ''class<Circle>''\<rparr>"

definition demo_classes :: env where "demo_classes = [0 \<mapsto> shape_class, 1 \<mapsto> circle_class]"

definition demo_declarations :: "bind_event list" where
  "demo_declarations = [BeginClass 0 ''Shape'' 0 SNil SNil, BeginExtendClass 0 ''Circle'' 1 0 SNil SNil, NewObject 1 False 7, NewObject 1 True 8]"

definition demo_bound :: "binding \<Rightarrow> bool" where
  "demo_bound s \<longleftrightarrow> bd_env s = demo_classes \<and> bd_objs s = [(3, 1, True), (2, 1, False)] \<and> next_table (heap (bd_lua s)) \<le> 21 \<and>
     (\<forall>k. field (bd_lua s) (addr circle_class k) ''area'' = SNil)"

lemma demo_names_free [simp]: "''Shape'' \<notin> set reserved" "''Circle'' \<notin> set reserved" "''area'' \<notin> set reserved" "''area'' \<notin> set std_names"
  by (simp_all add: reserved_def own_names_def std_names_def)

lemma demo_full: "field L 0 ''___type'' = SNil \<Longrightarrow> getFullName raw_api (STab 0) name L = ret (name, L)"
  by (simp add: getFullName_def raw_api_def raw_get_def field_def)

lemma demo_program_run:
  "\<exists>tr s. exec bind_en (bind_step raw_api (\<lambda>f. f)) demo_declarations demo_binding = Some (tr, s) \<and> demo_bound s"
proof -
  let ?step = "bind_step raw_api (\<lambda>f. f)"
  have nil: "field bare_lua n name = SNil" for n name by (simp add: field_def bare_lua_def)
  have next0: "next_table (heap bare_lua) = 1" "next_udata (heap bare_lua) = 0" by (simp_all add: bare_lua_def)
  have ok: "binder_ok Map.empty {0} {} (\<lambda>S const. []) bare_lua"
    by (auto simp: binder_ok_def wf_def const_setters_ok_def module_ok_def outside_def downs_ok_def is_list_def bare_lua_def field_def)
  from CppBindClass_bind_ok [OF raw_api_reads ok, where p = 0 and T = 0 and name = "''Shape''" and gc = SNil and gc_const = SNil] nil
  obtain L1 where L1: "CppBindClass_bind raw_api (STab 0) ''Shape'' 0 SNil SNil bare_lua = ret (STab (addr shape_class KStatic), L1)"
    and ok1: "binder_ok [0 \<mapsto> shape_class] {0} {} (\<lambda>S const. []) L1"
    and b1: "built (rawset (STab 0) (SStr ''Shape'') (STab (addr shape_class KStatic)) bare_lua) 0 shape_class (super_slot Map.empty shape_class) L1"
    by (auto simp: demo_full new_class_def shape_class_def next0)
  let ?s1 = "demo_binding\<lparr>bd_lua := L1, bd_env := [0 \<mapsto> shape_class]\<rparr>"
  have step1: "?step (BeginClass 0 ''Shape'' 0 SNil SNil) demo_binding = Done (Some (STab (addr shape_class KStatic)), ?s1)"
    by (rule bind_step_ret)
      (simp add: L1 declared_new [OF _ demo_full] nil demo_binding_def new_class_def shape_class_def next0)
  have next1: "next_table (heap L1) = 10" "next_udata (heap L1) = 0" using b1 by (simp_all add: built_def shape_class_def next0)
  have nil1: "field L1 0 ''Circle'' = SNil" "field L1 0 ''___type'' = SNil"
    using b1 nil by (simp_all add: built_def next0 field_def rawset_tables)
  from CppBindClass_extend_ok [OF raw_api_reads ok1, where p = 0 and T = 1 and S = 0 and name = "''Circle''" and gc = SNil and gc_const = SNil] nil1
  obtain L1' L2 D where L2: "CppBindClass_extend raw_api (STab 0) ''Circle'' 1 0 SNil SNil L1 = ret (STab (addr circle_class KStatic), L2)"
    and ok2: "binder_ok demo_classes {0} {} D L2" and e2: "extended L1' L2"
    and b2: "built (rawset (STab 0) (SStr ''Circle'') (STab (addr circle_class KStatic)) L1) 1 circle_class (super_slot [0 \<mapsto> shape_class] circle_class) L1'"
    by (auto simp: demo_full new_class_def circle_class_def next1 demo_classes_def)
  let ?s2 = "?s1\<lparr>bd_lua := L2, bd_env := demo_classes\<rparr>"
  have step2: "?step (BeginExtendClass 0 ''Circle'' 1 0 SNil SNil) ?s1 = Done (Some (STab (addr circle_class KStatic)), ?s2)"
    by (rule bind_step_ret)
      (simp add: L2 [unfolded One_nat_def circle_class_def] declared_new [OF _ demo_full] nil1 demo_binding_def new_class_def circle_class_def next1 demo_classes_def)
  have n2: "next_table (heap L1') = 19" "next_udata (heap L1') = 0" using b2 by (simp_all add: built_def circle_class_def next1)
  then have next2: "next_table (heap L2) \<le> 21" "next_udata (heap L2) = 2" using e2 by (simp_all add: extended_def)
  have "addr circle_class k < 19" for k by (cases k) (simp_all add: addr_def circle_class_def)
  then have area: "field L2 (addr circle_class k) ''area'' = SNil" for k using b2 e2 n2 by (simp add: built_def extended_def)
  have env: "demo_classes 1 = Some circle_class" by (simp add: demo_classes_def)
  from new_object_ok [OF ok2 env, of raw_api False 7] next2 obtain L3
    where L3: "CppObject_allocate raw_api (getClassID 1 False) 7 L2 = ret (push (SUser 2) L3)" "binder_ok demo_classes {0} {(2, 1, False)} D L3"
    "next_table (heap L3) \<le> 21" "next_udata (heap L3) = 3" "\<forall>n name. field L3 n name = field L2 n name" by auto
  from new_object_ok [OF L3(2) env, of raw_api True 8] L3 obtain L4
    where L4: "CppObject_allocate raw_api (getClassID 1 True) 8 L3 = ret (push (SUser 3) L4)"
    "next_table (heap L4) \<le> 21" "\<forall>n name. field L4 n name = field L2 n name" by auto
  let ?s3 = "?s2\<lparr>bd_lua := L3, bd_objs := [(2, 1, False)]\<rparr>"
  let ?s4 = "?s3\<lparr>bd_lua := L4, bd_objs := [(3, 1, True), (2, 1, False)]\<rparr>"
  have step3: "?step (NewObject 1 False 7) ?s2 = Done (Some (SUser 2), ?s3)"
    using L3 next2 by (intro bind_step_ret) (simp add: demo_binding_def)
  have step4: "?step (NewObject 1 True 8) ?s3 = Done (Some (SUser 3), ?s4)"
    using L4 L3(4) by (intro bind_step_ret) (simp add: demo_binding_def)
  have "demo_bound ?s4" using L4 area by (simp add: demo_bound_def)
  moreover have "\<exists>tr. exec bind_en ?step demo_declarations demo_binding = Some (tr, ?s4)"
    using step1 step2 step3 step4 nil nil1 env
    by (simp add: demo_declarations_def demo_binding_def demo_classes_def)
  ultimately show ?thesis by blast
qed

definition demo_user :: user_call where "demo_user f args H = ret (SNum 3, H)"

lemma demo_bound_reach:
  obtains tr s where "reach bind_start bind_en (bind_step raw_api (\<lambda>f. f)) tr s" "demo_bound s" "bind_inv s"
proof -
  obtain tr s where run: "exec bind_en (bind_step raw_api (\<lambda>f. f)) demo_declarations demo_binding = Some (tr, s)" and s: "demo_bound s"
    using demo_program_run by blast
  have "bind_start demo_binding" by (simp add: bind_start_def demo_binding_def bare_lua_def field_def)
  from exec_reach [where start = bind_start, OF this run] have r: "reach bind_start bind_en (bind_step raw_api (\<lambda>f. f)) tr s" .
  from r s raw_binding.declaring.reach_inv [OF r] show thesis by (rule that)
qed

lemma demo_boundD:
  "demo_bound s \<Longrightarrow> bd_env s = demo_classes" "demo_bound s \<Longrightarrow> bd_objs s = [(3, 1, True), (2, 1, False)]"
  "demo_bound s \<Longrightarrow> next_table (heap (bd_lua s)) \<le> 21" "demo_bound s \<Longrightarrow> field (bd_lua s) (addr circle_class k) ''area'' = SNil"
  "demo_classes 0 = Some shape_class" "demo_classes 1 = Some circle_class" "derives demo_classes 1 0"
  using derives_super [of demo_classes 1 circle_class 0 0] derives_refl [of demo_classes 0]
  by (simp_all add: demo_bound_def demo_classes_def circle_class_def)



text \<open>
  C20: Casts are safe: the userdata that a script passes is taken for an object of a class \<^verbatim>\<open>T\<close> if and only if its class is \<^verbatim>\<open>T\<close> or
  derives from it, and it is not a const object where one that may be changed is wanted. Otherwise the result is null or an
  error, as the caller asks, and in every case the stack is left as it was.
\<close>

theorem object_casts:
  assumes "raw_reads A" "reach bind_start bind_en (bind_step A wrap) tr s" "(u, C, const) \<in> set (bd_objs s)" "bd_env s T = Some t"
    and "0 < i" "i \<le> length args" "args ! (i - 1) = SUser u" "next_table (heap (bd_lua s)) < n"
  shows "let L = script_state s args in
    if derives (bd_env s) C T \<and> (const \<longrightarrow> want)
    then CppObject_getObject A n (int i) (getClassID T want) want False raise L = ret (Some (SUser u), L)
    else if raise then \<exists>msg. CppObject_getObject A n (int i) (getClassID T want) want False raise L = throw msg
    else CppObject_getObject A n (int i) (getClassID T want) want False raise L = ret (None, L)"
  using assms by (intro binder_env.casts [OF binder_env.intro])

theorem object_casts_witness:
  "\<exists>tr s. reach bind_start bind_en (bind_step raw_api (\<lambda>f. f)) tr s \<and> bd_env s = demo_classes \<and>
     CppObject_getObject raw_api 22 1 (getClassID 0 True) True False True (script_state s [SUser 3]) =
       ret (Some (SUser 3), script_state s [SUser 3]) \<and>
     (\<exists>msg. CppObject_getObject raw_api 22 1 (getClassID 0 False) False False True (script_state s [SUser 3]) = throw msg)"
proof -
  obtain tr s where r: "reach bind_start bind_en (bind_step raw_api (\<lambda>f. f)) tr s" and s: "demo_bound s" by (rule demo_bound_reach)
  note d = demo_boundD(1-3) [OF s] demo_boundD(5,7)
  have "(3, 1, True) \<in> set (bd_objs s)" "bd_env s 0 = Some shape_class" "[SUser 3] ! (1 - 1) = SUser 3" using d by simp_all
  from object_casts [OF raw_api_reads r this(1,2) _ _ this(3), of 22 True True]
    object_casts [OF raw_api_reads r this(1,2) _ _ this(3), of 22 False True] d
  have "CppObject_getObject raw_api 22 1 (getClassID 0 True) True False True (script_state s [SUser 3]) =
       ret (Some (SUser 3), script_state s [SUser 3])"
    "\<exists>msg. CppObject_getObject raw_api 22 1 (getClassID 0 False) False False True (script_state s [SUser 3]) = throw msg"
    by (simp_all add: Let_def)
  with r d show ?thesis by blast
qed

text \<open>
  C21: What \<^verbatim>\<open>obj.key\<close> yields in a script is decided by the nearest class that knows the key, the object's own first: the value in its
  table, the function for numbers, or what the getter returns. The steps of \<^verbatim>\<open>CppBindClassMetaMethod::index\<close> through the stack agree
  with this.
\<close>

theorem field_of_nearest_class:
  assumes "raw_reads A" "reach bind_start bind_en (bind_step A wrap) tr s" "(u, C, const) \<in> set (bd_objs s)" "next_table (heap (bd_lua s)) < n"
  shows "CppBindClass_index A user n (SUser u) key (bd_lua s) =
    use_member A user (SUser u) key (find_member A (bd_env s) (bd_lua s) n (obj_kind const) C key) (heap (bd_lua s))"
  using assms by (intro binder_env.reads_member [OF binder_env.intro])

theorem field_of_nearest_class_witness:
  "\<exists>tr s. reach bind_start bind_en (bind_step raw_api (\<lambda>f. f)) tr s \<and> bd_env s = demo_classes \<and>
     CppBindClass_index raw_api demo_user 22 (SUser 2) (SStr ''___type'') (bd_lua s) = ret (SStr ''class<Circle>'', heap (bd_lua s))"
proof -
  obtain tr s where r: "reach bind_start bind_en (bind_step raw_api (\<lambda>f. f)) tr s" and s: "demo_bound s" and inv: "bind_inv s"
    by (rule demo_bound_reach)
  note d = demo_boundD(1-3) [OF s] demo_boundD(6)
  have "(2, 1, False) \<in> set (bd_objs s)" "next_table (heap (bd_lua s)) < 22" using d by simp_all
  note field_of_nearest_class [OF raw_api_reads r this, of demo_user "SStr ''___type''"]
  moreover have "field (bd_lua s) (addr circle_class KClass) ''___type'' = SStr ''class<Circle>''"
    using inv class_fields(5) [where E = "bd_env s" and T = 1 and k = KClass] d
    by (fastforce simp: circle_class_def bind_inv_def)
  then have "own_member raw_api (bd_lua s) (addr circle_class KClass) (SStr ''___type'') = Some (Field (SStr ''class<Circle>''))"
    by (simp add: own_member_def field_def)
  with d(1,4) have "find_member raw_api (bd_env s) (bd_lua s) 22 KClass 1 (SStr ''___type'') = Some (Field (SStr ''class<Circle>''))"
    using find_member_Suc [of demo_classes 1 circle_class raw_api "bd_lua s" 21 KClass "SStr ''___type''"] by simp
  ultimately show ?thesis using r d(1) by (auto simp: obj_kind_def)
qed

text \<open>
  C22: A script cannot assign to a named field of a const object: for a key that is not a number, whatever the program has bound
  to the class and its base classes, the assignment ends in an error, and no setter of the program is called. (A key that is a
  number goes to the function of \<^verbatim>\<open>addIndexer\<close>, which may be bound for const objects too.)
\<close>

theorem const_object_kept:
  assumes "raw_reads A" "reach bind_start bind_en (bind_step A wrap) tr s" "(u, C, True) \<in> set (bd_objs s)"
    "next_table (heap (bd_lua s)) < n" "\<not> is_number A key"
  shows "\<exists>msg. CppBindClass_newIndex A user n (SUser u) key v (bd_lua s) = throw msg"
  using assms by (intro binder_env.const_kept [OF binder_env.intro])

theorem const_object_kept_witness:
  "\<exists>tr s msg. reach bind_start bind_en (bind_step raw_api (\<lambda>f. f)) tr s \<and> bd_env s = demo_classes \<and>
     CppBindClass_newIndex raw_api demo_user 22 (SUser 3) (SStr ''area'') (SNum 5) (bd_lua s) = throw msg"
proof -
  obtain tr s where r: "reach bind_start bind_en (bind_step raw_api (\<lambda>f. f)) tr s" and s: "demo_bound s" by (rule demo_bound_reach)
  note d = demo_boundD(1-3) [OF s]
  have "(3, 1, True) \<in> set (bd_objs s)" "next_table (heap (bd_lua s)) < 22" "\<not> is_number raw_api (SStr ''area'')"
    using d by (simp_all add: raw_api_def)
  from const_object_kept [OF raw_api_reads r this] r d(1) show ?thesis by blast
qed

text \<open>
  C23: A variable that the program binds is what scripts get at: reading the field calls the getter with the object,
  assigning to it calls the setter with the object and the value, and the setter is not called for a const object, which is an
  error that names the field.
\<close>

theorem variable_reaches_scripts:
  assumes "raw_reads A" "reach bind_start bind_en (bind_step A wrap) tr s" "(u, T, const) \<in> set (bd_objs s)"
    "bd_env s T = Some c" "name \<notin> set reserved" "\<not> api_numeral A name" "field (bd_lua s) (addr c (obj_kind const)) name = SNil"
    "is_cfun g" "is_cfun f" "next_table (heap (bd_lua s)) < n"
  shows "\<exists>L'. bind_step A wrap (BindMember T (AddVariable name g f True)) s = Done (Some SNil, s\<lparr>bd_lua := L'\<rparr>) \<and>
    CppBindClass_index A user n (SUser u) (SStr name) L' = call_slot A user g [SUser u] (heap L') \<and>
    CppBindClass_newIndex A user n (SUser u) (SStr name) v L' =
      (if const then errorConstMismatch A (c_type c @ ''.'' @ name)
       else bind_x (call_slot A user f [SUser u, v] (heap L')) (\<lambda>(r, H). ret H))"
  using assms by (intro binder_env.variable_bound [OF binder_env.intro])

theorem variable_reaches_scripts_witness:
  "\<exists>tr s L'. reach bind_start bind_en (bind_step raw_api (\<lambda>f. f)) tr s \<and> bd_env s = demo_classes \<and>
     bind_step raw_api (\<lambda>f. f) (BindMember 1 (AddVariable ''area'' (SFun (CBound 3)) (SFun (CBound 4)) True)) s =
       Done (Some SNil, s\<lparr>bd_lua := L'\<rparr>) \<and>
     CppBindClass_index raw_api demo_user 22 (SUser 3) (SStr ''area'') L' = ret (SNum 3, heap L') \<and>
     CppBindClass_newIndex raw_api demo_user 22 (SUser 3) (SStr ''area'') (SNum 5) L' =
       throw (''member function '' @ quoted ''class<Circle>.area'' @ '' can not be access by const object'')"
proof -
  obtain tr s where r: "reach bind_start bind_en (bind_step raw_api (\<lambda>f. f)) tr s" and s: "demo_bound s" by (rule demo_bound_reach)
  note d = demo_boundD(1-3) [OF s] demo_boundD(6)
  have obj: "(3, 1, True) \<in> set (bd_objs s)" and c: "bd_env s 1 = Some circle_class" and n: "next_table (heap (bd_lua s)) < 22"
    and num: "\<not> api_numeral raw_api ''area''" and cf: "is_cfun (SFun (CBound 3))" "is_cfun (SFun (CBound 4))"
    using d by (simp_all add: raw_api_def)
  from variable_reaches_scripts [OF raw_api_reads r obj c demo_names_free(3) num demo_boundD(4) [OF s] cf n, of demo_user "SNum 5"]
  obtain L' where "bind_step raw_api (\<lambda>f. f) (BindMember 1 (AddVariable ''area'' (SFun (CBound 3)) (SFun (CBound 4)) True)) s =
       Done (Some SNil, s\<lparr>bd_lua := L'\<rparr>)"
    "CppBindClass_index raw_api demo_user 22 (SUser 3) (SStr ''area'') L' = ret (SNum 3, heap L')"
    "CppBindClass_newIndex raw_api demo_user 22 (SUser 3) (SStr ''area'') (SNum 5) L' = errorConstMismatch raw_api (c_type circle_class @ ''.'' @ ''area'')"
    by (auto simp: demo_user_def)
  with r d(1) show ?thesis
    by (intro exI [of _ tr] exI [of _ s] exI [of _ L']) (simp add: errorConstMismatch_def luaL_error_def circle_class_def raw_api_def)
qed

text \<open>
  C24: An object whose class is \<open>C\<close> may be handed to Lua by a pointer to any base class \<open>T\<close> of it. If \<^verbatim>\<open>dynamic_cast\<close> tells of the declared classes
  which of them the object is, the class that the search through the lists of downcasts ends in is \<open>C\<close> itself, and the userdata
  is the one that a program gets that makes the object as one of \<open>C\<close>.
\<close>

theorem pushed_object_class:
  assumes "raw_reads A" "reach bind_start bind_en (bind_step A wrap) tr s" "bd_env s C = Some c" "bd_env s T = Some t"
    and "derives (bd_env s) C T" "\<And>X. bd_env s X \<noteq> None \<Longrightarrow> dyn obj X \<longleftrightarrow> derives (bd_env s) C X" "next_table (heap (bd_lua s)) \<le> n"
  shows "\<exists>v s'. bind_step A wrap (NewObject C const obj) s = Done (Some v, s') \<and>
    CppObjectPtr_pushToStack A dyn n T const obj (bd_lua s) = ret (push v (bd_lua s'))"
  using binder_env.pushed [OF binder_env.intro, where dyn = dyn and obj = obj and const = const, OF assms]
  unfolding Let_def by blast

theorem pushed_object_class_witness:
  "\<exists>tr s v s'. reach bind_start bind_en (bind_step raw_api (\<lambda>f. f)) tr s \<and> bd_env s = demo_classes \<and>
     bind_step raw_api (\<lambda>f. f) (NewObject 1 True 5) s = Done (Some v, s') \<and>
     CppObjectPtr_pushToStack raw_api (\<lambda>obj X. X \<le> 1) 21 0 True 5 (bd_lua s) = ret (push v (bd_lua s'))"
proof -
  obtain tr s where r: "reach bind_start bind_en (bind_step raw_api (\<lambda>f. f)) tr s" and s: "demo_bound s" by (rule demo_bound_reach)
  note d = demo_boundD(1,3) [OF s] demo_boundD(5-7)
  have "(\<lambda>obj X. X \<le> 1) (5::nat) X \<longleftrightarrow> derives (bd_env s) 1 X" if "bd_env s X \<noteq> None" for X
    using that d derives_refl [of demo_classes 1] by (auto simp: demo_classes_def split: if_splits)
  from pushed_object_class [where dyn = "\<lambda>obj X. X \<le> 1" and obj = 5 and C = 1 and T = 0 and n = 21 and const = True,
      OF raw_api_reads r _ _ _ this, of circle_class shape_class] r d
  have "\<exists>v s'. bind_step raw_api (\<lambda>f. f) (NewObject 1 True 5) s = Done (Some v, s') \<and>
     CppObjectPtr_pushToStack raw_api (\<lambda>obj X. X \<le> 1) 21 0 True 5 (bd_lua s) = ret (push v (bd_lua s'))" by simp
  with r d(1) show ?thesis by blast
qed

end
