(* ===== verification/Lua_Types.thy ===== *)
theory Lua_Types
  imports Lua_Binding
begin

text \<open>
  \<^verbatim>\<open>lua-intf/LuaIntf/impl/LuaType.h\<close> and the end of \<^verbatim>\<open>CppObject.h\<close>: how C++ values of a type are read from the arguments of a call and pushed
  as results, for Lua 5.3. Types whose mapping is a matter of the program (\<^verbatim>\<open>float\<close>, containers, classes by value) are left out.
\<close>

section \<open>Types and values\<close>

text \<open>
  The integer types by their signedness and width, strings as \<^verbatim>\<open>const char*\<close> and as \<^verbatim>\<open>std::string\<close>, \<^verbatim>\<open>LuaRef\<close>, and pointers or
  references to objects of the class \<open>T\<close>, const or not. The type \<^verbatim>\<open>long\<close> has 64 bits.
\<close>

datatype cpp_type = TyBool | TyInt bool nat | TyChar | TyCStr | TyStr | TyRef | TyObj nat bool

text \<open>A null pointer and an invalid \<^verbatim>\<open>LuaRef\<close> are \<open>None\<close>.\<close>

datatype cpp_value =
    BoolV bool
  | IntV int
  | CharV char
  | CStrV "string option"
  | StrV string
  | RefV "slot option"
  | ObjV "nat option"
  | StateV

text \<open>\<^verbatim>\<open>static_cast\<close> to an integer type keeps the low bits.\<close>

definition int_cast :: "bool \<Rightarrow> nat \<Rightarrow> int \<Rightarrow> int" where
  "int_cast sg w k = (if sg then signed_take_bit (w - 1) k else take_bit w k)"

definition lua_Integer :: "int \<Rightarrow> int" where "lua_Integer k = int_cast True 64 k"

text \<open>The characters of a C string.\<close>

definition c_chars :: "string \<Rightarrow> string" where "c_chars s = takeWhile (\<lambda>c. c \<noteq> CHR 0x00) s"

text \<open>The value that a type's default constructor makes.\<close>

fun zero_value :: "cpp_type \<Rightarrow> cpp_value" where
  "zero_value TyBool = BoolV False"
| "zero_value (TyInt sg w) = IntV 0"
| "zero_value TyChar = CharV (CHR 0x00)"
| "zero_value TyCStr = CStrV None"
| "zero_value TyStr = StrV ''''"
| "zero_value TyRef = RefV None"
| "zero_value (TyObj T const) = ObjV None"

section \<open>Arguments\<close>

text \<open>The argument at an index, nothing above the top.\<close>

definition call_arg :: "lua_State \<Rightarrow> nat \<Rightarrow> slot option" where
  "call_arg L i = (if 0 < i \<and> i \<le> length (stack L) then Some (at L (int i)) else None)"

definition lua_isnone :: "lua_State \<Rightarrow> nat \<Rightarrow> bool" where "lua_isnone L i \<longleftrightarrow> call_arg L i = None"

definition lua_isnoneornil :: "lua_State \<Rightarrow> nat \<Rightarrow> bool" where
  "lua_isnoneornil L i \<longleftrightarrow> call_arg L i = None \<or> call_arg L i = Some SNil"

definition arg_typename :: "slot option \<Rightarrow> string" where
  "arg_typename v = (case v of None \<Rightarrow> ''no value'' | Some v \<Rightarrow> luaL_typename v)"

definition type_error :: "lua_api \<Rightarrow> nat \<Rightarrow> string \<Rightarrow> slot option \<Rightarrow> 'a exn" where
  "type_error A i expected v = throw (api_argerror A i (expected @ '' expected, got '' @ arg_typename v))"

definition slot_toboolean :: "slot \<Rightarrow> bool" where "slot_toboolean v \<longleftrightarrow> v \<noteq> SNil \<and> v \<noteq> SBool False"

text \<open>A string may be read as a number; a number is changed into a string where it is on the stack.\<close>

definition slot_checkinteger :: "lua_api \<Rightarrow> nat \<Rightarrow> slot option \<Rightarrow> int exn" where
  "slot_checkinteger A i v = (case v of
     Some (SNum k) \<Rightarrow> ret k
   | Some (SStr s) \<Rightarrow> (case api_str_int A s of Some k \<Rightarrow> ret k | None \<Rightarrow> type_error A i ''number'' v)
   | _ \<Rightarrow> type_error A i ''number'' v)"

definition slot_checkstring :: "lua_api \<Rightarrow> nat \<Rightarrow> slot option \<Rightarrow> string exn" where
  "slot_checkstring A i v = (case v of
     Some (SStr s) \<Rightarrow> ret s
   | Some (SNum k) \<Rightarrow> ret (api_num_to_str A k)
   | _ \<Rightarrow> type_error A i ''string'' v)"

definition lua_tolstring :: "lua_api \<Rightarrow> nat \<Rightarrow> lua_State \<Rightarrow> lua_State" where
  "lua_tolstring A i L = (case call_arg L i of
     Some (SNum k) \<Rightarrow> L\<lparr>stack := (stack L)[length (stack L) - i := SStr (api_num_to_str A k)]\<rparr> | _ \<Rightarrow> L)"

definition check_lstring :: "lua_api \<Rightarrow> nat \<Rightarrow> lua_State \<Rightarrow> (string \<times> lua_State) exn" where
  "check_lstring A i L = bind_x (slot_checkstring A i (call_arg L i)) (\<lambda>s. ret (s, lua_tolstring A i L))"

text \<open>\<^verbatim>\<open>CppObject::get<T>\<close>: \<open>n\<close> is the fuel of the loop over the base classes.\<close>

definition CppObject_get :: "lua_api \<Rightarrow> nat \<Rightarrow> nat \<Rightarrow> nat \<Rightarrow> bool \<Rightarrow> lua_State \<Rightarrow> (nat \<times> lua_State) exn" where
  "CppObject_get A n T i is_const L =
     (if lua_isnone L i then luaL_error A (''expect userdata, got '' @ arg_typename None)
      else bind_x (CppObject_getObject A n (int i) (getClassID T is_const) is_const False True L) (\<lambda>(obj, L1).
        case obj of Some (SUser u) \<Rightarrow> ret (u_object (udatas (heap L1) u), L1) | _ \<Rightarrow> Abort ''null pointer''))"

section \<open>The mappings\<close>

text \<open>\<^verbatim>\<open>LuaTypeMapping<bool>\<close>. Nil is an argument.\<close>

definition bool_get :: "nat \<Rightarrow> lua_State \<Rightarrow> (cpp_value \<times> lua_State) exn" where
  "bool_get i L = ret (BoolV (case call_arg L i of None \<Rightarrow> False | Some v \<Rightarrow> slot_toboolean v), L)"

definition bool_opt :: "cpp_value \<Rightarrow> nat \<Rightarrow> lua_State \<Rightarrow> (cpp_value \<times> lua_State) exn" where
  "bool_opt d i L = (if lua_isnone L i then ret (d, L) else bool_get i L)"

definition bool_push :: "bool \<Rightarrow> lua_State \<Rightarrow> lua_State exn" where
  "bool_push b L = ret (push (SBool b) L)"

text \<open>\<^verbatim>\<open>LuaIntegerTypeMapping\<close>.\<close>

definition integer_get :: "lua_api \<Rightarrow> bool \<Rightarrow> nat \<Rightarrow> nat \<Rightarrow> lua_State \<Rightarrow> (cpp_value \<times> lua_State) exn" where
  "integer_get A sg w i L = bind_x (slot_checkinteger A i (call_arg L i)) (\<lambda>k. ret (IntV (int_cast sg w k), L))"

definition integer_opt :: "lua_api \<Rightarrow> bool \<Rightarrow> nat \<Rightarrow> cpp_value \<Rightarrow> nat \<Rightarrow> lua_State \<Rightarrow> (cpp_value \<times> lua_State) exn" where
  "integer_opt A sg w d i L =
     (if lua_isnoneornil L i then ret (case d of IntV k \<Rightarrow> IntV (int_cast sg w (lua_Integer k)) | _ \<Rightarrow> d, L) else integer_get A sg w i L)"

definition integer_push :: "int \<Rightarrow> lua_State \<Rightarrow> lua_State exn" where
  "integer_push k L = ret (push (SNum (lua_Integer k)) L)"

text \<open>\<^verbatim>\<open>LuaTypeMapping<char>\<close>: the first character, or the zero at the end.\<close>

definition char_get :: "lua_api \<Rightarrow> nat \<Rightarrow> lua_State \<Rightarrow> (cpp_value \<times> lua_State) exn" where
  "char_get A i L = bind_x (check_lstring A i L) (\<lambda>(s, L1). ret (CharV (case s of [] \<Rightarrow> CHR 0x00 | c # _ \<Rightarrow> c), L1))"

definition char_opt :: "lua_api \<Rightarrow> cpp_value \<Rightarrow> nat \<Rightarrow> lua_State \<Rightarrow> (cpp_value \<times> lua_State) exn" where
  "char_opt A d i L = (if lua_isnoneornil L i then ret (d, L) else char_get A i L)"

definition char_push :: "char \<Rightarrow> lua_State \<Rightarrow> lua_State exn" where
  "char_push c L = ret (push (SStr (c_chars [c])) L)"

text \<open>\<^verbatim>\<open>LuaTypeMapping<const char*>\<close>.\<close>

definition cstr_get :: "lua_api \<Rightarrow> nat \<Rightarrow> lua_State \<Rightarrow> (cpp_value \<times> lua_State) exn" where
  "cstr_get A i L = bind_x (check_lstring A i L) (\<lambda>(s, L1). ret (CStrV (Some (c_chars s)), L1))"

definition cstr_opt :: "lua_api \<Rightarrow> cpp_value \<Rightarrow> nat \<Rightarrow> lua_State \<Rightarrow> (cpp_value \<times> lua_State) exn" where
  "cstr_opt A d i L = (if lua_isnoneornil L i then ret (d, L) else cstr_get A i L)"

definition cstr_push :: "string option \<Rightarrow> lua_State \<Rightarrow> lua_State exn" where
  "cstr_push s L = ret (push (case s of None \<Rightarrow> SNil | Some s \<Rightarrow> SStr (c_chars s)) L)"

text \<open>\<^verbatim>\<open>LuaTypeMapping<std::string>\<close>.\<close>

definition string_get :: "lua_api \<Rightarrow> nat \<Rightarrow> lua_State \<Rightarrow> (cpp_value \<times> lua_State) exn" where
  "string_get A i L = bind_x (check_lstring A i L) (\<lambda>(s, L1). ret (StrV s, L1))"

definition string_opt :: "lua_api \<Rightarrow> cpp_value \<Rightarrow> nat \<Rightarrow> lua_State \<Rightarrow> (cpp_value \<times> lua_State) exn" where
  "string_opt A d i L = (if lua_isnoneornil L i then ret (d, L) else string_get A i L)"

definition string_push :: "string \<Rightarrow> lua_State \<Rightarrow> lua_State exn" where
  "string_push s L = ret (push (SStr s) L)"

text \<open>\<^verbatim>\<open>LuaTypeMapping<LuaRef>\<close>. Nil is an argument.\<close>

definition ref_get :: "nat \<Rightarrow> lua_State \<Rightarrow> (cpp_value \<times> lua_State) exn" where
  "ref_get i L = ret (RefV (if lua_isnone L i then None else call_arg L i), L)"

definition ref_opt :: "cpp_value \<Rightarrow> nat \<Rightarrow> lua_State \<Rightarrow> (cpp_value \<times> lua_State) exn" where
  "ref_opt d i L = (if lua_isnone L i then ret (d, L) else ref_get i L)"

definition ref_push :: "slot option \<Rightarrow> lua_State \<Rightarrow> lua_State exn" where
  "ref_push r L = ret (push (case r of None \<Rightarrow> SNil | Some v \<Rightarrow> v) L)"

text \<open>
  \<^verbatim>\<open>LuaTypeMapping<T*>\<close>, and \<^verbatim>\<open>LuaClassMapping\<close> for references. \<open>dyn\<close> and the fuel are those of \<open>CppObjectPtr_pushToStack\<close>.
\<close>

definition object_get :: "lua_api \<Rightarrow> nat \<Rightarrow> nat \<Rightarrow> bool \<Rightarrow> nat \<Rightarrow> lua_State \<Rightarrow> (cpp_value \<times> lua_State) exn" where
  "object_get A n T const i L = bind_x (CppObject_get A n T i const L) (\<lambda>(obj, L1). ret (ObjV (Some obj), L1))"

definition object_opt :: "lua_api \<Rightarrow> nat \<Rightarrow> nat \<Rightarrow> bool \<Rightarrow> cpp_value \<Rightarrow> nat \<Rightarrow> lua_State \<Rightarrow> (cpp_value \<times> lua_State) exn" where
  "object_opt A n T const d i L = (if lua_isnoneornil L i then ret (d, L) else object_get A n T const i L)"

definition object_push :: "lua_api \<Rightarrow> (nat \<Rightarrow> nat \<Rightarrow> bool) \<Rightarrow> nat \<Rightarrow> nat \<Rightarrow> bool \<Rightarrow> nat option \<Rightarrow> lua_State \<Rightarrow> lua_State exn" where
  "object_push A dyn n T const p L =
     (case p of None \<Rightarrow> ret (push SNil L) | Some obj \<Rightarrow> CppObjectPtr_pushToStack A dyn n T const obj L)"

text \<open>\<^verbatim>\<open>LuaType<T>\<close> chooses the mapping.\<close>

fun LuaType_get :: "lua_api \<Rightarrow> nat \<Rightarrow> cpp_type \<Rightarrow> nat \<Rightarrow> lua_State \<Rightarrow> (cpp_value \<times> lua_State) exn" where
  "LuaType_get A n TyBool i L = bool_get i L"
| "LuaType_get A n (TyInt sg w) i L = integer_get A sg w i L"
| "LuaType_get A n TyChar i L = char_get A i L"
| "LuaType_get A n TyCStr i L = cstr_get A i L"
| "LuaType_get A n TyStr i L = string_get A i L"
| "LuaType_get A n TyRef i L = ref_get i L"
| "LuaType_get A n (TyObj T const) i L = object_get A n T const i L"

fun LuaType_opt :: "lua_api \<Rightarrow> nat \<Rightarrow> cpp_type \<Rightarrow> cpp_value \<Rightarrow> nat \<Rightarrow> lua_State \<Rightarrow> (cpp_value \<times> lua_State) exn" where
  "LuaType_opt A n TyBool d i L = bool_opt d i L"
| "LuaType_opt A n (TyInt sg w) d i L = integer_opt A sg w d i L"
| "LuaType_opt A n TyChar d i L = char_opt A d i L"
| "LuaType_opt A n TyCStr d i L = cstr_opt A d i L"
| "LuaType_opt A n TyStr d i L = string_opt A d i L"
| "LuaType_opt A n TyRef d i L = ref_opt d i L"
| "LuaType_opt A n (TyObj T const) d i L = object_opt A n T const d i L"

fun LuaType_push :: "lua_api \<Rightarrow> (nat \<Rightarrow> nat \<Rightarrow> bool) \<Rightarrow> nat \<Rightarrow> cpp_type \<Rightarrow> cpp_value \<Rightarrow> lua_State \<Rightarrow> lua_State exn" where
  "LuaType_push A dyn n TyBool (BoolV b) L = bool_push b L"
| "LuaType_push A dyn n (TyInt sg w) (IntV k) L = integer_push k L"
| "LuaType_push A dyn n TyChar (CharV c) L = char_push c L"
| "LuaType_push A dyn n TyCStr (CStrV s) L = cstr_push s L"
| "LuaType_push A dyn n TyStr (StrV s) L = string_push s L"
| "LuaType_push A dyn n TyRef (RefV r) L = ref_push r L"
| "LuaType_push A dyn n (TyObj T const) (ObjV p) L = object_push A dyn n T const p L"
| "LuaType_push A dyn n t v L = Abort ''ill-typed''"

lemmas type_mappings = bool_get_def bool_opt_def bool_push_def integer_get_def integer_opt_def integer_push_def
  char_get_def char_opt_def char_push_def cstr_get_def cstr_opt_def cstr_push_def string_get_def string_opt_def string_push_def
  ref_get_def ref_opt_def ref_push_def object_get_def object_opt_def object_push_def

lemma LuaType_opt_eq:
  "LuaType_opt A n t d i L =
     (if (if t = TyBool \<or> t = TyRef then lua_isnone L i else lua_isnoneornil L i)
      then ret (case (t, d) of (TyInt sg w, IntV k) \<Rightarrow> IntV (int_cast sg w (lua_Integer k)) | _ \<Rightarrow> d, L)
      else LuaType_get A n t i L)"
  by (cases t) (simp_all add: bool_opt_def integer_opt_def char_opt_def cstr_opt_def string_opt_def ref_opt_def object_opt_def split: cpp_value.split)

section \<open>Values without a heap\<close>

text \<open>What a value of a type other than a pointer to an object is read from, and is pushed as.\<close>

fun plain_type :: "cpp_type \<Rightarrow> bool" where
  "plain_type (TyObj T const) = False"
| "plain_type t = True"

definition type_read :: "lua_api \<Rightarrow> cpp_type \<Rightarrow> nat \<Rightarrow> slot option \<Rightarrow> cpp_value exn" where
  "type_read A t i v = (case t of
     TyBool \<Rightarrow> ret (BoolV (case v of None \<Rightarrow> False | Some v \<Rightarrow> slot_toboolean v))
   | TyInt sg w \<Rightarrow> bind_x (slot_checkinteger A i v) (\<lambda>k. ret (IntV (int_cast sg w k)))
   | TyChar \<Rightarrow> bind_x (slot_checkstring A i v) (\<lambda>s. ret (CharV (case s of [] \<Rightarrow> CHR 0x00 | c # _ \<Rightarrow> c)))
   | TyCStr \<Rightarrow> bind_x (slot_checkstring A i v) (\<lambda>s. ret (CStrV (Some (c_chars s))))
   | TyStr \<Rightarrow> bind_x (slot_checkstring A i v) (\<lambda>s. ret (StrV s))
   | TyRef \<Rightarrow> ret (RefV v)
   | TyObj T const \<Rightarrow> Abort ''not a plain type'')"

fun type_slot :: "cpp_type \<Rightarrow> cpp_value \<Rightarrow> slot" where
  "type_slot TyBool (BoolV b) = SBool b"
| "type_slot (TyInt sg w) (IntV k) = SNum (lua_Integer k)"
| "type_slot TyChar (CharV c) = SStr (c_chars [c])"
| "type_slot TyCStr (CStrV s) = (case s of None \<Rightarrow> SNil | Some s \<Rightarrow> SStr (c_chars s))"
| "type_slot TyStr (StrV s) = SStr s"
| "type_slot TyRef (RefV r) = (case r of None \<Rightarrow> SNil | Some v \<Rightarrow> v)"
| "type_slot t v = SNil"

text \<open>The values of a type.\<close>

fun has_type :: "cpp_value \<Rightarrow> cpp_type \<Rightarrow> bool" where
  "has_type (BoolV b) t \<longleftrightarrow> t = TyBool"
| "has_type (IntV k) t \<longleftrightarrow> (\<exists>sg w. t = TyInt sg w \<and> 0 < w \<and> w \<le> 64 \<and> int_cast sg w k = k)"
| "has_type (CharV c) t \<longleftrightarrow> t = TyChar"
| "has_type (CStrV s) t \<longleftrightarrow> t = TyCStr \<and> (case s of None \<Rightarrow> True | Some s \<Rightarrow> c_chars s = s)"
| "has_type (StrV s) t \<longleftrightarrow> t = TyStr"
| "has_type (RefV r) t \<longleftrightarrow> t = TyRef"
| "has_type (ObjV p) t \<longleftrightarrow> (\<exists>T const. t = TyObj T const)"
| "has_type StateV t \<longleftrightarrow> False"

end
