(* ===== verification/Lua_Call.thy ===== *)
theory Lua_Call
  imports Lua_Types "HOL-Library.Signed_Division"
begin

text \<open>
  \<^verbatim>\<open>lua-intf/LuaIntf/impl/CppArg.h, CppInvoke.h\<close> and the functions that Lua calls in \<^verbatim>\<open>CppBindModule.h\<close> and \<^verbatim>\<open>CppBindClass.h\<close>: a bound C++
  function gets its arguments from the stack, in the ways that their specifications tell, and leaves its results there, with the
  arguments that are results, too.
\<close>

section \<open>Specifications of arguments\<close>

text \<open>
  An argument as it is, or under \<^verbatim>\<open>_opt, _def, _out, _ref, _ref_opt, _ref_def\<close>; the default is a fraction. \<open>ArgState\<close> is an argument
  of type \<^verbatim>\<open>lua_State*\<close> or \<^verbatim>\<open>LuaState\<close>, which takes nothing from the stack.
\<close>

datatype arg_spec =
    ArgIn cpp_type
  | ArgOpt cpp_type
  | ArgDef cpp_type int int
  | ArgOut cpp_type
  | ArgRef cpp_type
  | ArgRefOpt cpp_type
  | ArgRefDef cpp_type int int
  | ArgState

text \<open>\<^verbatim>\<open>CppArgTraits\<close>.\<close>

fun arg_type :: "arg_spec \<Rightarrow> cpp_type option" where
  "arg_type (ArgIn t) = Some t"
| "arg_type (ArgOpt t) = Some t"
| "arg_type (ArgDef t num den) = Some t"
| "arg_type (ArgOut t) = Some t"
| "arg_type (ArgRef t) = Some t"
| "arg_type (ArgRefOpt t) = Some t"
| "arg_type (ArgRefDef t num den) = Some t"
| "arg_type ArgState = None"

fun isInput :: "arg_spec \<Rightarrow> bool" where
  "isInput (ArgOut t) = False"
| "isInput ArgState = False"
| "isInput p = True"

fun isOutput :: "arg_spec \<Rightarrow> bool" where
  "isOutput (ArgOut t) = True"
| "isOutput (ArgRef t) = True"
| "isOutput (ArgRefOpt t) = True"
| "isOutput (ArgRefDef t num den) = True"
| "isOutput p = False"

fun isOptional :: "arg_spec \<Rightarrow> bool" where
  "isOptional (ArgOpt t) = True"
| "isOptional (ArgDef t num den) = True"
| "isOptional (ArgRefOpt t) = True"
| "isOptional (ArgRefDef t num den) = True"
| "isOptional p = False"

text \<open>\<^verbatim>\<open>T(T(NUM) / DEN)\<close>: a division of integers truncates.\<close>

fun default_of :: "cpp_type \<Rightarrow> int \<Rightarrow> int \<Rightarrow> cpp_value" where
  "default_of (TyInt sg w) num den = IntV (int_cast sg w (int_cast sg w num sdiv den))"
| "default_of TyBool num den = BoolV ((if num = 0 then 0 else 1) sdiv den \<noteq> 0)"
| "default_of t num den = zero_value t"

fun defaultValue :: "arg_spec \<Rightarrow> cpp_value" where
  "defaultValue (ArgDef t num den) = default_of t num den"
| "defaultValue (ArgRefDef t num den) = default_of t num den"
| "defaultValue p = (case arg_type p of Some t \<Rightarrow> zero_value t | None \<Rightarrow> StateV)"

section \<open>Reading and pushing arguments\<close>

text \<open>
  \<^verbatim>\<open>CppArg::get\<close> says how many arguments it has taken, \<^verbatim>\<open>CppArg::push\<close> how many it has pushed. What is not read keeps the value that
  the tuple of arguments starts with.
\<close>

definition CppArg_get :: "lua_api \<Rightarrow> nat \<Rightarrow> arg_spec \<Rightarrow> nat \<Rightarrow> lua_State \<Rightarrow> (nat \<times> cpp_value \<times> lua_State) exn" where
  "CppArg_get A n p i L = (case arg_type p of
     None \<Rightarrow> ret (0, StateV, L)
   | Some t \<Rightarrow>
      if \<not> isInput p then ret (0, zero_value t, L)
      else bind_x (if isOptional p then LuaType_opt A n t (defaultValue p) i L else LuaType_get A n t i L) (\<lambda>(v, L1). ret (1, v, L1)))"

definition CppArg_push :: "lua_api \<Rightarrow> (nat \<Rightarrow> nat \<Rightarrow> bool) \<Rightarrow> nat \<Rightarrow> arg_spec \<Rightarrow> cpp_value \<Rightarrow> lua_State \<Rightarrow> (nat \<times> lua_State) exn" where
  "CppArg_push A dyn n p v L = (case arg_type p of
     Some t \<Rightarrow> if isOutput p then bind_x (LuaType_push A dyn n t v L) (\<lambda>L1. ret (1, L1)) else ret (0, L)
   | None \<Rightarrow> ret (0, L))"

fun CppArgTupleInput_get :: "lua_api \<Rightarrow> nat \<Rightarrow> arg_spec list \<Rightarrow> nat \<Rightarrow> lua_State \<Rightarrow> (cpp_value list \<times> lua_State) exn" where
  "CppArgTupleInput_get A n [] i L = ret ([], L)"
| "CppArgTupleInput_get A n (p # ps) i L = bind_x (CppArg_get A n p i L) (\<lambda>(k, v, L1).
     bind_x (CppArgTupleInput_get A n ps (i + k) L1) (\<lambda>(vs, L2). ret (v # vs, L2)))"

fun CppArgTupleOutput_push ::
  "lua_api \<Rightarrow> (nat \<Rightarrow> nat \<Rightarrow> bool) \<Rightarrow> nat \<Rightarrow> arg_spec list \<Rightarrow> cpp_value list \<Rightarrow> lua_State \<Rightarrow> (nat \<times> lua_State) exn" where
  "CppArgTupleOutput_push A dyn n (p # ps) (v # vs) L = bind_x (CppArg_push A dyn n p v L) (\<lambda>(k, L1).
     bind_x (CppArgTupleOutput_push A dyn n ps vs L1) (\<lambda>(m, L2). ret (k + m, L2)))"
| "CppArgTupleOutput_push A dyn n ps vs L = ret (0, L)"

section \<open>Functions\<close>

text \<open>
  A C++ function: its type, and its body. The memory has the values of C++ variables, as members of objects. The body may change the memory,
  the arguments that are references, and through Lua's API the Lua state; it returns or throws a \<^verbatim>\<open>std::exception\<close> with a text. Errors of
  Lua that pass through it are those of \<open>exn\<close>.
\<close>

datatype return_type = RetVoid | RetValue cpp_type | RetTuple "cpp_type list"

type_synonym memory = "nat \<Rightarrow> nat \<Rightarrow> cpp_value"

record body_result =
  br_returned :: "cpp_value list"
  br_args :: "cpp_value list"
  br_memory :: memory
  br_lua :: lua_State

type_synonym cpp_body = "cpp_value list \<Rightarrow> memory \<Rightarrow> lua_State \<Rightarrow> (string + body_result) exn"

record cpp_function =
  fn_return :: return_type
  fn_args :: "arg_spec list"
  fn_body :: cpp_body

text \<open>A function from \<^verbatim>\<open>lua_State*\<close> to \<^verbatim>\<open>int\<close> pushes its results itself and returns their number.\<close>

definition counts_results :: "cpp_function \<Rightarrow> bool" where
  "counts_results f \<longleftrightarrow> fn_return f = RetValue (TyInt True 32) \<and> (\<exists>ps. fn_args f = ArgState # ps)"

fun pushTuple :: "lua_api \<Rightarrow> (nat \<Rightarrow> nat \<Rightarrow> bool) \<Rightarrow> nat \<Rightarrow> cpp_type list \<Rightarrow> cpp_value list \<Rightarrow> lua_State \<Rightarrow> (nat \<times> lua_State) exn" where
  "pushTuple A dyn n (t # ts) (v # vs) L = bind_x (LuaType_push A dyn n t v L) (\<lambda>L1.
     bind_x (pushTuple A dyn n ts vs L1) (\<lambda>(m, L2). ret (1 + m, L2)))"
| "pushTuple A dyn n ts vs L = ret (0, L)"

definition return_types :: "return_type \<Rightarrow> cpp_type list" where
  "return_types r = (case r of RetVoid \<Rightarrow> [] | RetValue t \<Rightarrow> [t] | RetTuple ts \<Rightarrow> ts)"

text \<open>\<^verbatim>\<open>CppInvokeMethod::push\<close> and \<^verbatim>\<open>CppInvokeClassMethod::push\<close>: call the function and push what it returns.\<close>

definition CppInvokeMethod_push ::
  "lua_api \<Rightarrow> (nat \<Rightarrow> nat \<Rightarrow> bool) \<Rightarrow> nat \<Rightarrow> cpp_function \<Rightarrow> cpp_value list \<Rightarrow> memory \<Rightarrow> lua_State \<Rightarrow> (string + (nat \<times> cpp_value list \<times> memory \<times> lua_State)) exn" where
  "CppInvokeMethod_push A dyn n f args mem L = bind_x (fn_body f args mem L) (\<lambda>r. case r of
     Inl what \<Rightarrow> ret (Inl what)
   | Inr b \<Rightarrow>
      if counts_results f
      then (case br_returned b of [IntV k] \<Rightarrow> ret (Inr (nat k, br_args b, br_memory b, br_lua b)) | _ \<Rightarrow> Abort ''ill-typed'')
      else bind_x (pushTuple A dyn n (return_types (fn_return f)) (br_returned b) (br_lua b)) (\<lambda>(k, L1).
        ret (Inr (k, br_args b, br_memory b, L1))))"

text \<open>
  \<^verbatim>\<open>CppBindMethodBase::call\<close>, with the arguments from the index \<open>iarg\<close> on. The results are on top of the stack, their number is
  returned.
\<close>

definition CppBindMethod_call ::
  "lua_api \<Rightarrow> (nat \<Rightarrow> nat \<Rightarrow> bool) \<Rightarrow> nat \<Rightarrow> nat \<Rightarrow> cpp_function \<Rightarrow> memory \<Rightarrow> lua_State \<Rightarrow> (nat \<times> memory \<times> lua_State) exn" where
  "CppBindMethod_call A dyn n iarg f mem L =
     bind_x (CppArgTupleInput_get A n (fn_args f) iarg L) (\<lambda>(args, L1).
     bind_x (CppInvokeMethod_push A dyn n f args mem L1) (\<lambda>r. case r of
       Inl what \<Rightarrow> luaL_error A what
     | Inr (k, args', mem', L2) \<Rightarrow>
         bind_x (CppArgTupleOutput_push A dyn n (fn_args f) args' L2) (\<lambda>(m, L3). ret (k + m, mem', L3))))"

section \<open>Members of classes\<close>

text \<open>\<^verbatim>\<open>CppBindClassMethodBase::call\<close>: the body of a member function gets the object first.\<close>

definition CppBindClassMethod_call ::
  "lua_api \<Rightarrow> (nat \<Rightarrow> nat \<Rightarrow> bool) \<Rightarrow> nat \<Rightarrow> nat \<Rightarrow> bool \<Rightarrow> cpp_function \<Rightarrow> (nat \<Rightarrow> cpp_body) \<Rightarrow> memory \<Rightarrow> lua_State \<Rightarrow> (nat \<times> memory \<times> lua_State) exn" where
  "CppBindClassMethod_call A dyn n T is_const f body mem L =
     bind_x (CppObject_get A n T 1 is_const L) (\<lambda>(obj, L1).
       CppBindMethod_call A dyn n 2 (f\<lparr>fn_body := body obj\<rparr>) mem L1)"

text \<open>\<^verbatim>\<open>CppBindClassVariableGetter, CppBindClassVariableSetter\<close>, with a pointer to a member, and those of variables at an address.\<close>

definition CppBindClassVariableGetter_call ::
  "lua_api \<Rightarrow> (nat \<Rightarrow> nat \<Rightarrow> bool) \<Rightarrow> nat \<Rightarrow> nat \<Rightarrow> cpp_type \<Rightarrow> nat \<Rightarrow> memory \<Rightarrow> lua_State \<Rightarrow> (nat \<times> memory \<times> lua_State) exn" where
  "CppBindClassVariableGetter_call A dyn n T t mp mem L = bind_x (CppObject_get A n T 1 True L) (\<lambda>(obj, L1).
     bind_x (LuaType_push A dyn n t (mem obj mp) L1) (\<lambda>L2. ret (1, mem, L2)))"

definition CppBindClassVariableSetter_call ::
  "lua_api \<Rightarrow> nat \<Rightarrow> nat \<Rightarrow> cpp_type \<Rightarrow> nat \<Rightarrow> memory \<Rightarrow> lua_State \<Rightarrow> (nat \<times> memory \<times> lua_State) exn" where
  "CppBindClassVariableSetter_call A n T t mp mem L = bind_x (CppObject_get A n T 1 False L) (\<lambda>(obj, L1).
     bind_x (LuaType_get A n t 2 L1) (\<lambda>(v, L2). ret (0, mem(obj := (mem obj)(mp := v)), L2)))"

definition CppBindVariableGetter_call ::
  "lua_api \<Rightarrow> (nat \<Rightarrow> nat \<Rightarrow> bool) \<Rightarrow> nat \<Rightarrow> cpp_type \<Rightarrow> nat \<Rightarrow> memory \<Rightarrow> lua_State \<Rightarrow> (nat \<times> memory \<times> lua_State) exn" where
  "CppBindVariableGetter_call A dyn n t ptr mem L = bind_x (LuaType_push A dyn n t (mem ptr 0) L) (\<lambda>L1. ret (1, mem, L1))"

definition CppBindVariableSetter_call :: "lua_api \<Rightarrow> nat \<Rightarrow> cpp_type \<Rightarrow> nat \<Rightarrow> memory \<Rightarrow> lua_State \<Rightarrow> (nat \<times> memory \<times> lua_State) exn" where
  "CppBindVariableSetter_call A n t ptr mem L = bind_x (LuaType_get A n t 1 L) (\<lambda>(v, L1).
     ret (0, mem(ptr := (mem ptr)(0 := v)), L1))"

text \<open>
  \<^verbatim>\<open>CppBindClassConstructor::call\<close> of an object that is held by a shared pointer: \<open>construct\<close> is the constructor, which yields the new object.
\<close>

definition CppBindClassConstructor_call ::
  "lua_api \<Rightarrow> (nat \<Rightarrow> nat \<Rightarrow> bool) \<Rightarrow> nat \<Rightarrow> nat \<Rightarrow> arg_spec list \<Rightarrow> (cpp_value list \<Rightarrow> memory \<Rightarrow> string + (nat \<times> memory)) \<Rightarrow>
     memory \<Rightarrow> lua_State \<Rightarrow> (nat \<times> memory \<times> lua_State) exn" where
  "CppBindClassConstructor_call A dyn n T ps construct mem L = bind_x (CppArgTupleInput_get A n ps 2 L) (\<lambda>(args, L1).
     case construct args mem of
       Inl what \<Rightarrow> luaL_error A what
     | Inr (obj, mem') \<Rightarrow> bind_x (CppObjectPtr_pushToStack A dyn n T False obj L1) (\<lambda>L2. ret (1, mem', L2)))"

text \<open>\<^verbatim>\<open>CppBindClassDestructor::call\<close>, with what the destructor does to the memory.\<close>

definition CppBindClassDestructor_call ::
  "lua_api \<Rightarrow> nat \<Rightarrow> nat \<Rightarrow> bool \<Rightarrow> (nat \<Rightarrow> memory \<Rightarrow> memory) \<Rightarrow> memory \<Rightarrow> lua_State \<Rightarrow> (nat \<times> memory \<times> lua_State) exn" where
  "CppBindClassDestructor_call A n T is_const destroy mem L =
     bind_x (CppObject_getObject A n 1 (getClassID T is_const) is_const True True L) (\<lambda>(obj, L1).
       case obj of Some (SUser u) \<Rightarrow> ret (0, destroy (u_object (udatas (heap L1) u)) mem, L1) | _ \<Rightarrow> Abort ''null pointer'')"

text \<open>\<^verbatim>\<open>CppBindModuleMetaMethod::forwardCall\<close>: the table that is called passes the call on to the class or module of that name in it.\<close>

definition forwardCall :: "lua_api \<Rightarrow> user_call \<Rightarrow> string \<Rightarrow> lua_State \<Rightarrow> lua_State exn" where
  "forwardCall A user name L =
     (let top = length (stack L);
          L1 = ops [push (SStr name), lua_rawget 1, push (SStr ''__call''), lua_rawget (-2)] L;
          args = (at L1 (-2)) # tl (rev (stack L))
      in bind_x (call_slot A user (at L1 (-1)) args (heap L1)) (\<lambda>(v, H). ret (L1\<lparr>stack := [v], heap := H\<rparr>)))"

end
