(* ===== verification/Lua_Call_Laws.thy ===== *)
theory Lua_Call_Laws
  imports Lua_Call Class_Programs
begin

text \<open>
  What bound functions get and return: the arguments are read each at its own place, before the body runs; results and output
  arguments are pushed in their order; values of the plain types survive the way to Lua and back; a member function gets the object that
  the script has, if the casts of \<open>Class_Programs\<close> allow it.
\<close>

section \<open>Reading arguments\<close>

lemma stack_arg: "call_arg L i = (if 0 < i \<and> i \<le> length (stack L) then Some (stack L ! (length (stack L) - i)) else None)"
proof (cases "0 < i \<and> i \<le> length (stack L)")
  case True
  then have "nat (int (length (stack L)) - int i) = length (stack L) - i" by simp
  with True show ?thesis by (simp add: call_arg_def at_def)
qed (auto simp: call_arg_def)

lemma tolstring_simps [simp]:
  "length (stack (lua_tolstring A i L)) = length (stack L)" "heap (lua_tolstring A i L) = heap L"
  "refs (lua_tolstring A i L) = refs L" "ptrs (lua_tolstring A i L) = ptrs L"
  by (simp_all add: lua_tolstring_def split: option.split slot.split)

lemma tolstring_arg [simp]: "j \<noteq> i \<Longrightarrow> call_arg (lua_tolstring A i L) j = call_arg L j"
  by (auto simp: lua_tolstring_def stack_arg split: option.split slot.split)

text \<open>What reading arguments leaves as it was: all but those that are read.\<close>

definition args_kept :: "nat \<Rightarrow> lua_State \<Rightarrow> lua_State \<Rightarrow> bool" where
  "args_kept i L L' \<longleftrightarrow> length (stack L') = length (stack L) \<and> heap L' = heap L \<and> refs L' = refs L \<and> ptrs L' = ptrs L \<and>
     (\<forall>j \<ge> i. call_arg L' j = call_arg L j)"

lemma args_kept_refl [simp]: "args_kept i L L"
  by (simp add: args_kept_def)

lemma args_kept_trans: "args_kept i L L1 \<Longrightarrow> args_kept j L1 L2 \<Longrightarrow> i \<le> j \<Longrightarrow> args_kept j L L2"
  by (auto simp: args_kept_def)

definition spec_read :: "lua_api \<Rightarrow> arg_spec \<Rightarrow> nat \<Rightarrow> slot option \<Rightarrow> cpp_value exn" where
  "spec_read A p i v = (case arg_type p of
     None \<Rightarrow> ret StateV
   | Some t \<Rightarrow>
      if \<not> isInput p then ret (zero_value t)
      else if isOptional p \<and> (v = None \<or> v = Some SNil \<and> t \<noteq> TyBool \<and> t \<noteq> TyRef)
      then ret (case (t, defaultValue p) of (TyInt sg w, IntV k) \<Rightarrow> IntV (int_cast sg w (lua_Integer k)) | _ \<Rightarrow> defaultValue p)
      else type_read A t i v)"

text \<open>The values of all the arguments: each one that is read from the stack takes the next place.\<close>

fun read_args :: "lua_api \<Rightarrow> arg_spec list \<Rightarrow> nat \<Rightarrow> (nat \<Rightarrow> slot option) \<Rightarrow> cpp_value list exn" where
  "read_args A [] i args = ret []"
| "read_args A (p # ps) i args = bind_x (spec_read A p i (args i)) (\<lambda>v.
     bind_x (read_args A ps (if isInput p then Suc i else i) args) (\<lambda>vs. ret (v # vs)))"

definition arg_place :: "arg_spec list \<Rightarrow> nat \<Rightarrow> nat \<Rightarrow> nat" where
  "arg_place ps i k = i + length (filter isInput (take k ps))"

definition plain_spec :: "arg_spec \<Rightarrow> bool" where
  "plain_spec p \<longleftrightarrow> (case arg_type p of None \<Rightarrow> True | Some t \<Rightarrow> plain_type t)"

lemma type_get_plain:
  assumes "plain_type t"
  shows "\<exists>L'. args_kept (Suc i) L L' \<and> LuaType_get A n t i L = bind_x (type_read A t i (call_arg L i)) (\<lambda>v. ret (v, L'))"
proof -
  have "args_kept (Suc i) L (lua_tolstring A i L)" by (simp add: args_kept_def)
  with assms show ?thesis
    by (cases t) (auto simp: type_mappings type_read_def check_lstring_def lua_isnone_def bind_x_assoc intro: exI [of _ L] exI [of _ "lua_tolstring A i L"])
qed

lemma CppArg_get_plain:
  assumes "plain_spec p"
  shows "\<exists>L'. args_kept (if isInput p then Suc i else i) L L' \<and>
    CppArg_get A n p i L = bind_x (spec_read A p i (call_arg L i)) (\<lambda>v. ret (if isInput p then 1 else 0, v, L'))"
proof (cases "arg_type p")
  case None
  then have "p = ArgState" by (cases p) simp_all
  then show ?thesis by (auto simp: CppArg_get_def spec_read_def intro: exI [of _ L])
next
  case (Some t)
  with assms have "plain_type t" by (simp add: plain_spec_def)
  from type_get_plain [OF this, of i L A n] obtain L' where L': "args_kept (Suc i) L L'"
    "LuaType_get A n t i L = bind_x (type_read A t i (call_arg L i)) (\<lambda>v. ret (v, L'))" by blast
  consider "\<not> isInput p" | "isInput p" "isOptional p" "if t = TyBool \<or> t = TyRef then lua_isnone L i else lua_isnoneornil L i"
    | "isInput p" "isOptional p \<longrightarrow> \<not> (if t = TyBool \<or> t = TyRef then lua_isnone L i else lua_isnoneornil L i)" by blast
  then show ?thesis
  proof cases
    case 1
    with Some show ?thesis by (auto simp: CppArg_get_def spec_read_def intro: exI [of _ L])
  next
    case 2
    with Some show ?thesis
      by (auto simp: CppArg_get_def spec_read_def LuaType_opt_eq lua_isnone_def lua_isnoneornil_def args_kept_def intro!: exI [of _ L] split: if_splits)
  next
    case 3
    with Some L' show ?thesis
      by (auto simp: CppArg_get_def spec_read_def LuaType_opt_eq lua_isnone_def lua_isnoneornil_def bind_x_assoc intro!: exI [of _ L'] split: if_splits)
  qed
qed

lemma read_args_cong:
  "(\<And>j. i \<le> j \<Longrightarrow> args j = args' j) \<Longrightarrow> read_args A ps i args = read_args A ps i args'"
proof (induction ps arbitrary: i)
  case (Cons p ps)
  have "read_args A ps (if isInput p then Suc i else i) args = read_args A ps (if isInput p then Suc i else i) args'"
    by (rule Cons.IH) (use Cons.prems in \<open>simp split: if_splits\<close>)
  with Cons.prems [of i] show ?case by simp
qed simp

lemma CppArgTupleInput_plain:
  assumes "list_all plain_spec ps"
  shows "\<exists>L'. length (stack L') = length (stack L) \<and> heap L' = heap L \<and> refs L' = refs L \<and> ptrs L' = ptrs L \<and>
    CppArgTupleInput_get A n ps i L = bind_x (read_args A ps i (call_arg L)) (\<lambda>vs. ret (vs, L'))"
  using assms
proof (induction ps arbitrary: i L)
  case (Cons p ps)
  let ?i = "if isInput p then Suc i else i"
  from Cons.prems CppArg_get_plain [of p i L A n] obtain L1 where L1: "args_kept ?i L L1"
    "CppArg_get A n p i L = bind_x (spec_read A p i (call_arg L i)) (\<lambda>v. ret (if isInput p then 1 else 0, v, L1))" by auto
  from Cons.prems Cons.IH [of L1 ?i] obtain L2 where L2: "length (stack L2) = length (stack L1)" "heap L2 = heap L1" "refs L2 = refs L1"
    "ptrs L2 = ptrs L1" "CppArgTupleInput_get A n ps ?i L1 = bind_x (read_args A ps ?i (call_arg L1)) (\<lambda>vs. ret (vs, L2))" by auto
  have "read_args A ps ?i (call_arg L1) = read_args A ps ?i (call_arg L)"
    by (rule read_args_cong) (use L1(1) in \<open>simp add: args_kept_def\<close>)
  with L1 L2 have "CppArgTupleInput_get A n (p # ps) i L = bind_x (read_args A (p # ps) i (call_arg L)) (\<lambda>vs. ret (vs, L2))"
    by (auto simp: bind_x_assoc split: if_splits)
  with L1(1) L2 show ?case by (auto simp: args_kept_def)
qed auto

text \<open>The argument with the number \<open>k\<close> has been read at its place.\<close>

lemma arg_place_simps [simp]:
  "arg_place ps i 0 = i" "arg_place (p # ps) i (Suc k) = arg_place ps (if isInput p then Suc i else i) k"
  by (simp_all add: arg_place_def)

lemma read_args_nth:
  "read_args A ps i args = ret vs \<Longrightarrow>
     length vs = length ps \<and> (\<forall>k < length ps. spec_read A (ps ! k) (arg_place ps i k) (args (arg_place ps i k)) = ret (vs ! k))"
proof (induction ps arbitrary: i vs)
  case (Cons p ps)
  let ?i = "if isInput p then Suc i else i"
  from Cons.prems obtain v ws where v: "spec_read A p i (args i) = ret v" and ws: "read_args A ps ?i args = ret ws" and vs: "vs = v # ws"
    by (auto simp: bind_x_ret)
  from Cons.IH [OF ws] v show ?case unfolding vs by (auto simp: nth_Cons split: nat.split)
qed simp

section \<open>Results\<close>



definition pushes :: "slot list \<Rightarrow> lua_State \<Rightarrow> lua_State" where
  "pushes vs L = L\<lparr>stack := rev vs @ stack L\<rparr>"

lemma pushes_simps [simp]: "pushes [] L = L" "pushes (v # vs) L = pushes vs (push v L)" "pushes ws (pushes vs L) = pushes (vs @ ws) L"
  by (simp_all add: pushes_def push_def)







section \<open>Values there and back\<close>

lemma int_cast_bounds:
  assumes "0 < w"
  shows "(if sg then - (2 ^ (w - 1)) \<le> int_cast sg w k \<and> int_cast sg w k < 2 ^ (w - 1) else 0 \<le> int_cast sg w k \<and> int_cast sg w k < 2 ^ w)"
    "int_cast sg w k mod 2 ^ w = k mod 2 ^ w"
proof -
  obtain m where w: "w = Suc m" using assms by (cases w) auto
  have "take_bit (Suc m) (signed_take_bit m k) = take_bit (Suc m) k" by (simp add: take_bit_signed_take_bit)
  then have "take_bit w (int_cast sg w k) = take_bit w k" by (simp add: int_cast_def w)
  then show "int_cast sg w k mod 2 ^ w = k mod 2 ^ w" unfolding take_bit_eq_mod .
  show "(if sg then - (2 ^ (w - 1)) \<le> int_cast sg w k \<and> int_cast sg w k < 2 ^ (w - 1) else 0 \<le> int_cast sg w k \<and> int_cast sg w k < 2 ^ w)"
    by (simp add: int_cast_def signed_take_bit_int_greater_eq_minus_exp signed_take_bit_int_less_exp)
qed

lemma int_cast_id:
  assumes "if sg then - (2 ^ (w - 1)) \<le> k \<and> k < 2 ^ (w - 1) else 0 \<le> k \<and> k < 2 ^ w"
  shows "int_cast sg w k = k"
  using assms by (auto simp: int_cast_def signed_take_bit_int_eq_self take_bit_int_eq_self split: if_splits)

lemma int_cast_exact:
  "0 < w \<Longrightarrow> int_cast sg w k = k \<longleftrightarrow> (if sg then - (2 ^ (w - 1)) \<le> k \<and> k < 2 ^ (w - 1) else 0 \<le> k \<and> k < 2 ^ w)"
  using int_cast_bounds(1) [of w sg k] int_cast_id [of sg w k] by metis

text \<open>An integer of at most 64 bits goes through a \<^verbatim>\<open>lua_Integer\<close>.\<close>

lemma int_cast_lua:
  assumes "w \<le> 64" "0 < w"
  shows "int_cast sg w (lua_Integer k) = int_cast sg w k"
proof (cases sg)
  case True
  have "w - Suc 0 \<le> 63" using assms by simp
  with True show ?thesis by (simp add: int_cast_def lua_Integer_def signed_take_bit_signed_take_bit min_def)
next
  case False
  with assms show ?thesis by (simp add: int_cast_def lua_Integer_def take_bit_signed_take_bit)
qed

lemma c_str_idem [simp]: "c_chars (c_chars s) = c_chars s"
  by (simp add: c_chars_def)

lemma type_round_trip:
  assumes "plain_type t" "has_type v t" "v \<noteq> CStrV None" "v \<noteq> RefV None"
  shows "type_read A t i (Some (type_slot t v)) = ret v"
proof (cases v)
  case (IntV k)
  with assms(2) obtain sg w where t: "t = TyInt sg w" "0 < w" "w \<le> 64" "int_cast sg w k = k" by auto
  with IntV show ?thesis by (simp add: type_read_def slot_checkinteger_def int_cast_lua)
next
  case (CharV c)
  with assms show ?thesis by (simp add: type_read_def slot_checkstring_def c_chars_def)
next
  case (CStrV s)
  with assms obtain s' where "s = Some s'" by (cases s) auto
  with CStrV assms show ?thesis by (simp add: type_read_def slot_checkstring_def)
next
  case (RefV r)
  with assms obtain v' where "r = Some v'" by (cases r) auto
  with RefV assms show ?thesis by (simp add: type_read_def)
qed (use assms in \<open>auto simp: type_read_def slot_checkstring_def slot_toboolean_def\<close>)

section \<open>Objects as arguments\<close>

text \<open>A script's object as the argument \<open>i\<close> of a C++ function that takes a pointer or reference to the class \<open>T\<close>.\<close>

lemma script_state_arg: "0 < i \<Longrightarrow> i \<le> length args \<Longrightarrow> call_arg (script_state s args) i = Some (args ! (i - 1))"
  by (simp add: stack_arg rev_nth)

context binder_env
begin

lemma object_argument:
  assumes "reach bind_start bind_en (bind_step A wrap) tr s" "(u, C, const) \<in> set (bd_objs s)" "bd_env s T = Some t"
    and "0 < i" "i \<le> length args" "args ! (i - 1) = SUser u" "next_table (heap (bd_lua s)) < n"
  shows "if derives (bd_env s) C T \<and> (const \<longrightarrow> want)
    then CppObject_get A n T i want (script_state s args) = ret (u_object (udatas (heap (bd_lua s)) u), script_state s args)
    else \<exists>msg. CppObject_get A n T i want (script_state s args) = throw msg"
proof -
  have "\<not> lua_isnone (script_state s args) i" using assms(4,5) by (simp add: lua_isnone_def script_state_arg)
  with casts [OF assms, of want True] show ?thesis by (auto simp: CppObject_get_def Let_def)
qed

lemma pointer_back:
  assumes r: "reach bind_start bind_en (bind_step A wrap) tr s" and C: "bd_env s C = Some c" and T: "bd_env s T = Some t"
    and d: "derives (bd_env s) C T" and dyn: "\<And>X. bd_env s X \<noteq> None \<Longrightarrow> dyn obj X \<longleftrightarrow> derives (bd_env s) C X"
    and n: "next_table (heap (bd_lua s)) < n" and T': "bd_env s T' = Some t'"
  shows "\<exists>L'. LuaType_push A dyn n (TyObj T const) (ObjV (Some obj)) (bd_lua s) = ret L' \<and>
    (if derives (bd_env s) C T' \<and> (const \<longrightarrow> want)
     then LuaType_get A n (TyObj T' want) (length (stack L')) L' = ret (ObjV (Some obj), L')
     else \<exists>msg. LuaType_get A n (TyObj T' want) (length (stack L')) L' = throw msg)"
proof -
  let ?u = "next_udata (heap (bd_lua s))"
  from n have "next_table (heap (bd_lua s)) \<le> n" by simp
  from pushed [where dyn = dyn and obj = obj and const = const, OF r C T d dyn this] obtain s'
    where step: "bind_step A wrap (NewObject C const obj) s = Done (Some (SUser ?u), s')"
    and push: "CppObjectPtr_pushToStack A dyn n T const obj (bd_lua s) = ret (push (SUser ?u) (bd_lua s'))"
    and s': "(?u, C, const) \<in> set (bd_objs s')" "u_object (udatas (heap (bd_lua s')) ?u) = obj" "bd_env s' = bd_env s"
      "next_table (heap (bd_lua s')) = next_table (heap (bd_lua s))" by (auto simp: Let_def)
  have "bind_en (NewObject C const obj) s" using C by simp
  from reach_step [OF r this step] have r': "reach bind_start bind_en (bind_step A wrap) (tr @ [(NewObject C const obj, Some (SUser ?u))]) s'" .
  define args where "args = rev (stack (bd_lua s')) @ [SUser ?u]"
  have args: "0 < length args" "args ! (length args - 1) = SUser ?u" by (simp_all add: args_def nth_append)
  have L': "push (SUser ?u) (bd_lua s') = script_state s' args" by (simp add: script_state_def push_def args_def)
  have T'': "bd_env s' T' = Some t'" and n': "next_table (heap (bd_lua s')) < n" using T' s'(3,4) n by simp_all
  from object_argument [OF r' s'(1) T'' args(1) order_refl args(2) n', of want]
  have "if derives (bd_env s) C T' \<and> (const \<longrightarrow> want)
    then CppObject_get A n T' (length args) want (script_state s' args) = ret (obj, script_state s' args)
    else \<exists>msg. CppObject_get A n T' (length args) want (script_state s' args) = throw msg" unfolding s'(2,3) .
  then show ?thesis using push by (auto simp: L' type_mappings)
qed

end


section \<open>The claims\<close>


lemma read_args_throw:
  "k < length ps \<Longrightarrow> spec_read A (ps ! k) (arg_place ps i k) (args (arg_place ps i k)) = throw msg \<Longrightarrow>
     (\<And>j. j < k \<Longrightarrow> \<exists>v. spec_read A (ps ! j) (arg_place ps i j) (args (arg_place ps i j)) = ret v) \<Longrightarrow>
     read_args A ps i args = throw msg"
proof (induction ps arbitrary: i k)
  case (Cons p ps)
  let ?i = "if isInput p then Suc i else i"
  show ?case
  proof (cases k)
    case 0
    with Cons.prems(2) show ?thesis by simp
  next
    case (Suc k')
    from Cons.prems(3) [of 0] Suc obtain v where "spec_read A p i (args i) = ret v" by auto
    moreover have "read_args A ps ?i args = throw msg"
    proof (rule Cons.IH)
      show "k' < length ps" "spec_read A (ps ! k') (arg_place ps ?i k') (args (arg_place ps ?i k')) = throw msg"
        using Cons.prems(1,2) Suc by simp_all
      show "\<exists>v. spec_read A (ps ! j) (arg_place ps ?i j) (args (arg_place ps ?i j)) = ret v" if "j < k'" for j
        using Cons.prems(3) [of "Suc j"] that Suc by simp
    qed
    ultimately show ?thesis by simp
  qed
qed simp

text \<open>
  An example: \<^verbatim>\<open>bool f(int a, lua_State*, int& b, std::string& c)\<close> with the specifications \<^verbatim>\<open>_def<int, 7, 2>\<close> for \<^verbatim>\<open>b\<close>, which is a
  result, too, and \<^verbatim>\<open>_out\<close> for \<^verbatim>\<open>c\<close>.
\<close>

definition demo_function :: cpp_function where
  "demo_function = \<lparr>fn_return = RetValue TyBool,
     fn_args = [ArgIn (TyInt True 32), ArgState, ArgRefDef (TyInt True 32) 7 2, ArgOut TyStr],
     fn_body = (\<lambda>vs mem L. case vs of
       [IntV a, StateV, IntV b, c] \<Rightarrow> ret (Inr \<lparr>br_returned = [BoolV (a < b)], br_args = [IntV a, StateV, IntV (a + b), StrV ''sum''],
         br_memory = mem, br_lua = L\<rparr>)
     | _ \<Rightarrow> Abort ''ill-typed'')\<rparr>"

definition demo_call :: "slot list \<Rightarrow> lua_State" where "demo_call args = bare_lua\<lparr>stack := rev args\<rparr>"

lemma demo_call_arg: "call_arg (demo_call args) i = (if 0 < i \<and> i \<le> length args then Some (args ! (i - 1)) else None)"
proof (cases "0 < i \<and> i \<le> length args")
  case True
  then have "0 < i" "i \<le> length args" by simp_all
  then show ?thesis by (simp add: demo_call_def stack_arg rev_nth)
qed (auto simp: demo_call_def stack_arg)



text \<open>
  A call with an argument that is not of its type, or is missing and has no default, ends in the error that names it, the first one from the
  left, and the body of the function does not run: the call ends in the same error whatever the body is.
\<close>

theorem bad_argument_stops_call:
  assumes "list_all plain_spec (fn_args f)" "k < length (fn_args f)"
    and "spec_read A (fn_args f ! k) (arg_place (fn_args f) i k) (call_arg L (arg_place (fn_args f) i k)) = throw msg"
    and "\<And>j. j < k \<Longrightarrow> \<exists>v. spec_read A (fn_args f ! j) (arg_place (fn_args f) i j) (call_arg L (arg_place (fn_args f) i j)) = ret v"
  shows "CppBindMethod_call A dyn n i (f\<lparr>fn_body := body\<rparr>) mem L = throw msg"
proof -
  from CppArgTupleInput_plain [OF assms(1), of L A n i] read_args_throw [OF assms(2-4)]
  have "CppArgTupleInput_get A n (fn_args f) i L = throw msg" by auto
  then show ?thesis by (simp add: CppBindMethod_call_def)
qed

theorem bad_argument_stops_call_witness:
  "CppBindMethod_call raw_api (\<lambda>obj X. False) 9 1 (demo_function\<lparr>fn_body := (\<lambda>vs mem L. Abort ''called'')\<rparr>) (\<lambda>obj m. IntV 0)
     (demo_call [SNum 5, SStr ''x'']) = throw ''number expected, got string''"
proof (rule bad_argument_stops_call [where k = 2])
  show "list_all plain_spec (fn_args demo_function)" "2 < length (fn_args demo_function)" by (simp_all add: demo_function_def plain_spec_def)
  show "spec_read raw_api (fn_args demo_function ! 2) (arg_place (fn_args demo_function) 1 2)
      (call_arg (demo_call [SNum 5, SStr ''x'']) (arg_place (fn_args demo_function) 1 2)) = throw ''number expected, got string''"
    by (simp add: demo_function_def arg_place_def spec_read_def type_read_def slot_checkinteger_def demo_call_arg raw_api_def decimal_int_def
        type_error_def arg_typename_def luaL_typename_def)
  show "\<exists>v. spec_read raw_api (fn_args demo_function ! j) (arg_place (fn_args demo_function) 1 j)
      (call_arg (demo_call [SNum 5, SStr ''x'']) (arg_place (fn_args demo_function) 1 j)) = ret v" if "j < 2" for j
    using less_2_cases [OF that] by (auto simp: demo_function_def spec_read_def type_read_def slot_checkinteger_def demo_call_arg)
qed

text \<open>
  C25: A method of a class \<^verbatim>\<open>T\<close> that a script calls with an object gets that object: if the class of the object derives from \<^verbatim>\<open>T\<close> and the method
  is const or the object is not, the body runs on the object that C++ has for the userdata, with the arguments that follow it.
  Otherwise the call is an error, and no body runs.
\<close>

theorem bound_method_call:
  assumes "raw_reads A" "reach bind_start bind_en (bind_step A wrap) tr s" "(u, C, const) \<in> set (bd_objs s)" "bd_env s T = Some t"
    and "next_table (heap (bd_lua s)) < n"
  shows "let L = script_state s (SUser u # args) in
    if derives (bd_env s) C T \<and> (const \<longrightarrow> is_const)
    then \<forall>body. CppBindClassMethod_call A dyn n T is_const f body mem L =
      CppBindMethod_call A dyn n 2 (f\<lparr>fn_body := body (u_object (udatas (heap (bd_lua s)) u))\<rparr>) mem L
    else \<exists>msg. \<forall>body. CppBindClassMethod_call A dyn n T is_const f body mem L = throw msg"
proof -
  have "binder_env A" by (rule binder_env.intro) (rule assms(1))
  from binder_env.object_argument [OF this assms(2-4), of 1 "SUser u # args" n is_const] assms(5)
  show ?thesis by (auto simp: CppBindClassMethod_call_def Let_def split: if_splits)
qed

theorem bound_method_call_witness:
  "\<exists>tr s. reach bind_start bind_en (bind_step raw_api (\<lambda>f. f)) tr s \<and> bd_env s = demo_classes \<and>
     CppBindClassMethod_call raw_api (\<lambda>obj X. X \<le> 1) 22 0 True demo_function (\<lambda>obj vs mem L. Abort ''called'') (\<lambda>obj m. IntV 0)
       (script_state s [SUser 3, SNum 5]) = Abort ''called'' \<and>
     (\<exists>msg. CppBindClassMethod_call raw_api (\<lambda>obj X. X \<le> 1) 22 0 False demo_function (\<lambda>obj vs mem L. Abort ''called'') (\<lambda>obj m. IntV 0)
       (script_state s [SUser 3, SNum 5]) = throw msg)"
proof -
  obtain tr s where r: "reach bind_start bind_en (bind_step raw_api (\<lambda>f. f)) tr s" and s: "demo_bound s" by (rule demo_bound_reach)
  note d = demo_boundD(1-3) [OF s] demo_boundD(5,7)
  have obj: "(3, 1, True) \<in> set (bd_objs s)" "bd_env s 0 = Some shape_class" "next_table (heap (bd_lua s)) < 22" using d by simp_all
  let ?L = "script_state s [SUser 3, SNum 5]"
  from bound_method_call [where dyn = "\<lambda>obj X. X \<le> 1" and f = demo_function and mem = "\<lambda>obj m. IntV 0",
      OF raw_api_reads r obj, of "[SNum 5]" False] d
  have bad: "\<exists>msg. CppBindClassMethod_call raw_api (\<lambda>obj X. X \<le> 1) 22 0 False demo_function (\<lambda>obj vs mem L. Abort ''called'') (\<lambda>obj m. IntV 0) ?L = throw msg"
    by (auto simp: Let_def)
  from bound_method_call [OF raw_api_reads r obj, of "[SNum 5]" True] d
  have "CppBindClassMethod_call raw_api (\<lambda>obj X. X \<le> 1) 22 0 True demo_function (\<lambda>obj vs mem L. Abort ''called'') (\<lambda>obj m. IntV 0) ?L =
      CppBindMethod_call raw_api (\<lambda>obj X. X \<le> 1) 22 2 (demo_function\<lparr>fn_body := (\<lambda>vs mem L. Abort ''called'')\<rparr>) (\<lambda>obj m. IntV 0) ?L"
    by (simp add: Let_def)
  also have "\<dots> = Abort ''called''"
  proof -
    have "list_all plain_spec (fn_args demo_function)" by (simp add: demo_function_def plain_spec_def)
    from CppArgTupleInput_plain [OF this, of ?L raw_api 22 2] obtain L'
      where "CppArgTupleInput_get raw_api 22 (fn_args demo_function) 2 ?L =
        bind_x (read_args raw_api (fn_args demo_function) 2 (call_arg ?L)) (\<lambda>vs. ret (vs, L'))" by blast
    moreover have "\<exists>vs. read_args raw_api (fn_args demo_function) 2 (call_arg ?L) = ret vs"
      by (simp add: demo_function_def spec_read_def type_read_def slot_checkinteger_def stack_arg)
    ultimately show ?thesis by (auto simp: CppBindMethod_call_def CppInvokeMethod_push_def)
  qed
  finally show ?thesis using r d(1) bad by blast
qed

text \<open>
  A pointer to an object of the class \<^verbatim>\<open>C\<close> that C++ hands to Lua as one to a base class \<^verbatim>\<open>T\<close> comes back as the same pointer wherever C++ wants
  an object of a class \<^verbatim>\<open>T'\<close>, if and only if \<^verbatim>\<open>C\<close> derives from \<^verbatim>\<open>T'\<close>, which may be below \<^verbatim>\<open>T\<close>, and constness allows it; anywhere else it is an error.
\<close>

theorem object_pointer_round_trip:
  assumes "raw_reads A" "reach bind_start bind_en (bind_step A wrap) tr s" "bd_env s C = Some c" "bd_env s T = Some t"
    and "derives (bd_env s) C T" "\<And>X. bd_env s X \<noteq> None \<Longrightarrow> dyn obj X \<longleftrightarrow> derives (bd_env s) C X" "next_table (heap (bd_lua s)) < n"
    and "bd_env s T' = Some t'"
  shows "\<exists>L'. LuaType_push A dyn n (TyObj T const) (ObjV (Some obj)) (bd_lua s) = ret L' \<and>
    (if derives (bd_env s) C T' \<and> (const \<longrightarrow> want)
     then LuaType_get A n (TyObj T' want) (length (stack L')) L' = ret (ObjV (Some obj), L')
     else \<exists>msg. LuaType_get A n (TyObj T' want) (length (stack L')) L' = throw msg)"
  by (rule binder_env.pointer_back [OF binder_env.intro, where dyn = dyn and obj = obj, OF assms])

theorem object_pointer_round_trip_witness:
  "\<exists>tr s L'. reach bind_start bind_en (bind_step raw_api (\<lambda>f. f)) tr s \<and> bd_env s = demo_classes \<and>
     LuaType_push raw_api (\<lambda>obj X. X \<le> 1) 22 (TyObj 0 True) (ObjV (Some 5)) (bd_lua s) = ret L' \<and>
     LuaType_get raw_api 22 (TyObj 1 True) (length (stack L')) L' = ret (ObjV (Some 5), L')"
proof -
  obtain tr s where r: "reach bind_start bind_en (bind_step raw_api (\<lambda>f. f)) tr s" and s: "demo_bound s" by (rule demo_bound_reach)
  note d = demo_boundD(1,3) [OF s] demo_boundD(5-7) derives_refl [of demo_classes 1]
  have dyn: "(\<lambda>obj X. X \<le> 1) (5::nat) X \<longleftrightarrow> derives (bd_env s) 1 X" if "bd_env s X \<noteq> None" for X
    using that d by (auto simp: demo_classes_def split: if_splits)
  have "bd_env s 1 = Some circle_class" "bd_env s 0 = Some shape_class" "derives (bd_env s) 1 0" "next_table (heap (bd_lua s)) < 22"
    using d by simp_all
  from object_pointer_round_trip [where dyn = "\<lambda>obj X. X \<le> 1" and obj = 5, OF raw_api_reads r this(1-3) dyn this(4,1), of True True] d
  have "\<exists>L'. LuaType_push raw_api (\<lambda>obj X. X \<le> 1) 22 (TyObj 0 True) (ObjV (Some 5)) (bd_lua s) = ret L' \<and>
     LuaType_get raw_api 22 (TyObj 1 True) (length (stack L')) L' = ret (ObjV (Some 5), L')" by (simp del: LuaType_push.simps LuaType_get.simps)
  with r d(1) show ?thesis by blast
qed

end
