(* ===== verification/Spec2Isabelle.thy ===== *)
theory Spec2Isabelle
  imports Client_Async_Writer Client_Async_RdWr Service_Stub Server_Writer Server_Reader Server_Replier
    Server_Core String_Ref Pb_Intf Lua_Service End_To_End Lua_End_To_End Net
    Lua_Iteration Class_Programs Lua_Call_Laws
begin

text \<open>
  \<^verbatim>\<open>grpc-lua\<close>: gRPC for Lua 5.3. The sources have three layers, which this development follows.

  \<^verbatim>\<open>src/lua-grpc/core\<close> is a C++ library on top of gRPC's C core: calls on the client and on the server,
  streams of messages in both directions, completion queues. \<^verbatim>\<open>src/lua-grpc/lua, pb, net\<close> present it to Lua,
  together with a converter between Lua tables and protobuf messages. \<^verbatim>\<open>src/lua-intf\<close> is the binding
  library they use. \<^verbatim>\<open>src/grpc\<close> holds Lua modules on top.

  \<^verbatim>\<open>Conventions.\<close> Code that can fail an \<^verbatim>\<open>assert\<close> yields an \<open>outcome\<close> (theory \<open>Prelude\<close>): the makefile leaves
  assertions on, so a failed one ends the process, which is \<open>Abort why\<close>. Undefined behaviour (a null pointer
  followed, \<open>pop\<close> of an empty queue) ends in \<open>Abort\<close>, too. Lua errors are C++ exceptions in the sources; they
  are the left side of a sum inside an \<open>outcome\<close> (\<open>ret\<close>, \<open>bind_x\<close> in \<open>Lua_Values\<close>). A class is a record with
  a prefix of its own (\<open>caw_\<close>, \<open>car_\<close>, \<open>carw_\<close>, \<open>sw_\<close>, \<open>sr_\<close>, \<open>rp_\<close>, \<open>sv_\<close>), its methods are definitions named
  \<open>Class_Method\<close> that pass the record on. The classes are guarded by a mutex; a component is therefore a machine
  that makes one call or completion at a time (\<open>Machine\<close>): a start predicate, the events enabled in
  a state, a step function; \<open>reach\<close> collects its runs, \<open>exec\<close> evaluates one. The log fields
  (\<open>call_batches\<close>, \<open>car_log\<close>, \<open>sr_log\<close> and so on) record what has been handed to gRPC and which callbacks ran. Machine
  integers are words: \<open>size_t\<close> is \<open>64 word\<close>, protobuf's integers have 32 or 64 bits. Callbacks that call back
  into the object they come from are part of the model where the recursive mutex allows them (\<open>carw_\<close> with its
  \<open>carw_callbacks\<close>); the safety of that class is stated for callbacks that do not.

  \<^verbatim>\<open>Parts, in the order of their theories.\<close>

  \<open>Grpc_Status\<close> (\<^verbatim>\<open>core/common/status.*\<close>), \<open>Call_Ops\<close> (\<^verbatim>\<open>core/common/impl/call_op*, call.*, slice.h,
  byte_buffer_to_string.cpp\<close>), \<open>Cq_Tags\<close> (\<^verbatim>\<open>core/*/impl/cqtag\<close>) and \<open>Completion_Queue\<close>
  (\<^verbatim>\<open>completion_queue*, run.cpp, do_next_completion.cpp\<close>): statuses, the batches that tags start on a call, the loop
  that takes completions from the queue. A call keeps its pending batches; gRPC itself is the record
  \<open>'buf grpc_lib\<close>, of which \<open>buffers_faithful\<close> says that reading a buffer back gives the string it was made of. \<open>takes\<close>
  says that gRPC accepts a batch. The event loop may run forever: \<open>Run\<close> is a \<open>partial_function (option)\<close>, and no
  theorem says that it returns.

  \<open>Client_Async_Writer\<close>, \<open>Client_Async_Reader\<close>, \<open>Client_Async_RdWr\<close>, \<open>Client_Sync\<close>, \<open>Service_Stub\<close>
  (\<^verbatim>\<open>core/client\<close>): the client's ends of streams, asynchronous and blocking, and unary requests. \<open>Server_Writer\<close>,
  \<open>Server_Reader\<close>, \<open>Server_Replier\<close>, \<open>Server_Core\<close> (\<^verbatim>\<open>core/server\<close>): the server's ends, registration and dispatch of
  methods. For each: which assertions can fail and when, queued messages leave in the order of acceptance (\<open>*_fifo\<close>), messages
  and final callbacks arrive once and in order (\<open>car_delivery\<close>, \<open>caw_close_cb_once\<close>,
  \<open>sr_protocol\<close>), the status of a server's stream is its last batch (\<open>sw_status_last\<close>), what was started comes to an end
  (\<open>caw_drains\<close>, \<open>sw_sync_write_returns\<close>). Two assertions do fail: \<open>caw_never_aborts\<close> singles out the completion of a close with status OK and no
  response, \<open>carw_safe\<close> the destruction of a reader-writer that never read. What \<open>carw_safe\<close> says of calls and completions
  needs a status callback that leaves the object alone; \<open>carw_status_cb_twice\<close> and \<open>carw_write_in_status_cb_aborts\<close> are
  runs with others. \<open>Reader_Refusal\<close> is about message callbacks
  that answer with an error. \<open>End_To_End\<close> puts a client's and a server's end together: what the handler or
  the callback gets is a prefix of what was written.

  \<open>String_Ref\<close> (\<^verbatim>\<open>core/common/impl/string_ref.*\<close>): the string view, against lists of characters.

  \<open>Binary64\<close>: the operations on \<^verbatim>\<open>double\<close> that the sources use, on the bit level. \<open>Lua_Values\<close>: Lua values and the
  conversions of \<^verbatim>\<open>lua-intf\<close> for them. \<open>Lua_Machine\<close>: the Lua machine as the record \<open>('r, 'v) lua_vm\<close>, references
  and calls being its parameters.

  \<open>Pb_Reflection\<close>, \<open>Pb_Setter\<close>, \<open>Pb_Table\<close>, \<open>Pb_Intf\<close> (\<^verbatim>\<open>pb\<close>): protobuf's reflection as the record
  \<open>('m, 'f) protobuf\<close>, the converters, and the module with its importer. \<open>reflection_ok\<close>, \<open>importer_ok\<close>,
  \<open>parse_ok\<close> and \<open>wire_ok\<close> state what is used of protobuf, and \<open>Pb_Dynamic\<close> gives an implementation for
  every schema that satisfies them. \<open>wire_ok\<close> leaves out what protobuf does not promise: a string may be refused (text that is
  not UTF-8, deep nesting), a serialisation may fail. Encoding a finite table never aborts, rejects what it cannot represent, sets
  each field with a value of the field's type; decoding, when protobuf accepts the string, gives back what was encoded.
  Lua tables are finite trees here (\<open>lua\<close>): the setter does not end on a table that contains itself.

  \<open>Lua_Service\<close> (\<^verbatim>\<open>lua/server/impl\<close>), \<open>Lua_Client\<close> (\<^verbatim>\<open>lua/common, lua/client/impl\<close>), \<open>Lua_Client_Classes\<close> (\<^verbatim>\<open>lua/client\<close>),
  \<open>Lua_Server_Classes\<close> (\<^verbatim>\<open>lua/server\<close>), \<open>Lua_End_To_End\<close>: services and callbacks written in Lua, and
  the classes scripts see. \<open>Net\<close> (\<^verbatim>\<open>net\<close>): addresses of the host.

  \<^verbatim>\<open>lua-intf\<close> itself. \<open>Lua_Stack\<close>: a Lua state with its stack, its registry and a heap of tables and userdata, with what the Lua manual
  says of the functions that only move values; accesses that may run metamethods or scripts, the choice of reference numbers and
  the order of traversals are parameters (\<open>lua_api\<close>). \<open>Lua_Ref\<close> (\<^verbatim>\<open>LuaRef.h, LuaRef.cpp\<close>): the handles \<^verbatim>\<open>LuaRef\<close>, \<^verbatim>\<open>LuaTableRef\<close> and
  \<^verbatim>\<open>LuaTableIterator\<close>. \<open>Lua_Handles\<close>: programs over handles as a machine, in which every entry of the registry has one owner;
  \<open>Lua_Iteration\<close>: the loop over a table. \<open>Lua_Class\<close> (\<^verbatim>\<open>CppBindClass.cpp, CppBindModule.cpp, CppObject.*\<close>): the metamethods for fields and the
  casts, as they work through the stack. \<open>Lua_Binding\<close> (\<^verbatim>\<open>CppBindClass.*, CppBindModule.*\<close>): how a binding builds the metatables, with the lists of
  downcasts. \<open>Lua_Class_Laws\<close>: what the metamethods do on well-formed metatables (\<open>wf\<close>), against searches along the base classes.
  \<open>Lua_Types\<close> (\<^verbatim>\<open>LuaType.h\<close>, the end of \<^verbatim>\<open>CppObject.h\<close>): how values of C++ types are read from the stack and pushed. \<open>Lua_Call\<close>
  (\<^verbatim>\<open>CppArg.h, CppInvoke.h, CppBindModule.h, CppBindClass.h\<close>): the functions that Lua calls, which unpack the arguments of a C++ function and
  push its results; the function's body is a parameter. \<open>Lua_Call_Laws\<close>: each argument is read at its own place, values survive
  the way to Lua and back, methods run on the object that the script has.
  \<open>Lua_Binder\<close> and \<open>Lua_Downcast\<close>: every operation of a binding keeps the metatables well-formed. \<open>Class_Programs\<close>: programs that declare
  modules and classes in any order within the rules of \<open>bind_en\<close>, as a machine, and what scripts then find in objects.

  \<^verbatim>\<open>Interfaces.\<close> \<open>safe_machine\<close> (an invariant that every step keeps, no step aborts), \<open>fifo_sender\<close> and
  \<open>draining\<close> extend it; they are interpreted as \<open>caw\<close>, \<open>caw_drain\<close>, \<open>car\<close>, \<open>carw\<close>, \<open>csrw\<close>, \<open>csw\<close>, \<open>sw\<close> and \<open>ac\<close>.
  \<open>reader_handler\<close> is what a \<open>ServerReader\<close> expects of the class derived from it: \<open>base_reader\<close> interprets it for
  the methods of the base class, and \<open>lua_reader\<close> yields it for handlers written in Lua. \<open>service_contract\<close> is what the server expects of
  a \<open>Service\<close>, \<open>server_env\<close> adds gRPC's server; \<open>lua_service_env\<close> yields the contract for a service written in Lua.
  \<open>lua_callbacks\<close> is what the client's callbacks need of their functions. \<open>handle_env\<close> is a Lua state in which accesses return and
  reference numbers are free ones (\<open>accesses_return\<close>, \<open>refs_ok\<close>), interpreted as \<open>demo_handles\<close> on Lua 5.3's way of numbering. \<open>binder_env\<close> is a Lua state whose accesses do what the
  manual says of tables that have the key (\<open>raw_reads\<close>), interpreted as \<open>raw_binding\<close>; both extend \<open>safe_machine\<close>. \<open>order_ok\<close> says that a traversal
  lists the keys that are there, each once.

  \<^verbatim>\<open>Fuel.\<close> The loops along base classes and the search through the downcasts take the number of tables as fuel; a base class has lower tables
  than the classes that extend it, so that it is enough (\<open>index_finds\<close>, \<open>getObject_cases\<close>, \<open>findClassID_finds\<close>). \<open>ToTbl\<close> recurses into submessages without a bound in the code; its fuel is the depth of nesting, and
  \<open>ToTbl_enough_fuel\<close> gives the number for a finitely nested message (\<open>finitely_nested\<close>), which every parsed message
  is. The blocking writes of the server wait on a condition variable; \<open>sw_wait\<close> takes the completions that arrive meanwhile
  as a list and is \<open>None\<close> if they do not suffice; \<open>sw_sync_write_returns\<close> says when they do.

  \<^verbatim>\<open>Not modelled.\<close> gRPC, protobuf and the Lua interpreter are parameters. Threads: interleavings inside a locked
  region do not exist, the exception is the replier, which takes no lock and whose two accesses are separate
  steps; \<^verbatim>\<open>Server::ThreadRun\<close> is never started, and the thread of \<^verbatim>\<open>ServiceStub::SetStatusChangeCb\<close> is modelled by what it
  observes. Copyable handles that only forward to a shared object (\<^verbatim>\<open>ClientAsyncWriter\<close>, \<^verbatim>\<open>ServerReplier\<close> and so on) have no
  state of their own. \<^verbatim>\<open>core/common/support\<close> (\<^verbatim>\<open>config.h\<close>, \<^verbatim>\<open>time.h\<close>, \<^verbatim>\<open>grpc_library.h\<close>) configures the library and initialises gRPC.
  TLS credentials are passed through to gRPC. The Lua modules under \<^verbatim>\<open>src/grpc\<close> are not C++. In \<^verbatim>\<open>lua-intf\<close>: \<^verbatim>\<open>LuaState.h\<close> and \<^verbatim>\<open>LuaContext.h\<close>
  rename functions of the Lua API; \<^verbatim>\<open>LuaCompat\<close> replaces functions that older versions of Lua lack; \<^verbatim>\<open>QtLuaIntf\<close> converts types of Qt and is
  not built; \<^verbatim>\<open>CppFunction.*\<close> wraps a \<^verbatim>\<open>std::function\<close>; of the type mappings, floating-point types, containers and objects by value; of \<^verbatim>\<open>LuaRef\<close>, comparisons and calls are left to
  Lua's metamethods.
\<close>

end
